(* ===== verification/Soriham_Prelude.thy ===== *)
theory Soriham_Prelude
  imports Complex_Main
begin

text \<open>
  Shared vocabulary of the development: time, results that may be an exception,
  and database tables. A table is the list of its rows in primary-key order
  together with the next value of its identity column. The selects of the program
  are \<^theory_text>\<open>find\<close> and \<^theory_text>\<open>filter\<close> over the rows, its bulk updates and
  deletes are the functions below. The locale \<open>identity_table\<close> is the contract of
  a table with an identity column; each row type of \<open>Models\<close> interprets it.
\<close>

named_theorems time_defs "the units of time, unfolded to microseconds"
named_theorems table_defs "the operations on tables, unfolded to lists"

subsection \<open>Time\<close>

text \<open>A timezone-aware datetime is a number of microseconds since the epoch (UTC);
  a timedelta is a number of microseconds.\<close>

type_synonym time = int
type_synonym uuid = nat

definition seconds :: "int \<Rightarrow> time" where
  [time_defs]: "seconds n = n * 1000000"

definition minutes :: "int \<Rightarrow> time" where
  [time_defs]: "minutes n = seconds (60 * n)"

definition hours :: "int \<Rightarrow> time" where
  [time_defs]: "hours n = minutes (60 * n)"

definition days :: "int \<Rightarrow> time" where
  [time_defs]: "days n = hours (24 * n)"

subsection \<open>Results that may be an exception\<close>

type_synonym ('e, 'a) result = "'e + 'a"

fun is_ok :: "('e, 'a) result \<Rightarrow> bool" where
  "is_ok (Inl _) = False"
| "is_ok (Inr _) = True"

lemma is_ok_iff: "is_ok r \<longleftrightarrow> (\<exists>x. r = Inr x)"
  by (cases r) auto

text \<open>A step and what follows when it does not raise.\<close>

fun and_then :: "('e, 'a) result \<Rightarrow> ('a \<Rightarrow> ('e, 'b) result) \<Rightarrow> ('e, 'b) result" where
  "and_then (Inl e) f = Inl e"
| "and_then (Inr x) f = f x"

lemma and_then_Inr: "and_then m f = Inr y \<longleftrightarrow> (\<exists>x. m = Inr x \<and> f x = Inr y)"
  by (cases m) auto

subsection \<open>Tables\<close>

record 'a table =
  rows :: "'a list"
  next_id :: nat

definition empty_table :: "'a table" where
  "empty_table = \<lparr>rows = [], next_id = 1\<rparr>"

text \<open>\<open>session.scalar(select(T).where(P))\<close>: the first matching row or nothing.\<close>

definition scalar :: "('a \<Rightarrow> bool) \<Rightarrow> 'a table \<Rightarrow> 'a option" where
  [table_defs]: "scalar P t = find P (rows t)"

definition select :: "('a \<Rightarrow> bool) \<Rightarrow> 'a table \<Rightarrow> 'a list" where
  [table_defs]: "select P t = filter P (rows t)"

text \<open>\<open>session.add(row); session.flush()\<close>: the row gets the next identity value.\<close>

definition insert_row :: "(nat \<Rightarrow> 'a \<Rightarrow> 'a) \<Rightarrow> 'a \<Rightarrow> 'a table \<Rightarrow> 'a table" where
  [table_defs]: "insert_row set_key r t =
     t\<lparr>rows := rows t @ [set_key (next_id t) r], next_id := Suc (next_id t)\<rparr>"

definition update_where :: "('a \<Rightarrow> bool) \<Rightarrow> ('a \<Rightarrow> 'a) \<Rightarrow> 'a table \<Rightarrow> 'a table" where
  [table_defs]: "update_where P f t = t\<lparr>rows := map (\<lambda>r. if P r then f r else r) (rows t)\<rparr>"

definition delete_where :: "('a \<Rightarrow> bool) \<Rightarrow> 'a table \<Rightarrow> 'a table" where
  [table_defs]: "delete_where P t = t\<lparr>rows := filter (\<lambda>r. \<not> P r) (rows t)\<rparr>"

text \<open>The primary key: unique, and below the next identity value.\<close>

definition table_ok :: "('a \<Rightarrow> nat) \<Rightarrow> 'a table \<Rightarrow> bool" where
  "table_ok key t \<longleftrightarrow> distinct (map key (rows t)) \<and> (\<forall>r\<in>set (rows t). key r < next_id t)"

definition by_id :: "('a \<Rightarrow> nat) \<Rightarrow> nat \<Rightarrow> 'a table \<Rightarrow> 'a option" where
  "by_id key i t = scalar (\<lambda>r. key r = i) t"

lemma rows_insert_row [simp]:
  "rows (insert_row sk r t) = rows t @ [sk (next_id t) r]"
  by (simp add: insert_row_def)

lemma rows_update_where [simp]:
  "rows (update_where P f t) = map (\<lambda>r. if P r then f r else r) (rows t)"
  by (simp add: update_where_def)

lemma rows_delete_where [simp]:
  "rows (delete_where P t) = filter (\<lambda>r. \<not> P r) (rows t)"
  by (simp add: delete_where_def)

lemma next_id_ops [simp]:
  "next_id (insert_row sk r t) = Suc (next_id t)"
  "next_id (update_where P f t) = next_id t"
  "next_id (delete_where P t) = next_id t"
  by (simp_all add: table_defs)

lemma rows_empty [simp]: "rows empty_table = []"
  by (simp add: empty_table_def)

lemma find_SomeD: "find P xs = Some r \<Longrightarrow> r \<in> set xs \<and> P r"
  by (auto simp: find_Some_iff)

lemma scalar_Some: "scalar P t = Some r \<Longrightarrow> r \<in> set (rows t) \<and> P r"
  by (auto simp: scalar_def find_Some_iff)

lemma scalar_None: "scalar P t = None \<longleftrightarrow> (\<forall>r\<in>set (rows t). \<not> P r)"
  by (auto simp: scalar_def find_None_iff)

lemma scalar_ex: "scalar P t \<noteq> None \<longleftrightarrow> (\<exists>r\<in>set (rows t). P r)"
  by (auto simp: scalar_None)

lemma find_append: "find P (xs @ ys) = (case find P xs of None \<Rightarrow> find P ys | Some x \<Rightarrow> Some x)"
  by (induction xs) auto

lemma find_map_if:
  assumes same: "\<And>r. P (g r) = P r"
  shows "find P (map g xs) = map_option g (find P xs)"
proof (induction xs)
  case Nil
  show ?case by simp
next
  case (Cons x xs)
  have "P (g x) = P x" by (rule same)
  with Cons show ?case by simp
qed

lemma find_unique:
  assumes "r \<in> set xs" "P r" and uniq: "\<And>s. s \<in> set xs \<Longrightarrow> P s \<Longrightarrow> s = r"
  shows "find P xs = Some r"
proof (cases "find P xs")
  case None
  with assms(1,2) show ?thesis by (simp add: find_None_iff)
next
  case (Some s)
  then have "s \<in> set xs" "P s" by (auto simp: find_Some_iff)
  with uniq Some show ?thesis by blast
qed

text \<open>A filter after an update that the filter's predicate does not see, and the
  key list of an update that keeps keys: the two rewrites behind most frame facts.\<close>

lemma map_key_update:
  assumes "\<And>r. key (f r) = key r"
  shows "map key (map (\<lambda>r. if P r then f r else r) xs) = map key xs"
  using assms by (induction xs) auto

lemma distinct_map_filter_append:
  "distinct (map f (filter P (xs @ [x]))) \<longleftrightarrow>
     distinct (map f (filter P xs)) \<and> (P x \<longrightarrow> f x \<notin> f ` set (filter P xs))"
  by auto

lemma distinct_map_filter_mono:
  "distinct (map f (filter P xs)) \<Longrightarrow> (\<And>x. Q x \<Longrightarrow> P x) \<Longrightarrow> distinct (map f (filter Q xs))"
  by (induction xs) (auto split: if_splits)

lemma distinct_map_filter_filter:
  "distinct (map f (filter P xs)) \<Longrightarrow> distinct (map f (filter P (filter Q xs)))"
  by (induction xs) (auto split: if_splits)

lemma filter_map_if_same:
  assumes same: "\<And>r. P (g r) = P r"
  shows "filter P (map g xs) = map g (filter P xs)"
  by (simp add: filter_map comp_def same)

text \<open>An injective column: two rows that agree on it are the same row.\<close>

lemma distinct_map_eqD:
  "distinct (map f xs) \<Longrightarrow> x \<in> set xs \<Longrightarrow> y \<in> set xs \<Longrightarrow> f x = f y \<Longrightarrow> x = y"
  by (metis distinct_map inj_onD)

lemma distinct_filter_eqD:
  "distinct (map f (filter P xs)) \<Longrightarrow> x \<in> set xs \<Longrightarrow> y \<in> set xs \<Longrightarrow> P x \<Longrightarrow> P y \<Longrightarrow>
     f x = f y \<Longrightarrow> x = y"
  by (rule distinct_map_eqD [of f "filter P xs"]) auto

text \<open>A partial unique index, row by row.\<close>

lemma distinct_filter_iff:
  "distinct xs \<Longrightarrow> distinct (map f (filter P xs)) \<longleftrightarrow>
     (\<forall>x\<in>set xs. \<forall>y\<in>set xs. P x \<longrightarrow> P y \<longrightarrow> f x = f y \<longrightarrow> x = y)"
  by (auto simp: distinct_map inj_on_def)

lemma distinct_keys: "distinct (map f xs) \<Longrightarrow> distinct xs"
  by (simp add: distinct_map)

lemma distinct_map_inj_on: "distinct (map f xs) \<longleftrightarrow> distinct xs \<and> inj_on f (set xs)"
  by (rule distinct_map)

subsection \<open>The contract of an identity column\<close>

locale identity_table =
  fixes key :: "'a \<Rightarrow> nat"
    and set_key :: "nat \<Rightarrow> 'a \<Rightarrow> 'a"
  assumes key_set_key [simp]: "key (set_key i r) = i"
begin

lemma empty_ok: "table_ok key empty_table"
  by (simp add: table_ok_def)

lemma insert_ok: "table_ok key t \<Longrightarrow> table_ok key (insert_row set_key r t)"
  by (auto simp: table_ok_def less_Suc_eq)

lemma delete_ok: "table_ok key t \<Longrightarrow> table_ok key (delete_where P t)"
  by (auto simp: table_ok_def distinct_map inj_on_def)

lemma update_ok:
  assumes "table_ok key t" and "\<And>r. key (f r) = key r"
  shows "table_ok key (update_where P f t)"
proof -
  have "map key (rows (update_where P f t)) = map key (rows t)"
    using assms(2) by (induction "rows t") auto
  moreover have "\<forall>r\<in>set (rows (update_where P f t)). key r < next_id (update_where P f t)"
    using assms by (auto simp: table_ok_def)
  ultimately show ?thesis
    using assms(1) by (simp only: table_ok_def)
qed

lemma by_id_member:
  assumes "table_ok key t" and "r \<in> set (rows t)"
  shows "by_id key (key r) t = Some r"
  using assms unfolding by_id_def scalar_def table_ok_def
  by (intro find_unique) (auto dest: distinct_map_eqD)

lemma by_id_SomeD: "by_id key i t = Some r \<Longrightarrow> r \<in> set (rows t) \<and> key r = i"
  unfolding by_id_def by (drule scalar_Some) simp

lemma same_key: "table_ok key t \<Longrightarrow> r \<in> set (rows t) \<Longrightarrow> s \<in> set (rows t) \<Longrightarrow>
    key r = key s \<Longrightarrow> r = s"
  unfolding table_ok_def by (blast dest: distinct_map_eqD)

lemma fresh_key: "table_ok key t \<Longrightarrow> r \<in> set (rows t) \<Longrightarrow> key r \<noteq> next_id t"
  by (auto simp: table_ok_def)

lemma by_id_insert_new:
  assumes "table_ok key t"
  shows "by_id key (next_id t) (insert_row set_key r t) = Some (set_key (next_id t) r)"
proof -
  have "find (\<lambda>r. key r = next_id t) (rows t) = None"
    using assms by (auto simp: find_None_iff table_ok_def)
  then show ?thesis by (simp add: by_id_def scalar_def find_append)
qed

lemma by_id_insert_old:
  assumes "by_id key i t = Some s"
  shows "by_id key i (insert_row set_key r t) = Some s"
  using assms by (simp add: by_id_def scalar_def find_append)

lemma by_id_update:
  assumes "\<And>r. key (f r) = key r"
  shows "by_id key i (update_where P f t) = map_option (\<lambda>r. if P r then f r else r) (by_id key i t)"
proof -
  have "key (if P r then f r else r) = key r" for r by (simp add: assms)
  then show ?thesis
    unfolding by_id_def scalar_def rows_update_where by (intro find_map_if) simp
qed

lemma by_id_delete_other:
  assumes "table_ok key t" and "by_id key i t = Some r" and "\<not> P r"
  shows "by_id key i (delete_where P t) = Some r"
proof -
  from by_id_SomeD [OF assms(2)] have r: "r \<in> set (rows t)" "key r = i" by auto
  with assms(3) have "r \<in> set (rows (delete_where P t))" by simp
  with by_id_member [OF delete_ok [OF assms(1)]] r(2) show ?thesis by blast
qed

end

end
