(* ===== verification/Py_Strings.thy ===== *)
theory Py_Strings
  imports Soriham_Prelude
begin

text \<open>
  The string operations of Python that the program uses. A string is a list of
  characters and a character is a code point below 256 (Latin-1), so
  \<open>str.strip\<close>, \<open>str.lower\<close> and the regular-expression class of white space are
  given exactly on that range. Code points above 255 are outside the model.
\<close>

subsection \<open>Characters\<close>

definition code :: "char \<Rightarrow> nat" where
  "code c = of_char c"

definition py_space :: "char \<Rightarrow> bool" where
  "py_space c \<longleftrightarrow>
     (let n = code c in (9 \<le> n \<and> n \<le> 13) \<or> (28 \<le> n \<and> n \<le> 32) \<or> n = 133 \<or> n = 160)"

definition py_upper :: "char \<Rightarrow> bool" where
  "py_upper c \<longleftrightarrow>
     (let n = code c in (65 \<le> n \<and> n \<le> 90) \<or> (192 \<le> n \<and> n \<le> 222 \<and> n \<noteq> 215))"

definition lower_char :: "char \<Rightarrow> char" where
  "lower_char c = (if py_upper c then char_of (code c + 32) else c)"

lemma code_char_of [simp]: "n < 256 \<Longrightarrow> code (char_of n) = n"
  by (simp add: code_def)

lemma code_bound: "code c < 256"
proof -
  have "of_char c < (256 :: nat)" by (rule nat_of_char_less_256)
  then show ?thesis by (simp add: code_def)
qed

lemma code_inject: "code c = code d \<longleftrightarrow> c = d"
  by (simp add: code_def)

lemma code_lower_char: "code (lower_char c) = (if py_upper c then code c + 32 else code c)"
  using code_bound [of c] by (auto simp: lower_char_def py_upper_def Let_def)

lemma not_upper_lower_char: "\<not> py_upper (lower_char c)"
  using code_lower_char [of c] by (auto simp: py_upper_def Let_def split: if_splits)

lemma lower_char_idem [simp]: "lower_char (lower_char c) = lower_char c"
  using not_upper_lower_char [of c] by (simp add: lower_char_def [of "lower_char c"])

lemma py_space_lower_char [simp]: "py_space (lower_char c) = py_space c"
  using code_lower_char [of c] by (auto simp: py_space_def py_upper_def Let_def split: if_splits)

subsection \<open>Strings\<close>

definition str_lower :: "string \<Rightarrow> string" where
  "str_lower s = map lower_char s"

definition str_lstrip :: "string \<Rightarrow> string" where
  "str_lstrip s = dropWhile py_space s"

definition str_strip :: "string \<Rightarrow> string" where
  "str_strip s = rev (dropWhile py_space (rev (dropWhile py_space s)))"

text \<open>\<open>s.split(c)[0]\<close>\<close>

definition str_before :: "char \<Rightarrow> string \<Rightarrow> string" where
  "str_before c s = takeWhile (\<lambda>x. x \<noteq> c) s"

definition is_prefix :: "string \<Rightarrow> string \<Rightarrow> bool" where
  "is_prefix p s \<longleftrightarrow> take (length p) s = p"

lemma is_prefix_append [simp]: "is_prefix p (p @ s)"
  by (simp add: is_prefix_def)

lemma is_prefix_iff: "is_prefix p s \<longleftrightarrow> (\<exists>t. s = p @ t)"
  by (metis append_take_drop_id is_prefix_append is_prefix_def)

lemma str_lower_idem [simp]: "str_lower (str_lower s) = str_lower s"
  by (simp add: str_lower_def comp_def)

lemma dropWhile_space_lower: "dropWhile py_space (map lower_char s) = map lower_char (dropWhile py_space s)"
  by (induction s) auto

lemma str_strip_lower: "str_strip (str_lower s) = str_lower (str_strip s)"
proof -
  have "rev (map lower_char t) = map lower_char (rev t)" for t by (rule rev_map)
  then show ?thesis
    by (simp only: str_strip_def str_lower_def dropWhile_space_lower)
qed

lemma dropWhile_hd: "dropWhile P s = [] \<or> \<not> P (hd (dropWhile P s))"
  using hd_dropWhile [of P s] by blast

lemma dropWhile_id: "(s = [] \<or> \<not> P (hd s)) \<Longrightarrow> dropWhile P s = s"
  by (cases s) auto

text \<open>A string that \<open>strip\<close> leaves alone: no white space at either end.\<close>

definition stripped :: "string \<Rightarrow> bool" where
  "stripped s \<longleftrightarrow> s = [] \<or> (\<not> py_space (hd s) \<and> \<not> py_space (last s))"

lemma str_strip_id: "stripped s \<Longrightarrow> str_strip s = s"
  by (auto simp: str_strip_def stripped_def dropWhile_id hd_rev)

lemma hd_dropWhile_rev:
  assumes "s = [] \<or> \<not> P (hd s)" and "dropWhile P (rev s) \<noteq> []"
  shows "last (dropWhile P (rev s)) = hd s"
proof -
  have "s \<noteq> []" using assms(2) by auto
  have "rev s = takeWhile P (rev s) @ dropWhile P (rev s)" by simp
  then have "last (dropWhile P (rev s)) = last (rev s)" using assms(2) by (metis last_appendR)
  with \<open>s \<noteq> []\<close> show ?thesis by (simp add: last_rev)
qed

lemma stripped_strip [simp]: "stripped (str_strip s)"
proof (cases "str_strip s = []")
  case False
  let ?l = "dropWhile py_space s"
  let ?r = "dropWhile py_space (rev ?l)"
  have ne: "?r \<noteq> []" using False by (simp add: str_strip_def)
  then have "\<not> py_space (hd ?r)" using hd_dropWhile [of py_space "rev ?l"] by blast
  moreover have "last ?r = hd ?l"
    using dropWhile_hd [of py_space s] ne by (intro hd_dropWhile_rev) auto
  moreover have "?l \<noteq> []"
  proof
    assume "?l = []"
    then have "?r = []" by (simp only: rev.simps dropWhile.simps)
    with ne show False by blast
  qed
  then have "\<not> py_space (hd ?l)" using hd_dropWhile [of py_space s] by blast
  ultimately show ?thesis
    using ne by (simp add: stripped_def str_strip_def hd_rev last_rev)
qed (simp add: stripped_def)

lemma str_strip_idem [simp]: "str_strip (str_strip s) = str_strip s"
  by (rule str_strip_id) (rule stripped_strip)

end
