(* ===== verification/Models.thy ===== *)
theory Models
  imports Py_Strings
begin

text \<open>
  The data model of \<open>models.py\<close>: one record per table, one datatype per closed set
  of column values, the database as the record of its tables, and the constraints that
  \<open>__table_args__\<close> declares (unique indexes, partial unique indexes, CHECKs) as
  executable predicates. A \<open>float\<close> column is a rational number; a JSONB column keeps
  the difference between SQL NULL and JSON null.
\<close>

subsection \<open>Closed sets of values\<close>

datatype recording_status =
  Pending | Transcribing | Diarizing | Enriching | Summarizing | Done | Error | Missing
  | Duplicate | QuotaBlocked

datatype recording_source = Upload | Scan

datatype user_status = UPending | UActive | URejected | UDisabled

datatype workspace_kind = Personal | Team

datatype workspace_role = Owner | Admin | Member | Viewer

datatype share_permission = ShareView | ShareEdit

datatype segment_kind = Speech | Noise

text \<open>The stored spelling of each value, and the membership tests \<open>x in VALUES\<close> of a
  string that came from outside.\<close>

fun role_name :: "workspace_role \<Rightarrow> string" where
  "role_name Owner = ''owner''"
| "role_name Admin = ''admin''"
| "role_name Member = ''member''"
| "role_name Viewer = ''viewer''"

definition WORKSPACE_ROLES :: "workspace_role list" where
  "WORKSPACE_ROLES = [Owner, Admin, Member, Viewer]"

definition role_of :: "string \<Rightarrow> workspace_role option" where
  "role_of s = find (\<lambda>r. role_name r = s) WORKSPACE_ROLES"

fun share_name :: "share_permission \<Rightarrow> string" where
  "share_name ShareView = ''view''"
| "share_name ShareEdit = ''edit''"

definition SHARE_PERMISSIONS :: "share_permission list" where
  "SHARE_PERMISSIONS = [ShareView, ShareEdit]"

definition share_of :: "string \<Rightarrow> share_permission option" where
  "share_of s = find (\<lambda>p. share_name p = s) SHARE_PERMISSIONS"

fun user_status_name :: "user_status \<Rightarrow> string" where
  "user_status_name UPending = ''pending''"
| "user_status_name UActive = ''active''"
| "user_status_name URejected = ''rejected''"
| "user_status_name UDisabled = ''disabled''"

definition USER_STATUSES :: "user_status list" where
  "USER_STATUSES = [UPending, UActive, URejected, UDisabled]"

definition user_status_of :: "string \<Rightarrow> user_status option" where
  "user_status_of s = find (\<lambda>x. user_status_name x = s) USER_STATUSES"

lemma role_of_name [simp]: "role_of (role_name r) = Some r"
  by (cases r) (simp_all add: role_of_def WORKSPACE_ROLES_def)

lemma share_of_name [simp]: "share_of (share_name p) = Some p"
  by (cases p) (simp_all add: share_of_def SHARE_PERMISSIONS_def)

lemma user_status_of_name [simp]: "user_status_of (user_status_name x) = Some x"
  by (cases x) (simp_all add: user_status_of_def USER_STATUSES_def)

subsection \<open>Rows\<close>

record user =
  usr_id :: nat
  usr_public :: uuid
  usr_email :: string
  usr_password_hash :: string
  usr_display_name :: string
  usr_status :: user_status
  usr_signup_note :: "string option"
  usr_reviewed_by :: "nat option"
  usr_reviewed_at :: "time option"
  usr_service_admin :: bool
  usr_default_ws :: "nat option"
  usr_last_login :: "time option"
  usr_created_at :: time

record workspace =
  ws_id :: nat
  ws_public :: uuid
  ws_slug :: string
  ws_name :: string
  ws_kind :: workspace_kind
  ws_last_claimed :: "time option"
  ws_quota_minutes :: "int option"
  ws_quota_bytes :: "int option"

record member =
  mem_id :: nat
  mem_ws :: nat
  mem_user :: nat
  mem_role :: workspace_role

record user_session =
  ses_id :: nat
  ses_user :: nat
  ses_token_hash :: string
  ses_csrf :: string
  ses_issued_at :: time
  ses_last_seen :: time
  ses_expires :: time
  ses_absolute :: time
  ses_revoked :: "time option"
  ses_agent :: "string option"
  ses_ip :: "string option"

record invite =
  inv_id :: nat
  inv_public :: uuid
  inv_token_hash :: string
  inv_email :: "string option"
  inv_ws :: nat
  inv_role :: workspace_role
  inv_created_by :: "nat option"
  inv_expires :: "time option"
  inv_max_uses :: int
  inv_uses :: int
  inv_revoked :: "time option"

record share =
  shr_id :: nat
  shr_public :: uuid
  shr_recording :: nat
  shr_user :: "nat option"
  shr_email :: "string option"
  shr_permission :: share_permission
  shr_created_by :: "nat option"

record share_link =
  lnk_id :: nat
  lnk_public :: uuid
  lnk_recording :: nat
  lnk_token_hash :: string
  lnk_label :: "string option"
  lnk_password :: "string option"
  lnk_audio :: bool
  lnk_names :: bool
  lnk_expires :: "time option"
  lnk_revoked :: "time option"
  lnk_views :: int
  lnk_last_viewed :: "time option"
  lnk_created_by :: "nat option"

record auth_attempt =
  att_id :: nat
  att_key :: string
  att_window :: time
  att_count :: int

text \<open>The keys of the runner's \<open>meta\<close> object that the program reads.\<close>

record stt_meta =
  meta_elapsed :: "rat option"
  meta_device :: "string option"
  meta_model :: "string option"
  meta_diarize_error :: "string option"

text \<open>
  The message of an exception as the program stores it: free text (from the runner, the
  language model, the operating system) or one of the fixed messages of
  \<open>RecordingChanged\<close>. A recording's error is such a text behind a fixed prefix; the
  prefixes are pairwise not prefixes of each other, so the \<open>startswith\<close> tests of the
  program are tests of the constructor.
\<close>

datatype changed_reason = RegisteredDiffers | ChangedWhileTranscribing | ResultDiscarded

datatype exc_text = ExcText string | ExcChanged changed_reason

datatype recording_error =
  SourceChanged exc_text | SttFailed exc_text | EnrichFailed exc_text | DiarizeWarning string
  | LengthUnknown

datatype stt_column = SqlNull | JsonNull | JsonMeta stt_meta

text \<open>What Python reads from the JSONB column: both nulls are \<open>None\<close>.\<close>

fun meta_value :: "stt_column \<Rightarrow> stt_meta option" where
  "meta_value SqlNull = None"
| "meta_value JsonNull = None"
| "meta_value (JsonMeta m) = Some m"

record recording =
  rec_id :: nat
  rec_public :: uuid
  rec_ws :: nat
  rec_created_by :: "nat option"
  rec_source :: recording_source
  rec_path :: string
  rec_path_current :: bool
  rec_signature :: "int list option"
  rec_filename :: string
  rec_size :: int
  rec_partial_hash :: string
  rec_content_hash :: "string option"
  rec_recorded_at :: "time option"
  rec_duration :: "rat option"
  rec_language :: "string option"
  rec_title :: "string option"
  rec_summary :: "string option"
  rec_status :: recording_status
  rec_error :: "recording_error option"
  rec_stt_meta :: stt_column
  rec_request :: "uuid option"
  rec_request_started :: "time option"
  rec_progress :: "rat option"
  rec_stage_started :: "time option"
  rec_duplicate_of :: "nat option"
  rec_updated_at :: time

record segment =
  seg_id :: nat
  seg_recording :: nat
  seg_idx :: nat
  seg_start :: rat
  seg_end :: rat
  seg_speaker :: "string option"
  seg_text :: string
  seg_kind :: segment_kind

record speaker_name =
  spk_id :: nat
  spk_recording :: nat
  spk_key :: string
  spk_name :: string

record tag =
  tag_id :: nat
  tag_public :: uuid
  tag_ws :: nat
  tag_name :: string

record recording_tag =
  rt_recording :: nat
  rt_tag :: nat

datatype job_stage = StageTranscribe | StageEnrich
datatype job_status = JobDone | JobError

record job_log =
  job_id :: nat
  job_ws :: nat
  job_recording :: "nat option"
  job_stage :: job_stage
  job_status :: job_status
  job_started :: time
  job_finished :: "time option"
  job_audio :: "rat option"
  job_elapsed :: "rat option"
  job_device :: "string option"
  job_model :: "string option"
  job_error :: "exc_text option"

subsection \<open>The database\<close>

record db =
  users :: "user table"
  workspaces :: "workspace table"
  members :: "member table"
  user_sessions :: "user_session table"
  invites :: "invite table"
  shares :: "share table"
  links :: "share_link table"
  attempts :: "auth_attempt table"
  recordings :: "recording table"
  segments :: "segment table"
  speakers :: "speaker_name table"
  tags :: "tag table"
  recording_tags :: "recording_tag list"
  job_logs :: "job_log table"

definition empty_db :: db where
  "empty_db = \<lparr>users = empty_table, workspaces = empty_table, members = empty_table,
     user_sessions = empty_table, invites = empty_table, shares = empty_table,
     links = empty_table, attempts = empty_table, recordings = empty_table,
     segments = empty_table, speakers = empty_table, tags = empty_table,
     recording_tags = [], job_logs = empty_table\<rparr>"

text \<open>Setting the identity column of a row, as an INSERT does.\<close>

abbreviation set_usr_id :: "nat \<Rightarrow> user \<Rightarrow> user" where "set_usr_id i r \<equiv> r\<lparr>usr_id := i\<rparr>"
abbreviation set_ws_id :: "nat \<Rightarrow> workspace \<Rightarrow> workspace" where "set_ws_id i r \<equiv> r\<lparr>ws_id := i\<rparr>"
abbreviation set_mem_id :: "nat \<Rightarrow> member \<Rightarrow> member" where "set_mem_id i r \<equiv> r\<lparr>mem_id := i\<rparr>"
abbreviation set_ses_id :: "nat \<Rightarrow> user_session \<Rightarrow> user_session" where
  "set_ses_id i r \<equiv> r\<lparr>ses_id := i\<rparr>"
abbreviation set_inv_id :: "nat \<Rightarrow> invite \<Rightarrow> invite" where "set_inv_id i r \<equiv> r\<lparr>inv_id := i\<rparr>"
abbreviation set_shr_id :: "nat \<Rightarrow> share \<Rightarrow> share" where "set_shr_id i r \<equiv> r\<lparr>shr_id := i\<rparr>"
abbreviation set_lnk_id :: "nat \<Rightarrow> share_link \<Rightarrow> share_link" where
  "set_lnk_id i r \<equiv> r\<lparr>lnk_id := i\<rparr>"
abbreviation set_att_id :: "nat \<Rightarrow> auth_attempt \<Rightarrow> auth_attempt" where
  "set_att_id i r \<equiv> r\<lparr>att_id := i\<rparr>"
abbreviation set_rec_id :: "nat \<Rightarrow> recording \<Rightarrow> recording" where "set_rec_id i r \<equiv> r\<lparr>rec_id := i\<rparr>"
abbreviation set_seg_id :: "nat \<Rightarrow> segment \<Rightarrow> segment" where "set_seg_id i r \<equiv> r\<lparr>seg_id := i\<rparr>"
abbreviation set_spk_id :: "nat \<Rightarrow> speaker_name \<Rightarrow> speaker_name" where
  "set_spk_id i r \<equiv> r\<lparr>spk_id := i\<rparr>"
abbreviation set_tag_id :: "nat \<Rightarrow> tag \<Rightarrow> tag" where "set_tag_id i r \<equiv> r\<lparr>tag_id := i\<rparr>"
abbreviation set_job_id :: "nat \<Rightarrow> job_log \<Rightarrow> job_log" where "set_job_id i r \<equiv> r\<lparr>job_id := i\<rparr>"

interpretation user_tbl: identity_table usr_id set_usr_id by unfold_locales simp
interpretation ws_tbl: identity_table ws_id set_ws_id by unfold_locales simp
interpretation mem_tbl: identity_table mem_id set_mem_id by unfold_locales simp
interpretation ses_tbl: identity_table ses_id set_ses_id by unfold_locales simp
interpretation inv_tbl: identity_table inv_id set_inv_id by unfold_locales simp
interpretation shr_tbl: identity_table shr_id set_shr_id by unfold_locales simp
interpretation lnk_tbl: identity_table lnk_id set_lnk_id by unfold_locales simp
interpretation att_tbl: identity_table att_id set_att_id by unfold_locales simp
interpretation rec_tbl: identity_table rec_id set_rec_id by unfold_locales simp
interpretation seg_tbl: identity_table seg_id set_seg_id by unfold_locales simp
interpretation spk_tbl: identity_table spk_id set_spk_id by unfold_locales simp
interpretation tag_tbl: identity_table tag_id set_tag_id by unfold_locales simp
interpretation job_tbl: identity_table job_id set_job_id by unfold_locales simp

text \<open>\<open>session.get(T, id)\<close>\<close>

abbreviation get_user :: "db \<Rightarrow> nat \<Rightarrow> user option" where
  "get_user d i \<equiv> by_id usr_id i (users d)"
abbreviation get_workspace_row :: "db \<Rightarrow> nat \<Rightarrow> workspace option" where
  "get_workspace_row d i \<equiv> by_id ws_id i (workspaces d)"
abbreviation get_recording :: "db \<Rightarrow> nat \<Rightarrow> recording option" where
  "get_recording d i \<equiv> by_id rec_id i (recordings d)"

text \<open>The relationship \<open>Recording.segments\<close>, ordered by \<open>Segment.idx\<close>.\<close>

definition segments_of :: "db \<Rightarrow> nat \<Rightarrow> segment list" where
  "segments_of d i = sort_key seg_idx (select (\<lambda>s. seg_recording s = i) (segments d))"

lemma segments_of_Nil: "segments_of d i = [] \<longleftrightarrow> (\<forall>s\<in>set (rows (segments d)). seg_recording s \<noteq> i)"
proof -
  have "segments_of d i = [] \<longleftrightarrow> set (segments_of d i) = {}" by simp
  then show ?thesis by (auto simp: segments_of_def select_def)
qed

subsection \<open>Declared constraints\<close>

definition users_ok :: "db \<Rightarrow> bool" where
  "users_ok d \<longleftrightarrow> table_ok usr_id (users d) \<and>
     distinct (map usr_email (rows (users d))) \<and>
     (\<forall>u\<in>set (rows (users d)). usr_email u = str_lower (usr_email u))"

definition workspaces_ok :: "db \<Rightarrow> bool" where
  "workspaces_ok d \<longleftrightarrow> table_ok ws_id (workspaces d) \<and>
     distinct (map ws_slug (rows (workspaces d))) \<and>
     (\<forall>w\<in>set (rows (workspaces d)). ws_slug w = str_lower (ws_slug w))"

text \<open>\<open>uq_workspace_members_ws_user\<close> and the partial index
  \<open>uq_workspace_members_single_owner\<close>.\<close>

definition is_owner :: "member \<Rightarrow> bool" where
  "is_owner m \<longleftrightarrow> mem_role m = Owner"

definition members_ok :: "db \<Rightarrow> bool" where
  "members_ok d \<longleftrightarrow> table_ok mem_id (members d) \<and>
     distinct (map (\<lambda>m. (mem_ws m, mem_user m)) (rows (members d))) \<and>
     distinct (map mem_ws (filter is_owner (rows (members d))))"

definition sessions_ok :: "db \<Rightarrow> bool" where
  "sessions_ok d \<longleftrightarrow> table_ok ses_id (user_sessions d) \<and>
     distinct (map ses_token_hash (rows (user_sessions d)))"

definition invites_ok :: "db \<Rightarrow> bool" where
  "invites_ok d \<longleftrightarrow> table_ok inv_id (invites d) \<and>
     distinct (map inv_token_hash (rows (invites d))) \<and>
     (\<forall>i\<in>set (rows (invites d)). inv_uses i \<le> inv_max_uses i \<and>
        (case inv_email i of None \<Rightarrow> True | Some e \<Rightarrow> e = str_lower e))"

text \<open>Exactly one of the account and the reserved address, each unique per recording.\<close>

definition shares_ok :: "db \<Rightarrow> bool" where
  "shares_ok d \<longleftrightarrow> table_ok shr_id (shares d) \<and>
     (\<forall>s\<in>set (rows (shares d)). (shr_user s = None) \<noteq> (shr_email s = None) \<and>
        (case shr_email s of None \<Rightarrow> True | Some e \<Rightarrow> e = str_lower e)) \<and>
     distinct (map (\<lambda>s. (shr_recording s, shr_user s))
       (filter (\<lambda>s. shr_user s \<noteq> None) (rows (shares d)))) \<and>
     distinct (map (\<lambda>s. (shr_recording s, shr_email s))
       (filter (\<lambda>s. shr_email s \<noteq> None) (rows (shares d))))"

definition links_ok :: "db \<Rightarrow> bool" where
  "links_ok d \<longleftrightarrow> table_ok lnk_id (links d) \<and>
     distinct (map lnk_token_hash (rows (links d)))"

definition attempts_ok :: "db \<Rightarrow> bool" where
  "attempts_ok d \<longleftrightarrow> table_ok att_id (attempts d) \<and>
     distinct (map (\<lambda>a. (att_key a, att_window a)) (rows (attempts d)))"

definition recordings_ok :: "db \<Rightarrow> bool" where
  "recordings_ok d \<longleftrightarrow> table_ok rec_id (recordings d) \<and>
     distinct (map rec_path (filter rec_path_current (rows (recordings d))))"

definition segments_ok :: "db \<Rightarrow> bool" where
  "segments_ok d \<longleftrightarrow> table_ok seg_id (segments d) \<and>
     distinct (map (\<lambda>s. (seg_recording s, seg_idx s)) (rows (segments d)))"

definition tags_ok :: "db \<Rightarrow> bool" where
  "tags_ok d \<longleftrightarrow> table_ok tag_id (tags d) \<and>
     distinct (map (\<lambda>t. (tag_ws t, tag_name t)) (rows (tags d)))"

definition speakers_ok :: "db \<Rightarrow> bool" where
  "speakers_ok d \<longleftrightarrow> table_ok spk_id (speakers d) \<and>
     distinct (map (\<lambda>s. (spk_recording s, spk_key s)) (rows (speakers d)))"

definition db_ok :: "db \<Rightarrow> bool" where
  "db_ok d \<longleftrightarrow> users_ok d \<and> workspaces_ok d \<and> members_ok d \<and> sessions_ok d \<and> invites_ok d \<and>
     shares_ok d \<and> links_ok d \<and> attempts_ok d \<and> recordings_ok d \<and> segments_ok d \<and>
     tags_ok d \<and> speakers_ok d \<and> table_ok job_id (job_logs d)"

lemma users_ok_cong: "users d' = users d \<Longrightarrow> users_ok d' = users_ok d"
  by (simp add: users_ok_def)

lemma workspaces_ok_cong: "workspaces d' = workspaces d \<Longrightarrow> workspaces_ok d' = workspaces_ok d"
  by (simp add: workspaces_ok_def)

lemma members_ok_cong: "members d' = members d \<Longrightarrow> members_ok d' = members_ok d"
  by (simp add: members_ok_def)

lemma invites_ok_cong: "invites d' = invites d \<Longrightarrow> invites_ok d' = invites_ok d"
  by (simp add: invites_ok_def)

lemma shares_ok_cong: "shares d' = shares d \<Longrightarrow> shares_ok d' = shares_ok d"
  by (simp add: shares_ok_def)

lemma recordings_ok_cong: "recordings d' = recordings d \<Longrightarrow> recordings_ok d' = recordings_ok d"
  by (simp add: recordings_ok_def)

text \<open>At most one membership per person and workspace, at most one owner.\<close>

lemma members_unique:
  assumes "members_ok d" "m \<in> set (rows (members d))" "n \<in> set (rows (members d))"
    "mem_ws m = mem_ws n" "mem_user m = mem_user n"
  shows "m = n"
  using assms unfolding members_ok_def
  by (intro distinct_map_eqD [of "\<lambda>m. (mem_ws m, mem_user m)" "rows (members d)"]) auto

lemma owner_unique:
  assumes "members_ok d" "m \<in> set (rows (members d))" "n \<in> set (rows (members d))"
    "mem_ws m = mem_ws n" "mem_role m = Owner" "mem_role n = Owner"
  shows "m = n"
  using assms unfolding members_ok_def
  by (intro distinct_filter_eqD [of mem_ws is_owner "rows (members d)"]) (auto simp: is_owner_def)

subsection \<open>Deleting rows that others refer to\<close>

text \<open>
  \<open>session.delete(recording)\<close>: segments, speaker names and the tag associations go
  with the row (ORM cascade), shares and links go by ON DELETE CASCADE, the job log and
  the duplicates that point at it lose the reference (ON DELETE SET NULL).
\<close>

definition delete_recording_row :: "nat \<Rightarrow> db \<Rightarrow> db" where
  "delete_recording_row i d = d\<lparr>
     recordings := update_where (\<lambda>r. rec_duplicate_of r = Some i) (\<lambda>r. r\<lparr>rec_duplicate_of := None\<rparr>)
       (delete_where (\<lambda>r. rec_id r = i) (recordings d)),
     segments := delete_where (\<lambda>s. seg_recording s = i) (segments d),
     speakers := delete_where (\<lambda>s. spk_recording s = i) (speakers d),
     recording_tags := filter (\<lambda>t. rt_recording t \<noteq> i) (recording_tags d),
     shares := delete_where (\<lambda>s. shr_recording s = i) (shares d),
     links := delete_where (\<lambda>l. lnk_recording l = i) (links d),
     job_logs := update_where (\<lambda>j. job_recording j = Some i) (\<lambda>j. j\<lparr>job_recording := None\<rparr>)
       (job_logs d)\<rparr>"

text \<open>
  \<open>delete(Workspace).where(id)\<close>: members, invites, recordings (with what hangs on
  them), tags and the job log of the workspace go by ON DELETE CASCADE; accounts that had
  it as their default lose the reference.
\<close>

definition delete_workspace_row :: "nat \<Rightarrow> db \<Rightarrow> db" where
  "delete_workspace_row w d =
     (let gone = map rec_id (select (\<lambda>r. rec_ws r = w) (recordings d));
          d1 = fold delete_recording_row gone d
      in d1\<lparr>
        workspaces := delete_where (\<lambda>x. ws_id x = w) (workspaces d1),
        members := delete_where (\<lambda>m. mem_ws m = w) (members d1),
        invites := delete_where (\<lambda>i. inv_ws i = w) (invites d1),
        recording_tags := filter (\<lambda>t. \<not> (\<exists>g\<in>set (rows (tags d1)). tag_id g = rt_tag t \<and> tag_ws g = w))
          (recording_tags d1),
        tags := delete_where (\<lambda>t. tag_ws t = w) (tags d1),
        job_logs := delete_where (\<lambda>j. job_ws j = w) (job_logs d1),
        users := update_where (\<lambda>u. usr_default_ws u = Some w) (\<lambda>u. u\<lparr>usr_default_ws := None\<rparr>)
          (users d1)\<rparr>)"

lemma delete_recording_row_frame [simp]:
  "users (delete_recording_row i d) = users d"
  "workspaces (delete_recording_row i d) = workspaces d"
  "members (delete_recording_row i d) = members d"
  "invites (delete_recording_row i d) = invites d"
  "user_sessions (delete_recording_row i d) = user_sessions d"
  "attempts (delete_recording_row i d) = attempts d"
  "tags (delete_recording_row i d) = tags d"
  by (simp_all add: delete_recording_row_def)

lemma fold_delete_recording_frame [simp]:
  "users (fold delete_recording_row is d) = users d"
  "workspaces (fold delete_recording_row is d) = workspaces d"
  "members (fold delete_recording_row is d) = members d"
  "invites (fold delete_recording_row is d) = invites d"
  "user_sessions (fold delete_recording_row is d) = user_sessions d"
  "attempts (fold delete_recording_row is d) = attempts d"
  "tags (fold delete_recording_row is d) = tags d"
  by (induction "is" arbitrary: d) simp_all

lemma delete_workspace_row_frame [simp]:
  "user_sessions (delete_workspace_row w d) = user_sessions d"
  "attempts (delete_workspace_row w d) = attempts d"
  "members (delete_workspace_row w d) = delete_where (\<lambda>m. mem_ws m = w) (members d)"
  "invites (delete_workspace_row w d) = delete_where (\<lambda>i. inv_ws i = w) (invites d)"
  "workspaces (delete_workspace_row w d) = delete_where (\<lambda>x. ws_id x = w) (workspaces d)"
  "users (delete_workspace_row w d) =
     update_where (\<lambda>u. usr_default_ws u = Some w) (\<lambda>u. u\<lparr>usr_default_ws := None\<rparr>) (users d)"
  by (simp_all add: delete_workspace_row_def Let_def)

end
