(* ===== verification/Recorded_At.thy ===== *)
theory Recorded_At
  imports Py_Strings "HOL-Library.Monad_Syntax"
begin

text \<open>
  \<open>ingest.parse_recorded_at\<close>: the moment of a recording from its file name. The three
  regular expressions have fixed-width digit groups and optional separators that are not
  digits, so matching at a position is deterministic and a left-to-right search gives the
  match of \<open>re.search\<close>. The local offset and the current year are arguments.
\<close>

subsection \<open>Matching\<close>

definition is_digit :: "char \<Rightarrow> bool" where
  "is_digit c \<longleftrightarrow> 48 \<le> code c \<and> code c \<le> 57"

text \<open>\<open>\w\<close> on the Latin-1 range.\<close>

definition is_word :: "char \<Rightarrow> bool" where
  "is_word c \<longleftrightarrow>
     (let n = code c
      in is_digit c \<or> (65 \<le> n \<and> n \<le> 90) \<or> n = 95 \<or> (97 \<le> n \<and> n \<le> 122) \<or>
         n \<in> {170, 178, 179, 181, 185, 186, 188, 189, 190} \<or> (192 \<le> n \<and> n \<noteq> 215 \<and> n \<noteq> 247))"

fun digits :: "nat \<Rightarrow> nat \<Rightarrow> string \<Rightarrow> (nat \<times> string) option" where
  "digits 0 acc s = Some (acc, s)"
| "digits (Suc n) acc [] = None"
| "digits (Suc n) acc (c # s) = (if is_digit c then digits n (10 * acc + (code c - 48)) s else None)"

definition skip_optional :: "string \<Rightarrow> string \<Rightarrow> string" where
  "skip_optional seps s = (case s of [] \<Rightarrow> [] | c # t \<Rightarrow> if c \<in> set seps then t else s)"

definition skip_required :: "string \<Rightarrow> string \<Rightarrow> string option" where
  "skip_required seps s = (case s of [] \<Rightarrow> None | c # t \<Rightarrow> if c \<in> set seps then Some t else None)"

text \<open>A pattern is matched at a position given by the character before it and the rest.\<close>

type_synonym matcher = "char option \<Rightarrow> string \<Rightarrow> nat list option"

fun match_year :: "string \<Rightarrow> (nat \<times> string) option" where
  "match_year (a # b # s) = (if a = CHR ''2'' \<and> b = CHR ''0'' then digits 2 20 s else None)"
| "match_year _ = None"

definition match_full :: matcher where
  "match_full prev s = do {
     (y, s) \<leftarrow> match_year s;
     (mo, s) \<leftarrow> digits 2 0 (skip_optional ''-_.'' s);
     (d, s) \<leftarrow> digits 2 0 (skip_optional ''-_.'' s);
     (h, s) \<leftarrow> digits 2 0 (skip_optional ''-_. T'' s);
     (mi, s) \<leftarrow> digits 2 0 (skip_optional ''-_.:'' s);
     (sec, s) \<leftarrow> digits 2 0 (skip_optional ''-_.:'' s);
     Some [y, mo, d, h, mi, sec] }"

definition word_boundary :: "char option \<Rightarrow> bool" where
  "word_boundary c = (case c of None \<Rightarrow> True | Some c \<Rightarrow> \<not> is_word c)"

definition match_yy :: matcher where
  "match_yy prev s =
     (if word_boundary prev then do {
        (y, s) \<leftarrow> digits 2 0 s;
        (mo, s) \<leftarrow> digits 2 0 s;
        (d, s) \<leftarrow> digits 2 0 s;
        s \<leftarrow> skip_required ''-_.'' s;
        (h, s) \<leftarrow> digits 2 0 s;
        (mi, s) \<leftarrow> digits 2 0 s;
        (sec, s) \<leftarrow> digits 2 0 s;
        if word_boundary (if s = [] then None else Some (hd s))
        then Some [2000 + y, mo, d, h, mi, sec] else None }
      else None)"

definition match_date :: matcher where
  "match_date prev s = do {
     (y, s) \<leftarrow> match_year s;
     (mo, s) \<leftarrow> digits 2 0 (skip_optional ''-_.'' s);
     (d, s) \<leftarrow> digits 2 0 (skip_optional ''-_.'' s);
     Some [y, mo, d, 0, 0, 0] }"

fun search :: "matcher \<Rightarrow> char option \<Rightarrow> string \<Rightarrow> nat list option" where
  "search m prev [] = m prev []"
| "search m prev (c # s) = (case m prev (c # s) of Some g \<Rightarrow> Some g | None \<Rightarrow> search m (Some c) s)"

subsection \<open>Dates\<close>

definition is_leap :: "nat \<Rightarrow> bool" where
  "is_leap y \<longleftrightarrow> y mod 4 = 0 \<and> (y mod 100 \<noteq> 0 \<or> y mod 400 = 0)"

definition days_in_month :: "nat \<Rightarrow> nat \<Rightarrow> nat" where
  "days_in_month y m =
     (if m = 2 then (if is_leap y then 29 else 28) else if m \<in> {4, 6, 9, 11} then 30 else 31)"

text \<open>The proleptic Gregorian ordinal of a date and the moment of a local time.\<close>

definition ordinal :: "nat \<Rightarrow> nat \<Rightarrow> nat \<Rightarrow> nat" where
  "ordinal y m d = (y - 1) * 365 + (y - 1) div 4 - (y - 1) div 100 + (y - 1) div 400 +
     sum_list (map (days_in_month y) [1..<m]) + d"

definition valid_datetime :: "nat list \<Rightarrow> bool" where
  "valid_datetime g \<longleftrightarrow> (case g of
     [y, mo, d, h, mi, s] \<Rightarrow> 1 \<le> y \<and> y \<le> 9999 \<and> 1 \<le> mo \<and> mo \<le> 12 \<and> 1 \<le> d \<and>
       d \<le> days_in_month y mo \<and> h < 24 \<and> mi < 60 \<and> s < 60
   | _ \<Rightarrow> False)"

definition moment_of :: "int \<Rightarrow> nat list \<Rightarrow> time" where
  "moment_of offset g = (case g of
     [y, mo, d, h, mi, s] \<Rightarrow>
       seconds ((int (ordinal y mo d) - 719163) * 86400 + int (h * 3600 + mi * 60 + s) - offset)
   | _ \<Rightarrow> 0)"

definition candidate :: "nat \<Rightarrow> nat list option \<Rightarrow> nat list option" where
  "candidate year m = (case m of
     None \<Rightarrow> None
   | Some g \<Rightarrow> if valid_datetime g \<and> 2000 \<le> hd g \<and> hd g \<le> year + 1 then Some g else None)"

fun first_some :: "'a option list \<Rightarrow> 'a option" where
  "first_some [] = None"
| "first_some (None # xs) = first_some xs"
| "first_some (Some x # xs) = Some x"

definition parse_groups :: "nat \<Rightarrow> string \<Rightarrow> nat list option" where
  "parse_groups year name =
     first_some (map (\<lambda>m. candidate year (search m None name)) [match_full, match_yy, match_date])"

definition parse_recorded_at :: "int \<Rightarrow> nat \<Rightarrow> string \<Rightarrow> time option" where
  "parse_recorded_at offset year name = map_option (moment_of offset) (parse_groups year name)"

subsection \<open>Formatting, the inverse\<close>

definition digit_char :: "nat \<Rightarrow> char" where
  "digit_char n = char_of (48 + n)"

definition two_digits :: "nat \<Rightarrow> string" where
  "two_digits n = [digit_char (n div 10), digit_char (n mod 10)]"

definition stamp :: "string \<Rightarrow> nat list \<Rightarrow> string" where
  "stamp sep g = (case g of
     [y, mo, d, h, mi, s] \<Rightarrow> ''20'' @ two_digits (y - 2000) @ two_digits mo @ two_digits d @ sep @
       two_digits h @ two_digits mi @ two_digits s
   | _ \<Rightarrow> [])"

lemma code_digit_char [simp]: "n < 10 \<Longrightarrow> code (digit_char n) = 48 + n"
  by (simp add: digit_char_def)

lemma is_digit_digit_char [simp]: "n < 10 \<Longrightarrow> is_digit (digit_char n)"
  by (simp add: is_digit_def)

lemma digits_two_digits [simp]:
  "n < 100 \<Longrightarrow> digits 2 acc (two_digits n @ s) = Some (100 * acc + n, s)"
  by (simp add: two_digits_def numeral_2_eq_2)

lemma skip_optional_digit [simp]:
  assumes "\<forall>c\<in>set seps. \<not> is_digit c" and "n < 100"
  shows "skip_optional seps (two_digits n @ s) = two_digits n @ s"
  using assms is_digit_digit_char [of "n div 10"] by (auto simp: skip_optional_def two_digits_def)

lemma not_digit_seps [simp]:
  "\<forall>c\<in>set ''-_.''. \<not> is_digit c" "\<forall>c\<in>set ''-_.:''. \<not> is_digit c" "\<forall>c\<in>set ''-_. T''. \<not> is_digit c"
  by (simp_all add: is_digit_def code_def)

lemma days_in_month_bound: "days_in_month y m \<le> 31"
  by (simp add: days_in_month_def)

lemma match_year_stamp [simp]:
  "n < 100 \<Longrightarrow> match_year (''20'' @ two_digits n @ s) = Some (2000 + n, s)"
  by simp

lemma match_full_stamp:
  assumes "valid_datetime [y, mo, d, h, mi, s]" "2000 \<le> y" "y < 2100"
    and "sep = [] \<or> (\<exists>c\<in>set ''-_. T''. sep = [c])"
  shows "match_full prev (stamp sep [y, mo, d, h, mi, s] @ rest) = Some [y, mo, d, h, mi, s]"
proof -
  have b: "mo < 100" "d < 100" "h < 100" "mi < 100" "s < 100" "y - 2000 < 100"
    using assms(1-3) days_in_month_bound [of y mo] by (auto simp: valid_datetime_def)
  have sep: "skip_optional ''-_. T'' (sep @ two_digits h @ t) = two_digits h @ t" for t
    using assms(4)
  proof
    assume "sep = []"
    then show ?thesis using b(3) by (simp del: set_simps)
  next
    assume "\<exists>c\<in>set ''-_. T''. sep = [c]"
    then show ?thesis by (auto simp: skip_optional_def)
  qed
  have y: "2000 + (y - 2000) = y" using assms(2) by simp
  show ?thesis
    using b y sep
    by (simp add: match_full_def stamp_def del: append.simps(2) append_Cons match_year.simps)
qed

lemma search_at_start: "m prev s = Some g \<Longrightarrow> search m prev s = Some g"
  by (cases s) simp_all

subsection \<open>Properties\<close>

text \<open>A name that starts with a time stamp \<open>YYYYMMDD\<close>, an optional separator and
  \<open>HHMMSS\<close> of an existing moment no later than next year is read as exactly that
  moment, whatever follows.\<close>

theorem parse_recorded_at_stamp:
  assumes "valid_datetime [y, mo, d, h, mi, s]" "2000 \<le> y" "y < 2100" "y \<le> year + 1"
    and "sep = [] \<or> (\<exists>c\<in>set ''-_. T''. sep = [c])"
  shows "parse_recorded_at offset year (stamp sep [y, mo, d, h, mi, s] @ rest) =
    Some (moment_of offset [y, mo, d, h, mi, s])"
proof -
  have "search match_full None (stamp sep [y, mo, d, h, mi, s] @ rest) = Some [y, mo, d, h, mi, s]"
    using match_full_stamp [OF assms(1-3,5)] by (rule search_at_start)
  with assms show ?thesis
    by (simp add: parse_recorded_at_def parse_groups_def candidate_def)
qed

theorem parse_recorded_at_stamp_witness:
  "parse_recorded_at 32400 2026 (stamp ''_'' [2026, 8, 17, 14, 30, 0] @ ''.m4a'') =
     Some (moment_of 32400 [2026, 8, 17, 14, 30, 0])"
  by (rule parse_recorded_at_stamp) (simp_all add: valid_datetime_def days_in_month_def)

end
