(* ===== verification/Ingest.thy ===== *)
theory Ingest
  imports Models Recorded_At
begin

text \<open>
  \<open>ingest.py\<close>: registering files as recordings. The file system is outside the program:
  what the code reads of a file is an argument (\<open>file_view\<close> for one look, \<open>reading\<close> for
  the reads of one registration). The advisory locks serialise registrations of the same
  content and of the same path, so a registration is one step of the database; what other
  transactions commit while it waits for the locks is the difference between the two
  databases \<open>ingest_file\<close> takes. \<open>registry_ok\<close> is the invariant of the registry.
\<close>

subsection \<open>Writing a recording back\<close>

text \<open>The flush of a changed ORM object: the row is written, with \<open>updated_at\<close> set by
  \<open>onupdate\<close>, only when some attribute differs.\<close>

definition put_recording :: "time \<Rightarrow> recording \<Rightarrow> db \<Rightarrow> db" where
  "put_recording now r d = d\<lparr>recordings :=
     update_where (\<lambda>x. rec_id x = rec_id r \<and> x \<noteq> r) (\<lambda>_. r\<lparr>rec_updated_at := now\<rparr>) (recordings d)\<rparr>"

text \<open>\<open>update(Recording).where(P).values(...)\<close>: \<open>onupdate\<close> applies to every matched row.\<close>

definition update_recordings :: "time \<Rightarrow> (recording \<Rightarrow> bool) \<Rightarrow> (recording \<Rightarrow> recording) \<Rightarrow> db \<Rightarrow> db" where
  "update_recordings now P f d = d\<lparr>recordings :=
     update_where P (\<lambda>r. (f r)\<lparr>rec_updated_at := now\<rparr>) (recordings d)\<rparr>"

subsection \<open>Files\<close>

text \<open>\<open>files.file_signature\<close>: device, inode, size, mtime and ctime.\<close>

record signature =
  sig_dev :: int
  sig_ino :: int
  sig_size :: int
  sig_mtime :: int
  sig_ctime :: int

definition sig_list :: "signature \<Rightarrow> int list" where
  "sig_list s = [sig_dev s, sig_ino s, sig_size s, sig_mtime s, sig_ctime s]"

lemma sig_list_inject: "sig_list s = sig_list t \<longleftrightarrow> s = t"
  by (cases s; cases t) (simp add: sig_list_def)

text \<open>One look at a path: the signature, the hash of the content, the signature after
  reading it; \<open>None\<close> where the system call raises \<open>OSError\<close>.\<close>

record file_view =
  fv_before :: "signature option"
  fv_content :: "string option"
  fv_after :: "signature option"

definition has_matching_file :: "(string \<Rightarrow> file_view) \<Rightarrow> recording \<Rightarrow> bool" where
  "has_matching_file fs r =
     (if \<not> rec_path_current r then False
      else let v = fs (rec_path r)
           in case fv_before v of
                None \<Rightarrow> False
              | Some before \<Rightarrow>
                  if rec_signature r = Some (sig_list before) then True
                  else case fv_content v of
                         None \<Rightarrow> False
                       | Some c \<Rightarrow> if Some c \<noteq> rec_content_hash r then False
                                   else fv_after v = Some before)"

definition AUDIO_EXTENSIONS :: "string list" where
  "AUDIO_EXTENSIONS = [''.wav'', ''.mp3'', ''.m4a'', ''.aac'', ''.flac'', ''.ogg'', ''.opus'', ''.wma'',
     ''.amr'', ''.awb'', ''.3gp'']"

text \<open>\<open>Path.name\<close> and \<open>Path.suffix\<close> of an absolute path.\<close>

definition path_name :: "string \<Rightarrow> string" where
  "path_name p = rev (takeWhile (\<lambda>c. c \<noteq> CHR ''/'') (rev p))"

definition path_suffix :: "string \<Rightarrow> string" where
  "path_suffix p =
     (let name = path_name p;
          tail = takeWhile (\<lambda>c. c \<noteq> CHR ''.'') (rev name)
      in if tail = [] \<or> length name \<le> Suc (length tail) then [] else CHR ''.'' # rev tail)"

definition is_audio :: "string \<Rightarrow> bool" where
  "is_audio p \<longleftrightarrow> str_lower (path_suffix p) \<in> set AUDIO_EXTENSIONS"

subsection \<open>Looking up what is registered\<close>

definition resume_status :: "db \<Rightarrow> recording \<Rightarrow> recording_status" where
  "resume_status d r =
     (if rec_duplicate_of r \<noteq> None then Duplicate
      else if rec_summary r \<noteq> None then Done
      else if meta_value (rec_stt_meta r) \<noteq> None \<or> segments_of d (rec_id r) \<noteq> [] then Enriching
      else Pending)"

definition same_content :: "nat \<Rightarrow> string \<Rightarrow> recording \<Rightarrow> bool" where
  "same_content w full r \<longleftrightarrow> rec_ws r = w \<and> rec_content_hash r = Some full \<and>
     rec_status r \<noteq> Duplicate \<and> rec_duplicate_of r = None"

definition find_by_content :: "db \<Rightarrow> string \<Rightarrow> nat \<Rightarrow> recording list" where
  "find_by_content d full w = sort_key rec_id (select (same_content w full) (recordings d))"

definition find_duplicate :: "db \<Rightarrow> string \<Rightarrow> nat \<Rightarrow> recording option" where
  "find_duplicate d digest w =
     (case sort_key rec_id (select (\<lambda>r. rec_ws r = w \<and> rec_partial_hash r = digest \<and>
         rec_content_hash r = None \<and> rec_path_current r \<and> rec_status r \<notin> {Duplicate, Missing})
         (recordings d)) of
        [] \<Rightarrow> None
      | r # _ \<Rightarrow> Some r)"

definition find_original :: "(string \<Rightarrow> file_view) \<Rightarrow> db \<Rightarrow> nat \<Rightarrow> string \<Rightarrow> string \<Rightarrow> recording option" where
  "find_original fs d w full digest =
     (case find (\<lambda>r. rec_status r \<noteq> Missing \<and> has_matching_file fs r) (find_by_content d full w) of
        Some r \<Rightarrow> Some r
      | None \<Rightarrow> find_duplicate d digest w)"

definition find_moved :: "(string \<Rightarrow> file_view) \<Rightarrow> db \<Rightarrow> string \<Rightarrow> nat \<Rightarrow> recording option" where
  "find_moved fs d full w = find (\<lambda>r. \<not> has_matching_file fs r) (find_by_content d full w)"

subsection \<open>Registering one file\<close>

datatype outcome = New | IsDuplicate | Reappeared | Moved | Existing

text \<open>The exceptions: the two \<open>ValueError\<close>s, \<open>FileChangedDuringRead\<close>, and an
  \<open>OSError\<close> of a read. The caller rolls the transaction back.\<close>

datatype ingest_error = PathElsewhere | UploadReplaced | FileChangedDuringRead | ReadFailed

text \<open>What one registration reads: the three signatures, the two hashes, the length, and
  the files of other rows at the two lookups; the local offset, the year and the
  transaction's clock.\<close>

record reading =
  rd_path :: string
  rd_first :: "signature option"
  rd_digest :: "string option"
  rd_full :: "string option"
  rd_duration :: "rat option"
  rd_second :: "signature option"
  rd_third :: "signature option"
  rd_moved_fs :: "string \<Rightarrow> file_view"
  rd_original_fs :: "string \<Rightarrow> file_view"
  rd_offset :: int
  rd_year :: nat
  rd_now :: time

definition current_at :: "string \<Rightarrow> recording \<Rightarrow> bool" where
  "current_at p r \<longleftrightarrow> rec_path r = p \<and> rec_path_current r"

definition release_path :: "recording \<Rightarrow> recording" where
  "release_path r = r\<lparr>rec_path_current := False, rec_status := Missing, rec_request := None,
     rec_request_started := None, rec_progress := None, rec_stage_started := None\<rparr>"

definition is_source_changed :: "recording \<Rightarrow> bool" where
  "is_source_changed r = (case rec_error r of Some (SourceChanged _) \<Rightarrow> True | _ \<Rightarrow> False)"

text \<open>The registered row at the same path whose content is unchanged (lines 259 to 270).\<close>

definition confirm_row :: "db \<Rightarrow> reading \<Rightarrow> signature \<Rightarrow> string \<Rightarrow> recording \<Rightarrow> recording \<times> outcome" where
  "confirm_row d rd sg full r =
     (let r1 = r\<lparr>rec_signature := Some (sig_list sg), rec_content_hash := Some full,
                 rec_size := sig_size sg, rec_duration := rd_duration rd\<rparr>
      in if rec_status r1 = Missing then (r1\<lparr>rec_status := resume_status d r1\<rparr>, Reappeared)
         else if is_source_changed r1
              then (r1\<lparr>rec_status := resume_status d r1, rec_error := None\<rparr>, Existing)
              else (r1, Existing))"

text \<open>The row of a file that was renamed or moved (lines 286 to 298).\<close>

definition move_row :: "db \<Rightarrow> reading \<Rightarrow> signature \<Rightarrow> string \<Rightarrow> recording \<Rightarrow> recording" where
  "move_row d rd sg digest r =
     (let r1 = r\<lparr>rec_path := rd_path rd, rec_filename := path_name (rd_path rd),
                 rec_size := sig_size sg, rec_partial_hash := digest, rec_path_current := True,
                 rec_signature := Some (sig_list sg), rec_duration := rd_duration rd,
                 rec_recorded_at :=
                   (case parse_recorded_at (rd_offset rd) (rd_year rd) (path_name (rd_path rd)) of
                      Some t \<Rightarrow> Some t | None \<Rightarrow> rec_recorded_at r)\<rparr>
      in r1\<lparr>rec_status := resume_status d r1\<rparr>)"

definition new_row ::
  "reading \<Rightarrow> signature \<Rightarrow> string \<Rightarrow> string \<Rightarrow> nat \<Rightarrow> recording_source \<Rightarrow> nat option \<Rightarrow>
   recording option \<Rightarrow> uuid \<Rightarrow> recording" where
  "new_row rd sg full digest w src created_by original pub =
     \<lparr>rec_id = 0, rec_public = pub, rec_ws = w, rec_created_by = created_by, rec_source = src,
      rec_path = rd_path rd, rec_path_current = True, rec_signature = Some (sig_list sg),
      rec_filename = path_name (rd_path rd), rec_size = sig_size sg, rec_partial_hash = digest,
      rec_content_hash = Some full,
      rec_recorded_at = parse_recorded_at (rd_offset rd) (rd_year rd) (path_name (rd_path rd)),
      rec_duration = rd_duration rd, rec_language = None, rec_title = None, rec_summary = None,
      rec_status = (if original \<noteq> None then Duplicate else Pending), rec_error = None,
      rec_stt_meta = SqlNull, rec_request = None, rec_request_started = None, rec_progress = None,
      rec_stage_started = None, rec_duplicate_of = map_option rec_id original,
      rec_updated_at = rd_now rd\<rparr>"

text \<open>Lines 282 to 318: no row is current at the path any more.\<close>

definition register_content ::
  "reading \<Rightarrow> signature \<Rightarrow> string \<Rightarrow> string \<Rightarrow> nat \<Rightarrow> recording_source \<Rightarrow> nat option \<Rightarrow> uuid \<Rightarrow> db \<Rightarrow>
   (nat \<times> outcome) \<times> db" where
  "register_content rd sg full digest w src created_by pub d =
     (case find_moved (rd_moved_fs rd) d full w of
        Some r \<Rightarrow> ((rec_id r, Moved), put_recording (rd_now rd) (move_row d rd sg digest r) d)
      | None \<Rightarrow>
          let original = find_original (rd_original_fs rd) d w full digest
          in ((next_id (recordings d), if original \<noteq> None then IsDuplicate else New),
              d\<lparr>recordings := insert_row set_rec_id
                  (new_row rd sg full digest w src created_by original pub) (recordings d)\<rparr>))"

text \<open>Lines 250 to 318, once the locks are held.\<close>

definition register_locked ::
  "reading \<Rightarrow> signature \<Rightarrow> string \<Rightarrow> string \<Rightarrow> nat \<Rightarrow> recording_source \<Rightarrow> nat option \<Rightarrow> uuid \<Rightarrow> db \<Rightarrow>
   (ingest_error, (nat \<times> outcome) \<times> db) result" where
  "register_locked rd sg full digest w src created_by pub d =
     (if rd_third rd = None then Inl ReadFailed
      else if rd_third rd \<noteq> Some sg then Inl FileChangedDuringRead
      else case scalar (current_at (rd_path rd)) (recordings d) of
        None \<Rightarrow> Inr (register_content rd sg full digest w src created_by pub d)
      | Some r \<Rightarrow>
          if rec_ws r \<noteq> w \<or> rec_source r \<noteq> src then Inl PathElsewhere
          else if rec_content_hash r = Some full \<or>
                  (rec_content_hash r = None \<and> rec_partial_hash r = digest)
          then let (r', out) = confirm_row d rd sg full r
               in Inr ((rec_id r, out), put_recording (rd_now rd) r' d)
          else if src \<noteq> Scan then Inl UploadReplaced
          else Inr (register_content rd sg full digest w src created_by pub
                 (put_recording (rd_now rd) (release_path r) d)))"

text \<open>\<open>d0\<close> is the database at the first query, \<open>d\<close> the one after the locks were taken.\<close>

definition ingest_file ::
  "reading \<Rightarrow> nat \<Rightarrow> recording_source \<Rightarrow> nat option \<Rightarrow> bool \<Rightarrow> uuid \<Rightarrow> db \<Rightarrow> db \<Rightarrow>
   (ingest_error, (nat \<times> outcome) \<times> db) result" where
  "ingest_file rd w src created_by verify pub d0 d =
     (case rd_first rd of None \<Rightarrow> Inl ReadFailed | Some sg \<Rightarrow>
        let existing = scalar (current_at (rd_path rd)) (recordings d0);
            rest = (case rd_digest rd of None \<Rightarrow> Inl ReadFailed | Some digest \<Rightarrow>
                    (case rd_full rd of None \<Rightarrow> Inl ReadFailed | Some full \<Rightarrow>
                      if rd_second rd = None then Inl ReadFailed
                      else if rd_second rd \<noteq> Some sg then Inl FileChangedDuringRead
                      else register_locked rd sg full digest w src created_by pub d))
        in case existing of
             None \<Rightarrow> rest
           | Some r \<Rightarrow>
               if rec_ws r \<noteq> w \<or> rec_source r \<noteq> src then Inl PathElsewhere
               else if \<not> verify \<and> rec_content_hash r \<noteq> None \<and>
                       rec_signature r = Some (sig_list sg) \<and> rec_status r \<noteq> Missing
               then Inr ((rec_id r, Existing), d0)
               else rest)"

subsection \<open>Filling in missing hashes\<close>

text \<open>\<open>backfill_content_hashes\<close>: \<open>file\<close> gives the content hash of a path that is a file.
  The rows are visited in id order; the result counts filled, missing and remaining.\<close>

definition backfill_rows :: "db \<Rightarrow> nat option \<Rightarrow> nat option \<Rightarrow> recording list" where
  "backfill_rows d w cap =
     (let rs = sort_key rec_id (select (\<lambda>r. rec_content_hash r = None \<and> rec_path_current r \<and>
            (case w of None \<Rightarrow> True | Some x \<Rightarrow> rec_ws r = x)) (recordings d))
      in case cap of None \<Rightarrow> rs | Some n \<Rightarrow> take n rs)"

definition backfill_content_hashes ::
  "(string \<Rightarrow> string option) \<Rightarrow> nat option \<Rightarrow> nat option \<Rightarrow> time \<Rightarrow> db \<Rightarrow> (nat \<times> nat \<times> nat) \<times> db" where
  "backfill_content_hashes file w cap now d =
     (let remaining = length (backfill_rows d w None);
          todo = backfill_rows d w cap;
          present = filter (\<lambda>r. file (rec_path r) \<noteq> None) todo
      in ((length present, length todo - length present, remaining - length present),
          fold (\<lambda>r d. put_recording now (r\<lparr>rec_content_hash := file (rec_path r)\<rparr>) d) present d))"

subsection \<open>Scanning the folders\<close>

definition SCAN_COMMIT_EVERY :: nat where "SCAN_COMMIT_EVERY = 200"
definition SWEEP_BLACKOUT_MIN :: nat where "SWEEP_BLACKOUT_MIN = 20"

text \<open>A resolved path as its parts, and \<open>is_relative_to\<close>.\<close>

fun path_parts :: "string \<Rightarrow> string list" where
  "path_parts [] = [[]]"
| "path_parts (c # s) =
     (if c = CHR ''/'' then [] # path_parts s
      else case path_parts s of [] \<Rightarrow> [[c]] | p # ps \<Rightarrow> (c # p) # ps)"

definition relative_to :: "string list \<Rightarrow> string list \<Rightarrow> bool" where
  "relative_to p base \<longleftrightarrow> take (length base) p = base"

text \<open>The deepest root that contains the path.\<close>

definition path_owner :: "string list list \<Rightarrow> string list \<Rightarrow> string list option" where
  "path_owner roots p =
     (case filter (relative_to p) roots of
        [] \<Rightarrow> None
      | b # bs \<Rightarrow> Some (fold (\<lambda>x best. if length best < length x then x else best) bs b))"

text \<open>What the walk of one root yields: the device and inode before and after (\<open>None\<close>: the
  call raises), the files in the order they are met, and whether the walk ended without an
  \<open>OSError\<close>. A file carries its name, whether it is regular, and its reads.\<close>

record walked_file =
  wf_name :: string
  wf_regular :: bool
  wf_public :: uuid
  wf_reading :: reading

record walked_root =
  wr_base :: "string list"
  wr_before :: "(int \<times> int) option"
  wr_is_dir :: bool
  wr_files :: "walked_file list"
  wr_ended :: bool
  wr_after :: "(int \<times> int) option"

record scan_stats =
  st_new :: nat
  st_duplicate :: nat
  st_reappeared :: nat
  st_moved :: nat
  st_missing :: nat

definition no_stats :: scan_stats where
  "no_stats = \<lparr>st_new = 0, st_duplicate = 0, st_reappeared = 0, st_moved = 0, st_missing = 0\<rparr>"

fun count_outcome :: "outcome \<Rightarrow> scan_stats \<Rightarrow> scan_stats" where
  "count_outcome New s = s\<lparr>st_new := Suc (st_new s)\<rparr>"
| "count_outcome IsDuplicate s = s\<lparr>st_duplicate := Suc (st_duplicate s)\<rparr>"
| "count_outcome Reappeared s = s\<lparr>st_reappeared := Suc (st_reappeared s)\<rparr>"
| "count_outcome Moved s = s\<lparr>st_moved := Suc (st_moved s)\<rparr>"
| "count_outcome Existing s = s"

record scan_state =
  sc_seen :: "string list"
  sc_stats :: scan_stats
  sc_complete :: "string list list"
  sc_db :: db

definition scan_file :: "nat \<Rightarrow> string list \<Rightarrow> walked_file \<Rightarrow> scan_state \<Rightarrow> scan_state" where
  "scan_file w base f st =
     (let p = rd_path (wf_reading f)
      in if \<not> is_audio (wf_name f) then st
         else if \<not> relative_to (path_parts p) base \<or> p \<in> set (sc_seen st) then st
         else if \<not> wf_regular f then st
         else
           let st1 = st\<lparr>sc_seen := sc_seen st @ [p]\<rparr>
           in case ingest_file (wf_reading f) w Scan None True (wf_public f) (sc_db st) (sc_db st) of
                Inl e \<Rightarrow> st1
              | Inr ((i, out), d) \<Rightarrow> st1\<lparr>sc_db := d, sc_stats := count_outcome out (sc_stats st)\<rparr>)"

definition scan_root :: "nat \<Rightarrow> walked_root \<Rightarrow> scan_state \<Rightarrow> scan_state" where
  "scan_root w r st =
     (if wr_before r = None \<or> \<not> wr_is_dir r then st
      else
        let st1 = fold (scan_file w (wr_base r)) (wr_files r) st
        in if wr_ended r \<and> wr_after r \<noteq> None \<and> wr_before r = wr_after r
           then st1\<lparr>sc_complete := wr_base r # sc_complete st1\<rparr> else st1)"

text \<open>The device of the nearest existing ancestor inside the root.\<close>

datatype dir_stat = Device int | DirNotFound | DirUnreadable

function ancestor_device :: "(string list \<Rightarrow> dir_stat) \<Rightarrow> string list \<Rightarrow> string list \<Rightarrow> int option" where
  "ancestor_device stat base p =
     (if \<not> relative_to p base then None
      else case stat p of
             Device v \<Rightarrow> Some v
           | DirUnreadable \<Rightarrow> None
           | DirNotFound \<Rightarrow> if p = base \<or> p = [] then None else ancestor_device stat base (butlast p))"
  by pat_completeness auto
termination
  by (relation "measure (\<lambda>(stat, base, p). length p)") auto

declare ancestor_device.simps [simp del]

definition scanned_row :: "nat \<Rightarrow> recording \<Rightarrow> bool" where
  "scanned_row w r \<longleftrightarrow> rec_path_current r \<and> rec_status r \<noteq> Missing \<and> rec_ws r = w \<and> rec_source r = Scan"

text \<open>Lines 421 to 442: the row's file is gone as far as the walk can tell.\<close>

definition vanished ::
  "(string list \<Rightarrow> dir_stat) \<Rightarrow> string list list \<Rightarrow> scan_state \<Rightarrow> recording \<Rightarrow> bool" where
  "vanished stat roots st r =
     (case path_owner roots (path_parts (rec_path r)) of
        None \<Rightarrow> False
      | Some base \<Rightarrow>
          if base \<notin> set (sc_complete st) \<or> rec_path r \<in> set (sc_seen st) then False
          else case rec_signature r of
                 None \<Rightarrow> True
               | Some [] \<Rightarrow> True
               | Some (v # _) \<Rightarrow>
                   ancestor_device stat base (butlast (path_parts (rec_path r))) = Some v)"

definition gone_in ::
  "(string list \<Rightarrow> dir_stat) \<Rightarrow> string list list \<Rightarrow> nat \<Rightarrow> scan_state \<Rightarrow> string list \<Rightarrow> recording list" where
  "gone_in stat roots w st base =
     filter (\<lambda>r. path_owner roots (path_parts (rec_path r)) = Some base \<and> vanished stat roots st r)
       (select (scanned_row w) (recordings (sc_db st)))"

function chunks :: "nat \<Rightarrow> 'a list \<Rightarrow> 'a list list" where
  "chunks n xs = (if xs = [] \<or> n = 0 then [] else take n xs # chunks n (drop n xs))"
  by pat_completeness auto
termination
  by (relation "measure (\<lambda>(n, xs). length xs)") auto

declare chunks.simps [simp del]

lemma concat_chunks: "0 < n \<Longrightarrow> concat (chunks n xs) = xs"
proof (induction n xs rule: chunks.induct)
  case (1 n xs)
  then show ?case by (subst chunks.simps) (cases "xs = []"; simp)
qed

definition mark_missing :: "time \<Rightarrow> nat list \<Rightarrow> db \<Rightarrow> db" where
  "mark_missing now ids = update_recordings now (\<lambda>r. rec_id r \<in> set ids) (\<lambda>r. r\<lparr>rec_status := Missing\<rparr>)"

definition blackout :: "string list list \<Rightarrow> scan_state \<Rightarrow> string list \<Rightarrow> recording list \<Rightarrow> bool" where
  "blackout roots st base gone \<longleftrightarrow>
     \<not> (\<exists>p\<in>set (sc_seen st). path_owner roots (path_parts p) = Some base) \<and>
     SWEEP_BLACKOUT_MIN < length gone"

text \<open>The rows of one root that get marked, from the select at line 413.\<close>

definition sweep_ids ::
  "(string list \<Rightarrow> dir_stat) \<Rightarrow> string list list \<Rightarrow> nat \<Rightarrow> scan_state \<Rightarrow> string list \<Rightarrow> nat list" where
  "sweep_ids stat roots w st base =
     (let gone = gone_in stat roots w st base
      in if blackout roots st base gone then [] else map rec_id gone)"

definition sweep_root :: "time \<Rightarrow> nat list \<Rightarrow> db \<Rightarrow> db" where
  "sweep_root now ids = fold (mark_missing now) (chunks SCAN_COMMIT_EVERY ids)"

definition walk_all :: "walked_root list \<Rightarrow> nat \<Rightarrow> db \<Rightarrow> scan_state" where
  "walk_all walks w d =
     fold (scan_root w) walks \<lparr>sc_seen = [], sc_stats = no_stats, sc_complete = [], sc_db = d\<rparr>"

definition scan ::
  "(string list \<Rightarrow> dir_stat) \<Rightarrow> walked_root list \<Rightarrow> nat \<Rightarrow> time \<Rightarrow> db \<Rightarrow> scan_stats \<times> db" where
  "scan stat walks w now d =
     (let roots = map wr_base walks;
          st = walk_all walks w d;
          swept = map (sweep_ids stat roots w st) roots
      in ((sc_stats st)\<lparr>st_missing := sum_list (map length swept)\<rparr>,
          fold (sweep_root now) swept (sc_db st)))"

end
