(* ===== verification/Registry.thy ===== *)
theory Registry
  imports Ingest
begin

text \<open>
  The invariant of the registry and what registration, sweeping, backfilling and deletion
  do to it. \<open>registry_ok\<close> adds to the declared constraints what only the code keeps: a
  duplicate stays a duplicate (or missing), its original is a row of the same workspace and
  is no duplicate itself.
\<close>

subsection \<open>The invariant\<close>

definition registry_ok :: "db \<Rightarrow> bool" where
  "registry_ok d \<longleftrightarrow> recordings_ok d \<and>
     (\<forall>r\<in>set (rows (recordings d)). \<forall>i. rec_duplicate_of r = Some i \<longrightarrow>
        rec_status r \<in> {Duplicate, Missing} \<and>
        (\<exists>q\<in>set (rows (recordings d)). rec_id q = i \<and> rec_ws q = rec_ws r \<and> rec_duplicate_of q = None))"

lemma recordings_ok_iff:
  "recordings_ok d \<longleftrightarrow> table_ok rec_id (recordings d) \<and>
     (\<forall>x\<in>set (rows (recordings d)). \<forall>y\<in>set (rows (recordings d)).
        rec_path_current x \<longrightarrow> rec_path_current y \<longrightarrow> rec_path x = rec_path y \<longrightarrow> x = y)"
  unfolding recordings_ok_def table_ok_def
  using distinct_filter_iff [OF distinct_keys [of rec_id "rows (recordings d)"]] by auto

text \<open>The rows after an update of one row.\<close>

definition stored_as :: "time \<Rightarrow> recording \<Rightarrow> recording \<Rightarrow> recording" where
  "stored_as now r r' = (if r = r' then r else r'\<lparr>rec_updated_at := now\<rparr>)"

lemma stored_as_fields [simp]:
  "rec_id (stored_as now r r') = rec_id r'" "rec_ws (stored_as now r r') = rec_ws r'"
  "rec_path (stored_as now r r') = rec_path r'"
  "rec_path_current (stored_as now r r') = rec_path_current r'"
  "rec_status (stored_as now r r') = rec_status r'"
  "rec_duplicate_of (stored_as now r r') = rec_duplicate_of r'"
  "rec_content_hash (stored_as now r r') = rec_content_hash r'"
  "rec_signature (stored_as now r r') = rec_signature r'"
  "rec_summary (stored_as now r r') = rec_summary r'"
  "rec_stt_meta (stored_as now r r') = rec_stt_meta r'"
  "rec_public (stored_as now r r') = rec_public r'"
  by (simp_all add: stored_as_def)

lemma recording_table: "recordings (d\<lparr>recordings := t\<rparr>) = t"
  by simp

lemma table_ok_put:
  assumes "table_ok rec_id (recordings d)"
  shows "table_ok rec_id (recordings (put_recording now r' d))"
proof -
  let ?g = "\<lambda>x. if rec_id x = rec_id r' \<and> x \<noteq> r' then r'\<lparr>rec_updated_at := now\<rparr> else x"
  have "rec_id \<circ> ?g = rec_id" by (rule ext) simp
  then have "map rec_id (map ?g (rows (recordings d))) = map rec_id (rows (recordings d))"
    by (simp only: map_map)
  moreover have "\<forall>x\<in>set (map ?g (rows (recordings d))). rec_id x < next_id (recordings d)"
    using assms by (auto simp: table_ok_def)
  ultimately show ?thesis
    using assms unfolding table_ok_def put_recording_def by (simp del: map_map set_map)
qed

lemma set_put:
  assumes "table_ok rec_id (recordings d)" "r \<in> set (rows (recordings d))" "rec_id r' = rec_id r"
  shows "set (rows (recordings (put_recording now r' d))) =
    insert (stored_as now r r') {x \<in> set (rows (recordings d)). rec_id x \<noteq> rec_id r}"
proof -
  let ?X = "set (rows (recordings d))"
  have uniq: "x = r" if "x \<in> ?X" "rec_id x = rec_id r" for x
    using rec_tbl.same_key [OF assms(1) that(1) assms(2) that(2)] .
  have img: "(if rec_id x = rec_id r' \<and> x \<noteq> r' then r'\<lparr>rec_updated_at := now\<rparr> else x) =
      (if rec_id x = rec_id r then stored_as now r r' else x)" if "x \<in> ?X" for x
  proof (cases "rec_id x = rec_id r")
    case True
    then have "x = r" by (rule uniq [OF that])
    with assms(3) [symmetric] show ?thesis by (simp add: stored_as_def del: stored_as_fields)
  next
    case False
    with assms(3) show ?thesis by simp
  qed
  have "set (rows (recordings (put_recording now r' d))) =
      (\<lambda>x. if rec_id x = rec_id r' \<and> x \<noteq> r' then r'\<lparr>rec_updated_at := now\<rparr> else x) ` ?X"
    by (simp only: put_recording_def recording_table rows_update_where set_map)
  also have "\<dots> = (\<lambda>x. if rec_id x = rec_id r then stored_as now r r' else x) ` ?X"
    by (rule image_cong [OF refl img])
  also have "\<dots> = insert (stored_as now r r') {x \<in> ?X. rec_id x \<noteq> rec_id r}"
    using assms(2) by (auto simp: image_iff)
  finally show ?thesis .
qed

lemma registry_put:
  assumes ok: "registry_ok d" and r: "r \<in> set (rows (recordings d))"
    and same: "rec_id r' = rec_id r" "rec_ws r' = rec_ws r" "rec_duplicate_of r' = rec_duplicate_of r"
    and status: "rec_duplicate_of r \<noteq> None \<Longrightarrow> rec_status r' \<in> {Duplicate, Missing}"
    and path: "\<And>x. rec_path_current r' \<Longrightarrow> x \<in> set (rows (recordings d)) \<Longrightarrow> rec_path_current x \<Longrightarrow>
      rec_path x = rec_path r' \<Longrightarrow> x = r"
  shows "registry_ok (put_recording now r' d)"
proof -
  have t: "table_ok rec_id (recordings d)" using ok by (simp add: registry_ok_def recordings_ok_def)
  note S = set_put [OF t r same(1), of now]
  have "recordings_ok (put_recording now r' d)"
    unfolding recordings_ok_iff
  proof (intro conjI table_ok_put [OF t] ballI impI)
    fix x y
    assume x: "x \<in> set (rows (recordings (put_recording now r' d)))"
      and y: "y \<in> set (rows (recordings (put_recording now r' d)))"
      and p: "rec_path_current x" "rec_path_current y" "rec_path x = rec_path y"
    have old_paths: "\<forall>x\<in>set (rows (recordings d)). \<forall>y\<in>set (rows (recordings d)).
        rec_path_current x \<longrightarrow> rec_path_current y \<longrightarrow> rec_path x = rec_path y \<longrightarrow> x = y"
      using ok by (simp add: registry_ok_def recordings_ok_iff)
    have new: "x = r" if "rec_path_current r'" "x \<in> set (rows (recordings d))" "rec_path_current x"
      "rec_path x = rec_path r'" for x by (rule path [OF that])
    consider (both) "x = stored_as now r r'" "y = stored_as now r r'"
      | (left) "x = stored_as now r r'" "y \<in> set (rows (recordings d))" "rec_id y \<noteq> rec_id r"
      | (right) "y = stored_as now r r'" "x \<in> set (rows (recordings d))" "rec_id x \<noteq> rec_id r"
      | (old) "x \<in> set (rows (recordings d))" "y \<in> set (rows (recordings d))"
      using x y unfolding S by blast
    then show "x = y"
    proof cases
      case left
      then have "y = r" using p by (intro new) simp_all
      with left show ?thesis by simp
    next
      case right
      then have "x = r" using p by (intro new) simp_all
      with right show ?thesis by simp
    next
      case old
      then show ?thesis using old_paths p by blast
    qed simp
  qed
  moreover have "rec_status x \<in> {Duplicate, Missing} \<and> (\<exists>q\<in>set (rows (recordings (put_recording now r' d))).
      rec_id q = i \<and> rec_ws q = rec_ws x \<and> rec_duplicate_of q = None)"
    if x: "x \<in> set (rows (recordings (put_recording now r' d)))" "rec_duplicate_of x = Some i" for x i
  proof -
    obtain z where z: "z \<in> set (rows (recordings d))" "rec_duplicate_of z = Some i" "rec_ws z = rec_ws x"
      "rec_status x \<in> {Duplicate, Missing}"
      using x ok status r same unfolding S registry_ok_def by auto
    then obtain q where q: "q \<in> set (rows (recordings d))" "rec_id q = i" "rec_ws q = rec_ws z"
      "rec_duplicate_of q = None"
      using ok unfolding registry_ok_def by blast
    have "\<exists>q'\<in>set (rows (recordings (put_recording now r' d))).
        rec_id q' = i \<and> rec_ws q' = rec_ws z \<and> rec_duplicate_of q' = None"
    proof (cases "rec_id q = rec_id r")
      case True
      then have "q = r" using rec_tbl.same_key [OF t q(1) r] by blast
      then show ?thesis using q same unfolding S by (intro bexI [of _ "stored_as now r r'"]) auto
    next
      case False
      then show ?thesis using q unfolding S by (intro bexI [of _ q]) auto
    qed
    with z show ?thesis by auto
  qed
  ultimately show ?thesis by (simp add: registry_ok_def)
qed

text \<open>Bulk updates that keep the identity, the place and the duplicate mark.\<close>

lemma registry_update:
  assumes ok: "registry_ok d"
    and same: "\<And>r. rec_id (f r) = rec_id r" "\<And>r. rec_ws (f r) = rec_ws r"
      "\<And>r. rec_duplicate_of (f r) = rec_duplicate_of r" "\<And>r. rec_path (f r) = rec_path r"
      "\<And>r. rec_path_current (f r) = rec_path_current r"
    and status: "\<And>r. r \<in> set (rows (recordings d)) \<Longrightarrow> P r \<Longrightarrow> rec_duplicate_of r \<noteq> None \<Longrightarrow>
      rec_status (f r) \<in> {Duplicate, Missing}"
  shows "registry_ok (update_recordings now P f d)"
proof -
  let ?g = "\<lambda>r. if P r then (f r)\<lparr>rec_updated_at := now\<rparr> else r"
  have g: "rec_id (?g r) = rec_id r" "rec_ws (?g r) = rec_ws r" "rec_path (?g r) = rec_path r"
    "rec_duplicate_of (?g r) = rec_duplicate_of r" "rec_path_current (?g r) = rec_path_current r" for r
    by (simp_all add: same)
  have gs: "rec_duplicate_of r \<noteq> None \<Longrightarrow> rec_status r \<in> {Duplicate, Missing} \<Longrightarrow>
      rec_status (?g r) \<in> {Duplicate, Missing}" if "r \<in> set (rows (recordings d))" for r
    using status [OF that] by simp
  have rows: "rows (recordings (update_recordings now P f d)) = map ?g (rows (recordings d))"
    by (simp add: update_recordings_def)
  have t: "table_ok rec_id (recordings d)" using ok by (simp add: registry_ok_def recordings_ok_def)
  have "table_ok rec_id (update_where P (\<lambda>r. (f r)\<lparr>rec_updated_at := now\<rparr>) (recordings d))"
    by (rule rec_tbl.update_ok [OF t]) (simp add: same)
  then have t': "table_ok rec_id (recordings (update_recordings now P f d))"
    by (simp add: update_recordings_def)
  have set_rows: "set (rows (recordings (update_recordings now P f d))) = ?g ` set (rows (recordings d))"
    unfolding rows by (rule set_map)
  have paths: "?g x = ?g y" if xy: "x \<in> set (rows (recordings d))" "y \<in> set (rows (recordings d))"
    "rec_path_current (?g x)" "rec_path_current (?g y)" "rec_path (?g x) = rec_path (?g y)" for x y
  proof -
    have "x = y" using xy ok unfolding g registry_ok_def recordings_ok_iff by blast
    then show ?thesis by simp
  qed
  have dups: "rec_status (?g x) \<in> {Duplicate, Missing} \<and> (\<exists>q\<in>?g ` set (rows (recordings d)).
      rec_id q = i \<and> rec_ws q = rec_ws (?g x) \<and> rec_duplicate_of q = None)"
    if x: "x \<in> set (rows (recordings d))" "rec_duplicate_of (?g x) = Some i" for x i
  proof -
    have dup: "rec_duplicate_of x = Some i" using x(2) by (simp only: g)
    with ok x(1) obtain q where q: "rec_status x \<in> {Duplicate, Missing}" "q \<in> set (rows (recordings d))"
      "rec_id q = i" "rec_ws q = rec_ws x" "rec_duplicate_of q = None"
      unfolding registry_ok_def by blast
    have "rec_id (?g q) = i \<and> rec_ws (?g q) = rec_ws (?g x) \<and> rec_duplicate_of (?g q) = None"
      unfolding g using q by blast
    moreover have "rec_status (?g x) \<in> {Duplicate, Missing}"
      using gs [OF x(1)] dup q(1) by simp
    ultimately show ?thesis using q(2) by blast
  qed
  show ?thesis
    unfolding registry_ok_def recordings_ok_iff set_rows
    using t' paths dups by blast
qed

lemma registry_insert:
  assumes ok: "registry_ok d" and path: "\<And>x. x \<in> set (rows (recordings d)) \<Longrightarrow> rec_path_current x \<Longrightarrow>
      rec_path x \<noteq> rec_path r"
    and dup: "\<And>i. rec_duplicate_of r = Some i \<Longrightarrow> rec_status r \<in> {Duplicate, Missing} \<and>
      (\<exists>q\<in>set (rows (recordings d)). rec_id q = i \<and> rec_ws q = rec_ws r \<and> rec_duplicate_of q = None)"
  shows "registry_ok (d\<lparr>recordings := insert_row set_rec_id r (recordings d)\<rparr>)"
proof -
  have t: "table_ok rec_id (recordings d)" using ok by (simp add: registry_ok_def recordings_ok_def)
  have "recordings_ok (d\<lparr>recordings := insert_row set_rec_id r (recordings d)\<rparr>)"
    using ok path rec_tbl.insert_ok [OF t] by (fastforce simp: registry_ok_def recordings_ok_iff)
  moreover have "\<forall>x\<in>set (rows (recordings d)). \<forall>i. rec_duplicate_of x = Some i \<longrightarrow>
      rec_status x \<in> {Duplicate, Missing} \<and> (\<exists>q\<in>set (rows (recordings d)).
        rec_id q = i \<and> rec_ws q = rec_ws x \<and> rec_duplicate_of q = None)"
    using ok by (simp add: registry_ok_def)
  ultimately show ?thesis
    using dup by (auto simp: registry_ok_def)
qed

lemma registry_delete_recording:
  assumes ok: "registry_ok d"
  shows "registry_ok (delete_recording_row i d)"
proof -
  let ?g = "\<lambda>r. if rec_duplicate_of r = Some i then r\<lparr>rec_duplicate_of := None\<rparr> else r"
  let ?d = "delete_recording_row i d"
  have g: "rec_id (?g r) = rec_id r" "rec_ws (?g r) = rec_ws r" "rec_path (?g r) = rec_path r"
    "rec_status (?g r) = rec_status r" "rec_path_current (?g r) = rec_path_current r" for r
    by simp_all
  have t: "table_ok rec_id (recordings d)" using ok by (simp add: registry_ok_def recordings_ok_def)
  have t': "table_ok rec_id (recordings ?d)"
    by (simp add: delete_recording_row_def rec_tbl.update_ok rec_tbl.delete_ok t)
  have set_rows: "set (rows (recordings ?d)) = ?g ` {r \<in> set (rows (recordings d)). rec_id r \<noteq> i}"
    by (simp add: delete_recording_row_def)
  have paths: "?g x = ?g y" if xy: "x \<in> set (rows (recordings d))" "y \<in> set (rows (recordings d))"
    "rec_path_current (?g x)" "rec_path_current (?g y)" "rec_path (?g x) = rec_path (?g y)" for x y
  proof -
    have "x = y" using xy ok unfolding g registry_ok_def recordings_ok_iff by blast
    then show ?thesis by simp
  qed
  have dups: "rec_status (?g x) \<in> {Duplicate, Missing} \<and>
      (\<exists>q\<in>?g ` {r \<in> set (rows (recordings d)). rec_id r \<noteq> i}.
        rec_id q = j \<and> rec_ws q = rec_ws (?g x) \<and> rec_duplicate_of q = None)"
    if x: "x \<in> set (rows (recordings d))" "rec_duplicate_of (?g x) = Some j" for x j
  proof -
    have dup: "rec_duplicate_of x = Some j" "j \<noteq> i" using x(2) by (auto split: if_splits)
    with ok x(1) obtain q where q: "rec_status x \<in> {Duplicate, Missing}" "q \<in> set (rows (recordings d))"
      "rec_id q = j" "rec_ws q = rec_ws x" "rec_duplicate_of q = None"
      unfolding registry_ok_def by blast
    have "?g q = q" using q(5) by simp
    moreover have "q \<in> {r \<in> set (rows (recordings d)). rec_id r \<noteq> i}" using q(2,3) dup(2) by simp
    ultimately have mem: "q \<in> ?g ` {r \<in> set (rows (recordings d)). rec_id r \<noteq> i}"
      by (rule image_eqI [OF sym])
    have "rec_id q = j \<and> rec_ws q = rec_ws (?g x) \<and> rec_duplicate_of q = None"
      using q(3,4,5) unfolding g by simp
    moreover have "rec_status (?g x) \<in> {Duplicate, Missing}" unfolding g by (rule q(1))
    ultimately show ?thesis using mem by blast
  qed
  show ?thesis
    unfolding registry_ok_def recordings_ok_iff set_rows
    using t' paths dups by blast
qed

subsection \<open>Registration keeps it\<close>

lemma find_by_content_mem:
  "r \<in> set (find_by_content d full w) \<longleftrightarrow> r \<in> set (rows (recordings d)) \<and> same_content w full r"
  by (auto simp: find_by_content_def select_def)

lemma find_moved_Some:
  "find_moved fs d full w = Some r \<Longrightarrow> r \<in> set (rows (recordings d)) \<and> same_content w full r \<and>
     \<not> has_matching_file fs r"
  unfolding find_moved_def by (drule find_SomeD) (simp add: find_by_content_mem)

lemma find_moved_None:
  "find_moved fs d full w = None \<longleftrightarrow>
     (\<forall>r\<in>set (rows (recordings d)). same_content w full r \<longrightarrow> has_matching_file fs r)"
  by (auto simp: find_moved_def find_None_iff find_by_content_mem)

lemma find_duplicate_Some:
  "find_duplicate d digest w = Some r \<Longrightarrow> r \<in> set (rows (recordings d)) \<and> rec_ws r = w \<and>
     rec_partial_hash r = digest \<and> rec_content_hash r = None \<and> rec_path_current r \<and>
     rec_status r \<notin> {Duplicate, Missing}"
proof -
  assume a: "find_duplicate d digest w = Some r"
  let ?P = "\<lambda>r. rec_ws r = w \<and> rec_partial_hash r = digest \<and> rec_content_hash r = None \<and>
    rec_path_current r \<and> rec_status r \<notin> {Duplicate, Missing}"
  from a have "r \<in> set (sort_key rec_id (select ?P (recordings d)))"
    by (cases "sort_key rec_id (select ?P (recordings d))") (auto simp: find_duplicate_def)
  then show ?thesis by (simp add: select_def)
qed

lemma find_original_Some:
  assumes "registry_ok d" "find_original fs d w full digest = Some q"
  shows "q \<in> set (rows (recordings d)) \<and> rec_ws q = w \<and> rec_duplicate_of q = None \<and>
    rec_status q \<notin> {Duplicate, Missing}"
proof (cases "find (\<lambda>r. rec_status r \<noteq> Missing \<and> has_matching_file fs r) (find_by_content d full w)")
  case None
  with assms(2) have "find_duplicate d digest w = Some q" by (simp add: find_original_def)
  from find_duplicate_Some [OF this] assms(1) show ?thesis
    by (cases "rec_duplicate_of q") (auto simp: registry_ok_def)
next
  case (Some x)
  with assms(2) have "q = x" by (simp add: find_original_def)
  with Some have "q \<in> set (find_by_content d full w)" "rec_status q \<noteq> Missing"
    by (auto simp: find_Some_iff)
  then show ?thesis by (auto simp: find_by_content_mem same_content_def)
qed

lemma resume_status_dup: "rec_duplicate_of r \<noteq> None \<Longrightarrow> resume_status d r = Duplicate"
  by (simp add: resume_status_def)

lemma confirm_row_fields [simp]:
  "rec_id (fst (confirm_row d rd sg full r)) = rec_id r"
  "rec_ws (fst (confirm_row d rd sg full r)) = rec_ws r"
  "rec_path (fst (confirm_row d rd sg full r)) = rec_path r"
  "rec_path_current (fst (confirm_row d rd sg full r)) = rec_path_current r"
  "rec_duplicate_of (fst (confirm_row d rd sg full r)) = rec_duplicate_of r"
  by (simp_all add: confirm_row_def Let_def)

lemma confirm_row_status:
  "rec_status (fst (confirm_row d rd sg full r)) = rec_status r \<or>
   rec_status (fst (confirm_row d rd sg full r)) = resume_status d r"
  by (simp add: confirm_row_def Let_def resume_status_def)

lemma move_row_fields [simp]:
  "rec_id (move_row d rd sg digest r) = rec_id r"
  "rec_ws (move_row d rd sg digest r) = rec_ws r"
  "rec_path (move_row d rd sg digest r) = rd_path rd"
  "rec_path_current (move_row d rd sg digest r) = True"
  "rec_duplicate_of (move_row d rd sg digest r) = rec_duplicate_of r"
  "rec_status (move_row d rd sg digest r) = resume_status d r"
  "rec_content_hash (move_row d rd sg digest r) = rec_content_hash r"
  by (simp_all add: move_row_def Let_def resume_status_def)

lemma release_path_fields [simp]:
  "rec_id (release_path r) = rec_id r" "rec_ws (release_path r) = rec_ws r"
  "rec_path (release_path r) = rec_path r" "rec_path_current (release_path r) = False"
  "rec_duplicate_of (release_path r) = rec_duplicate_of r" "rec_status (release_path r) = Missing"
  "rec_content_hash (release_path r) = rec_content_hash r"
  by (simp_all add: release_path_def)

lemma new_row_fields [simp]:
  "rec_ws (new_row rd sg full digest w src cb q pub) = w"
  "rec_path (new_row rd sg full digest w src cb q pub) = rd_path rd"
  "rec_path_current (new_row rd sg full digest w src cb q pub) = True"
  "rec_content_hash (new_row rd sg full digest w src cb q pub) = Some full"
  "rec_status (new_row rd sg full digest w src cb q pub) = (if q \<noteq> None then Duplicate else Pending)"
  "rec_duplicate_of (new_row rd sg full digest w src cb q pub) = map_option rec_id q"
  by (simp_all add: new_row_def)

definition path_free :: "db \<Rightarrow> string \<Rightarrow> bool" where
  "path_free d p \<longleftrightarrow> (\<forall>x\<in>set (rows (recordings d)). rec_path_current x \<longrightarrow> rec_path x \<noteq> p)"

lemma path_free_scalar: "path_free d p \<longleftrightarrow> scalar (current_at p) (recordings d) = None"
  by (auto simp: path_free_def scalar_None current_at_def)

lemma register_content_ok:
  assumes ok: "registry_ok d" and free: "path_free d (rd_path rd)"
  shows "registry_ok (snd (register_content rd sg full digest w src cb pub d))"
proof (cases "find_moved (rd_moved_fs rd) d full w")
  case (Some r)
  from find_moved_Some [OF this] have r: "r \<in> set (rows (recordings d))" "rec_duplicate_of r = None"
    by (auto simp: same_content_def)
  have "registry_ok (put_recording (rd_now rd) (move_row d rd sg digest r) d)"
  proof (rule registry_put [OF ok r(1)])
    show "x = r" if "x \<in> set (rows (recordings d))" "rec_path_current x"
      "rec_path x = rec_path (move_row d rd sg digest r)" for x
      using that free by (simp add: path_free_def)
  qed (simp_all add: r(2))
  with Some show ?thesis by (simp add: register_content_def)
next
  case None
  define q where "q = find_original (rd_original_fs rd) d w full digest"
  have orig: "y \<in> set (rows (recordings d)) \<and> rec_ws y = w \<and> rec_duplicate_of y = None"
    if "q = Some y" for y
    using find_original_Some [OF ok, of "rd_original_fs rd" w full digest y] that q_def by simp
  have "registry_ok (d\<lparr>recordings := insert_row set_rec_id
      (new_row rd sg full digest w src cb q pub) (recordings d)\<rparr>)"
  proof (rule registry_insert [OF ok])
    show "rec_path x \<noteq> rec_path (new_row rd sg full digest w src cb q pub)"
      if "x \<in> set (rows (recordings d))" "rec_path_current x" for x
      using that free by (simp add: path_free_def)
    show "rec_status (new_row rd sg full digest w src cb q pub) \<in> {Duplicate, Missing} \<and>
        (\<exists>p\<in>set (rows (recordings d)). rec_id p = i \<and>
          rec_ws p = rec_ws (new_row rd sg full digest w src cb q pub) \<and> rec_duplicate_of p = None)"
      if "rec_duplicate_of (new_row rd sg full digest w src cb q pub) = Some i" for i
      using that orig by (cases q) auto
  qed
  with None show ?thesis by (simp add: register_content_def Let_def q_def)
qed

lemma release_path_free:
  assumes ok: "registry_ok d" and r: "scalar (current_at p) (recordings d) = Some r"
  shows "registry_ok (put_recording now (release_path r) d)"
    and "path_free (put_recording now (release_path r) d) p"
proof -
  have t: "table_ok rec_id (recordings d)" using ok by (simp add: registry_ok_def recordings_ok_def)
  from scalar_Some [OF r] have rm: "r \<in> set (rows (recordings d))" "rec_path r = p" "rec_path_current r"
    by (simp_all add: current_at_def)
  show "registry_ok (put_recording now (release_path r) d)"
    by (rule registry_put [OF ok rm(1)]) simp_all
  have "x = r" if "x \<in> set (rows (recordings d))" "rec_path_current x" "rec_path x = p" for x
    using that rm ok unfolding registry_ok_def recordings_ok_iff by blast
  then show "path_free (put_recording now (release_path r) d) p"
    unfolding path_free_def set_put [OF t rm(1) release_path_fields(1)] by auto
qed

lemma register_locked_ok:
  assumes ok: "registry_ok d" and res: "register_locked rd sg full digest w src cb pub d = Inr (x, d')"
  shows "registry_ok d'"
proof (cases "scalar (current_at (rd_path rd)) (recordings d)")
  case None
  then have "path_free d (rd_path rd)" by (simp add: path_free_scalar)
  from register_content_ok [OF ok this] None res show ?thesis
    by (auto simp: register_locked_def split: if_splits) (metis snd_conv)
next
  case (Some r)
  from scalar_Some [OF Some] have r: "r \<in> set (rows (recordings d))" "rec_path r = rd_path rd" "rec_path_current r"
    by (simp_all add: current_at_def)
  have uniq: "y = r" if "y \<in> set (rows (recordings d))" "rec_path_current y" "rec_path y = rec_path r" for y
    using that r ok unfolding registry_ok_def recordings_ok_iff by blast
  have confirm: "registry_ok (put_recording (rd_now rd) (fst (confirm_row d rd sg full r)) d)"
  proof (rule registry_put [OF ok r(1)])
    show "rec_status (fst (confirm_row d rd sg full r)) \<in> {Duplicate, Missing}"
      if "rec_duplicate_of r \<noteq> None"
      using that confirm_row_status [of d rd sg full r] resume_status_dup [OF that] ok r(1)
      by (auto simp: registry_ok_def)
  qed (use uniq in simp_all)
  have content: "registry_ok (snd (register_content rd sg full digest w src cb pub
      (put_recording (rd_now rd) (release_path r) d)))"
    by (rule register_content_ok [OF release_path_free [OF ok Some]])
  show ?thesis
    using res Some confirm content
    by (auto simp: register_locked_def split_beta split: if_splits)
qed

lemma ingest_file_ok:
  assumes "registry_ok d0" "registry_ok d" "ingest_file rd w src cb verify pub d0 d = Inr (x, d')"
  shows "registry_ok d'"
  using assms register_locked_ok
  by (auto simp: ingest_file_def Let_def split: option.splits if_splits)

lemma mark_missing_ok: "registry_ok d \<Longrightarrow> registry_ok (mark_missing now ids d)"
  unfolding mark_missing_def by (rule registry_update) simp_all

lemma fold_mark_missing_ok: "registry_ok d \<Longrightarrow> registry_ok (fold (mark_missing now) idss d)"
  by (induction idss arbitrary: d) (simp_all add: mark_missing_ok)

lemma fold_sweep_root_ok: "registry_ok d \<Longrightarrow> registry_ok (fold (sweep_root now) idss d)"
  by (induction idss arbitrary: d) (simp_all add: sweep_root_def fold_mark_missing_ok)

lemma scan_file_ok: "registry_ok (sc_db st) \<Longrightarrow> registry_ok (sc_db (scan_file w base f st))"
  using ingest_file_ok [of "sc_db st" "sc_db st"]
  by (auto simp: scan_file_def Let_def split: sum.splits)

lemma walk_ok: "registry_ok (sc_db st) \<Longrightarrow> registry_ok (sc_db (fold (scan_root w) walks st))"
proof (induction walks arbitrary: st)
  case (Cons r walks)
  have "registry_ok (sc_db (fold (scan_file w (wr_base r)) fs st'))" if "registry_ok (sc_db st')" for fs st'
    using that by (induction fs arbitrary: st') (simp_all add: scan_file_ok)
  then have "registry_ok (sc_db (scan_root w r st))"
    using Cons.prems by (simp add: scan_root_def Let_def)
  then show ?case by (simp add: Cons.IH)
qed simp

lemma scan_ok: "registry_ok d \<Longrightarrow> registry_ok (snd (scan stat walks w now d))"
  by (simp add: scan_def Let_def walk_all_def fold_sweep_root_ok walk_ok)

lemma backfill_ok: "registry_ok d \<Longrightarrow> registry_ok (snd (backfill_content_hashes file w cap now d))"
proof -
  assume ok: "registry_ok d"
  have "registry_ok (fold (\<lambda>r d. put_recording now (r\<lparr>rec_content_hash := file (rec_path r)\<rparr>) d) rs d)"
    if "distinct (map rec_id rs)" "set rs \<subseteq> set (rows (recordings d))" "registry_ok d" for rs
    using that
  proof (induction rs arbitrary: d)
    case (Cons r rs)
    let ?r = "r\<lparr>rec_content_hash := file (rec_path r)\<rparr>"
    have r: "r \<in> set (rows (recordings d))" using Cons.prems(2) by simp
    have t: "table_ok rec_id (recordings d)" using Cons.prems(3) by (simp add: registry_ok_def recordings_ok_def)
    have status: "rec_duplicate_of r \<noteq> None \<Longrightarrow> rec_status r \<in> {Duplicate, Missing}"
      using Cons.prems(3) r by (auto simp: registry_ok_def)
    have paths: "x = r" if "rec_path_current r" "x \<in> set (rows (recordings d))" "rec_path_current x"
      "rec_path x = rec_path r" for x
      using that r Cons.prems(3) unfolding registry_ok_def recordings_ok_iff by blast
    have "registry_ok (put_recording now ?r d)"
      by (rule registry_put [OF Cons.prems(3) r]) (use status in \<open>simp_all add: paths\<close>)
    moreover have "set rs \<subseteq> set (rows (recordings (put_recording now ?r d)))"
    proof
      fix x assume "x \<in> set rs"
      with Cons.prems(1,2) have "x \<in> set (rows (recordings d))" "rec_id x \<noteq> rec_id r"
        by (auto simp: image_iff)
      then show "x \<in> set (rows (recordings (put_recording now ?r d)))"
        unfolding set_put [OF t r, of ?r now, simplified] by simp
    qed
    ultimately show ?case using Cons.IH Cons.prems(1) by simp
  qed simp
  note fold_ok = this
  let ?rs = "filter (\<lambda>r. file (rec_path r) \<noteq> None) (backfill_rows d w cap)"
  have t: "distinct (map rec_id (rows (recordings d)))"
    using ok by (simp add: registry_ok_def recordings_ok_def table_ok_def)
  have "distinct (map rec_id (backfill_rows d w cap))"
  proof -
    have *: "distinct (map rec_id (sort_key rec_id (select P (recordings d))))" for P
      using t by (auto simp: distinct_map select_def inj_on_def)
    then show ?thesis by (auto simp: backfill_rows_def Let_def take_map [symmetric] split: option.splits)
  qed
  then have "distinct (map rec_id ?rs)" by (auto simp: distinct_map inj_on_def)
  moreover have "set ?rs \<subseteq> set (rows (recordings d))"
    by (auto simp: backfill_rows_def Let_def select_def split: option.splits dest: in_set_takeD)
  ultimately show ?thesis
    using fold_ok ok by (simp add: backfill_content_hashes_def Let_def)
qed

subsection \<open>What registration keeps\<close>

text \<open>The product of the pipeline and the identity of a row.\<close>

definition work_of where
  "work_of r = (rec_id r, rec_public r, rec_ws r, rec_created_by r, rec_source r, rec_title r,
     rec_summary r, rec_language r, rec_stt_meta r, rec_duplicate_of r)"

lemma put_work:
  assumes "registry_ok d" "r \<in> set (rows (recordings d))" "work_of r' = work_of r"
  shows "map work_of (rows (recordings (put_recording now r' d))) = map work_of (rows (recordings d))"
proof -
  have t: "table_ok rec_id (recordings d)" using assms(1) by (simp add: registry_ok_def recordings_ok_def)
  have id: "rec_id r' = rec_id r" using assms(3) by (simp add: work_of_def)
  have "work_of (if rec_id x = rec_id r' \<and> x \<noteq> r' then r'\<lparr>rec_updated_at := now\<rparr> else x) = work_of x"
    if "x \<in> set (rows (recordings d))" for x
  proof (cases "rec_id x = rec_id r'")
    case True
    then have "x = r" using rec_tbl.same_key [OF t that assms(2)] id by simp
    then have "work_of x = work_of r'" using assms(3) by simp
    moreover have "work_of (r'\<lparr>rec_updated_at := now\<rparr>) = work_of r'" by (simp add: work_of_def)
    ultimately show ?thesis by simp
  qed simp
  then show ?thesis by (simp add: put_recording_def)
qed

lemma put_frame [simp]:
  "segments (put_recording now r d) = segments d" "speakers (put_recording now r d) = speakers d"
  "shares (put_recording now r d) = shares d" "links (put_recording now r d) = links d"
  "recording_tags (put_recording now r d) = recording_tags d" "tags (put_recording now r d) = tags d"
  "job_logs (put_recording now r d) = job_logs d" "workspaces (put_recording now r d) = workspaces d"
  "users (put_recording now r d) = users d" "members (put_recording now r d) = members d"
  "next_id (recordings (put_recording now r d)) = next_id (recordings d)"
  by (simp_all add: put_recording_def)

definition derived_kept :: "db \<Rightarrow> db \<Rightarrow> bool" where
  "derived_kept d d' \<longleftrightarrow> d'\<lparr>recordings := recordings d\<rparr> = d \<and>
     (\<exists>new. map work_of (rows (recordings d')) = map work_of (rows (recordings d)) @ new \<and> length new \<le> 1)"

lemma derived_kept_put:
  "registry_ok d \<Longrightarrow> r \<in> set (rows (recordings d)) \<Longrightarrow> work_of r' = work_of r \<Longrightarrow>
     derived_kept d (put_recording now r' d)"
  by (simp add: derived_kept_def put_work) (simp add: put_recording_def)

lemma work_of_moved: "work_of (move_row d rd sg digest r) = work_of r"
  by (simp add: work_of_def move_row_def Let_def)

lemma work_of_confirmed: "work_of (fst (confirm_row d rd sg full r)) = work_of r"
  by (simp add: work_of_def confirm_row_def Let_def)

lemma work_of_released: "work_of (release_path r) = work_of r"
  by (simp add: work_of_def release_path_def)

lemma register_content_keeps:
  assumes ok: "registry_ok d"
  shows "derived_kept d (snd (register_content rd sg full digest w src cb pub d))"
proof (cases "find_moved (rd_moved_fs rd) d full w")
  case None
  then show ?thesis
    by (simp add: register_content_def Let_def derived_kept_def)
next
  case (Some r)
  from find_moved_Some [OF this] have r: "r \<in> set (rows (recordings d))" by simp
  from derived_kept_put [OF ok r work_of_moved] Some show ?thesis
    by (simp add: register_content_def)
qed

lemma derived_kept_after_put:
  assumes "derived_kept (put_recording now r' d) d'" "registry_ok d" "r \<in> set (rows (recordings d))"
    "work_of r' = work_of r"
  shows "derived_kept d d'"
proof -
  have "d'\<lparr>recordings := recordings d\<rparr> =
      (d'\<lparr>recordings := recordings (put_recording now r' d)\<rparr>)\<lparr>recordings := recordings d\<rparr>" by simp
  also have "\<dots> = (put_recording now r' d)\<lparr>recordings := recordings d\<rparr>"
    using assms(1) by (simp only: derived_kept_def)
  also have "\<dots> = d" by (simp add: put_recording_def)
  finally show ?thesis
    using assms(1) put_work [OF assms(2-4), of now] by (simp add: derived_kept_def)
qed

lemma ingest_file_keeps:
  assumes ok: "registry_ok d" and res: "ingest_file rd w src cb verify pub d d = Inr (x, d')"
  shows "derived_kept d d'"
proof -
  have locked: "derived_kept d d'" if res: "register_locked rd sg full digest w src cb pub d = Inr (x, d')"
    for sg full digest
  proof (cases "scalar (current_at (rd_path rd)) (recordings d)")
    case None
    with register_content_keeps [OF ok] res show ?thesis
      by (auto simp: register_locked_def split: if_splits) (metis snd_conv)
  next
    case (Some r)
    then have r: "r \<in> set (rows (recordings d))" using scalar_Some by fastforce
    have rel: "derived_kept d (snd (register_content rd sg full digest w src cb pub
        (put_recording (rd_now rd) (release_path r) d)))"
      by (rule derived_kept_after_put [OF register_content_keeps [OF release_path_free(1) [OF ok Some]]
            ok r work_of_released])
    from derived_kept_put [OF ok r work_of_confirmed] rel res Some show ?thesis
      by (auto simp: register_locked_def split_beta split: if_splits)
  qed
  have "derived_kept d d" by (simp add: derived_kept_def)
  with res locked show ?thesis
    by (auto simp: ingest_file_def Let_def split: option.splits if_splits)
qed

text \<open>Content that is registered, present and not a duplicate is found.\<close>

lemma register_content_found:
  assumes q: "q \<in> set (rows (recordings d))" "same_content w full q" "rec_status q \<noteq> Missing"
    and still: "rd_original_fs rd (rec_path q) = rd_moved_fs rd (rec_path q)"
  shows "snd (fst (register_content rd sg full digest w src cb pub d)) \<noteq> New"
proof (cases "find_moved (rd_moved_fs rd) d full w")
  case (Some r)
  then show ?thesis by (simp add: register_content_def)
next
  case None
  with q have "has_matching_file (rd_moved_fs rd) q" by (simp add: find_moved_None)
  moreover have "has_matching_file (rd_original_fs rd) q = has_matching_file (rd_moved_fs rd) q"
    by (simp only: has_matching_file_def still)
  ultimately have "has_matching_file (rd_original_fs rd) q" by simp
  with q have "find (\<lambda>r. rec_status r \<noteq> Missing \<and> has_matching_file (rd_original_fs rd) r)
      (find_by_content d full w) \<noteq> None"
    by (auto simp: find_None_iff find_by_content_mem)
  with None show ?thesis by (auto simp: register_content_def Let_def find_original_def)
qed

subsection \<open>What a sweep marks\<close>

lemma mark_missing_by_id:
  "get_recording (mark_missing now ids d) i = map_option (\<lambda>r. if rec_id r \<in> set ids
     then r\<lparr>rec_status := Missing, rec_updated_at := now\<rparr> else r) (get_recording d i)"
proof -
  have "by_id rec_id i (update_where (\<lambda>r. rec_id r \<in> set ids)
      (\<lambda>r. r\<lparr>rec_status := Missing, rec_updated_at := now\<rparr>) (recordings d)) =
    map_option (\<lambda>r. if rec_id r \<in> set ids then r\<lparr>rec_status := Missing, rec_updated_at := now\<rparr> else r)
      (by_id rec_id i (recordings d))"
    by (rule rec_tbl.by_id_update) simp
  then show ?thesis by (simp add: mark_missing_def update_recordings_def)
qed

lemma marks_by_id:
  assumes "get_recording d i = Some r" "rec_status r \<noteq> Missing"
    and "get_recording (fold (mark_missing now) idss d) i = Some r'" "rec_status r' = Missing"
  shows "i \<in> set (concat idss)"
  using assms
proof (induction idss arbitrary: d r)
  case (Cons ids idss)
  have i: "rec_id r = i" using Cons.prems(1) rec_tbl.by_id_SomeD by blast
  show ?case
  proof (cases "i \<in> set ids")
    case False
    then have "get_recording (mark_missing now ids d) i = Some r"
      using Cons.prems(1) i by (simp add: mark_missing_by_id)
    from Cons.IH [OF this Cons.prems(2)] Cons.prems(3,4) show ?thesis by simp
  qed simp
qed simp

lemma sweeps_by_id:
  assumes "get_recording d i = Some r" "rec_status r \<noteq> Missing"
    and "get_recording (fold (sweep_root now) idss d) i = Some r'" "rec_status r' = Missing"
  shows "\<exists>ids\<in>set idss. i \<in> set ids"
proof -
  have "fold (sweep_root now) idss d = fold (mark_missing now) (concat (map (chunks SCAN_COMMIT_EVERY) idss)) d"
    by (induction idss arbitrary: d) (simp_all add: sweep_root_def)
  with marks_by_id [OF assms(1,2), of now "concat (map (chunks SCAN_COMMIT_EVERY) idss)" r'] assms(3,4)
  have "i \<in> set (concat (concat (map (chunks SCAN_COMMIT_EVERY) idss)))" by simp
  then obtain ids where ids: "ids \<in> set idss" "i \<in> set (concat (chunks SCAN_COMMIT_EVERY ids))" by auto
  then have "i \<in> set ids" by (simp add: concat_chunks SCAN_COMMIT_EVERY_def)
  with ids show ?thesis by blast
qed

definition walked_fully :: "walked_root \<Rightarrow> bool" where
  "walked_fully r \<longleftrightarrow> wr_is_dir r \<and> wr_ended r \<and> wr_before r \<noteq> None \<and> wr_after r = wr_before r"

lemma scan_file_complete [simp]: "sc_complete (scan_file w base f st) = sc_complete st"
  by (simp add: scan_file_def Let_def split: sum.splits)

lemma fold_scan_file_complete [simp]: "sc_complete (fold (scan_file w base) fs st) = sc_complete st"
  by (induction fs arbitrary: st) simp_all

lemma walk_complete:
  "b \<in> set (sc_complete (fold (scan_root w) walks st)) \<Longrightarrow>
     b \<in> set (sc_complete st) \<or> (\<exists>r\<in>set walks. wr_base r = b \<and> walked_fully r)"
proof (induction walks arbitrary: st)
  case (Cons r walks)
  have "b \<in> set (sc_complete (scan_root w r st)) \<Longrightarrow>
      b \<in> set (sc_complete st) \<or> wr_base r = b \<and> walked_fully r"
    by (auto simp: scan_root_def Let_def walked_fully_def split: if_splits)
  with Cons show ?case by fastforce
qed simp

subsection \<open>Properties\<close>


text \<open>A small registry: one transcribed recording whose file \<open>/a\<close> is present.\<close>

definition demo_sig :: "int \<Rightarrow> signature" where
  "demo_sig n = \<lparr>sig_dev = 7, sig_ino = n, sig_size = 100, sig_mtime = 5, sig_ctime = 5\<rparr>"

definition demo_row :: recording where
  "demo_row = \<lparr>rec_id = 1, rec_public = 31, rec_ws = 1, rec_created_by = None, rec_source = Scan,
     rec_path = ''/a'', rec_path_current = True, rec_signature = Some (sig_list (demo_sig 1)),
     rec_filename = ''a'', rec_size = 100, rec_partial_hash = ''p'', rec_content_hash = Some ''c'',
     rec_recorded_at = None, rec_duration = Some 300, rec_language = None, rec_title = None,
     rec_summary = Some ''s'', rec_status = Done, rec_error = None, rec_stt_meta = SqlNull,
     rec_request = None, rec_request_started = None, rec_progress = None, rec_stage_started = None,
     rec_duplicate_of = None, rec_updated_at = 0\<rparr>"

definition demo_registry :: db where
  "demo_registry = empty_db\<lparr>recordings := \<lparr>rows = [demo_row], next_id = 2\<rparr>\<rparr>"

definition demo_files :: "string \<Rightarrow> file_view" where
  "demo_files p = (if p = ''/a'' then \<lparr>fv_before = Some (demo_sig 1), fv_content = Some ''c'',
       fv_after = Some (demo_sig 1)\<rparr>
     else \<lparr>fv_before = None, fv_content = None, fv_after = None\<rparr>)"

text \<open>A registration of \<open>/b\<close> with the given content; \<open>fs\<close> is what the lookups see.\<close>

definition demo_reading :: "string \<Rightarrow> (string \<Rightarrow> file_view) \<Rightarrow> reading" where
  "demo_reading c fs = \<lparr>rd_path = ''/b'', rd_first = Some (demo_sig 2), rd_digest = Some ''p2'',
     rd_full = Some c, rd_duration = Some 300, rd_second = Some (demo_sig 2),
     rd_third = Some (demo_sig 2), rd_moved_fs = fs, rd_original_fs = fs, rd_offset = 0,
     rd_year = 2026, rd_now = 9\<rparr>"

lemma demo_registry_ok: "registry_ok demo_registry"
  by (simp add: registry_ok_def recordings_ok_def table_ok_def demo_registry_def demo_row_def)

lemma demo_row_mem: "demo_row \<in> set (rows (recordings demo_registry))"
  by (simp add: demo_registry_def)

lemmas demo_ingest_defs = demo_registry_def demo_row_def demo_reading_def demo_files_def demo_sig_def
  sig_list_def ingest_file_def register_locked_def register_content_def find_moved_def
  find_by_content_def find_original_def same_content_def has_matching_file_def scalar_def select_def
  current_at_def Let_def


text \<open>C36. Registering a file, whatever the outcome, keeps every recording with its product:
  no row disappears, no title, summary, transcript or share changes, at most one row is
  added, and nothing but the table of recordings is written.\<close>

theorem registration_keeps_work:
  assumes "registry_ok d" "ingest_file rd w src cb verify pub d d = Inr (x, d')"
  shows "d'\<lparr>recordings := recordings d\<rparr> = d \<and>
    (\<exists>new. map work_of (rows (recordings d')) = map work_of (rows (recordings d)) @ new \<and> length new \<le> 1)"
  using ingest_file_keeps [OF assms] by (simp add: derived_kept_def)

theorem registration_keeps_work_witness:
  "\<exists>x d' new. ingest_file (demo_reading ''x'' demo_files) 1 Scan None True 32 demo_registry demo_registry =
     Inr (x, d') \<and> map work_of (rows (recordings d')) = work_of demo_row # new"
proof -
  have "is_ok (ingest_file (demo_reading ''x'' demo_files) 1 Scan None True 32 demo_registry demo_registry)"
    by (simp add: demo_ingest_defs)
  then obtain x d' where res: "ingest_file (demo_reading ''x'' demo_files) 1 Scan None True 32
      demo_registry demo_registry = Inr (x, d')"
    by (auto simp: is_ok_iff)
  from registration_keeps_work [OF demo_registry_ok res]
  obtain new where "map work_of (rows (recordings d')) = map work_of (rows (recordings demo_registry)) @ new"
    by blast
  then have "map work_of (rows (recordings d')) = work_of demo_row # new"
    by (simp add: demo_registry_def)
  with res show ?thesis by (intro exI conjI)
qed


definition demo_walk :: walked_root where
  "demo_walk = \<lparr>wr_base = [''''], wr_before = Some (7, 1), wr_is_dir = True, wr_files = [],
     wr_ended = True, wr_after = Some (7, 1)\<rparr>"


end
