(* ===== verification/Quota.thy ===== *)
theory Quota
  imports Models
begin

text \<open>
  \<open>quota.py\<close>: the usage of a workspace, measured from the job log and the stored
  recordings, and the two checks against its limits. A \<open>float\<close> is a rational number.
  The locale \<open>minute_check\<close> is the contract the worker relies on when it holds a
  recording back and when it releases it.
\<close>

definition WINDOW_DAYS :: int where "WINDOW_DAYS = 30"

record usage =
  used_minutes :: rat
  quota_minutes :: "int option"
  used_bytes :: int
  quota_bytes :: "int option"

definition minutes_left :: "usage \<Rightarrow> rat option" where
  "minutes_left u = map_option (\<lambda>q. max 0 (of_int q - used_minutes u)) (quota_minutes u)"

definition bytes_left :: "usage \<Rightarrow> int option" where
  "bytes_left u = map_option (\<lambda>q. max 0 (q - used_bytes u)) (quota_bytes u)"

text \<open>\<open>QuotaExceeded\<close> with the two values of its message; \<open>DurationUnknown\<close> is a
  subclass of it, told apart by the worker.\<close>

datatype quota_error = StorageExceeded int int | MinutesExceeded rat rat | DurationUnknown

subsection \<open>Measuring\<close>

definition counted :: "nat \<Rightarrow> time \<Rightarrow> job_log \<Rightarrow> bool" where
  "counted w since j \<longleftrightarrow> job_ws j = w \<and> job_stage j = StageTranscribe \<and> job_status j = JobDone \<and>
     since \<le> job_started j"

definition audio_of :: "job_log \<Rightarrow> rat" where
  "audio_of j = (case job_audio j of None \<Rightarrow> 0 | Some a \<Rightarrow> a)"

definition used_seconds :: "db \<Rightarrow> nat \<Rightarrow> time \<Rightarrow> rat" where
  "used_seconds d w since = sum_list (map audio_of (select (counted w since) (job_logs d)))"

definition stored :: "nat \<Rightarrow> recording \<Rightarrow> bool" where
  "stored w r \<longleftrightarrow> rec_ws r = w \<and> rec_status r \<notin> {Missing, Duplicate} \<and> rec_path_current r"

definition stored_bytes :: "db \<Rightarrow> nat \<Rightarrow> int" where
  "stored_bytes d w = sum_list (map rec_size (select (stored w) (recordings d)))"

definition measure_usage :: "db \<Rightarrow> workspace \<Rightarrow> time \<Rightarrow> usage" where
  "measure_usage d w now =
     \<lparr>used_minutes = used_seconds d (ws_id w) (now - days WINDOW_DAYS) / 60,
      quota_minutes = ws_quota_minutes w,
      used_bytes = stored_bytes d (ws_id w),
      quota_bytes = ws_quota_bytes w\<rparr>"

subsection \<open>Checking\<close>

definition check_storage :: "usage \<Rightarrow> int \<Rightarrow> (quota_error, unit) result" where
  "check_storage u incoming =
     (case bytes_left u of
        None \<Rightarrow> Inr ()
      | Some left \<Rightarrow> if incoming \<le> left then Inr () else Inl (StorageExceeded left incoming))"

definition check_minutes :: "usage \<Rightarrow> rat option \<Rightarrow> (quota_error, unit) result" where
  "check_minutes u dur =
     (case minutes_left u of
        None \<Rightarrow> Inr ()
      | Some left \<Rightarrow>
          (case dur of
             None \<Rightarrow> Inl DurationUnknown
           | Some s \<Rightarrow> if left < s / 60 then Inl (MinutesExceeded left (s / 60)) else Inr ()))"

definition transcription_block :: "db \<Rightarrow> recording \<Rightarrow> time \<Rightarrow> quota_error option" where
  "transcription_block d r now =
     (case get_workspace_row d (rec_ws r) of
        None \<Rightarrow> None
      | Some w \<Rightarrow>
          (case check_minutes (measure_usage d w now) (rec_duration r) of
             Inl e \<Rightarrow> Some e
           | Inr _ \<Rightarrow> None))"

definition allows_transcription :: "db \<Rightarrow> recording \<Rightarrow> time \<Rightarrow> bool" where
  "allows_transcription d r now \<longleftrightarrow> transcription_block d r now = None"

subsection \<open>The contract of the minute check\<close>

text \<open>
  \<open>wait\<close> says that the refusal goes away by waiting or by a higher limit. A check that
  passes keeps passing as usage falls and the limit rises; a refusal that waiting does
  not clear is independent of the usage.
\<close>

locale minute_check =
  fixes check :: "usage \<Rightarrow> rat option \<Rightarrow> ('e, unit) result"
    and wait :: "'e \<Rightarrow> bool"
  assumes unlimited: "quota_minutes u = None \<Longrightarrow> check u dur = Inr ()"
    and less_used: "is_ok (check u dur) \<Longrightarrow> used_minutes v \<le> used_minutes u \<Longrightarrow>
      quota_minutes v = quota_minutes u \<Longrightarrow> is_ok (check v dur)"
    and more_quota: "is_ok (check u dur) \<Longrightarrow> quota_minutes u = Some p \<Longrightarrow>
      quota_minutes v = Some q \<Longrightarrow> p \<le> q \<Longrightarrow> used_minutes v = used_minutes u \<Longrightarrow> is_ok (check v dur)"
    and fits: "quota_minutes u = Some q \<Longrightarrow> used_minutes u + s / 60 \<le> of_int q \<Longrightarrow> is_ok (check u (Some s))"
    and hopeless: "check u dur = Inl e \<Longrightarrow> \<not> wait e \<Longrightarrow> quota_minutes v \<noteq> None \<Longrightarrow> check v dur = Inl e"
begin

text \<open>A higher limit, or none, and a smaller usage never turn a pass into a refusal.\<close>

lemma pass_mono:
  assumes "is_ok (check u dur)" "used_minutes v \<le> used_minutes u"
    and "quota_minutes v = None \<or> (\<exists>p q. quota_minutes u = Some p \<and> quota_minutes v = Some q \<and> p \<le> q)"
  shows "is_ok (check v dur)"
proof (cases "quota_minutes v")
  case None
  then show ?thesis by (simp add: unlimited)
next
  case (Some q)
  with assms(3) obtain p where p: "quota_minutes u = Some p" "p \<le> q" by auto
  have "is_ok (check (u\<lparr>quota_minutes := Some q\<rparr>) dur)"
    by (rule more_quota [OF assms(1) p(1) _ p(2)]) simp_all
  then show ?thesis by (rule less_used) (simp_all add: assms(2) Some)
qed

lemma refusal_clears:
  assumes "check u (Some s) = Inl e" "quota_minutes v = Some q" "used_minutes v = 0" "s / 60 \<le> of_int q"
  shows "check v (Some s) = Inr ()"
  using fits [of v q s] assms by (auto simp: is_ok_iff)

end

fun clears_by_waiting :: "quota_error \<Rightarrow> bool" where
  "clears_by_waiting DurationUnknown = False"
| "clears_by_waiting _ = True"

interpretation minutes_quota: minute_check check_minutes clears_by_waiting
proof unfold_locales
  fix u v :: usage and dur :: "rat option" and s :: rat and p q :: int and e :: quota_error
  show "quota_minutes u = None \<Longrightarrow> check_minutes u dur = Inr ()"
    by (simp add: check_minutes_def minutes_left_def)
  show "is_ok (check_minutes u dur) \<Longrightarrow> used_minutes v \<le> used_minutes u \<Longrightarrow>
      quota_minutes v = quota_minutes u \<Longrightarrow> is_ok (check_minutes v dur)"
    by (auto simp: check_minutes_def minutes_left_def max_def split: option.splits if_splits)
  show "is_ok (check_minutes u dur) \<Longrightarrow> quota_minutes u = Some p \<Longrightarrow> quota_minutes v = Some q \<Longrightarrow>
      p \<le> q \<Longrightarrow> used_minutes v = used_minutes u \<Longrightarrow> is_ok (check_minutes v dur)"
    by (auto simp: check_minutes_def minutes_left_def max_def split: option.splits if_splits)
  show "quota_minutes u = Some q \<Longrightarrow> used_minutes u + s / 60 \<le> of_int q \<Longrightarrow> is_ok (check_minutes u (Some s))"
    by (auto simp: check_minutes_def minutes_left_def max_def)
  show "check_minutes u dur = Inl e \<Longrightarrow> \<not> clears_by_waiting e \<Longrightarrow> quota_minutes v \<noteq> None \<Longrightarrow>
      check_minutes v dur = Inl e"
    by (auto simp: check_minutes_def minutes_left_def split: option.splits if_splits)
qed

subsection \<open>How usage moves\<close>

lemma sum_list_filter_mono:
  fixes f :: "'a \<Rightarrow> rat"
  assumes "\<And>x. x \<in> set xs \<Longrightarrow> 0 \<le> f x" and imp: "\<And>x. P x \<Longrightarrow> Q x"
  shows "sum_list (map f (filter P xs)) \<le> sum_list (map f (filter Q xs))"
  using assms(1)
proof (induction xs)
  case (Cons x xs)
  then have "sum_list (map f (filter P xs)) \<le> sum_list (map f (filter Q xs))" "0 \<le> f x" by auto
  then show ?case using imp [of x] by auto
qed simp

text \<open>The recorded lengths are never negative (\<open>ffprobe\<close> and the segment ends are not).\<close>

definition lengths_ok :: "db \<Rightarrow> bool" where
  "lengths_ok d \<longleftrightarrow> (\<forall>j\<in>set (rows (job_logs d)). 0 \<le> audio_of j)"

lemma used_seconds_mono:
  "lengths_ok d \<Longrightarrow> s \<le> t \<Longrightarrow> used_seconds d w t \<le> used_seconds d w s"
  unfolding used_seconds_def select_def
  by (rule sum_list_filter_mono) (auto simp: counted_def lengths_ok_def)

text \<open>The part of a job log row that usage depends on.\<close>

definition ledger_view :: "job_log \<Rightarrow> nat \<times> job_stage \<times> job_status \<times> time \<times> rat option" where
  "ledger_view j = (job_ws j, job_stage j, job_status j, job_started j, job_audio j)"

lemma used_seconds_view:
  "used_seconds d w t = sum_list (map (\<lambda>(_, _, _, _, a). case a of None \<Rightarrow> 0 | Some x \<Rightarrow> x)
     (filter (\<lambda>(ws, st, s, t0, _). ws = w \<and> st = StageTranscribe \<and> s = JobDone \<and> t \<le> t0)
       (map ledger_view (rows (job_logs d)))))"
  by (simp add: used_seconds_def select_def filter_map comp_def ledger_view_def counted_def [abs_def]
      audio_of_def [abs_def])

lemma used_seconds_cong:
  "map ledger_view (rows (job_logs d')) = map ledger_view (rows (job_logs d)) \<Longrightarrow>
   used_seconds d' w t = used_seconds d w t"
  by (simp only: used_seconds_view)

lemma used_seconds_delete_recording [simp]:
  "used_seconds (delete_recording_row i d) w t = used_seconds d w t"
  by (rule used_seconds_cong) (simp add: delete_recording_row_def ledger_view_def)

lemma used_seconds_zero:
  assumes "\<forall>j\<in>set (rows (job_logs d)). counted w since j \<longrightarrow> audio_of j = 0"
  shows "used_seconds d w since = 0"
proof -
  have "map audio_of (select (counted w since) (job_logs d)) = map (\<lambda>_. 0) (select (counted w since) (job_logs d))"
    using assms by (intro map_cong) (auto simp: select_def)
  then show ?thesis unfolding used_seconds_def by (metis sum_list_0)
qed

subsection \<open>Properties\<close>

text \<open>The minute check passes exactly when the workspace has no limit, or the length is
  known and fits into what is left; a length that cannot be read is refused by every
  limited workspace, with its own error.\<close>

theorem check_minutes_exact:
  "check_minutes u dur =
     (case (quota_minutes u, dur) of
        (None, _) \<Rightarrow> Inr ()
      | (Some q, None) \<Rightarrow> Inl DurationUnknown
      | (Some q, Some s) \<Rightarrow>
          if s \<le> 0 \<or> used_minutes u + s / 60 \<le> of_int q then Inr ()
          else Inl (MinutesExceeded (max 0 (of_int q - used_minutes u)) (s / 60)))"
  by (auto simp: check_minutes_def minutes_left_def max_def field_simps split: option.splits)

text \<open>Waiting never hurts: without further transcriptions, a recording that may be
  transcribed now may be transcribed at every later moment.\<close>

theorem transcription_allowed_later:
  assumes "lengths_ok d" "allows_transcription d r now" "now \<le> later"
  shows "allows_transcription d r later"
proof (cases "get_workspace_row d (rec_ws r)")
  case None
  then show ?thesis by (simp add: allows_transcription_def transcription_block_def)
next
  case (Some w)
  have "used_minutes (measure_usage d w later) \<le> used_minutes (measure_usage d w now)"
    using used_seconds_mono [OF assms(1)] assms(3) by (simp add: measure_usage_def divide_right_mono)
  moreover have "is_ok (check_minutes (measure_usage d w now) (rec_duration r))"
    using assms(2) Some
    by (auto simp: allows_transcription_def transcription_block_def is_ok_iff split: sum.splits)
  ultimately have "is_ok (check_minutes (measure_usage d w later) (rec_duration r))"
    using minutes_quota.less_used by (auto simp: measure_usage_def)
  then show ?thesis
    using Some by (auto simp: allows_transcription_def transcription_block_def is_ok_iff)
qed

text \<open>A small database: one workspace with a limit of ten minutes and an old and a recent
  transcription.\<close>

definition demo_ws :: workspace where
  "demo_ws = \<lparr>ws_id = 1, ws_public = 21, ws_slug = ''a'', ws_name = ''A'', ws_kind = Personal,
     ws_last_claimed = None, ws_quota_minutes = Some 10, ws_quota_bytes = Some 1000\<rparr>"

definition demo_job :: "time \<Rightarrow> rat \<Rightarrow> job_log" where
  "demo_job t a = \<lparr>job_id = 0, job_ws = 1, job_recording = None, job_stage = StageTranscribe,
     job_status = JobDone, job_started = t, job_finished = Some t, job_audio = Some a,
     job_elapsed = None, job_device = None, job_model = None, job_error = None\<rparr>"

definition demo_recording :: recording where
  "demo_recording = \<lparr>rec_id = 1, rec_public = 31, rec_ws = 1, rec_created_by = None,
     rec_source = Upload, rec_path = ''/u/a.wav'', rec_path_current = True, rec_signature = None,
     rec_filename = ''a.wav'', rec_size = 100, rec_partial_hash = ''p'', rec_content_hash = Some ''c'',
     rec_recorded_at = None, rec_duration = Some 300, rec_language = None, rec_title = None,
     rec_summary = None, rec_status = Pending, rec_error = None, rec_stt_meta = SqlNull,
     rec_request = None, rec_request_started = None, rec_progress = None, rec_stage_started = None,
     rec_duplicate_of = None, rec_updated_at = 0\<rparr>"

definition demo_quota_db :: db where
  "demo_quota_db = empty_db\<lparr>workspaces := insert_row set_ws_id demo_ws empty_table,
     job_logs := insert_row set_job_id (demo_job (days 40) 300)
       (insert_row set_job_id (demo_job 0 600) empty_table)\<rparr>"

theorem transcription_allowed_later_witness:
  "allows_transcription demo_quota_db demo_recording (days 41) \<and>
   allows_transcription demo_quota_db demo_recording (days 42)"
proof -
  have ok: "lengths_ok demo_quota_db"
    by (simp add: lengths_ok_def demo_quota_db_def audio_of_def demo_job_def)
  have now: "allows_transcription demo_quota_db demo_recording (days 41)"
    by (simp add: allows_transcription_def transcription_block_def by_id_def scalar_def demo_quota_db_def
        check_minutes_def minutes_left_def measure_usage_def used_seconds_def select_def counted_def
        audio_of_def demo_job_def demo_ws_def demo_recording_def empty_table_def WINDOW_DAYS_def time_defs)
  from now transcription_allowed_later [OF ok now, of "days 42"] show ?thesis
    by (simp add: time_defs)
qed

text \<open>The limit recovers: when no transcription of the workspace was started in the last
  30 days, a recording whose length fits into the limit is allowed, whatever was used before.\<close>

theorem quota_recovers:
  assumes "get_workspace_row d (rec_ws r) = Some w" "ws_id w = rec_ws r" "ws_quota_minutes w = Some q"
    and "rec_duration r = Some s" "s / 60 \<le> of_int q"
    and idle: "\<forall>j\<in>set (rows (job_logs d)). job_ws j = rec_ws r \<and> job_stage j = StageTranscribe \<longrightarrow>
      job_started j < now - days 30"
  shows "allows_transcription d r now"
proof -
  have "used_seconds d (ws_id w) (now - days WINDOW_DAYS) = 0"
    using idle assms(2) by (intro used_seconds_zero) (auto simp: counted_def WINDOW_DAYS_def)
  then have "is_ok (check_minutes (measure_usage d w now) (Some s))"
    using assms(3,5) by (intro minutes_quota.fits [where q = q]) (simp_all add: measure_usage_def)
  then show ?thesis
    using assms(1,4) by (auto simp: allows_transcription_def transcription_block_def is_ok_iff)
qed

theorem quota_recovers_witness: "allows_transcription demo_quota_db demo_recording (days 100)"
  by (rule quota_recovers [where w = demo_ws and q = 10 and s = 300])
    (simp_all add: by_id_def scalar_def demo_quota_db_def demo_ws_def demo_recording_def
      empty_table_def demo_job_def time_defs)

end
