(* ===== verification/Bearer_Tokens.thy ===== *)
theory Bearer_Tokens
  imports Models
begin

text \<open>
  Sessions, invites and share links are found the same way: a random token is hashed,
  the row with that hash is looked up, and a row that is expired, revoked or used up is
  treated as absent. \<open>load_live\<close> is that lookup; the locale \<open>bearer_token\<close> is
  its contract, interpreted by \<open>Auth_Sessions\<close>, \<open>Tenancy\<close> and \<open>Sharing\<close> for
  their own rows. The hash is the parameter \<open>H\<close>: the code stores
  \<open>sha256(token)\<close> and compares hashes only.
\<close>

definition load_live ::
  "(string \<Rightarrow> string) \<Rightarrow> ('r \<Rightarrow> string) \<Rightarrow> (time \<Rightarrow> 'r \<Rightarrow> bool) \<Rightarrow> time \<Rightarrow> string \<Rightarrow> 'r list \<Rightarrow> 'r option" where
  "load_live H token_of live now raw xs =
     (case find (\<lambda>r. token_of r = H raw) xs of
        None \<Rightarrow> None
      | Some r \<Rightarrow> if live now r then Some r else None)"

locale bearer_token =
  fixes token_of :: "'r \<Rightarrow> string"
    and live :: "time \<Rightarrow> 'r \<Rightarrow> bool"
    and revoke :: "time \<Rightarrow> 'r \<Rightarrow> 'r"
  assumes revoke_token [simp]: "token_of (revoke t r) = token_of r"
    and revoke_dead [simp]: "\<not> live now (revoke t r)"
    and live_antimono: "live t r \<Longrightarrow> t' \<le> t \<Longrightarrow> live t' r"
begin

lemma load_Some: "load_live H token_of live now raw xs = Some r \<Longrightarrow>
    r \<in> set xs \<and> token_of r = H raw \<and> live now r"
  by (auto simp: load_live_def find_Some_iff split: option.splits if_splits)

lemma load_later:
  "load_live H token_of live t' raw xs = Some r \<Longrightarrow> t \<le> t' \<Longrightarrow> load_live H token_of live t raw xs = Some r"
  by (auto simp: load_live_def live_antimono split: option.splits if_splits)

lemma load_stays_dead:
  "load_live H token_of live t raw xs = None \<Longrightarrow> t \<le> t' \<Longrightarrow> load_live H token_of live t' raw xs = None"
  using load_later by (metis not_None_eq)

lemma load_revoke_where:
  "load_live H token_of live now raw (map (\<lambda>r. if P r then revoke t r else r) xs) =
     (case load_live H token_of live now raw xs of
        None \<Rightarrow> None | Some r \<Rightarrow> if P r then None else Some r)"
proof -
  have "find (\<lambda>r. token_of r = H raw) (map (\<lambda>r. if P r then revoke t r else r) xs) =
      map_option (\<lambda>r. if P r then revoke t r else r) (find (\<lambda>r. token_of r = H raw) xs)"
    by (rule find_map_if) simp
  then show ?thesis by (auto simp: load_live_def split: option.splits)
qed

lemma load_delete_dead:
  assumes "distinct (map token_of xs)" and dead: "\<And>r. r \<in> set xs \<Longrightarrow> P r \<Longrightarrow> \<not> live now r"
  shows "load_live H token_of live now raw (filter (\<lambda>r. \<not> P r) xs) = load_live H token_of live now raw xs"
  using assms
proof (induction xs)
  case Nil
  then show ?case by simp
next
  case (Cons x xs)
  show ?case
  proof (cases "token_of x = H raw")
    case True
    with Cons.prems(1) have "find (\<lambda>r. token_of r = H raw) (filter (\<lambda>r. \<not> P r) xs) = None"
      by (force simp: find_None_iff image_iff)
    with True Cons.prems(2) show ?thesis by (auto simp: load_live_def)
  next
    case False
    with Cons show ?thesis by (auto simp: load_live_def)
  qed
qed

lemma load_append_fresh:
  assumes "\<forall>r\<in>set xs. token_of r \<noteq> H raw" and "token_of r = H raw"
  shows "load_live H token_of live now raw (xs @ [r]) = (if live now r then Some r else None)"
proof -
  have "find (\<lambda>r. token_of r = H raw) xs = None"
    using assms(1) by (simp add: find_None_iff)
  with assms(2) show ?thesis by (simp add: load_live_def find_append)
qed

end

end
