(* ===== verification/Auth_Sessions.thy ===== *)
theory Auth_Sessions
  imports Bearer_Tokens
begin

text \<open>
  \<open>auth.py\<close>: passwords, tokens and login sessions. The password hasher (argon2) is a
  third-party package: \<open>verify_password\<close> takes its verification function. Tokens are
  random, so each issuing operation takes the token it issues. The session table is
  changed by issuing, touching, revoking and sweeping; \<open>session_step\<close> collects them.
\<close>

definition TOKEN_BYTES :: nat where "TOKEN_BYTES = 32"
definition PASSWORD_MIN :: nat where "PASSWORD_MIN = 8"
definition SESSION_IDLE_DAYS :: int where "SESSION_IDLE_DAYS = 14"
definition SESSION_ABSOLUTE_DAYS :: int where "SESSION_ABSOLUTE_DAYS = 90"
definition SESSION_TOUCH_INTERVAL :: time where "SESSION_TOUCH_INTERVAL = hours 1"
definition SESSION_KEEP_AFTER :: time where "SESSION_KEEP_AFTER = days 7"

lemmas session_consts = SESSION_IDLE_DAYS_def SESSION_ABSOLUTE_DAYS_def SESSION_TOUCH_INTERVAL_def
  SESSION_KEEP_AFTER_def

subsection \<open>Passwords\<close>

text \<open>\<open>verify\<close> stands for \<open>PasswordHasher.verify\<close> without its exceptions, \<open>dummy\<close> for
  the hash made at load time for accounts that do not exist.\<close>

definition verify_password ::
  "(string \<Rightarrow> string \<Rightarrow> bool) \<Rightarrow> string \<Rightarrow> string option \<Rightarrow> string \<Rightarrow> bool" where
  "verify_password verify dummy stored password =
     (let target = (case stored of Some h \<Rightarrow> h | None \<Rightarrow> dummy)
      in if \<not> verify target password then False else stored \<noteq> None)"

lemma verify_password_iff:
  "verify_password verify dummy stored pw \<longleftrightarrow> (\<exists>h. stored = Some h \<and> verify h pw)"
  by (auto simp: verify_password_def Let_def split: option.splits)

subsection \<open>Sessions\<close>

definition create_session ::
  "(string \<Rightarrow> string) \<Rightarrow> string \<Rightarrow> string \<Rightarrow> user \<Rightarrow> string option \<Rightarrow> string option \<Rightarrow> time \<Rightarrow> db \<Rightarrow>
   user_session \<times> db" where
  "create_session H raw csrf u agent ip now d =
     (let absolute = now + days SESSION_ABSOLUTE_DAYS;
          s = \<lparr>ses_id = 0, ses_user = usr_id u, ses_token_hash = H raw, ses_csrf = csrf,
               ses_issued_at = now, ses_last_seen = now,
               ses_expires = min (now + days SESSION_IDLE_DAYS) absolute, ses_absolute = absolute,
               ses_revoked = None, ses_agent = agent, ses_ip = ip\<rparr>
      in (s\<lparr>ses_id := next_id (user_sessions d)\<rparr>,
          d\<lparr>user_sessions := insert_row set_ses_id s (user_sessions d)\<rparr>))"

definition load_session :: "(string \<Rightarrow> string) \<Rightarrow> db \<Rightarrow> string \<Rightarrow> time \<Rightarrow> user_session option" where
  "load_session H d raw now =
     (case scalar (\<lambda>s. ses_token_hash s = H raw) (user_sessions d) of
        None \<Rightarrow> None
      | Some s \<Rightarrow>
          if ses_revoked s \<noteq> None then None
          else if ses_expires s \<le> now \<or> ses_absolute s \<le> now then None
          else Some s)"

text \<open>The loaded row is an ORM object: the flush writes the two attributes it set.\<close>

definition touch_session :: "db \<Rightarrow> user_session \<Rightarrow> time \<Rightarrow> bool \<times> db" where
  "touch_session d s now =
     (if now - ses_last_seen s < SESSION_TOUCH_INTERVAL then (False, d)
      else (True, d\<lparr>user_sessions := update_where (\<lambda>r. ses_id r = ses_id s)
             (\<lambda>r. r\<lparr>ses_last_seen := now,
                    ses_expires := min (now + days SESSION_IDLE_DAYS) (ses_absolute s)\<rparr>)
             (user_sessions d)\<rparr>))"

definition revoke_session :: "db \<Rightarrow> user_session \<Rightarrow> time \<Rightarrow> db" where
  "revoke_session d s now = d\<lparr>user_sessions :=
     update_where (\<lambda>r. ses_id r = ses_id s) (\<lambda>r. r\<lparr>ses_revoked := Some now\<rparr>) (user_sessions d)\<rparr>"

text \<open>The rows the loop stamps: those of the account that are not revoked, without \<open>keep\<close>.\<close>

definition other_session :: "nat \<Rightarrow> user_session option \<Rightarrow> user_session \<Rightarrow> bool" where
  "other_session uid keep s \<longleftrightarrow> ses_user s = uid \<and> ses_revoked s = None \<and>
     (case keep of None \<Rightarrow> True | Some k \<Rightarrow> ses_id s \<noteq> ses_id k)"

definition revoke_other_sessions ::
  "db \<Rightarrow> nat \<Rightarrow> user_session option \<Rightarrow> time \<Rightarrow> nat \<times> db" where
  "revoke_other_sessions d uid keep now =
     (length (select (other_session uid keep) (user_sessions d)),
      d\<lparr>user_sessions := update_where (other_session uid keep) (\<lambda>s. s\<lparr>ses_revoked := Some now\<rparr>)
         (user_sessions d)\<rparr>)"

definition sweepable :: "time \<Rightarrow> user_session \<Rightarrow> bool" where
  "sweepable cutoff s \<longleftrightarrow> ses_absolute s < cutoff \<or> ses_expires s < cutoff \<or>
     (case ses_revoked s of None \<Rightarrow> False | Some t \<Rightarrow> t < cutoff)"

definition sweep_sessions :: "db \<Rightarrow> time \<Rightarrow> nat \<times> db" where
  "sweep_sessions d now =
     (let cutoff = now - SESSION_KEEP_AFTER
      in (length (select (sweepable cutoff) (user_sessions d)),
          d\<lparr>user_sessions := delete_where (sweepable cutoff) (user_sessions d)\<rparr>))"

subsection \<open>Sessions are bearer tokens\<close>

definition session_live :: "time \<Rightarrow> user_session \<Rightarrow> bool" where
  "session_live now s \<longleftrightarrow> ses_revoked s = None \<and> now < ses_expires s \<and> now < ses_absolute s"

interpretation session_token: bearer_token ses_token_hash session_live
  "\<lambda>t s. s\<lparr>ses_revoked := Some t\<rparr>"
  by unfold_locales (auto simp: session_live_def)

lemma load_session_eq:
  "load_session H d raw now = load_live H ses_token_hash session_live now raw (rows (user_sessions d))"
  by (auto simp: load_session_def load_live_def scalar_def session_live_def split: option.splits)

lemma load_session_Some:
  "load_session H d raw now = Some s \<Longrightarrow>
     s \<in> set (rows (user_sessions d)) \<and> ses_token_hash s = H raw \<and> session_live now s"
  unfolding load_session_eq by (rule session_token.load_Some)

subsection \<open>The life of the session table\<close>

text \<open>The request path touches the session it loaded (\<open>current_principal\<close>); logging out
  revokes it; a password change, an account status change and a password reset revoke the
  others; the worker sweeps.\<close>

inductive session_step :: "(string \<Rightarrow> string) \<Rightarrow> db \<Rightarrow> db \<Rightarrow> bool" for H where
  issue: "session_step H d (snd (create_session H raw csrf u agent ip now d))"
| request: "load_session H d raw now = Some s \<Longrightarrow> session_step H d (snd (touch_session d s now))"
| logout: "load_session H d raw now = Some s \<Longrightarrow> session_step H d (revoke_session d s now)"
| revoke_others: "session_step H d (snd (revoke_other_sessions d uid keep now))"
| sweep: "session_step H d (snd (sweep_sessions d now))"
| other: "user_sessions d' = user_sessions d \<Longrightarrow> session_step H d d'"

inductive session_reachable :: "(string \<Rightarrow> string) \<Rightarrow> db \<Rightarrow> bool" for H where
  start: "user_sessions d = empty_table \<Longrightarrow> session_reachable H d"
| step: "session_reachable H d \<Longrightarrow> session_step H d d' \<Longrightarrow> session_reachable H d'"

text \<open>What every row satisfies: the absolute limit is fixed at issue, the idle limit
  never passes it and is at most the idle time after the last touch.\<close>

definition session_wf :: "user_session \<Rightarrow> bool" where
  "session_wf s \<longleftrightarrow> ses_absolute s = ses_issued_at s + days SESSION_ABSOLUTE_DAYS \<and>
     ses_expires s \<le> ses_absolute s \<and> ses_expires s \<le> ses_last_seen s + days SESSION_IDLE_DAYS"

definition all_sessions_wf :: "db \<Rightarrow> bool" where
  "all_sessions_wf d \<longleftrightarrow> table_ok ses_id (user_sessions d) \<and> (\<forall>s\<in>set (rows (user_sessions d)). session_wf s)"

lemma touch_wf:
  assumes "all_sessions_wf d" "s \<in> set (rows (user_sessions d))"
  shows "all_sessions_wf (snd (touch_session d s now))"
proof -
  have ok: "table_ok ses_id (user_sessions d)" using assms(1) by (simp add: all_sessions_wf_def)
  have same: "\<forall>r\<in>set (rows (user_sessions d)). ses_id r = ses_id s \<longrightarrow> r = s"
    using ses_tbl.same_key [OF ok _ assms(2)] by blast
  have wf: "\<forall>r\<in>set (rows (user_sessions d)). session_wf r"
    using assms(1) by (simp add: all_sessions_wf_def)
  with assms(2) have "session_wf (s\<lparr>ses_last_seen := now,
      ses_expires := min (now + days SESSION_IDLE_DAYS) (ses_absolute s)\<rparr>)"
    by (simp add: session_wf_def)
  with ok wf same show ?thesis
    by (auto simp: touch_session_def all_sessions_wf_def intro!: ses_tbl.update_ok)
qed

lemma session_step_wf: "session_step H d d' \<Longrightarrow> all_sessions_wf d \<Longrightarrow> all_sessions_wf d'"
proof (induction rule: session_step.induct)
  case (issue d raw csrf u agent ip now)
  then show ?case
    by (auto simp: create_session_def Let_def all_sessions_wf_def session_wf_def session_consts
        time_defs intro!: ses_tbl.insert_ok)
next
  case (request d raw now s)
  then show ?case using load_session_Some [OF request(1)] by (blast intro: touch_wf)
next
  case (logout d raw now s)
  then show ?case
    by (auto simp: revoke_session_def all_sessions_wf_def session_wf_def intro!: ses_tbl.update_ok)
next
  case (revoke_others d uid keep now)
  then show ?case
    by (auto simp: revoke_other_sessions_def Let_def all_sessions_wf_def session_wf_def
        intro!: ses_tbl.update_ok)
next
  case (sweep d now)
  then show ?case
    by (auto simp: sweep_sessions_def Let_def all_sessions_wf_def intro!: ses_tbl.delete_ok)
next
  case (other d' d)
  then show ?case by (simp add: all_sessions_wf_def)
qed

lemma session_reachable_wf: "session_reachable H d \<Longrightarrow> all_sessions_wf d"
proof (induction rule: session_reachable.induct)
  case (start d)
  then show ?case by (simp add: all_sessions_wf_def ses_tbl.empty_ok)
next
  case (step d d')
  then show ?case by (blast intro: session_step_wf)
qed

subsection \<open>Properties\<close>

text \<open>C18. However sessions are issued, touched, revoked and swept, a session that loads is
  the one issued for that token, not revoked, within 90 days of its issue and within
  14 days of the last request that touched it.\<close>

theorem session_lifetime:
  assumes "session_reachable H d" and "load_session H d raw now = Some s"
  shows "ses_token_hash s = H raw \<and> ses_revoked s = None \<and>
    now < ses_issued_at s + days 90 \<and> now < ses_last_seen s + days 14"
proof -
  have s: "s \<in> set (rows (user_sessions d))" "ses_token_hash s = H raw" "session_live now s"
    using load_session_Some [OF assms(2)] by auto
  moreover have "session_wf s"
    using session_reachable_wf [OF assms(1)] s(1) by (simp add: all_sessions_wf_def)
  ultimately show ?thesis by (auto simp: session_live_def session_wf_def session_consts)
qed

definition demo_user :: user where
  "demo_user = \<lparr>usr_id = 1, usr_public = 11, usr_email = ''a@b.c'', usr_password_hash = ''h'',
     usr_display_name = ''A'', usr_status = UActive, usr_signup_note = None, usr_reviewed_by = None,
     usr_reviewed_at = None, usr_service_admin = False, usr_default_ws = None, usr_last_login = None,
     usr_created_at = 0\<rparr>"

theorem session_lifetime_witness:
  "\<exists>s. load_session id (snd (create_session id ''t'' ''c'' demo_user None None 5 empty_db)) ''t'' 6 = Some s \<and>
     6 < ses_issued_at s + days 90"
proof -
  let ?d = "snd (create_session id ''t'' ''c'' demo_user None None 5 empty_db)"
  have "session_reachable id empty_db"
    by (rule session_reachable.start) (simp add: empty_db_def)
  then have r: "session_reachable id ?d"
    by (rule session_reachable.step) (rule session_step.issue)
  have "load_session id ?d ''t'' 6 \<noteq> None"
    by (simp add: load_session_def create_session_def Let_def scalar_def empty_db_def session_consts time_defs)
  then obtain s where s: "load_session id ?d ''t'' 6 = Some s" by blast
  from session_lifetime [OF r s] s show ?thesis by blast
qed

text \<open>Revoking the other sessions of an account (password change, reset, leaving the
  active status) kills every session of the account but the kept one, at every later
  moment, and no session of anyone else.\<close>

lemma load_revoke_others:
  "load_session H (snd (revoke_other_sessions d uid keep now)) raw t =
     (case load_session H d raw t of
        None \<Rightarrow> None
      | Some s \<Rightarrow> if ses_user s = uid \<and> map_option ses_id keep \<noteq> Some (ses_id s) then None else Some s)"
  using load_session_Some [of H d raw t]
  by (cases "load_session H d raw t"; cases keep)
    (auto simp: load_session_eq revoke_other_sessions_def session_token.load_revoke_where
      other_session_def session_live_def)

text \<open>The sweep of dead sessions never changes what a lookup finds, from a week before
  the sweep on.\<close>

theorem sweep_sessions_invisible:
  assumes "sessions_ok d" and "now - days 7 \<le> t"
  shows "load_session H (snd (sweep_sessions d now)) raw t = load_session H d raw t"
proof -
  have "\<not> session_live t s" if "sweepable (now - SESSION_KEEP_AFTER) s" for s
    using that assms(2)
    by (auto simp: sweepable_def session_live_def session_consts split: option.splits)
  then show ?thesis
    using assms(1)
    by (simp add: load_session_eq sweep_sessions_def Let_def sessions_ok_def session_token.load_delete_dead)
qed

theorem sweep_sessions_invisible_witness:
  "load_session id (snd (sweep_sessions (snd (create_session id ''t'' ''c'' demo_user None None 5 empty_db)) 6))
     ''t'' 6 \<noteq> None"
proof -
  let ?d = "snd (create_session id ''t'' ''c'' demo_user None None 5 empty_db)"
  have ok: "sessions_ok ?d"
    by (simp add: sessions_ok_def table_ok_def create_session_def Let_def empty_db_def empty_table_def)
  have "load_session id (snd (sweep_sessions ?d 6)) ''t'' 6 = load_session id ?d ''t'' 6"
    by (rule sweep_sessions_invisible [OF ok]) (simp add: time_defs)
  moreover have "load_session id ?d ''t'' 6 \<noteq> None"
    by (simp add: load_session_def create_session_def Let_def scalar_def empty_db_def session_consts time_defs)
  ultimately show ?thesis by simp
qed

end
