(* ===== verification/Ratelimit.thy ===== *)
theory Ratelimit
  imports Models
begin

text \<open>
  \<open>ratelimit.py\<close>: fixed-window counters in the table \<open>auth_attempts\<close>, and
  \<open>Deps.guard_attempts\<close>, which commits the increments of an admitted attempt and
  rolls back those of a refused one. Every counter is read at the moment the code reads
  the clock for it, so an attempt carries one moment per axis. The hash of a target is
  the parameter \<open>H\<close> (sha256).
\<close>

record limit =
  max_attempts :: int
  window :: time

text \<open>\<open>int(now.timestamp())\<close> truncates towards zero.\<close>

definition epoch_seconds :: "time \<Rightarrow> int" where
  "epoch_seconds t = (if 0 \<le> t then t div 1000000 else - ((- t) div 1000000))"

definition start_of :: "limit \<Rightarrow> time \<Rightarrow> time" where
  "start_of l now =
     (let secs = window l div 1000000; epoch = epoch_seconds now
      in seconds (epoch - epoch mod secs))"

definition WINDOW :: time where "WINDOW = minutes 15"
definition PER_SOURCE :: limit where "PER_SOURCE = \<lparr>max_attempts = 30, window = WINDOW\<rparr>"
definition PER_TARGET :: limit where "PER_TARGET = \<lparr>max_attempts = 10, window = WINDOW\<rparr>"
definition SWEEP_AFTER :: time where "SWEEP_AFTER = WINDOW * 4"

lemmas rate_consts = WINDOW_def PER_SOURCE_def PER_TARGET_def SWEEP_AFTER_def

subsection \<open>Keys\<close>

definition ip_text :: "string option \<Rightarrow> string" where
  "ip_text ip = (case ip of None \<Rightarrow> ''unknown'' | Some s \<Rightarrow> if s = [] then ''unknown'' else s)"

definition source_key :: "string \<Rightarrow> string option \<Rightarrow> string" where
  "source_key kind ip = kind @ '':src:'' @ ip_text ip"

definition target_key :: "(string \<Rightarrow> string) \<Rightarrow> string \<Rightarrow> string option \<Rightarrow> string \<Rightarrow> string" where
  "target_key H kind ip target = kind @ '':pair:'' @ ip_text ip @ '':'' @ take 32 (H target)"

subsection \<open>Counting\<close>

definition attempt_at :: "string \<Rightarrow> time \<Rightarrow> auth_attempt \<Rightarrow> bool" where
  "attempt_at key w a \<longleftrightarrow> att_key a = key \<and> att_window a = w"

text \<open>\<open>INSERT ... ON CONFLICT DO UPDATE SET count = count + 1 RETURNING count\<close>\<close>

definition hit :: "db \<Rightarrow> string \<Rightarrow> limit \<Rightarrow> time \<Rightarrow> int \<times> db" where
  "hit d key l now =
     (let w = start_of l now
      in case scalar (attempt_at key w) (attempts d) of
           Some a \<Rightarrow>
             let c = att_count a + 1
             in (if c = 0 then 1 else c,
                 d\<lparr>attempts := update_where (attempt_at key w) (\<lambda>a. a\<lparr>att_count := att_count a + 1\<rparr>)
                    (attempts d)\<rparr>)
         | None \<Rightarrow>
             (1, d\<lparr>attempts := insert_row set_att_id
                     \<lparr>att_id = 0, att_key = key, att_window = w, att_count = 1\<rparr> (attempts d)\<rparr>))"

definition clear :: "db \<Rightarrow> string \<Rightarrow> db" where
  "clear d key = d\<lparr>attempts := delete_where (\<lambda>a. att_key a = key) (attempts d)\<rparr>"

type_synonym axis = "(string \<times> limit) \<times> time"

fun guard :: "db \<Rightarrow> axis list \<Rightarrow> bool \<times> db" where
  "guard d [] = (False, d)"
| "guard d (((key, l), now) # ks) =
     (let (c, d1) = hit d key l now; (over, d2) = guard d1 ks in (max_attempts l < c \<or> over, d2))"

definition sweep_attempts :: "db \<Rightarrow> time \<Rightarrow> db" where
  "sweep_attempts d now =
     d\<lparr>attempts := delete_where (\<lambda>a. att_window a < now - SWEEP_AFTER) (attempts d)\<rparr>"

definition count_of :: "db \<Rightarrow> string \<Rightarrow> limit \<Rightarrow> time \<Rightarrow> int" where
  "count_of d key l now =
     (case scalar (attempt_at key (start_of l now)) (attempts d) of None \<Rightarrow> 0 | Some a \<Rightarrow> att_count a)"

text \<open>\<open>Deps.guard_attempts\<close>: over the limit is HTTP 429 and the session closes without a
  commit; otherwise the increments are committed.\<close>

definition guard_attempts :: "db \<Rightarrow> axis list \<Rightarrow> bool \<times> db" where
  "guard_attempts d ks = (let (over, d') = guard d ks in if over then (False, d) else (True, d'))"

definition clear_attempts :: "db \<Rightarrow> string list \<Rightarrow> db" where
  "clear_attempts d keys = fold (\<lambda>k d. clear d k) keys d"

subsection \<open>The counter of a key and a window\<close>

definition counter :: "db \<Rightarrow> string \<Rightarrow> time \<Rightarrow> int" where
  "counter d key w = (case scalar (attempt_at key w) (attempts d) of None \<Rightarrow> 0 | Some a \<Rightarrow> att_count a)"

lemma count_of_counter: "count_of d key l now = counter d key (start_of l now)"
  by (simp add: count_of_def counter_def)

definition attempts_wf :: "db \<Rightarrow> bool" where
  "attempts_wf d \<longleftrightarrow> attempts_ok d \<and> (\<forall>a\<in>set (rows (attempts d)). 1 \<le> att_count a)"

lemma counter_nonneg: "attempts_wf d \<Longrightarrow> 0 \<le> counter d key w"
  by (auto simp: counter_def attempts_wf_def split: option.splits dest!: scalar_Some)

lemma attempt_pair_update:
  "map (\<lambda>a. (att_key a, att_window a)) (map (\<lambda>a. if P a then a\<lparr>att_count := f a\<rparr> else a) xs) =
   map (\<lambda>a. (att_key a, att_window a)) xs"
  by (induction xs) auto

lemma hit_wf:
  assumes "attempts_wf d"
  shows "attempts_wf (snd (hit d key l now))"
proof (cases "scalar (attempt_at key (start_of l now)) (attempts d)")
  case None
  then have "(key, start_of l now) \<notin> (\<lambda>a. (att_key a, att_window a)) ` set (rows (attempts d))"
    by (auto simp: scalar_None attempt_at_def)
  with None assms show ?thesis
    by (auto simp: hit_def Let_def attempts_wf_def attempts_ok_def intro!: att_tbl.insert_ok)
next
  case (Some a)
  with assms show ?thesis
    by (auto simp: hit_def Let_def attempts_wf_def attempts_ok_def attempt_pair_update
        simp del: map_map intro!: att_tbl.update_ok)
qed

lemma hit_counter:
  "counter (snd (hit d key l now)) k w =
     counter d k w + (if k = key \<and> w = start_of l now then 1 else 0)"
proof (cases "scalar (attempt_at key (start_of l now)) (attempts d)")
  case None
  then show ?thesis
    by (auto simp: hit_def Let_def counter_def scalar_def find_append attempt_at_def
        split: option.splits)
next
  case (Some a)
  let ?w = "start_of l now"
  let ?upd = "\<lambda>a. if attempt_at key ?w a then a\<lparr>att_count := att_count a + 1\<rparr> else a"
  have rows: "rows (attempts (snd (hit d key l now))) = map ?upd (rows (attempts d))"
    using Some by (simp add: hit_def Let_def)
  have "find (attempt_at k w) (map ?upd (rows (attempts d))) =
      map_option ?upd (find (attempt_at k w) (rows (attempts d)))"
    by (rule find_map_if) (simp add: attempt_at_def)
  then have eq: "counter (snd (hit d key l now)) k w =
      (case find (attempt_at k w) (rows (attempts d)) of None \<Rightarrow> 0 | Some b \<Rightarrow> att_count (?upd b))"
    by (cases "find (attempt_at k w) (rows (attempts d))") (simp_all only: counter_def scalar_def rows
        option.map option.case)
  show ?thesis
  proof (cases "k = key \<and> w = ?w")
    case True
    with Some have "find (attempt_at k w) (rows (attempts d)) = Some a" "attempt_at key ?w a"
      by (auto simp: scalar_def find_Some_iff)
    with eq True show ?thesis by (simp add: counter_def scalar_def)
  next
    case False
    show ?thesis
    proof (cases "find (attempt_at k w) (rows (attempts d))")
      case None
      with eq False show ?thesis by (simp add: counter_def scalar_def)
    next
      case (Some b)
      then have "attempt_at k w b" by (auto simp: find_Some_iff)
      with False have "\<not> attempt_at key ?w b" by (auto simp: attempt_at_def)
      with eq False Some show ?thesis by (auto simp: counter_def scalar_def)
    qed
  qed
qed

lemma hit_value:
  assumes "attempts_wf d"
  shows "fst (hit d key l now) = counter d key (start_of l now) + 1"
  using counter_nonneg [OF assms, of key "start_of l now"]
  by (auto simp: hit_def Let_def counter_def split: option.splits)

lemma guard_wf: "attempts_wf d \<Longrightarrow> attempts_wf (snd (guard d ks))"
proof (induction d ks rule: guard.induct)
  case (2 d key l now ks)
  obtain c d1 where h: "hit d key l now = (c, d1)" by fastforce
  with hit_wf [OF 2(2), of key l now] have "attempts_wf d1" by simp
  with 2(1) [OF h [symmetric] refl] h show ?case by (simp add: split_beta)
qed simp

lemma guard_counter_mono: "counter d k w \<le> counter (snd (guard d ks)) k w"
proof (induction d ks rule: guard.induct)
  case (2 d key l now ks)
  obtain c d1 where h: "hit d key l now = (c, d1)" by fastforce
  have "counter d k w \<le> counter d1 k w" using hit_counter [of d key l now k w] h by simp
  also have "\<dots> \<le> counter (snd (guard d1 ks)) k w" using 2 [OF h [symmetric] refl] .
  finally show ?case using h by (simp add: split_beta)
qed simp

text \<open>An admitted guard has counted each of its axes, and none of them was full.\<close>

lemma guard_admitted:
  assumes "attempts_wf d" "\<not> fst (guard d ks)" "((k, l), t) \<in> set ks"
  shows "counter d k (start_of l t) + 1 \<le> max_attempts l"
    and "counter d k (start_of l t) + 1 \<le> counter (snd (guard d ks)) k (start_of l t)"
proof -
  have "counter d k (start_of l t) + 1 \<le> max_attempts l \<and>
      counter d k (start_of l t) + 1 \<le> counter (snd (guard d ks)) k (start_of l t)"
    using assms
  proof (induction d ks rule: guard.induct)
    case (2 d key lim now ks)
    obtain c d1 where h: "hit d key lim now = (c, d1)" by fastforce
    have d1: "attempts_wf d1" using hit_wf [OF 2(2), of key lim now] h by simp
    have up: "counter d k (start_of l t) \<le> counter d1 k (start_of l t)"
      using hit_counter [of d key lim now k "start_of l t"] h by simp
    show ?case
    proof (cases "((k, l), t) = ((key, lim), now)")
      case True
      then have "counter d1 k (start_of l t) = counter d k (start_of l t) + 1"
        using hit_counter [of d key lim now k "start_of l t"] h by simp
      moreover have "c = counter d k (start_of l t) + 1"
        using hit_value [OF 2(2), of key lim now] h True by simp
      ultimately show ?thesis
        using 2(3) True h guard_counter_mono [of d1 k "start_of l t" ks] by (simp add: split_beta)
    next
      case False
      then have "((k, l), t) \<in> set ks" using 2(4) by auto
      moreover have "\<not> fst (guard d1 ks)" using 2(3) h by (simp add: split_beta)
      ultimately show ?thesis using 2(1) [OF h [symmetric] refl d1] up h by (simp add: split_beta)
    qed
  qed simp
  then show "counter d k (start_of l t) + 1 \<le> max_attempts l"
    and "counter d k (start_of l t) + 1 \<le> counter (snd (guard d ks)) k (start_of l t)" by auto
qed

subsection \<open>A period of attempts\<close>

text \<open>What happens to the table between two clearings of a key: guarded attempts of any
  kind, successes on other keys, sweeps by the worker.\<close>

datatype rate_event = Attempt "axis list" | ClearKeys "string list" | SweepAt time

fun rate_step :: "db \<Rightarrow> rate_event \<Rightarrow> bool \<times> db" where
  "rate_step d (Attempt ks) = guard_attempts d ks"
| "rate_step d (ClearKeys keys) = (False, clear_attempts d keys)"
| "rate_step d (SweepAt t) = (False, sweep_attempts d t)"

text \<open>The number of admitted attempts that counted on the axis \<open>(k, l)\<close>.\<close>

fun counts_on :: "string \<Rightarrow> limit \<Rightarrow> rate_event \<Rightarrow> bool" where
  "counts_on k l (Attempt ks) = (\<exists>x\<in>set ks. fst x = (k, l))"
| "counts_on k l _ = False"

fun admitted :: "string \<Rightarrow> limit \<Rightarrow> db \<Rightarrow> rate_event list \<Rightarrow> int" where
  "admitted k l d [] = 0"
| "admitted k l d (e # es) =
     (if counts_on k l e \<and> fst (rate_step d e) then 1 else 0) + admitted k l (snd (rate_step d e)) es"

text \<open>An event inside the window \<open>w\<close> that does not clear the key.\<close>

fun in_window :: "string \<Rightarrow> limit \<Rightarrow> time \<Rightarrow> rate_event \<Rightarrow> bool" where
  "in_window k l w (Attempt ks) = (\<forall>x\<in>set ks. fst x = (k, l) \<longrightarrow> start_of l (snd x) = w)"
| "in_window k l w (ClearKeys keys) = (k \<notin> set keys)"
| "in_window k l w (SweepAt t) = (t - SWEEP_AFTER \<le> w)"

lemma clear_attempts_rows:
  "attempts (clear_attempts d keys) = delete_where (\<lambda>a. att_key a \<in> set keys) (attempts d)"
  unfolding clear_attempts_def
  by (induction keys arbitrary: d) (auto simp: clear_def delete_where_def intro!: filter_cong)

lemma delete_attempts_wf:
  "attempts_wf d \<Longrightarrow> attempts d' = delete_where P (attempts d) \<Longrightarrow> attempts_wf d'"
  by (auto simp: attempts_wf_def attempts_ok_def distinct_map inj_on_def intro: att_tbl.delete_ok)

lemma find_filter_irrelevant:
  "(\<And>x. P x \<Longrightarrow> \<not> Q x) \<Longrightarrow> find P (filter (\<lambda>x. \<not> Q x) xs) = find P xs"
  by (induction xs) auto

lemma delete_attempts_counter:
  assumes "attempts d' = delete_where P (attempts d)" and "\<And>a. attempt_at k w a \<Longrightarrow> \<not> P a"
  shows "counter d' k w = counter d k w"
  unfolding counter_def scalar_def assms(1) rows_delete_where
  by (subst find_filter_irrelevant) (use assms(2) in auto)

lemma rate_step_wf: "attempts_wf d \<Longrightarrow> attempts_wf (snd (rate_step d e))"
proof (cases e)
  case (Attempt ks)
  assume "attempts_wf d"
  with guard_wf [of d ks] Attempt show ?thesis by (simp add: guard_attempts_def split_beta)
qed (auto intro: delete_attempts_wf simp: clear_attempts_rows sweep_attempts_def)

lemma rate_step_counter:
  assumes "attempts_wf d" "in_window k l w e"
  shows "counter d k w + (if counts_on k l e \<and> fst (rate_step d e) then 1 else 0)
    \<le> counter (snd (rate_step d e)) k w"
proof (cases e)
  case (Attempt ks)
  show ?thesis
  proof (cases "fst (guard d ks)")
    case True
    with Attempt show ?thesis by (simp add: guard_attempts_def split_beta)
  next
    case False
    show ?thesis
    proof (cases "counts_on k l e")
      case True
      then obtain t where "((k, l), t) \<in> set ks" "start_of l t = w"
        using Attempt assms(2) by fastforce
      with guard_admitted(2) [OF assms(1) False] False True Attempt show ?thesis
        by (fastforce simp: guard_attempts_def split_beta)
    next
      case no: False
      with False Attempt guard_counter_mono [of d k w ks] show ?thesis
        by (simp add: guard_attempts_def split_beta)
    qed
  qed
next
  case (ClearKeys keys)
  with assms(2) have "counter (clear_attempts d keys) k w = counter d k w"
    by (intro delete_attempts_counter [OF clear_attempts_rows]) (auto simp: attempt_at_def)
  with ClearKeys show ?thesis by simp
next
  case (SweepAt t)
  with assms(2) have "counter (sweep_attempts d t) k w = counter d k w"
    by (intro delete_attempts_counter [where P = "\<lambda>a. att_window a < t - SWEEP_AFTER"])
      (auto simp: sweep_attempts_def attempt_at_def)
  with SweepAt show ?thesis by simp
qed

lemma rate_step_admits:
  assumes "attempts_wf d" "in_window k l w e" "counts_on k l e" "fst (rate_step d e)"
  shows "counter d k w + 1 \<le> max_attempts l"
proof (cases e)
  case (Attempt ks)
  then obtain t where "((k, l), t) \<in> set ks" "start_of l t = w"
    using assms(2,3) by fastforce
  moreover have "\<not> fst (guard d ks)"
    using assms(4) Attempt by (auto simp: guard_attempts_def split_beta split: if_splits)
  ultimately show ?thesis using guard_admitted(1) [OF assms(1)] by blast
qed (use assms(3) in simp_all)

lemma admitted_bound:
  assumes "attempts_wf d" "\<forall>e\<in>set es. in_window k l w e" "counter d k w \<le> max_attempts l"
  shows "admitted k l d es \<le> max_attempts l - counter d k w"
  using assms
proof (induction es arbitrary: d)
  case Nil
  then show ?case by simp
next
  case (Cons e es)
  let ?d = "snd (rate_step d e)"
  have win: "in_window k l w e" using Cons.prems(2) by simp
  have wf: "attempts_wf ?d" using rate_step_wf [OF Cons.prems(1)] .
  note up = rate_step_counter [OF Cons.prems(1) win]
  show ?case
  proof (cases "counter ?d k w \<le> max_attempts l")
    case True
    with Cons.IH [OF wf] Cons.prems(2) up show ?thesis by simp
  next
    case False
    have none: "admitted k l d' es' = 0"
      if "attempts_wf d'" "\<forall>e\<in>set es'. in_window k l w e" "max_attempts l < counter d' k w" for d' es'
      using that
    proof (induction es' arbitrary: d')
      case (Cons f fs)
      have fw: "in_window k l w f" using Cons.prems(2) by simp
      have "\<not> (counts_on k l f \<and> fst (rate_step d' f))"
        using rate_step_admits [OF Cons.prems(1) fw] Cons.prems(3) by auto
      moreover have "max_attempts l < counter (snd (rate_step d' f)) k w"
        using rate_step_counter [OF Cons.prems(1) fw] Cons.prems(3) by (auto split: if_splits)
      ultimately show ?case
        using Cons.IH [OF rate_step_wf [OF Cons.prems(1)]] Cons.prems(2) by simp
    qed simp
    have "admitted k l ?d es = 0" using none [OF wf] Cons.prems(2) False by simp
    then show ?thesis
      using rate_step_admits [OF Cons.prems(1) win] Cons.prems(3) by auto
  qed
qed

text \<open>The window a moment falls in, for windows of a whole number of seconds.\<close>

lemma start_of_bounds:
  assumes "0 \<le> t" "window l = seconds n" "0 < n"
  shows "start_of l t \<le> t \<and> t < start_of l t + window l"
proof -
  let ?e = "t div 1000000"
  have "start_of l t = (?e - ?e mod n) * 1000000"
    using assms by (simp add: start_of_def epoch_seconds_def seconds_def Let_def)
  moreover have "0 \<le> ?e mod n" "?e mod n < n" using assms(3) by simp_all
  moreover have "?e * 1000000 \<le> t" "t < (?e + 1) * 1000000" by presburger+
  ultimately show ?thesis using assms(2) by (simp add: seconds_def algebra_simps)
qed

subsection \<open>Properties\<close>

text \<open>C35. Within one window, whatever else happens to the table (attempts on other axes,
  clearings of other keys, sweeps), at most \<open>max_attempts\<close> attempts that count on an
  axis are admitted.\<close>

theorem admitted_at_most_max:
  assumes "attempts_wf d" "counter d k w = 0" "0 \<le> max_attempts l" "\<forall>e\<in>set es. in_window k l w e"
  shows "admitted k l d es \<le> max_attempts l"
  using admitted_bound [OF assms(1,4)] assms(2,3) by simp

theorem admitted_at_most_max_witness:
  "admitted ''k'' PER_TARGET empty_db (replicate 12 (Attempt [((''k'', PER_TARGET), 5)])) \<le> 10"
proof -
  have "attempts_wf empty_db"
    by (simp add: attempts_wf_def attempts_ok_def empty_db_def table_ok_def)
  then have "admitted ''k'' PER_TARGET empty_db (replicate 12 (Attempt [((''k'', PER_TARGET), 5)]))
      \<le> max_attempts PER_TARGET"
    by (rule admitted_at_most_max [where w = "start_of PER_TARGET 5"])
      (simp_all add: counter_def scalar_def empty_db_def PER_TARGET_def)
  then show ?thesis by (simp add: PER_TARGET_def)
qed

text \<open>The counter and the limit of an axis.\<close>

definition axis_slot :: "axis \<Rightarrow> string \<times> time" where
  "axis_slot x = (fst (fst x), start_of (snd (fst x)) (snd x))"

definition axis_free :: "db \<Rightarrow> axis \<Rightarrow> bool" where
  "axis_free d x \<longleftrightarrow> count_of d (fst (fst x)) (snd (fst x)) (snd x) < max_attempts (snd (fst x))"

lemma guard_exact:
  assumes "attempts_wf d" "distinct (map axis_slot ks)"
  shows "(fst (guard d ks) \<longleftrightarrow> (\<exists>x\<in>set ks. \<not> axis_free d x)) \<and>
    (\<forall>k w. counter (snd (guard d ks)) k w =
       counter d k w + (if (k, w) \<in> axis_slot ` set ks then 1 else 0))"
  using assms
proof (induction d ks rule: guard.induct)
  case (1 d)
  then show ?case by simp
next
  case (2 d key lim now ks)
  obtain c d1 where h: "hit d key lim now = (c, d1)" by fastforce
  have d1: "attempts_wf d1" using hit_wf [OF 2(2), of key lim now] h by simp
  have c: "c = counter d key (start_of lim now) + 1"
    using hit_value [OF 2(2), of key lim now] h by simp
  have cnt: "counter d1 k w = counter d k w + (if (k, w) = (key, start_of lim now) then 1 else 0)" for k w
    using hit_counter [of d key lim now k w] h by simp
  have fresh: "axis_slot x \<noteq> (key, start_of lim now)" if "x \<in> set ks" for x
    using 2(3) that by (auto simp: axis_slot_def)
  have same: "axis_free d1 x = axis_free d x" if "x \<in> set ks" for x
    using fresh [OF that] by (auto simp: axis_free_def count_of_counter cnt axis_slot_def)
  have head: "max_attempts lim < c \<longleftrightarrow> \<not> axis_free d ((key, lim), now)"
    using c by (auto simp: axis_free_def count_of_counter)
  have IH: "(fst (guard d1 ks) \<longleftrightarrow> (\<exists>x\<in>set ks. \<not> axis_free d x)) \<and>
      (\<forall>k w. counter (snd (guard d1 ks)) k w =
         counter d1 k w + (if (k, w) \<in> axis_slot ` set ks then 1 else 0))"
    using 2(1) [OF h [symmetric] refl d1] 2(3) same by auto
  have notin: "(key, start_of lim now) \<notin> axis_slot ` set ks" using fresh by (metis imageE)
  show ?case
    using IH notin h head by (auto simp: split_beta cnt axis_slot_def [of "((key, lim), now)"])
qed

text \<open>The guard refuses only when an axis is really full: an attempt whose axes are
  pairwise different counters is admitted exactly when every counter is below its limit;
  it then raises each of them by one and no other, and a refused attempt leaves the table
  as it was.\<close>

theorem guard_attempts_exact:
  assumes "attempts_wf d" "distinct (map axis_slot ks)"
  shows "if \<forall>x\<in>set ks. axis_free d x
    then fst (guard_attempts d ks) \<and>
      (\<forall>k w. counter (snd (guard_attempts d ks)) k w =
         counter d k w + (if (k, w) \<in> axis_slot ` set ks then 1 else 0))
    else guard_attempts d ks = (False, d)"
  using guard_exact [OF assms] by (auto simp: guard_attempts_def split_beta)

theorem guard_attempts_exact_witness:
  "fst (guard_attempts empty_db [((''s'', PER_SOURCE), 5), ((''p'', PER_TARGET), 5)])"
proof -
  let ?ks = "[((''s'', PER_SOURCE), 5), ((''p'', PER_TARGET), 5)] :: axis list"
  have "attempts_wf empty_db"
    by (simp add: attempts_wf_def attempts_ok_def empty_db_def table_ok_def)
  moreover have "distinct (map axis_slot ?ks)" by (simp add: axis_slot_def)
  ultimately have "if \<forall>x\<in>set ?ks. axis_free empty_db x
    then fst (guard_attempts empty_db ?ks) \<and>
      (\<forall>k w. counter (snd (guard_attempts empty_db ?ks)) k w =
         counter empty_db k w + (if (k, w) \<in> axis_slot ` set ?ks then 1 else 0))
    else guard_attempts empty_db ?ks = (False, empty_db)"
    by (rule guard_attempts_exact)
  moreover have "\<forall>x\<in>set ?ks. axis_free empty_db x"
    by (simp add: axis_free_def count_of_def scalar_def empty_db_def rate_consts)
  ultimately show ?thesis by (simp only: if_True)
qed

end
