(* ===== verification/Worker_Queue.thy ===== *)
theory Worker_Queue
  imports Registry Quota Auth_Sessions Ratelimit
begin

text \<open>
  The queue half of \<open>worker.py\<close>: putting interrupted, failed, unsummarised and held-back
  recordings back in line, and claiming the next one. Rows that another transaction has
  locked are the sets \<open>lw\<close> (workspaces) and \<open>lr\<close> (recordings); \<open>SKIP LOCKED\<close> passes
  over them. The database clock and the process clock are the same \<open>now\<close>.
\<close>

definition STALE_AFTER :: time where "STALE_AFTER = minutes 5"
definition HEARTBEAT_EVERY :: time where "HEARTBEAT_EVERY = seconds 30"
definition MAINTENANCE_CHUNK :: nat where "MAINTENANCE_CHUNK = 200"

definition CLAIMABLE :: "recording_status list" where "CLAIMABLE = [Pending]"
definition ENRICH_WAITING :: recording_status where "ENRICH_WAITING = Enriching"
definition CLAIM_TIERS :: "recording_status list list" where
  "CLAIM_TIERS = [CLAIMABLE, [ENRICH_WAITING]]"
definition CLAIMABLE_STATUSES :: "recording_status list" where
  "CLAIMABLE_STATUSES = concat CLAIM_TIERS"
definition IN_FLIGHT :: "recording_status list" where
  "IN_FLIGHT = [Transcribing, Diarizing, Summarizing]"

lemmas queue_consts = CLAIMABLE_def ENRICH_WAITING_def CLAIM_TIERS_def CLAIMABLE_STATUSES_def IN_FLIGHT_def

subsection \<open>Putting recordings back in line\<close>

text \<open>Every matched row changes its status, so the flush writes each of them.\<close>

definition is_stale :: "time \<Rightarrow> recording \<Rightarrow> bool" where
  "is_stale now r \<longleftrightarrow> rec_status r \<in> set IN_FLIGHT \<and> rec_path_current r \<and>
     rec_updated_at r < now - STALE_AFTER"

definition recover_in_flight :: "time \<Rightarrow> db \<Rightarrow> nat \<times> db" where
  "recover_in_flight now d =
     (length (select (is_stale now) (recordings d)),
      update_recordings now (is_stale now)
        (\<lambda>r. r\<lparr>rec_status := resume_status d r, rec_progress := None, rec_stage_started := None\<rparr>) d)"

text \<open>\<open>_has_transcript()\<close> and the CASE over it.\<close>

definition has_transcript :: "db \<Rightarrow> recording \<Rightarrow> bool" where
  "has_transcript d r \<longleftrightarrow> (rec_stt_meta r \<noteq> SqlNull \<and> rec_stt_meta r \<noteq> JsonNull) \<or>
     (\<exists>s\<in>set (rows (segments d)). seg_recording s = rec_id r)"

definition sql_resume :: "db \<Rightarrow> recording \<Rightarrow> recording_status" where
  "sql_resume d r =
     (if rec_summary r \<noteq> None then Done else if has_transcript d r then ENRICH_WAITING else Pending)"

definition is_failed :: "nat option \<Rightarrow> recording \<Rightarrow> bool" where
  "is_failed w r \<longleftrightarrow> rec_status r = Error \<and> rec_path_current r \<and>
     (case w of None \<Rightarrow> True | Some x \<Rightarrow> rec_ws r = x)"

definition retry_failed :: "nat option \<Rightarrow> time \<Rightarrow> db \<Rightarrow> nat \<times> db" where
  "retry_failed w now d =
     (length (select (is_failed w) (recordings d)),
      update_recordings now (is_failed w)
        (\<lambda>r. r\<lparr>rec_status := sql_resume d r, rec_error := None, rec_progress := None,
               rec_stage_started := None\<rparr>) d)"

definition is_unenriched :: "db \<Rightarrow> recording \<Rightarrow> bool" where
  "is_unenriched d r \<longleftrightarrow> rec_status r = Done \<and> rec_path_current r \<and> rec_summary r = None \<and>
     has_transcript d r"

definition requeue_unenriched :: "time \<Rightarrow> db \<Rightarrow> nat \<times> db" where
  "requeue_unenriched now d =
     (length (select (is_unenriched d) (recordings d)),
      update_recordings now (is_unenriched d) (\<lambda>r. r\<lparr>rec_status := ENRICH_WAITING\<rparr>) d)"

definition is_blocked :: "recording \<Rightarrow> bool" where
  "is_blocked r \<longleftrightarrow> rec_status r = QuotaBlocked \<and> rec_path_current r"

text \<open>The usage is measured once per workspace, before anything is written: the dictionary
  \<open>usages\<close> is the function of the workspace.\<close>

definition usage_of :: "db \<Rightarrow> time \<Rightarrow> nat \<Rightarrow> usage option" where
  "usage_of d now w = map_option (\<lambda>x. measure_usage d x now) (get_workspace_row d w)"

definition is_freed :: "db \<Rightarrow> time \<Rightarrow> recording \<Rightarrow> bool" where
  "is_freed d now r =
     (case usage_of d now (rec_ws r) of
        None \<Rightarrow> True
      | Some u \<Rightarrow> is_ok (check_minutes u (rec_duration r)))"

definition freed_ids :: "db \<Rightarrow> time \<Rightarrow> nat list" where
  "freed_ids d now = map rec_id (filter (is_freed d now) (select is_blocked (recordings d)))"

definition release_chunk :: "time \<Rightarrow> nat list \<Rightarrow> db \<Rightarrow> db" where
  "release_chunk now ids d = update_recordings now (\<lambda>r. rec_id r \<in> set ids)
     (\<lambda>r. r\<lparr>rec_status := sql_resume d r, rec_progress := None, rec_stage_started := None\<rparr>) d"

definition release_quota_blocked :: "time \<Rightarrow> db \<Rightarrow> nat \<times> db" where
  "release_quota_blocked now d =
     (let freed = freed_ids d now
      in if freed = [] then (0, d)
         else (length freed, fold (release_chunk now) (chunks MAINTENANCE_CHUNK freed) d))"

definition idle_maintenance :: "time \<Rightarrow> db \<Rightarrow> db" where
  "idle_maintenance now d =
     (let (recovered, d1) = recover_in_flight now d;
          (released, d2) = release_quota_blocked now d1;
          (swept, d3) = sweep_sessions d2 now
      in sweep_attempts d3 now)"

subsection \<open>Claiming\<close>

text \<open>\<open>ORDER BY ... LIMIT 1\<close>: the first row under a strict order.\<close>

definition first_by :: "('a \<Rightarrow> 'a \<Rightarrow> bool) \<Rightarrow> 'a list \<Rightarrow> 'a option" where
  "first_by before xs =
     (case xs of [] \<Rightarrow> None | x # xs \<Rightarrow> Some (fold (\<lambda>y b. if before y b then y else b) xs x))"

text \<open>\<open>recorded_at DESC NULLS LAST, id DESC\<close>\<close>

definition newer :: "recording \<Rightarrow> recording \<Rightarrow> bool" where
  "newer r s = (case (rec_recorded_at r, rec_recorded_at s) of
     (Some t, Some u) \<Rightarrow> u < t \<or> (t = u \<and> rec_id s < rec_id r)
   | (Some _, None) \<Rightarrow> True
   | (None, Some _) \<Rightarrow> False
   | (None, None) \<Rightarrow> rec_id s < rec_id r)"

text \<open>\<open>last_claimed_at ASC NULLS FIRST, id\<close>\<close>

definition waits_longer :: "workspace \<Rightarrow> workspace \<Rightarrow> bool" where
  "waits_longer v w = (case (ws_last_claimed v, ws_last_claimed w) of
     (Some t, Some u) \<Rightarrow> t < u \<or> (t = u \<and> ws_id v < ws_id w)
   | (None, Some _) \<Rightarrow> True
   | (Some _, None) \<Rightarrow> False
   | (None, None) \<Rightarrow> ws_id v < ws_id w)"

definition workspaces_with_work :: "db \<Rightarrow> nat list" where
  "workspaces_with_work d = remdups (map rec_ws
     (select (\<lambda>r. rec_status r \<in> set CLAIMABLE_STATUSES \<and> rec_path_current r) (recordings d)))"

definition in_tier :: "nat set \<Rightarrow> nat \<Rightarrow> recording_status list \<Rightarrow> recording \<Rightarrow> bool" where
  "in_tier lr w tier r \<longleftrightarrow> rec_ws r = w \<and> rec_status r \<in> set tier \<and> rec_path_current r \<and> rec_id r \<notin> lr"

fun claim_tiers :: "nat set \<Rightarrow> db \<Rightarrow> nat \<Rightarrow> recording_status list list \<Rightarrow> recording option" where
  "claim_tiers lr d w [] = None"
| "claim_tiers lr d w (tier # tiers) =
     (case first_by newer (select (in_tier lr w tier) (recordings d)) of
        Some r \<Rightarrow> Some r
      | None \<Rightarrow> claim_tiers lr d w tiers)"

definition claim_in_workspace :: "nat set \<Rightarrow> db \<Rightarrow> nat \<Rightarrow> recording option" where
  "claim_in_workspace lr d w = claim_tiers lr d w CLAIM_TIERS"

definition stamp_workspace :: "time \<Rightarrow> nat \<Rightarrow> db \<Rightarrow> db" where
  "stamp_workspace now w d = d\<lparr>workspaces :=
     update_where (\<lambda>x. ws_id x = w) (\<lambda>x. x\<lparr>ws_last_claimed := Some now\<rparr>) (workspaces d)\<rparr>"

definition next_workspace :: "nat set \<Rightarrow> nat list \<Rightarrow> db \<Rightarrow> workspace option" where
  "next_workspace lw eligible d =
     first_by waits_longer (select (\<lambda>w. ws_id w \<in> set eligible \<and> ws_id w \<notin> lw) (workspaces d))"

fun claim_loop ::
  "nat \<Rightarrow> nat set \<Rightarrow> nat set \<Rightarrow> nat list \<Rightarrow> time \<Rightarrow> db \<Rightarrow> recording option \<times> db" where
  "claim_loop 0 lw lr eligible now d = (None, d)"
| "claim_loop (Suc n) lw lr eligible now d =
     (case next_workspace lw eligible d of
        None \<Rightarrow> (None, d)
      | Some w \<Rightarrow>
          let d1 = stamp_workspace now (ws_id w) d
          in case claim_in_workspace lr d1 (ws_id w) of
               Some r \<Rightarrow> (Some r, d1)
             | None \<Rightarrow> claim_loop n lw lr eligible now d1)"

definition claim_next :: "nat set \<Rightarrow> nat set \<Rightarrow> time \<Rightarrow> db \<Rightarrow> recording option \<times> db" where
  "claim_next lw lr now d =
     (let eligible = workspaces_with_work d
      in case eligible of
           [] \<Rightarrow> (None, d)
         | [w] \<Rightarrow> (claim_in_workspace lr d w, d)
         | _ \<Rightarrow> claim_loop (length eligible) lw lr eligible now d)"

subsection \<open>The first row of an order\<close>

lemma first_by_None: "first_by before xs = None \<longleftrightarrow> xs = []"
  by (simp add: first_by_def split: list.splits)

lemma fold_first:
  assumes "\<And>x y z. before x y \<Longrightarrow> before y z \<Longrightarrow> before x z" and "\<And>x. \<not> before x x"
    and "\<And>x y z. before x z \<Longrightarrow> before x y \<or> before y z"
  shows "fold (\<lambda>y b. if before y b then y else b) xs x \<in> insert x (set xs) \<and>
    (\<forall>y\<in>insert x (set xs). \<not> before y (fold (\<lambda>y b. if before y b then y else b) xs x))"
proof (induction xs arbitrary: x)
  case Nil
  then show ?case by (simp add: assms(2))
next
  case (Cons y xs)
  define z where "z = (if before y x then y else x)"
  define b where "b = fold (\<lambda>y b. if before y b then y else b) xs z"
  have IH: "b \<in> insert z (set xs)" "\<forall>u\<in>insert z (set xs). \<not> before u b"
    using Cons [of z] by (auto simp: b_def)
  have "\<not> before x b" "\<not> before y b"
    using IH(2) assms by (metis insertI1 z_def)+
  moreover have "b \<in> insert x (set (y # xs))" using IH(1) by (auto simp: z_def split: if_splits)
  ultimately show ?case using IH(2) by (auto simp: b_def z_def)
qed

text \<open>A strict order given by its negation being transitive (a weak order).\<close>

definition weak_order :: "('a \<Rightarrow> 'a \<Rightarrow> bool) \<Rightarrow> bool" where
  "weak_order before \<longleftrightarrow> (\<forall>x. \<not> before x x) \<and> (\<forall>x y z. before x y \<longrightarrow> before y z \<longrightarrow> before x z) \<and>
     (\<forall>x y z. before x z \<longrightarrow> before x y \<or> before y z)"

lemma first_by_Some:
  assumes "weak_order before" "first_by before xs = Some x"
  shows "x \<in> set xs \<and> (\<forall>y\<in>set xs. \<not> before y x)"
proof (cases xs)
  case (Cons z zs)
  with assms(2) have "x = fold (\<lambda>y b. if before y b then y else b) zs z" by (simp add: first_by_def)
  with fold_first [of before zs z] assms(1) Cons show ?thesis unfolding weak_order_def by auto
qed (use assms in \<open>simp add: first_by_def\<close>)

lemma weak_order_newer: "weak_order newer"
  unfolding weak_order_def newer_def by (intro conjI allI impI) (auto split: option.splits)

lemma weak_order_waits: "weak_order waits_longer"
  unfolding weak_order_def waits_longer_def by (intro conjI allI impI) (auto split: option.splits)

subsection \<open>Rows after a bulk update\<close>

lemma update_recordings_by_id:
  assumes "\<And>r. rec_id (f r) = rec_id r"
  shows "get_recording (update_recordings now P f d) i =
    map_option (\<lambda>r. if P r then (f r)\<lparr>rec_updated_at := now\<rparr> else r) (get_recording d i)"
  unfolding update_recordings_def by (simp, rule rec_tbl.by_id_update) (simp add: assms)

lemma update_recordings_frame [simp]:
  "segments (update_recordings now P f d) = segments d"
  "job_logs (update_recordings now P f d) = job_logs d"
  "workspaces (update_recordings now P f d) = workspaces d"
  by (simp_all add: update_recordings_def)

lemma has_transcript_iff: "has_transcript d r \<longleftrightarrow> meta_value (rec_stt_meta r) \<noteq> None \<or> segments_of d (rec_id r) \<noteq> []"
  by (cases "rec_stt_meta r") (auto simp: has_transcript_def segments_of_Nil)

text \<open>The CASE of the bulk updates is \<open>resume_status\<close> for a row without an original; the
  invariant of the registry gives that for every row it is applied to.\<close>

lemma sql_resume_eq: "rec_duplicate_of r = None \<Longrightarrow> sql_resume d r = resume_status d r"
  by (simp add: sql_resume_def resume_status_def has_transcript_iff ENRICH_WAITING_def)

lemma registry_not_duplicate:
  assumes "registry_ok d" "get_recording d i = Some r" "rec_status r \<notin> {Duplicate, Missing}"
  shows "rec_duplicate_of r = None"
  using assms rec_tbl.by_id_SomeD [OF assms(2)] by (cases "rec_duplicate_of r") (auto simp: registry_ok_def)

lemma is_freed_iff: "is_freed d now r \<longleftrightarrow> allows_transcription d r now"
  by (auto simp: is_freed_def usage_of_def allows_transcription_def transcription_block_def
      is_ok_iff split: option.splits sum.splits)

definition requeued :: "db \<Rightarrow> time \<Rightarrow> recording \<Rightarrow> recording" where
  "requeued d now r = r\<lparr>rec_status := resume_status d r, rec_progress := None,
     rec_stage_started := None, rec_updated_at := now\<rparr>"

lemma release_chunk_by_id:
  "get_recording (release_chunk now ids d) i =
     map_option (\<lambda>r. if rec_id r \<in> set ids then r\<lparr>rec_status := sql_resume d r, rec_progress := None,
       rec_stage_started := None, rec_updated_at := now\<rparr> else r) (get_recording d i)"
  unfolding release_chunk_def by (subst update_recordings_by_id) simp_all

lemma sql_resume_cong:
  "segments d' = segments d \<Longrightarrow> rec_summary r' = rec_summary r \<Longrightarrow> rec_stt_meta r' = rec_stt_meta r \<Longrightarrow>
     rec_id r' = rec_id r \<Longrightarrow> sql_resume d' r' = sql_resume d r"
  by (simp add: sql_resume_def has_transcript_def)

lemma release_chunks_by_id:
  assumes "get_recording d i = Some r"
  shows "get_recording (fold (release_chunk now) idss d) i =
    Some (if i \<in> set (concat idss) then r\<lparr>rec_status := sql_resume d r, rec_progress := None,
       rec_stage_started := None, rec_updated_at := now\<rparr> else r)"
  using assms
proof (induction idss arbitrary: d r)
  case (Cons ids idss)
  let ?d = "release_chunk now ids d"
  have id: "rec_id r = i" using rec_tbl.by_id_SomeD [OF Cons.prems] by simp
  let ?f = "\<lambda>r. r\<lparr>rec_status := sql_resume d r, rec_progress := None,
    rec_stage_started := None, rec_updated_at := now\<rparr>"
  let ?r = "if i \<in> set ids then ?f r else r"
  have seg: "segments ?d = segments d" by (simp add: release_chunk_def)
  have "get_recording ?d i = Some ?r"
    using Cons.prems id by (simp add: release_chunk_by_id)
  note step = Cons.IH [OF this]
  have same: "sql_resume ?d ?r = sql_resume d r"
    by (rule sql_resume_cong [OF seg]) simp_all
  show ?case
    using step unfolding same by simp
qed simp

subsection \<open>Claims within a workspace\<close>

lemma claim_tiers_Some:
  "claim_tiers lr d w tiers = Some c \<Longrightarrow>
     \<exists>pre tier post. tiers = pre @ tier # post \<and> c \<in> set (rows (recordings d)) \<and> in_tier lr w tier c \<and>
       (\<forall>r\<in>set (rows (recordings d)). in_tier lr w tier r \<longrightarrow> \<not> newer r c) \<and>
       (\<forall>t\<in>set pre. \<forall>r\<in>set (rows (recordings d)). \<not> in_tier lr w t r)"
proof (induction tiers)
  case (Cons tier tiers)
  show ?case
  proof (cases "first_by newer (select (in_tier lr w tier) (recordings d))")
    case (Some r)
    with Cons.prems have "r = c" by simp
    with first_by_Some [OF weak_order_newer Some] show ?thesis
      by (intro exI [of _ "[]"] exI [of _ tier] exI [of _ tiers]) (simp add: select_def)
  next
    case None
    then have none: "\<forall>r\<in>set (rows (recordings d)). \<not> in_tier lr w tier r"
      by (auto simp: first_by_None select_def filter_empty_conv)
    from None Cons.prems have "claim_tiers lr d w tiers = Some c" by simp
    from Cons.IH [OF this] obtain pre t post where "tiers = pre @ t # post" and
      rest: "c \<in> set (rows (recordings d)) \<and> in_tier lr w t c \<and>
       (\<forall>r\<in>set (rows (recordings d)). in_tier lr w t r \<longrightarrow> \<not> newer r c) \<and>
       (\<forall>t\<in>set pre. \<forall>r\<in>set (rows (recordings d)). \<not> in_tier lr w t r)" by blast
    then have "tier # tiers = (tier # pre) @ t # post" by simp
    with rest none show ?thesis by (metis set_ConsD)
  qed
qed simp

lemma claim_tiers_None:
  "claim_tiers lr d w tiers = None \<longleftrightarrow> (\<forall>tier\<in>set tiers. \<forall>r\<in>set (rows (recordings d)). \<not> in_tier lr w tier r)"
proof (induction tiers)
  case (Cons tier tiers)
  show ?case
  proof (cases "first_by newer (select (in_tier lr w tier) (recordings d))")
    case None
    then have "claim_tiers lr d w (tier # tiers) = claim_tiers lr d w tiers"
      by simp
    moreover have "\<forall>r\<in>set (rows (recordings d)). \<not> in_tier lr w tier r"
      using None by (simp add: first_by_None select_def filter_empty_conv)
    ultimately show ?thesis using Cons by simp
  next
    case (Some r)
    with first_by_Some [OF weak_order_newer Some] show ?thesis by (auto simp: select_def)
  qed
qed simp

text \<open>Work a claim could take: waiting, current and not locked.\<close>

definition available :: "nat set \<Rightarrow> db \<Rightarrow> nat \<Rightarrow> recording \<Rightarrow> bool" where
  "available lr d w r \<longleftrightarrow> r \<in> set (rows (recordings d)) \<and> rec_ws r = w \<and>
     rec_status r \<in> {Pending, Enriching} \<and> rec_path_current r \<and> rec_id r \<notin> lr"

lemma claim_in_workspace_None: "claim_in_workspace lr d w = None \<longleftrightarrow> (\<nexists>r. available lr d w r)"
  unfolding claim_in_workspace_def claim_tiers_None
  by (auto simp: in_tier_def available_def queue_consts)

lemma claim_in_workspace_Some:
  assumes "claim_in_workspace lr d w = Some c"
  shows "available lr d w c \<and> (\<forall>r. available lr d w r \<longrightarrow>
    (rec_status r = rec_status c \<longrightarrow> \<not> newer r c) \<and> (rec_status r = Pending \<longrightarrow> rec_status c = Pending))"
proof -
  from claim_tiers_Some [OF assms [unfolded claim_in_workspace_def]]
  obtain pre tier post where t: "CLAIM_TIERS = pre @ tier # post" and c: "c \<in> set (rows (recordings d))"
    "in_tier lr w tier c" and first: "\<forall>r\<in>set (rows (recordings d)). in_tier lr w tier r \<longrightarrow> \<not> newer r c"
    and pre: "\<forall>t\<in>set pre. \<forall>r\<in>set (rows (recordings d)). \<not> in_tier lr w t r" by blast
  from t consider "tier = [Pending]" | "tier = [Enriching]" "pre = [[Pending]]"
    by (cases pre; cases "tl pre") (auto simp: queue_consts)
  then show ?thesis
    using c first pre by cases (auto simp: in_tier_def available_def)
qed

lemma stamp_frame [simp]:
  "recordings (stamp_workspace now w d) = recordings d"
  by (simp add: stamp_workspace_def)

lemma claim_in_workspace_stamp [simp]:
  "claim_in_workspace lr (stamp_workspace now v d) w = claim_in_workspace lr d w"
proof -
  have "claim_tiers lr (stamp_workspace now v d) w tiers = claim_tiers lr d w tiers" for tiers
    by (induction tiers) (simp_all split: option.split)
  then show ?thesis by (simp add: claim_in_workspace_def)
qed

subsection \<open>The round over the workspaces\<close>

definition candidates :: "nat set \<Rightarrow> nat list \<Rightarrow> db \<Rightarrow> workspace set" where
  "candidates lw eligible d = {w \<in> set (rows (workspaces d)). ws_id w \<in> set eligible \<and> ws_id w \<notin> lw}"

definition claimed_before :: "time \<Rightarrow> workspace \<Rightarrow> bool" where
  "claimed_before now w = (case ws_last_claimed w of None \<Rightarrow> True | Some t \<Rightarrow> t < now)"

lemma next_workspace_Some:
  "next_workspace lw eligible d = Some w \<Longrightarrow>
     w \<in> candidates lw eligible d \<and> (\<forall>v\<in>candidates lw eligible d. \<not> waits_longer v w)"
  unfolding next_workspace_def using first_by_Some [OF weak_order_waits]
  by (fastforce simp: select_def candidates_def)

lemma next_workspace_None:
  "next_workspace lw eligible d = None \<longleftrightarrow> candidates lw eligible d = {}"
  by (auto simp: next_workspace_def first_by_None select_def candidates_def filter_empty_conv)

lemma claim_loop_empty:
  "\<forall>w\<in>set eligible. claim_in_workspace lr d w = None \<Longrightarrow> fst (claim_loop n lw lr eligible now d) = None"
proof (induction n arbitrary: d)
  case (Suc n)
  show ?case
  proof (cases "next_workspace lw eligible d")
    case (Some w)
    with next_workspace_Some [OF Some] Suc show ?thesis by (simp add: candidates_def Let_def)
  qed simp
qed simp

lemma claim_loop_recording:
  "fst (claim_loop n lw lr eligible now d) = Some c \<Longrightarrow>
     \<exists>w\<in>set eligible. claim_in_workspace lr d w = Some c"
proof (induction n arbitrary: d)
  case (Suc n)
  show ?case
  proof (cases "next_workspace lw eligible d")
    case None
    with Suc.prems show ?thesis by simp
  next
    case (Some w)
    with next_workspace_Some [OF Some] have w: "ws_id w \<in> set eligible" by (simp add: candidates_def)
    show ?thesis
    proof (cases "claim_in_workspace lr d (ws_id w)")
      case None
      with Suc Some show ?thesis by (fastforce simp: Let_def)
    next
      case (Some r)
      with Suc.prems \<open>next_workspace lw eligible d = Some w\<close> w show ?thesis by (auto simp: Let_def)
    qed
  qed
qed simp

lemma claim_loop_frame: "recordings (snd (claim_loop n lw lr eligible now d)) = recordings d"
proof (induction n arbitrary: d)
  case (Suc n)
  show ?case by (simp add: Let_def Suc split: option.splits)
qed simp

text \<open>One round: while the workspaces claimed before \<open>now\<close> are at most as many as the
  steps left and the others have no work, the loop claims from the one that has waited
  longest among those with work.\<close>

lemma claim_loop_fair:
  assumes t: "table_ok ws_id (workspaces d)"
    and left: "card {v \<in> candidates lw eligible d. claimed_before now v} \<le> n"
    and served: "\<forall>v\<in>candidates lw eligible d. \<not> claimed_before now v \<longrightarrow>
      ws_last_claimed v = Some now \<and> claim_in_workspace lr d (ws_id v) = None"
    and w: "w \<in> candidates lw eligible d" "claim_in_workspace lr d (ws_id w) \<noteq> None"
  shows "\<exists>c v. fst (claim_loop n lw lr eligible now d) = Some c \<and> v \<in> candidates lw eligible d \<and>
    claim_in_workspace lr d (ws_id v) = Some c \<and> \<not> waits_longer w v"
  using assms
proof (induction n arbitrary: d)
  case 0
  then have "claimed_before now w" by fastforce
  with 0(2,4) show ?case by (auto simp: candidates_def)
next
  case (Suc n)
  obtain v where v: "next_workspace lw eligible d = Some v"
    using Suc.prems(4) next_workspace_None [of lw eligible d] by (cases "next_workspace lw eligible d") auto
  from next_workspace_Some [OF v] have vc: "v \<in> candidates lw eligible d"
    and first: "\<forall>u\<in>candidates lw eligible d. \<not> waits_longer u v" by auto
  show ?case
  proof (cases "claim_in_workspace lr d (ws_id v)")
    case (Some c)
    with v vc first Suc.prems(4) show ?thesis by (auto simp: Let_def)
  next
    case None
    let ?d = "stamp_workspace now (ws_id v) d"
    let ?v = "v\<lparr>ws_last_claimed := Some now\<rparr>"
    have wv: "w \<noteq> v" using None Suc.prems(5) by auto
    have wfresh: "claimed_before now w"
    proof (rule ccontr)
      assume "\<not> claimed_before now w"
      with bspec [OF Suc.prems(3) Suc.prems(4)] Suc.prems(5) show False by simp
    qed
    have vfresh: "claimed_before now v"
    proof (rule ccontr)
      assume "\<not> claimed_before now v"
      with bspec [OF Suc.prems(3) vc] have "ws_last_claimed v = Some now" by simp
      then have "waits_longer w v" using wfresh
        by (auto simp: claimed_before_def waits_longer_def split: option.splits)
      with first Suc.prems(4) show False by blast
    qed
    have uniq: "x = v" if "x \<in> set (rows (workspaces d))" "ws_id x = ws_id v" for x
      using ws_tbl.same_key [OF Suc.prems(1) that(1) _ that(2)] vc by (simp add: candidates_def)
    have img: "(if ws_id x = ws_id v then x\<lparr>ws_last_claimed := Some now\<rparr> else x) = (if x = v then ?v else x)"
      if "x \<in> set (rows (workspaces d))" for x
      using uniq [OF that] by (cases "ws_id x = ws_id v") auto
    have "set (rows (workspaces ?d)) =
        (\<lambda>x. if ws_id x = ws_id v then x\<lparr>ws_last_claimed := Some now\<rparr> else x) ` set (rows (workspaces d))"
      by (simp add: stamp_workspace_def)
    also have "\<dots> = (\<lambda>x. if x = v then ?v else x) ` set (rows (workspaces d))"
      by (rule image_cong [OF refl img])
    also have "\<dots> = insert ?v (set (rows (workspaces d)) - {v})"
      using vc by (auto simp: candidates_def image_iff)
    finally have rows_d: "set (rows (workspaces ?d)) = insert ?v (set (rows (workspaces d)) - {v})" .
    have cands: "candidates lw eligible ?d = insert ?v (candidates lw eligible d - {v})"
      using vc unfolding candidates_def rows_d by auto
    have t': "table_ok ws_id (workspaces ?d)"
      using ws_tbl.update_ok [OF Suc.prems(1), of "\<lambda>x. x\<lparr>ws_last_claimed := Some now\<rparr>"]
      by (simp add: stamp_workspace_def)
    have vn: "\<not> claimed_before now ?v" by (simp add: claimed_before_def)
    have fresh: "{u \<in> candidates lw eligible ?d. claimed_before now u} =
        {u \<in> candidates lw eligible d. claimed_before now u} - {v}"
      using cands vn by auto
    have "finite {u \<in> candidates lw eligible d. claimed_before now u}"
      by (simp add: candidates_def)
    then have "card {u \<in> candidates lw eligible ?d. claimed_before now u} \<le> n"
      unfolding fresh using Suc.prems(2) vc vfresh by (simp add: card_Diff_singleton)
    moreover have "\<forall>u\<in>candidates lw eligible ?d. \<not> claimed_before now u \<longrightarrow>
        ws_last_claimed u = Some now \<and> claim_in_workspace lr ?d (ws_id u) = None"
      using Suc.prems(3) None unfolding cands by auto
    moreover have "w \<in> candidates lw eligible ?d" using Suc.prems(4) wv cands by simp
    ultimately obtain c u where c: "fst (claim_loop n lw lr eligible now ?d) = Some c"
      "u \<in> candidates lw eligible ?d" "claim_in_workspace lr ?d (ws_id u) = Some c" "\<not> waits_longer w u"
      using Suc.IH [OF t'] Suc.prems(5) by fastforce
    have "u \<noteq> ?v" using c(3) None by auto
    with c(2) have "u \<in> candidates lw eligible d" unfolding cands by blast
    with c v None show ?thesis by (auto simp: Let_def)
  qed
qed

lemma candidates_card:
  assumes "table_ok ws_id (workspaces d)"
  shows "card {v \<in> candidates lw eligible d. claimed_before now v} \<le> length eligible"
proof -
  have "inj_on ws_id {v \<in> candidates lw eligible d. claimed_before now v}"
    using assms by (auto simp: inj_on_def candidates_def table_ok_def dest: distinct_map_eqD)
  then have "card {v \<in> candidates lw eligible d. claimed_before now v} =
      card (ws_id ` {v \<in> candidates lw eligible d. claimed_before now v})"
    by (simp add: card_image)
  also have "\<dots> \<le> card (set eligible)"
    by (rule card_mono) (auto simp: candidates_def)
  also have "\<dots> \<le> length eligible" by (rule card_length)
  finally show ?thesis .
qed

lemma workspaces_with_work_iff:
  "w \<in> set (workspaces_with_work d) \<longleftrightarrow> (\<exists>r. available {} d w r)"
  by (auto simp: workspaces_with_work_def available_def select_def queue_consts)

lemma claim_next_cases:
  assumes "fst (claim_next lw lr now d) = Some c"
  shows "\<exists>w. claim_in_workspace lr d w = Some c"
proof (cases "workspaces_with_work d")
  case (Cons w ws)
  show ?thesis
  proof (cases ws)
    case Nil
    with Cons assms show ?thesis by (auto simp: claim_next_def)
  next
    case (Cons v vs)
    with \<open>workspaces_with_work d = w # ws\<close> assms
    have "fst (claim_loop (length (w # ws)) lw lr (w # ws) now d) = Some c"
      by (simp add: claim_next_def del: claim_loop.simps)
    from claim_loop_recording [OF this] show ?thesis by blast
  qed
qed (use assms in \<open>simp add: claim_next_def\<close>)

subsection \<open>Properties\<close>

text \<open>A claimed recording is waiting, current and free; in its workspace, transcription
  goes before summaries and, within the same kind of work, nothing free is newer.\<close>

theorem claim_next_takes_the_first:
  assumes "claim_next lw lr now d = (Some c, d')"
  shows "available lr d (rec_ws c) c \<and> (\<forall>r. available lr d (rec_ws c) r \<longrightarrow>
    (rec_status r = rec_status c \<longrightarrow> \<not> newer r c) \<and> (rec_status r = Pending \<longrightarrow> rec_status c = Pending))"
proof -
  from assms have "fst (claim_next lw lr now d) = Some c" by simp
  from claim_next_cases [OF this] obtain w where w: "claim_in_workspace lr d w = Some c" by blast
  from claim_in_workspace_Some [OF w] have "rec_ws c = w" by (simp add: available_def)
  with claim_in_workspace_Some [OF w] show ?thesis by blast
qed

text \<open>Two workspaces with one waiting recording each; the first was served at time 5.\<close>

definition demo_space :: "nat \<Rightarrow> time option \<Rightarrow> workspace" where
  "demo_space i t = demo_ws\<lparr>ws_id := i, ws_last_claimed := t, ws_quota_minutes := None\<rparr>"

definition demo_waiting :: "nat \<Rightarrow> nat \<Rightarrow> recording" where
  "demo_waiting i w = demo_recording\<lparr>rec_id := i, rec_ws := w\<rparr>"

definition demo_queue :: db where
  "demo_queue = empty_db\<lparr>workspaces := \<lparr>rows = [demo_space 1 (Some 5), demo_space 2 None], next_id = 3\<rparr>,
     recordings := \<lparr>rows = [demo_waiting 1 1, demo_waiting 2 2], next_id = 3\<rparr>\<rparr>"

lemmas demo_queue_defs = demo_queue_def demo_space_def demo_waiting_def demo_ws_def demo_recording_def

lemma demo_queue_work: "workspaces_with_work demo_queue = [1, 2]"
  by (simp add: workspaces_with_work_def select_def demo_queue_defs queue_consts)

lemma demo_queue_claims: "\<exists>c d'. claim_next {} {} 9 demo_queue = (Some c, d') \<and> rec_id c = 2"
  unfolding claim_next_def demo_queue_work
  by (simp add: next_workspace_def first_by_def waits_longer_def select_def claim_in_workspace_def
      queue_consts in_tier_def stamp_workspace_def Let_def demo_queue_defs)

theorem claim_next_takes_the_first_witness:
  "\<exists>c. available {} demo_queue (rec_ws c) c \<and> rec_id c = 2"
  using demo_queue_claims claim_next_takes_the_first [of "{}" "{}" 9 demo_queue] by blast



text \<open>Retrying failed recordings puts each exactly where \<open>resume_status\<close> says: the SQL
  CASE, which never looks at the duplicate mark, agrees with it because a failed recording
  is no duplicate.\<close>

theorem retry_failed_resumes:
  assumes "registry_ok d" "get_recording d i = Some r"
  shows "get_recording (snd (retry_failed w now d)) i =
    Some (if is_failed w r then (requeued d now r)\<lparr>rec_error := None\<rparr> else r)"
proof (cases "is_failed w r")
  case True
  then have "rec_duplicate_of r = None"
    using registry_not_duplicate [OF assms] by (simp add: is_failed_def)
  then show ?thesis
    using assms(2) True
    by (simp add: retry_failed_def update_recordings_by_id sql_resume_eq requeued_def)
next
  case False
  with assms(2) show ?thesis by (simp add: retry_failed_def update_recordings_by_id)
qed

definition demo_failed_db :: db where
  "demo_failed_db = empty_db\<lparr>recordings := \<lparr>rows = [demo_recording\<lparr>rec_status := Error,
     rec_stt_meta := JsonMeta \<lparr>meta_elapsed = None, meta_device = None, meta_model = None,
       meta_diarize_error = None\<rparr>\<rparr>], next_id = 2\<rparr>\<rparr>"

lemma demo_failed_ok: "registry_ok demo_failed_db"
  by (simp add: registry_ok_def recordings_ok_def table_ok_def demo_failed_db_def demo_recording_def)

theorem retry_failed_resumes_witness:
  "map_option rec_status (get_recording (snd (retry_failed None 9 demo_failed_db)) 1) = Some Enriching"
proof -
  have "get_recording demo_failed_db 1 = Some (demo_recording\<lparr>rec_status := Error,
      rec_stt_meta := JsonMeta \<lparr>meta_elapsed = None, meta_device = None, meta_model = None,
       meta_diarize_error = None\<rparr>\<rparr>)"
    by (simp add: by_id_def scalar_def demo_failed_db_def demo_recording_def)
  from retry_failed_resumes [OF demo_failed_ok this, of None 9] show ?thesis
    by (simp add: is_failed_def requeued_def resume_status_def demo_recording_def)
qed

text \<open>Releasing held-back recordings: exactly those that the minute check of their
  workspace lets through now are put where \<open>resume_status\<close> says, every other row is
  untouched.\<close>

theorem release_quota_blocked_exact:
  assumes ok: "registry_ok d" and r: "get_recording d i = Some r"
  shows "get_recording (snd (release_quota_blocked now d)) i =
    Some (if is_blocked r \<and> allows_transcription d r now then requeued d now r else r)"
proof -
  have t: "table_ok rec_id (recordings d)" using ok by (simp add: registry_ok_def recordings_ok_def)
  from rec_tbl.by_id_SomeD [OF r] have rm: "r \<in> set (rows (recordings d))" "rec_id r = i" by auto
  have mem: "i \<in> set (freed_ids d now) \<longleftrightarrow> is_blocked r \<and> allows_transcription d r now"
  proof
    assume "i \<in> set (freed_ids d now)"
    then obtain x where x: "x \<in> set (rows (recordings d))" "rec_id x = i" "is_blocked x" "is_freed d now x"
      by (auto simp: freed_ids_def select_def)
    have "x = r" using rec_tbl.same_key [OF t x(1) rm(1)] x(2) rm(2) by simp
    with x show "is_blocked r \<and> allows_transcription d r now" by (simp add: is_freed_iff)
  qed (use rm in \<open>auto simp: freed_ids_def select_def is_freed_iff\<close>)
  have dup: "rec_duplicate_of r = None" if "is_blocked r"
    using that registry_not_duplicate [OF ok r] by (simp add: is_blocked_def)
  have "set (concat (chunks MAINTENANCE_CHUNK (freed_ids d now))) = set (freed_ids d now)"
    by (simp add: concat_chunks MAINTENANCE_CHUNK_def)
  with release_chunks_by_id [OF r, of now "chunks MAINTENANCE_CHUNK (freed_ids d now)"]
  have "get_recording (fold (release_chunk now) (chunks MAINTENANCE_CHUNK (freed_ids d now)) d) i =
      Some (if i \<in> set (freed_ids d now) then r\<lparr>rec_status := sql_resume d r, rec_progress := None,
        rec_stage_started := None, rec_updated_at := now\<rparr> else r)"
    by (simp only:)
  moreover have "snd (release_quota_blocked now d) =
      fold (release_chunk now) (chunks MAINTENANCE_CHUNK (freed_ids d now)) d"
    by (cases "freed_ids d now = []") (simp_all add: release_quota_blocked_def Let_def chunks.simps)
  ultimately have "get_recording (snd (release_quota_blocked now d)) i =
      Some (if is_blocked r \<and> allows_transcription d r now then r\<lparr>rec_status := sql_resume d r,
        rec_progress := None, rec_stage_started := None, rec_updated_at := now\<rparr> else r)"
    by (simp only: mem)
  also have "\<dots> = Some (if is_blocked r \<and> allows_transcription d r now then requeued d now r else r)"
    using dup by (simp add: requeued_def sql_resume_eq)
  finally show ?thesis .
qed

definition demo_blocked_db :: db where
  "demo_blocked_db = demo_quota_db\<lparr>recordings := \<lparr>rows = [demo_recording\<lparr>rec_status := QuotaBlocked\<rparr>],
     next_id = 2\<rparr>\<rparr>"

lemma demo_blocked_ok: "registry_ok demo_blocked_db"
  by (simp add: registry_ok_def recordings_ok_def table_ok_def demo_blocked_db_def demo_recording_def)

theorem release_quota_blocked_exact_witness:
  "\<exists>r. get_recording (snd (release_quota_blocked (days 100) demo_blocked_db)) 1 = Some r"
proof -
  have "get_recording demo_blocked_db 1 = Some (demo_recording\<lparr>rec_status := QuotaBlocked\<rparr>)"
    by (simp add: by_id_def scalar_def demo_blocked_db_def demo_recording_def)
  from release_quota_blocked_exact [OF demo_blocked_ok this] show ?thesis by blast
qed


definition demo_untranscribed_db :: db where
  "demo_untranscribed_db = empty_db\<lparr>recordings := \<lparr>rows = [demo_recording\<lparr>rec_status := Error\<rparr>],
     next_id = 2\<rparr>\<rparr>"


end
