(* ===== verification/Enrichment.thy ===== *)
theory Enrichment
  imports Ingest
begin

text \<open>
  \<open>enrich.py\<close>: title, summary and tags from a transcript. The language model is outside the
  program: \<open>generator\<close> is its two calls, \<open>None\<close> where a call raises. The fixed texts of
  the prompts are the functions of \<open>prompts\<close>. \<open>tenancy.resolve_tag\<close> is here because
  tags are its only use.
\<close>

definition CHUNK_CHARS :: nat where "CHUNK_CHARS = 24000"
definition MAX_TAGS :: nat where "MAX_TAGS = 5"

record llm_json =
  lj_title :: string
  lj_summary :: string
  lj_tags :: "string list"

record generator =
  generate_text :: "string \<Rightarrow> string option"
  generate_json :: "string \<Rightarrow> llm_json option"

record prompts =
  enrich_prompt :: "string \<Rightarrow> string"
  chunk_prompt :: "nat \<Rightarrow> nat \<Rightarrow> string \<Rightarrow> string"
  combine_prompt :: "string \<Rightarrow> string"

record enrich_result =
  er_title :: string
  er_summary :: string
  er_tags :: "string list"

subsection \<open>The transcript\<close>

definition speaker_label :: "db \<Rightarrow> nat \<Rightarrow> string \<Rightarrow> string" where
  "speaker_label d i key =
     (case scalar (\<lambda>s. spk_recording s = i \<and> spk_key s = key) (speakers d) of
        Some s \<Rightarrow> spk_name s | None \<Rightarrow> key)"

definition transcript_line :: "db \<Rightarrow> nat \<Rightarrow> segment \<Rightarrow> string" where
  "transcript_line d i s =
     (let speaker = (case seg_speaker s of
            Some k \<Rightarrow> if k = [] then [] else speaker_label d i k | None \<Rightarrow> [])
      in if speaker = [] then seg_text s else speaker @ '': '' @ seg_text s)"

fun join :: "string \<Rightarrow> string list \<Rightarrow> string" where
  "join sep [] = []"
| "join sep [x] = x"
| "join sep (x # xs) = x @ sep @ join sep xs"

definition build_transcript :: "db \<Rightarrow> recording \<Rightarrow> string" where
  "build_transcript d r = join [CHR 0x0A]
     (map (transcript_line d (rec_id r)) (filter (\<lambda>s. seg_kind s = Speech) (segments_of d (rec_id r))))"

subsection \<open>Summarising\<close>

fun summarize_chunks :: "generator \<Rightarrow> prompts \<Rightarrow> nat \<Rightarrow> nat \<Rightarrow> string list \<Rightarrow> string list option" where
  "summarize_chunks g p i n [] = Some []"
| "summarize_chunks g p i n (c # cs) =
     (case generate_text g (chunk_prompt p (Suc i) n c) of
        None \<Rightarrow> None
      | Some t \<Rightarrow> map_option (\<lambda>ts. t # ts) (summarize_chunks g p (Suc i) n cs))"

definition two_newlines :: string where "two_newlines = [CHR 0x0A, CHR 0x0A]"

definition clean_result :: "llm_json \<Rightarrow> enrich_result" where
  "clean_result j = \<lparr>er_title = str_strip (lj_title j), er_summary = str_strip (lj_summary j),
     er_tags = take MAX_TAGS (filter (\<lambda>t. t \<noteq> []) (map str_strip (lj_tags j)))\<rparr>"

definition summarize :: "generator \<Rightarrow> prompts \<Rightarrow> string \<Rightarrow> enrich_result option" where
  "summarize g p transcript =
     (let prompt =
        (if CHUNK_CHARS < length transcript
         then let cs = chunks CHUNK_CHARS transcript
              in map_option (\<lambda>ts. combine_prompt p (join two_newlines ts))
                   (summarize_chunks g p 0 (length cs) cs)
         else Some (enrich_prompt p transcript))
      in case prompt of
           None \<Rightarrow> None
         | Some q \<Rightarrow> map_option clean_result (generate_json g q))"

subsection \<open>Tags\<close>

definition resolve_tag :: "db \<Rightarrow> nat \<Rightarrow> string \<Rightarrow> uuid \<Rightarrow> tag \<times> db" where
  "resolve_tag d w name pub =
     (case scalar (\<lambda>t. tag_ws t = w \<and> tag_name t = name) (tags d) of
        Some t \<Rightarrow> (t, d)
      | None \<Rightarrow>
          let t = \<lparr>tag_id = 0, tag_public = pub, tag_ws = w, tag_name = name\<rparr>
          in (t\<lparr>tag_id := next_id (tags d)\<rparr>, d\<lparr>tags := insert_row set_tag_id t (tags d)\<rparr>))"

definition tag_recording :: "nat \<Rightarrow> nat \<Rightarrow> (string \<times> uuid) \<Rightarrow> db \<Rightarrow> db" where
  "tag_recording i w np d =
     (let (t, d1) = resolve_tag d w (fst np) (snd np);
          row = \<lparr>rt_recording = i, rt_tag = tag_id t\<rparr>
      in if row \<in> set (recording_tags d1) then d1
         else d1\<lparr>recording_tags := recording_tags d1 @ [row]\<rparr>)"

text \<open>\<open>LlmEnricher.enrich\<close>: the changed row and the tags to attach, with the public ids of
  those that get created; \<open>None\<close> when the model raises.\<close>

definition llm_enrich ::
  "generator \<Rightarrow> prompts \<Rightarrow> uuid list \<Rightarrow> db \<Rightarrow> recording \<Rightarrow> (recording \<times> (string \<times> uuid) list) option" where
  "llm_enrich g p pubs d r =
     (let transcript = build_transcript d r
      in if str_strip transcript = [] then Some (r\<lparr>rec_summary := Some []\<rparr>, [])
         else case summarize g p transcript of
           None \<Rightarrow> None
         | Some res \<Rightarrow>
             let r1 = (if rec_title r = None \<and> er_title res \<noteq> []
                       then r\<lparr>rec_title := Some (er_title res)\<rparr> else r);
                 r2 = (if er_summary res \<noteq> [] then r1\<lparr>rec_summary := Some (er_summary res)\<rparr> else r1)
             in Some (r2, zip (er_tags res) pubs))"

definition apply_tags :: "nat \<Rightarrow> nat \<Rightarrow> (string \<times> uuid) list \<Rightarrow> db \<Rightarrow> db" where
  "apply_tags i w nps d = fold (tag_recording i w) nps d"

subsection \<open>Facts\<close>

lemma length_chunks_le: "0 < n \<Longrightarrow> c \<in> set (chunks n xs) \<Longrightarrow> c \<noteq> [] \<and> length c \<le> n"
proof (induction n xs rule: chunks.induct)
  case (1 n xs)
  then show ?case by (subst (asm) chunks.simps) (auto split: if_splits)
qed

lemma resolve_tag_frame [simp]:
  "recordings (snd (resolve_tag d w name pub)) = recordings d"
  "segments (snd (resolve_tag d w name pub)) = segments d"
  "job_logs (snd (resolve_tag d w name pub)) = job_logs d"
  "recording_tags (snd (resolve_tag d w name pub)) = recording_tags d"
  by (simp_all add: resolve_tag_def Let_def split: option.splits)

lemma tag_recording_frame [simp]:
  "recordings (tag_recording i w np d) = recordings d"
  "segments (tag_recording i w np d) = segments d"
  "job_logs (tag_recording i w np d) = job_logs d"
  by (simp_all add: tag_recording_def Let_def split_beta)

lemma apply_tags_frame [simp]:
  "recordings (apply_tags i w nps d) = recordings d"
  "segments (apply_tags i w nps d) = segments d"
  "job_logs (apply_tags i w nps d) = job_logs d"
proof -
  have "recordings (fold (tag_recording i w) nps d) = recordings d \<and>
      segments (fold (tag_recording i w) nps d) = segments d \<and>
      job_logs (fold (tag_recording i w) nps d) = job_logs d"
    by (induction nps arbitrary: d) simp_all
  then show "recordings (apply_tags i w nps d) = recordings d"
    "segments (apply_tags i w nps d) = segments d" "job_logs (apply_tags i w nps d) = job_logs d"
    by (simp_all add: apply_tags_def)
qed

text \<open>What enrichment may change: the title when there was none, and the summary.\<close>

lemma llm_enrich_row:
  assumes "llm_enrich g p pubs d r = Some (r', nps)"
  shows "r' = r\<lparr>rec_title := rec_title r', rec_summary := rec_summary r'\<rparr>"
    and "rec_title r \<noteq> None \<Longrightarrow> rec_title r' = rec_title r"
    and "rec_summary r \<noteq> None \<Longrightarrow> rec_summary r' \<noteq> None"
  using assms by (auto simp: llm_enrich_def Let_def split: if_splits option.splits)

end
