(* ===== verification/Worker_Stages.thy ===== *)
theory Worker_Stages
  imports Worker_Queue Enrichment
begin

text \<open>
  The processing half of \<open>worker.py\<close>. A stage is a sequence of transactions: it marks the
  recording and commits, talks to the outside (the runner, the language model) without a
  lock, and then settles in a last transaction on whatever the database has become. The
  model has one function per transaction; \<open>process_one\<close> composes them, with the changes
  other processes commit in between as functions of the database. The object \<open>m\<close> of the
  settling functions is the attached ORM object: a flush writes only the attributes that
  differ from what the object was loaded with.
\<close>

definition JOB_TIMEOUT_RATIO :: rat where "JOB_TIMEOUT_RATIO = 20"
definition JOB_TIMEOUT_FLOOR_SEC :: rat where "JOB_TIMEOUT_FLOOR_SEC = 3600"

subsection \<open>What the runner and the files answer\<close>

record spoken =
  sp_start :: rat
  sp_end :: rat
  sp_speaker :: "string option"
  sp_text :: string
  sp_kind :: "segment_kind option"

text \<open>\<open>res_segments\<close> is the message of the exception when reading the segments raises.\<close>

record stt_result =
  res_segments :: "(string, spoken list) result"
  res_language :: "string option"
  res_meta :: "stt_meta option"

datatype run_outcome =
  Ran stt_result | RunUnavailable string | RunTimedOut string | RunFailed string

datatype stage_exc =
  EChanged changed_reason | EUnavailable string | ETimedOut string | EOther string

subsection \<open>The job log\<close>

definition empty_meta :: stt_meta where
  "empty_meta = \<lparr>meta_elapsed = None, meta_device = None, meta_model = None, meta_diarize_error = None\<rparr>"

definition log_row ::
  "recording \<Rightarrow> job_stage \<Rightarrow> time \<Rightarrow> time \<Rightarrow> job_status \<Rightarrow> stt_meta option \<Rightarrow> exc_text option \<Rightarrow> job_log" where
  "log_row r stage started now status meta err =
     (let m = (case meta of None \<Rightarrow> empty_meta | Some m \<Rightarrow> m)
      in \<lparr>job_id = 0, job_ws = rec_ws r, job_recording = Some (rec_id r), job_stage = stage,
          job_status = status, job_started = started, job_finished = Some now,
          job_audio = rec_duration r, job_elapsed = meta_elapsed m, job_device = meta_device m,
          job_model = meta_model m, job_error = err\<rparr>)"

definition add_log :: "job_log \<Rightarrow> db \<Rightarrow> db" where
  "add_log j d = d\<lparr>job_logs := insert_row set_job_id j (job_logs d)\<rparr>"

text \<open>The separate ledger session: the foreign key of a deleted recording is refused and the
  row goes in without it; that of a deleted workspace is refused both times.\<close>

definition log_separately :: "job_log \<Rightarrow> db \<Rightarrow> db" where
  "log_separately j d =
     (if get_workspace_row d (job_ws j) = None then d
      else if (\<exists>i. job_recording j = Some i \<and> get_recording d i \<noteq> None) then add_log j d
      else add_log (j\<lparr>job_recording := None\<rparr>) d)"

subsection \<open>Starting a transcription\<close>

definition start_transcribe :: "uuid \<Rightarrow> time \<Rightarrow> recording \<Rightarrow> recording" where
  "start_transcribe fresh now r =
     (let r1 = (if rec_request r = None
                then r\<lparr>rec_request := Some fresh, rec_request_started := Some now\<rparr> else r)
      in r1\<lparr>rec_status := Transcribing, rec_stage_started := Some now, rec_progress := None\<rparr>)"

definition job_timeout_sec :: "recording \<Rightarrow> rat" where
  "job_timeout_sec r = max JOB_TIMEOUT_FLOOR_SEC
     ((case rec_duration r of None \<Rightarrow> 0 | Some s \<Rightarrow> s) * JOB_TIMEOUT_RATIO)"

text \<open>The time the runner gets: the limit less what earlier attempts at the same request used.\<close>

definition remaining_sec :: "time \<Rightarrow> recording \<Rightarrow> rat" where
  "remaining_sec started r = job_timeout_sec r -
     of_int (started - (case rec_request_started r of None \<Rightarrow> started | Some t \<Rightarrow> t)) / 1000000"

text \<open>Progress reports. \<open>hb_progress\<close> is the attached object's progress, \<open>hb_last\<close> the last
  time something was written. A write to a deleted row raises: \<open>None\<close>.\<close>

record heartbeat =
  hb_progress :: "rat option"
  hb_last :: time

definition write_row :: "time \<Rightarrow> nat \<Rightarrow> (recording \<Rightarrow> recording) \<Rightarrow> db \<Rightarrow> db option" where
  "write_row now i f d =
     (if get_recording d i = None then None
      else Some (update_recordings now (\<lambda>r. rec_id r = i) f d))"

definition beat :: "nat \<Rightarrow> time \<Rightarrow> heartbeat \<times> db \<Rightarrow> (heartbeat \<times> db) option" where
  "beat i now s =
     (let (hb, d) = s
      in if now - hb_last hb < HEARTBEAT_EVERY then Some (hb, d)
         else map_option (\<lambda>d'. (hb\<lparr>hb_last := now\<rparr>, d')) (write_row now i (\<lambda>r. r) d))"

definition report ::
  "nat \<Rightarrow> (string option \<times> rat option) \<Rightarrow> time \<Rightarrow> heartbeat \<times> db \<Rightarrow> (heartbeat \<times> db) option" where
  "report i sr now s =
     (let (stage, ratio) = sr; (hb, d) = s
      in if stage \<noteq> None \<and> stage \<noteq> Some ''transcribe''
         then if hb_progress hb \<noteq> None
              then map_option (\<lambda>d'. (\<lparr>hb_progress = None, hb_last = now\<rparr>, d'))
                     (write_row now i (\<lambda>r. r\<lparr>rec_progress := None, rec_stage_started := Some now\<rparr>) d)
              else beat i now s
         else (case ratio of
             None \<Rightarrow> beat i now s
           | Some x \<Rightarrow>
               if (case hb_progress hb of None \<Rightarrow> True | Some p \<Rightarrow> 1 / 100 \<le> \<bar>x - p\<bar>)
               then map_option (\<lambda>d'. (\<lparr>hb_progress = Some x, hb_last = now\<rparr>, d'))
                      (write_row now i (\<lambda>r. r\<lparr>rec_progress := Some x\<rparr>) d)
               else beat i now s))"

subsection \<open>Settling a transcription\<close>

text \<open>The two verifications of a scanned file; \<open>oserr\<close> is the message of an \<open>OSError\<close>.\<close>

definition check_before :: "string \<Rightarrow> recording \<Rightarrow> file_view \<Rightarrow> stage_exc option" where
  "check_before oserr r v =
     (if rec_source r \<noteq> Scan then None
      else case fv_before v of
        None \<Rightarrow> Some (EOther oserr)
      | Some sg \<Rightarrow>
          if rec_content_hash r = None then Some (EChanged RegisteredDiffers)
          else case fv_content v of
            None \<Rightarrow> Some (EOther oserr)
          | Some c \<Rightarrow>
              if Some c \<noteq> rec_content_hash r then Some (EChanged RegisteredDiffers)
              else case fv_after v of
                None \<Rightarrow> Some (EOther oserr)
              | Some sg' \<Rightarrow> if sg' \<noteq> sg then Some (EChanged RegisteredDiffers) else None)"

text \<open>\<open>sg\<close> is the signature before the run, \<open>v\<close> the look after it.\<close>

definition check_after :: "string \<Rightarrow> recording \<Rightarrow> signature option \<Rightarrow> file_view \<Rightarrow> stage_exc option" where
  "check_after oserr r sg v =
     (if rec_source r \<noteq> Scan then None
      else case fv_before v of
        None \<Rightarrow> Some (EOther oserr)
      | Some s1 \<Rightarrow>
          if Some s1 \<noteq> sg then Some (EChanged ChangedWhileTranscribing)
          else case fv_content v of
            None \<Rightarrow> Some (EOther oserr)
          | Some c \<Rightarrow>
              if Some c \<noteq> rec_content_hash r then Some (EChanged ChangedWhileTranscribing)
              else case fv_after v of
                None \<Rightarrow> Some (EOther oserr)
              | Some s2 \<Rightarrow> if Some s2 \<noteq> sg then Some (EChanged ChangedWhileTranscribing) else None)"

text \<open>Lines 444 to 469: the exception or the result of the run.\<close>

definition run_transcription ::
  "string \<Rightarrow> recording \<Rightarrow> file_view \<Rightarrow> run_outcome \<Rightarrow> file_view \<Rightarrow> (stage_exc, stt_result) result" where
  "run_transcription oserr r before out after =
     (case check_before oserr r before of
        Some e \<Rightarrow> Inl e
      | None \<Rightarrow>
          (case out of
             RunUnavailable t \<Rightarrow> Inl (EUnavailable t)
           | RunTimedOut t \<Rightarrow> Inl (ETimedOut t)
           | RunFailed t \<Rightarrow> Inl (EOther t)
           | Ran res \<Rightarrow>
               (case check_after oserr r (fv_before before) after of
                  Some e \<Rightarrow> Inl e
                | None \<Rightarrow> Inr res)))"

text \<open>\<open>_lock_current_request\<close>: the row, refreshed, if the request is still its own.\<close>

definition lock_current_request :: "db \<Rightarrow> nat \<Rightarrow> uuid \<Rightarrow> recording option" where
  "lock_current_request d i q =
     scalar (\<lambda>r. rec_id r = i \<and> rec_path_current r \<and> rec_request r = Some q) (recordings d)"

definition segment_row :: "nat \<Rightarrow> nat \<Rightarrow> spoken \<Rightarrow> segment" where
  "segment_row i k s = \<lparr>seg_id = 0, seg_recording = i, seg_idx = k, seg_start = sp_start s,
     seg_end = sp_end s, seg_speaker = sp_speaker s, seg_text = sp_text s,
     seg_kind = (case sp_kind s of None \<Rightarrow> Speech | Some k \<Rightarrow> k)\<rparr>"

definition store_segments :: "nat \<Rightarrow> spoken list \<Rightarrow> db \<Rightarrow> db" where
  "store_segments i ss d = d\<lparr>segments :=
     fold (\<lambda>(k, s). insert_row set_seg_id (segment_row i k s)) (enumerate 0 ss)
       (delete_where (\<lambda>s. seg_recording s = i) (segments d))\<rparr>"

definition measured_sec :: "spoken list \<Rightarrow> rat" where
  "measured_sec ss = (case ss of [] \<Rightarrow> 0 | s # ts \<Rightarrow> fold (\<lambda>x b. max b (sp_end x)) ts (sp_end s))"

definition true_duration :: "spoken list \<Rightarrow> rat option \<Rightarrow> rat option" where
  "true_duration ss dur =
     (if (case dur of None \<Rightarrow> 0 | Some x \<Rightarrow> x) < measured_sec ss then Some (measured_sec ss) else dur)"

definition diarize_warning :: "stt_meta option \<Rightarrow> recording_error option" where
  "diarize_warning meta =
     (case meta of None \<Rightarrow> None | Some m \<Rightarrow>
       (case meta_diarize_error m of None \<Rightarrow> None | Some t \<Rightarrow> if t = [] then None else Some (DiarizeWarning t)))"

definition transcribed_row :: "time \<Rightarrow> stt_result \<Rightarrow> spoken list \<Rightarrow> recording \<Rightarrow> recording" where
  "transcribed_row now res ss r = r\<lparr>rec_language := res_language res,
     rec_stt_meta := JsonMeta (case res_meta res of None \<Rightarrow> empty_meta | Some m \<Rightarrow> m),
     rec_duration := true_duration ss (rec_duration r), rec_error := diarize_warning (res_meta res),
     rec_status := Summarizing, rec_progress := None, rec_stage_started := Some now,
     rec_request := None, rec_request_started := None\<rparr>"

definition failed_row :: "recording_error \<Rightarrow> recording \<Rightarrow> recording" where
  "failed_row e r = r\<lparr>rec_status := Error, rec_error := Some e, rec_request := None,
     rec_request_started := None, rec_progress := None, rec_stage_started := None\<rparr>"

definition unreached_row :: "recording \<Rightarrow> recording" where
  "unreached_row r = r\<lparr>rec_status := Pending, rec_progress := None, rec_stage_started := None\<rparr>"

text \<open>How \<open>transcribe_stage\<close> ends: it returns, or it raises \<open>RunnerUnavailable\<close> (the worker
  backs off) or another exception (the worker goes on with the next recording).\<close>

datatype stage_end = Returned | RaisedUnavailable | RaisedOther

text \<open>Lines 512 to 563. \<open>m\<close> is the object as loaded, for the log of a deleted recording.\<close>

definition settle_failure ::
  "nat \<Rightarrow> uuid \<Rightarrow> time \<Rightarrow> time \<Rightarrow> stage_exc \<Rightarrow> db \<Rightarrow> stage_end \<times> db" where
  "settle_failure i q started now e d =
     (case lock_current_request d i q of
        None \<Rightarrow> (RaisedOther, d)
      | Some r \<Rightarrow>
          (case e of
             EChanged c \<Rightarrow>
               (RaisedOther, put_recording now (failed_row (SourceChanged (ExcChanged c)) r)
                  (log_separately (log_row r StageTranscribe started now JobError None
                     (Some (ExcChanged c))) d))
           | EUnavailable t \<Rightarrow> (RaisedUnavailable, put_recording now (unreached_row r) d)
           | ETimedOut t \<Rightarrow>
               (RaisedUnavailable, put_recording now (failed_row (SttFailed (ExcText t)) r)
                  (log_separately (log_row r StageTranscribe started now JobError None
                     (Some (ExcText t))) d))
           | EOther t \<Rightarrow>
               (RaisedOther, put_recording now (failed_row (SttFailed (ExcText t)) r)
                  (log_separately (log_row r StageTranscribe started now JobError None
                     (Some (ExcText t))) d))))"

text \<open>Lines 470 to 586. \<open>accepts\<close> says whether the database accepts the segment rows: they
  are flushed by the last commit, outside the \<open>try\<close>.\<close>

definition settle_result ::
  "(spoken list \<Rightarrow> bool) \<Rightarrow> recording \<Rightarrow> uuid \<Rightarrow> time \<Rightarrow> time \<Rightarrow> stt_result \<Rightarrow> db \<Rightarrow> stage_end \<times> db" where
  "settle_result accepts m q started now res d =
     (case lock_current_request d (rec_id m) q of
        None \<Rightarrow>
          (case get_recording d (rec_id m) of
             Some r \<Rightarrow>
               (RaisedOther, log_separately (log_row r StageTranscribe started now JobError None
                  (Some (ExcChanged ResultDiscarded))) d)
           | None \<Rightarrow>
               (RaisedOther, log_separately (log_row m StageTranscribe started now JobDone
                  (res_meta res) None) d))
      | Some r \<Rightarrow>
          (case res_segments res of
             Inl t \<Rightarrow> settle_failure (rec_id m) q started now (EOther t) d
           | Inr ss \<Rightarrow>
               if \<not> accepts ss then (RaisedOther, d)
               else
                 let r' = transcribed_row now res ss r
                 in (Returned, add_log (log_row r' StageTranscribe started now JobDone
                       (Some (case res_meta res of None \<Rightarrow> empty_meta | Some x \<Rightarrow> x)) None)
                       (put_recording now r' (store_segments (rec_id m) ss d)))))"

definition settle_transcription ::
  "(spoken list \<Rightarrow> bool) \<Rightarrow> recording \<Rightarrow> uuid \<Rightarrow> time \<Rightarrow> time \<Rightarrow> (stage_exc, stt_result) result \<Rightarrow> db \<Rightarrow>
   stage_end \<times> db" where
  "settle_transcription accepts m q started now out d =
     (case out of
        Inl e \<Rightarrow> settle_failure (rec_id m) q started now e d
      | Inr res \<Rightarrow> settle_result accepts m q started now res d)"

subsection \<open>Enrichment\<close>

definition start_enrich :: "time \<Rightarrow> recording \<Rightarrow> recording" where
  "start_enrich started m =
     (if rec_status m \<noteq> Summarizing
      then m\<lparr>rec_status := Summarizing, rec_stage_started := Some started\<rparr> else m)"

definition carried_error :: "recording \<Rightarrow> recording_error option" where
  "carried_error m = (case rec_error m of Some (DiarizeWarning t) \<Rightarrow> Some (DiarizeWarning t) | _ \<Rightarrow> None)"

text \<open>An attribute of the flushed row: the new value if the object's value changed, else
  what the row has.\<close>

definition flushed :: "'a \<Rightarrow> 'a \<Rightarrow> 'a \<Rightarrow> 'a" where
  "flushed loaded new cur = (if new = loaded then cur else new)"

datatype enrich_outcome = NoEnricher | EnrichRaised string | Enriched recording "(string \<times> uuid) list"

text \<open>Lines 625 to 629: the final status on the row \<open>cur\<close>, for an object loaded as \<open>m\<close>.\<close>

definition finish_row :: "recording \<Rightarrow> recording \<Rightarrow> recording" where
  "finish_row m cur = cur\<lparr>
     rec_status := flushed (rec_status m) (if rec_path_current cur then Done else Missing) (rec_status cur),
     rec_progress := flushed (rec_progress m) None (rec_progress cur),
     rec_stage_started := flushed (rec_stage_started m) None (rec_stage_started cur)\<rparr>"

definition enriched_row :: "recording \<Rightarrow> recording \<Rightarrow> recording \<Rightarrow> recording" where
  "enriched_row m m' cur = cur\<lparr>
     rec_title := flushed (rec_title m) (rec_title m') (rec_title cur),
     rec_summary := flushed (rec_summary m) (rec_summary m') (rec_summary cur),
     rec_error := flushed (rec_error m) (carried_error m) (rec_error cur)\<rparr>"

text \<open>The last transaction of \<open>enrich_stage\<close>. A failed enricher is rolled back, which
  reloads the object; a row that is gone makes the flush or the reload raise.\<close>

definition settle_enrich ::
  "recording \<Rightarrow> time \<Rightarrow> time \<Rightarrow> enrich_outcome \<Rightarrow> db \<Rightarrow> stage_end \<times> db" where
  "settle_enrich m started now out d =
     (case get_recording d (rec_id m) of
        None \<Rightarrow> (RaisedOther, d)
      | Some cur \<Rightarrow>
          (case out of
             NoEnricher \<Rightarrow> (Returned, put_recording now (finish_row m cur) d)
           | EnrichRaised t \<Rightarrow>
               (Returned, put_recording now (finish_row cur (cur\<lparr>rec_error := Some (EnrichFailed (ExcText t))\<rparr>))
                  (log_separately (log_row cur StageEnrich started now JobError None (Some (ExcText t))) d))
           | Enriched m' nps \<Rightarrow>
               (Returned, put_recording now (finish_row m (enriched_row m m' cur))
                  (add_log (log_row m StageEnrich started now JobDone None None)
                     (apply_tags (rec_id m) (rec_ws m) nps d)))))"

subsection \<open>One recording\<close>

text \<open>What comes from outside while one recording is processed: the moments, a fresh
  request id, the two looks at the file, the runner's outcome, the enricher's outcome on
  the object it is given, and what is committed in the meantime (the worker's own progress
  reports included) as functions of the database.\<close>

record work_inputs =
  wi_now :: time
  wi_settled :: time
  wi_enrich_started :: time
  wi_done :: time
  wi_fresh :: uuid
  wi_oserr :: string
  wi_before :: file_view
  wi_run :: run_outcome
  wi_after :: file_view
  wi_accepts :: "spoken list \<Rightarrow> bool"
  wi_enrich :: "db \<Rightarrow> recording \<Rightarrow> enrich_outcome"
  wi_during_run :: "db \<Rightarrow> db"
  wi_during_enrich :: "db \<Rightarrow> db"

definition transcribe_stage :: "work_inputs \<Rightarrow> recording \<Rightarrow> db \<Rightarrow> stage_end \<times> db" where
  "transcribe_stage wi r d =
     (let m = start_transcribe (wi_fresh wi) (wi_now wi) r;
          q = (case rec_request m of None \<Rightarrow> wi_fresh wi | Some q \<Rightarrow> q);
          d1 = wi_during_run wi (put_recording (wi_now wi) m d);
          out = run_transcription (wi_oserr wi) m (wi_before wi) (wi_run wi) (wi_after wi)
      in settle_transcription (wi_accepts wi) m q (wi_now wi) (wi_settled wi) out d1)"

definition enrich_stage :: "work_inputs \<Rightarrow> recording \<Rightarrow> db \<Rightarrow> stage_end \<times> db" where
  "enrich_stage wi r d =
     (let m = start_enrich (wi_enrich_started wi) r;
          d1 = wi_during_enrich wi (put_recording (wi_enrich_started wi) m d)
      in settle_enrich m (wi_enrich_started wi) (wi_done wi) (wi_enrich wi d1 m) d1)"

datatype work_end = Idle | Worked | BackOff

definition process_one :: "nat set \<Rightarrow> nat set \<Rightarrow> work_inputs \<Rightarrow> db \<Rightarrow> work_end \<times> db" where
  "process_one lw lr wi d =
     (case claim_next lw lr (wi_now wi) d of
        (None, _) \<Rightarrow> (Idle, d)
      | (Some r, d1) \<Rightarrow>
          (case (if rec_status r \<noteq> ENRICH_WAITING then transcription_block d1 r (wi_now wi) else None) of
             Some DurationUnknown \<Rightarrow>
               (Worked, put_recording (wi_now wi) (r\<lparr>rec_status := Error, rec_error := Some LengthUnknown\<rparr>) d1)
           | Some _ \<Rightarrow> (Worked, put_recording (wi_now wi) (r\<lparr>rec_status := QuotaBlocked\<rparr>) d1)
           | None \<Rightarrow>
               if rec_status r \<noteq> ENRICH_WAITING
               then (case transcribe_stage wi r d1 of
                       (RaisedUnavailable, d2) \<Rightarrow> (BackOff, d2)
                     | (RaisedOther, d2) \<Rightarrow> (Worked, d2)
                     | (Returned, d2) \<Rightarrow>
                         (case get_recording d2 (rec_id r) of
                            None \<Rightarrow> (Worked, d2)
                          | Some r2 \<Rightarrow> (Worked, snd (enrich_stage wi r2 d2))))
               else (Worked, snd (enrich_stage wi r d1))))"

subsection \<open>Usage and the job log\<close>

lemma used_seconds_add_log:
  "used_seconds (add_log j d) w t = used_seconds d w t + (if counted w t j then audio_of j else 0)"
  by (simp add: add_log_def used_seconds_def select_def counted_def audio_of_def)

lemma used_seconds_logs: "job_logs d' = job_logs d \<Longrightarrow> used_seconds d' w t = used_seconds d w t"
  by (simp add: used_seconds_def)

lemma used_seconds_put [simp]: "used_seconds (put_recording now r d) w t = used_seconds d w t"
  by (rule used_seconds_logs) simp

lemma add_log_frame [simp]:
  "recordings (add_log j d) = recordings d" "segments (add_log j d) = segments d"
  "workspaces (add_log j d) = workspaces d"
  by (simp_all add: add_log_def)

lemma put_add_log: "put_recording now r (add_log j d) = add_log j (put_recording now r d)"
  by (simp add: put_recording_def add_log_def)

lemma log_separately_frame [simp]:
  "recordings (log_separately j d) = recordings d" "segments (log_separately j d) = segments d"
  "workspaces (log_separately j d) = workspaces d"
  by (simp_all add: log_separately_def)

lemma used_seconds_log_separately:
  "used_seconds (log_separately j d) w t = used_seconds d w t +
     (if counted w t j \<and> get_workspace_row d (job_ws j) \<noteq> None then audio_of j else 0)"
proof -
  have c: "counted w t (j\<lparr>job_recording := None\<rparr>) = counted w t j"
    "audio_of (j\<lparr>job_recording := None\<rparr>) = audio_of j"
    by (simp_all add: counted_def audio_of_def)
  show ?thesis
  proof (cases "get_workspace_row d (job_ws j) = None")
    case True
    then show ?thesis by (simp add: log_separately_def)
  next
    case False
    then have "log_separately j d = add_log j d \<or>
        log_separately j d = add_log (j\<lparr>job_recording := None\<rparr>) d"
      unfolding log_separately_def by presburger
    with False c show ?thesis by (auto simp only: used_seconds_add_log simp_thms)
  qed
qed

lemma counted_log_row:
  "counted w t (log_row r StageTranscribe started now status meta err) \<longleftrightarrow>
     rec_ws r = w \<and> status = JobDone \<and> t \<le> started"
  "audio_of (log_row r stage started now status meta err) = (case rec_duration r of None \<Rightarrow> 0 | Some a \<Rightarrow> a)"
  "job_ws (log_row r stage started now status meta err) = rec_ws r"
  by (auto simp: counted_def log_row_def audio_of_def Let_def split: option.splits)

lemma store_segments_frame [simp]:
  "recordings (store_segments i ss d) = recordings d" "job_logs (store_segments i ss d) = job_logs d"
  "workspaces (store_segments i ss d) = workspaces d"
  by (simp_all add: store_segments_def)

lemma used_seconds_store [simp]: "used_seconds (store_segments i ss d) w t = used_seconds d w t"
  by (rule used_seconds_logs) simp

lemma lock_current_request_Some:
  "lock_current_request d i q = Some r \<Longrightarrow> r \<in> set (rows (recordings d)) \<and> rec_id r = i \<and>
     rec_path_current r \<and> rec_request r = Some q"
  unfolding lock_current_request_def by (drule scalar_Some) simp

lemma get_put:
  assumes "table_ok rec_id (recordings d)" "r \<in> set (rows (recordings d))" "rec_id r' = rec_id r"
  shows "get_recording (put_recording now r' d) (rec_id r) = Some (stored_as now r r')"
proof -
  have "stored_as now r r' \<in> set (rows (recordings (put_recording now r' d)))"
    unfolding set_put [OF assms] by simp
  from rec_tbl.by_id_member [OF table_ok_put [OF assms(1)] this] show ?thesis by (simp add: assms(3))
qed

lemma stored_as_more [simp]:
  "rec_error (stored_as now r r') = rec_error r'" "rec_request (stored_as now r r') = rec_request r'"
  "rec_duration (stored_as now r r') = rec_duration r'" "rec_language (stored_as now r r') = rec_language r'"
  "rec_title (stored_as now r r') = rec_title r'"
  by (simp_all add: stored_as_def)

subsection \<open>The segments that get stored\<close>

lemma rows_fold_insert:
  "rows (fold (\<lambda>(k, s). insert_row set_seg_id (segment_row i k s)) kss t) =
     rows t @ map (\<lambda>(n, k, s). (segment_row i k s)\<lparr>seg_id := n\<rparr>) (zip [next_id t..<next_id t + length kss] kss)"
proof (induction kss arbitrary: t)
  case (Cons ks kss)
  obtain k s where ks: "ks = (k, s)" by fastforce
  have "[next_id t..<next_id t + length (ks # kss)] =
      next_id t # [Suc (next_id t)..<Suc (next_id t) + length kss]"
    by (subst upt_rec) simp
  then show ?case by (simp add: Cons ks)
qed simp

lemma filter_id [simp]: "\<forall>x\<in>set xs. P x \<Longrightarrow> filter P xs = xs"
  by (simp add: filter_id_conv)

lemma case_prod_fst: "(\<lambda>(k, s). k) = fst"
  by auto

lemma case_prod_snd: "map (\<lambda>(k, s). f s) (enumerate n xs) = map f xs"
  by (induction xs arbitrary: n) simp_all

lemma map_snd_zip3:
  assumes "\<And>n k s. f ((segment_row i k s)\<lparr>seg_id := n\<rparr>) = g k s" and "length ns = length kss"
  shows "map f (map (\<lambda>(n, k, s). (segment_row i k s)\<lparr>seg_id := n\<rparr>) (zip ns kss)) = map (\<lambda>(k, s). g k s) kss"
  using assms(2) by (induction ns kss rule: list_induct2) (auto simp: assms(1))

definition spoken_view :: "spoken \<Rightarrow> rat \<times> rat \<times> string option \<times> string \<times> segment_kind" where
  "spoken_view s = (sp_start s, sp_end s, sp_speaker s, sp_text s, (case sp_kind s of None \<Rightarrow> Speech | Some k \<Rightarrow> k))"

definition segment_view :: "segment \<Rightarrow> rat \<times> rat \<times> string option \<times> string \<times> segment_kind" where
  "segment_view s = (seg_start s, seg_end s, seg_speaker s, seg_text s, seg_kind s)"

lemma store_segments_of:
  "map seg_idx (segments_of (store_segments i ss d) i) = [0..<length ss]"
  "map segment_view (segments_of (store_segments i ss d) i) = map spoken_view ss"
proof -
  let ?t = "delete_where (\<lambda>s. seg_recording s = i) (segments d)"
  let ?new = "map (\<lambda>(n, k, s). (segment_row i k s)\<lparr>seg_id := n\<rparr>)
    (zip [next_id ?t..<next_id ?t + length (enumerate 0 ss)] (enumerate 0 ss))"
  have rows: "rows (segments (store_segments i ss d)) = rows ?t @ ?new"
    by (simp add: store_segments_def rows_fold_insert del: rows_delete_where next_id_ops)
  have old: "filter (\<lambda>s. seg_recording s = i) (rows ?t) = []" by (simp add: filter_empty_conv)
  have new: "filter (\<lambda>s. seg_recording s = i) ?new = ?new"
    by (rule filter_id) (auto simp: segment_row_def)
  have idx: "map seg_idx ?new = map fst (enumerate 0 ss)"
    by (subst map_snd_zip3 [where g = "\<lambda>k s. k"]) (simp_all add: segment_row_def case_prod_fst)
  have "sorted (map seg_idx ?new)" unfolding idx by simp
  then have sel: "segments_of (store_segments i ss d) i = ?new"
    by (simp only: segments_of_def select_def rows filter_append old new append_Nil sorted_sort_id
        sort_key_id_if_sorted)
  show "map seg_idx (segments_of (store_segments i ss d) i) = [0..<length ss]"
    unfolding sel idx by simp
  show "map segment_view (segments_of (store_segments i ss d) i) = map spoken_view ss"
    unfolding sel
    by (subst map_snd_zip3 [where g = "\<lambda>k s. spoken_view s"])
      (simp_all add: segment_row_def segment_view_def spoken_view_def case_prod_snd)
qed

lemma store_segments_other:
  assumes "j \<noteq> i"
  shows "segments_of (store_segments i ss d) j = segments_of d j"
proof -
  have none: "filter (\<lambda>s. seg_recording s = j) (map (\<lambda>(n, k, s). (segment_row i k s)\<lparr>seg_id := n\<rparr>) xs) = []" for xs
    using assms by (auto simp: filter_empty_conv segment_row_def)
  have other: "filter (\<lambda>s. seg_recording s \<noteq> i \<and> seg_recording s = j) xs =
      filter (\<lambda>s. seg_recording s = j) xs" for xs
    using assms by (induction xs) auto
  have "filter (\<lambda>s. seg_recording s = j) (rows (segments (store_segments i ss d))) =
      filter (\<lambda>s. seg_recording s = j) (rows (segments d))"
    using none by (simp add: store_segments_def rows_fold_insert other)
  then show ?thesis by (simp only: segments_of_def select_def)
qed

subsection \<open>How a transcription settles\<close>

lemma failed_row_fields [simp]:
  "rec_id (failed_row e r) = rec_id r" "rec_status (failed_row e r) = Error"
  "rec_request (failed_row e r) = None" "rec_error (failed_row e r) = Some e"
  by (simp_all add: failed_row_def)

lemma unreached_row_fields [simp]:
  "rec_id (unreached_row r) = rec_id r" "rec_status (unreached_row r) = Pending"
  "rec_request (unreached_row r) = rec_request r"
  by (simp_all add: unreached_row_def)

lemma transcribed_row_fields [simp]:
  "rec_id (transcribed_row now res ss r) = rec_id r" "rec_ws (transcribed_row now res ss r) = rec_ws r"
  "rec_status (transcribed_row now res ss r) = Summarizing"
  "rec_request (transcribed_row now res ss r) = None"
  "rec_duration (transcribed_row now res ss r) = true_duration ss (rec_duration r)"
  by (simp_all add: transcribed_row_def)

lemma put_recordings_frame [simp]:
  "recordings (put_recording now r (log_separately j d)) = recordings (put_recording now r d)"
  "recordings (put_recording now r (add_log j d)) = recordings (put_recording now r d)"
  "recordings (put_recording now r (store_segments i ss d)) = recordings (put_recording now r d)"
  by (simp_all add: put_recording_def)

lemma settle_failure_cases:
  assumes "lock_current_request d i q = Some r"
  obtains (unreached) "fst (settle_failure i q started now e d) = RaisedUnavailable"
      "recordings (snd (settle_failure i q started now e d)) = recordings (put_recording now (unreached_row r) d)"
      "\<exists>t. e = EUnavailable t"
  | (failed) x where "fst (settle_failure i q started now e d) \<in> {RaisedUnavailable, RaisedOther}"
      "recordings (snd (settle_failure i q started now e d)) = recordings (put_recording now (failed_row x r) d)"
      "\<nexists>t. e = EUnavailable t"
proof (cases e)
  case (EUnavailable t)
  then show ?thesis using assms by (intro unreached) (simp_all add: settle_failure_def)
next
  case (EChanged c)
  then show ?thesis
    using assms by (intro failed [of "SourceChanged (ExcChanged c)"])
      (simp_all add: settle_failure_def)
next
  case (ETimedOut t)
  then show ?thesis
    using assms by (intro failed [of "SttFailed (ExcText t)"])
      (simp_all add: settle_failure_def)
next
  case (EOther t)
  then show ?thesis
    using assms by (intro failed [of "SttFailed (ExcText t)"])
      (simp_all add: settle_failure_def)
qed

lemma settle_failure_frame [simp]: "segments (snd (settle_failure i q started now e d)) = segments d"
  by (auto simp: settle_failure_def split: option.splits stage_exc.splits)

lemma used_seconds_settle_failure [simp]:
  "used_seconds (snd (settle_failure i q started now e d)) w t = used_seconds d w t"
  by (auto simp: settle_failure_def used_seconds_log_separately counted_log_row
      split: option.splits stage_exc.splits)

text \<open>What a settlement adds to the usage: the length of an accepted result, or of a
  result whose recording was deleted in the meantime.\<close>

definition seconds_or_0 :: "rat option \<Rightarrow> rat" where
  "seconds_or_0 dur = (case dur of None \<Rightarrow> 0 | Some a \<Rightarrow> a)"

fun settled_usage ::
  "(spoken list \<Rightarrow> bool) \<Rightarrow> recording \<Rightarrow> uuid \<Rightarrow> (stage_exc, stt_result) result \<Rightarrow> db \<Rightarrow> (nat \<times> rat) option" where
  "settled_usage accepts m q (Inl e) d = None"
| "settled_usage accepts m q (Inr res) d =
     (case lock_current_request d (rec_id m) q of
        Some r \<Rightarrow>
          (case res_segments res of
             Inl _ \<Rightarrow> None
           | Inr ss \<Rightarrow> if accepts ss then Some (rec_ws r, seconds_or_0 (true_duration ss (rec_duration r)))
                       else None)
      | None \<Rightarrow>
          if get_recording d (rec_id m) = None \<and> get_workspace_row d (rec_ws m) \<noteq> None
          then Some (rec_ws m, seconds_or_0 (rec_duration m)) else None)"

subsection \<open>Properties\<close>

text \<open>C24. A settlement changes what a workspace is charged with by exactly one amount: the
  true length of an accepted transcript, the known length of a recording deleted during
  its transcription, and nothing for a failure, a discarded result or a refused one.\<close>

theorem settlement_charges_exactly:
  "used_seconds (snd (settle_transcription accepts m q started now out d)) w t =
     used_seconds d w t +
     (case settled_usage accepts m q out d of
        Some (v, s) \<Rightarrow> if v = w \<and> t \<le> started then s else 0
      | None \<Rightarrow> 0)"
proof (cases out)
  case (Inl e)
  then show ?thesis by (simp add: settle_transcription_def)
next
  case (Inr res)
  show ?thesis
  proof (cases "lock_current_request d (rec_id m) q")
    case None
    then show ?thesis
      using Inr
      by (cases "get_recording d (rec_id m)"; cases "rec_ws m = w";
          cases "get_workspace_row d (rec_ws m)")
        (simp_all add: settle_transcription_def settle_result_def used_seconds_log_separately
          counted_log_row seconds_or_0_def)
  next
    case (Some r)
    then show ?thesis
      using Inr
      by (cases "res_segments res")
        (simp_all add: settle_transcription_def settle_result_def used_seconds_add_log Let_def
          counted_log_row seconds_or_0_def)
  qed
qed

text \<open>C5. Where a running transcription ends up, as long as its request is still the row's
  own and the database takes the segments: stored and handed to summarising, back in the
  queue with its request kept (the runner could not be reached), or failed with the
  request given up. It is never left in the transcribing state.\<close>

theorem settlement_leaves_no_limbo:
  assumes t: "table_ok rec_id (recordings d)" and r: "lock_current_request d (rec_id m) q = Some r"
    and takes: "\<And>ss. accepts ss"
  shows "\<exists>r'. get_recording (snd (settle_transcription accepts m q started now out d)) (rec_id m) = Some r' \<and>
    (fst (settle_transcription accepts m q started now out d), rec_status r', rec_request r') \<in>
      {(Returned, Summarizing, None), (RaisedUnavailable, Pending, Some q),
       (RaisedUnavailable, Error, None), (RaisedOther, Error, None)}"
proof -
  from lock_current_request_Some [OF r] have rm: "r \<in> set (rows (recordings d))" "rec_id r = rec_id m"
    "rec_request r = Some q" by auto
  have put: "get_recording d' (rec_id m) = Some (stored_as now r r')"
    if "recordings d' = recordings (put_recording now r' d)" "rec_id r' = rec_id r" for r' d'
    using get_put [OF t rm(1) that(2), of now] that(1) rm(2) by simp
  have failure: "\<exists>r'. get_recording (snd (settle_failure (rec_id m) q started now e d)) (rec_id m) = Some r' \<and>
      (fst (settle_failure (rec_id m) q started now e d), rec_status r', rec_request r') \<in>
        {(RaisedUnavailable, Pending, Some q), (RaisedUnavailable, Error, None), (RaisedOther, Error, None)}" for e
    using r
  proof (cases rule: settle_failure_cases [where e = e and started = started and now = now])
    case unreached
    with put [OF unreached(2)] rm show ?thesis by simp
  next
    case (failed x)
    with put [OF failed(2)] rm show ?thesis by auto
  qed
  show ?thesis
  proof (cases out)
    case (Inl e)
    with failure [of e] show ?thesis by (auto simp: settle_transcription_def)
  next
    case (Inr res)
    show ?thesis
    proof (cases "res_segments res")
      case (Inl t)
      with Inr r failure [of "EOther t"] show ?thesis
        by (auto simp: settle_transcription_def settle_result_def)
    next
      case (Inr ss)
      let ?r' = "transcribed_row now res ss r"
      have "recordings (snd (settle_transcription accepts m q started now out d)) =
          recordings (put_recording now ?r' d)"
        using \<open>out = Inr res\<close> Inr r takes
        by (simp add: settle_transcription_def settle_result_def Let_def)
      from put [OF this] show ?thesis
        using \<open>out = Inr res\<close> Inr r takes
        by (simp add: settle_transcription_def settle_result_def Let_def)
    qed
  qed
qed

text \<open>A recording under transcription with request 77, and a result of two segments.\<close>

definition demo_running :: recording where
  "demo_running = demo_recording\<lparr>rec_status := Transcribing, rec_request := Some 77\<rparr>"

definition demo_running_db :: db where
  "demo_running_db = demo_quota_db\<lparr>recordings := \<lparr>rows = [demo_running], next_id = 2\<rparr>\<rparr>"

definition demo_spoken :: "rat \<Rightarrow> rat \<Rightarrow> spoken" where
  "demo_spoken a b = \<lparr>sp_start = a, sp_end = b, sp_speaker = None, sp_text = ''hi'', sp_kind = None\<rparr>"

definition demo_result :: stt_result where
  "demo_result = \<lparr>res_segments = Inr [demo_spoken 0 2, demo_spoken 2 400], res_language = Some ''ko'',
     res_meta = None\<rparr>"

lemma demo_running_ok: "table_ok rec_id (recordings demo_running_db)"
  by (simp add: table_ok_def demo_running_db_def demo_running_def demo_recording_def)

lemma demo_running_lock: "lock_current_request demo_running_db (rec_id demo_running) 77 = Some demo_running"
  by (simp add: lock_current_request_def scalar_def demo_running_db_def demo_running_def demo_recording_def)

theorem settlement_leaves_no_limbo_witness:
  "\<exists>r'. get_recording (snd (settle_transcription (\<lambda>_. True) demo_running 77 5 6 (Inr demo_result)
     demo_running_db)) 1 = Some r' \<and> rec_status r' \<noteq> Transcribing"
proof -
  have i: "rec_id demo_running = 1" by (simp add: demo_running_def demo_recording_def)
  have "\<exists>r'. get_recording (snd (settle_transcription (\<lambda>_. True) demo_running 77 5 6 (Inr demo_result)
     demo_running_db)) (rec_id demo_running) = Some r' \<and>
    (fst (settle_transcription (\<lambda>_. True) demo_running 77 5 6 (Inr demo_result) demo_running_db),
      rec_status r', rec_request r') \<in>
      {(Returned, Summarizing, None), (RaisedUnavailable, Pending, Some 77),
       (RaisedUnavailable, Error, None), (RaisedOther, Error, None)}"
    by (rule settlement_leaves_no_limbo [OF demo_running_ok demo_running_lock]) simp
  then show ?thesis unfolding i by auto
qed

text \<open>The other side of the same coin: when the database refuses the segment rows, the
  refusal surfaces at the last commit, outside the error handling of the stage. Nothing is
  written, so the recording stays transcribing with its request until the stale-row
  recovery puts it back.\<close>

theorem refused_segments_stay_transcribing:
  assumes "lock_current_request d (rec_id m) q = Some r" "res_segments res = Inr ss" "\<not> accepts ss"
  shows "settle_transcription accepts m q started now (Inr res) d = (RaisedOther, d)"
  using assms by (simp add: settle_transcription_def settle_result_def)

theorem refused_segments_stay_transcribing_witness:
  "settle_transcription (\<lambda>_. False) demo_running 77 5 6 (Inr demo_result) demo_running_db =
     (RaisedOther, demo_running_db)"
  by (rule refused_segments_stay_transcribing [OF demo_running_lock]) (simp_all add: demo_result_def)



subsection \<open>Heartbeats\<close>

lemma write_row_by_id:
  assumes "write_row now i f d = Some d'" "\<And>r. rec_id (f r) = rec_id r" "get_recording d i = Some r"
  shows "get_recording d' i = Some ((f r)\<lparr>rec_updated_at := now\<rparr>)"
  using assms rec_tbl.by_id_SomeD [OF assms(3)]
  by (auto simp: write_row_def update_recordings_by_id split: if_splits)

definition alive :: "nat \<Rightarrow> time \<Rightarrow> heartbeat \<times> db \<Rightarrow> bool" where
  "alive i now s \<longleftrightarrow> now - seconds 30 < hb_last (fst s) \<and> hb_last (fst s) \<le> now \<and>
     (\<exists>r. get_recording (snd s) i = Some r \<and> hb_last (fst s) \<le> rec_updated_at r)"

lemma beat_alive:
  assumes "beat i now (hb, d) = Some s" "get_recording d i = Some r" "hb_last hb \<le> rec_updated_at r"
    "hb_last hb \<le> now"
  shows "alive i now s"
proof (cases "now - hb_last hb < HEARTBEAT_EVERY")
  case True
  with assms show ?thesis by (auto simp: beat_def alive_def HEARTBEAT_EVERY_def)
next
  case False
  with assms(1) obtain d' where d': "write_row now i (\<lambda>r. r) d = Some d'" "s = (hb\<lparr>hb_last := now\<rparr>, d')"
    by (auto simp: beat_def)
  from write_row_by_id [OF d'(1) _ assms(2)] d'(2) show ?thesis
    by (simp add: alive_def time_defs)
qed

lemma report_alive:
  assumes rep: "report i sr now (hb, d) = Some s" and r: "get_recording d i = Some r"
    "hb_last hb \<le> rec_updated_at r" "hb_last hb \<le> now"
  shows "alive i now s"
proof -
  obtain stage ratio where sr: "sr = (stage, ratio)" by fastforce
  have written: "alive i now s"
    if "map_option (\<lambda>d'. (\<lparr>hb_progress = p, hb_last = now\<rparr>, d')) (write_row now i f d) = Some s"
      "\<And>r. rec_id (f r) = rec_id r" for p f
  proof -
    from that(1) obtain d' where d': "write_row now i f d = Some d'" "s = (\<lparr>hb_progress = p, hb_last = now\<rparr>, d')"
      by auto
    from write_row_by_id [OF d'(1) that(2) r(1)] d'(2) show ?thesis by (simp add: alive_def time_defs)
  qed
  have beaten: "beat i now (hb, d) = Some s \<Longrightarrow> alive i now s" by (rule beat_alive [OF _ r])
  show ?thesis
  proof (cases "stage \<noteq> None \<and> stage \<noteq> Some ''transcribe''")
    case True
    then show ?thesis
      using rep sr written [of None "\<lambda>r. r\<lparr>rec_progress := None, rec_stage_started := Some now\<rparr>"] beaten
      by (cases "hb_progress hb = None") (simp_all add: report_def)
  next
    case False
    show ?thesis
    proof (cases ratio)
      case None
      with False rep sr beaten show ?thesis by (auto simp: report_def)
    next
      case (Some x)
      have w: "map_option (\<lambda>d'. (\<lparr>hb_progress = Some x, hb_last = now\<rparr>, d'))
          (write_row now i (\<lambda>r. r\<lparr>rec_progress := Some x\<rparr>) d) = Some s \<Longrightarrow> alive i now s"
        using written [of "Some x" "\<lambda>r. r\<lparr>rec_progress := Some x\<rparr>"] by simp
      from False Some rep sr have
        "map_option (\<lambda>d'. (\<lparr>hb_progress = Some x, hb_last = now\<rparr>, d'))
          (write_row now i (\<lambda>r. r\<lparr>rec_progress := Some x\<rparr>) d) = Some s \<or> beat i now (hb, d) = Some s"
        by (simp add: report_def split: if_splits)
      with w beaten show ?thesis by blast
    qed
  qed
qed

text \<open>A worker that keeps hearing from the runner keeps its recording: after any progress
  report, whatever it says, the stale-row recovery of another worker leaves the recording
  alone for the next four and a half minutes.\<close>

theorem reporting_worker_keeps_recording:
  assumes "report i sr now (hb, d) = Some (hb', d')" "get_recording d i = Some r"
    "hb_last hb \<le> rec_updated_at r" "hb_last hb \<le> now" "later \<le> now + seconds 270"
  shows "get_recording (snd (recover_in_flight later d')) i = get_recording d' i \<and> get_recording d' i \<noteq> None"
proof -
  from report_alive [OF assms(1-4)] obtain r' where r': "get_recording d' i = Some r'"
    "now - seconds 30 < rec_updated_at r'"
    by (auto simp: alive_def)
  with assms(5) have "\<not> is_stale later r'" by (simp add: is_stale_def STALE_AFTER_def time_defs)
  with r' show ?thesis by (simp add: recover_in_flight_def update_recordings_by_id)
qed

theorem reporting_worker_keeps_recording_witness:
  "\<exists>hb' d'. report 1 (Some ''transcribe'', Some (1/2)) (seconds 60) (\<lparr>hb_progress = None, hb_last = 0\<rparr>, demo_running_db) =
     Some (hb', d') \<and> get_recording (snd (recover_in_flight (seconds 300) d')) 1 = get_recording d' 1"
proof -
  have g: "get_recording demo_running_db 1 = Some demo_running"
    by (simp add: by_id_def scalar_def demo_running_db_def demo_running_def demo_recording_def)
  then have "report 1 (Some ''transcribe'', Some (1/2)) (seconds 60)
      (\<lparr>hb_progress = None, hb_last = 0\<rparr>, demo_running_db) \<noteq> None"
    by (simp add: report_def write_row_def del: One_nat_def)
  then obtain hb' d' where rep: "report 1 (Some ''transcribe'', Some (1/2)) (seconds 60)
      (\<lparr>hb_progress = None, hb_last = 0\<rparr>, demo_running_db) = Some (hb', d')" by auto
  have "get_recording (snd (recover_in_flight (seconds 300) d')) 1 = get_recording d' 1 \<and>
      get_recording d' 1 \<noteq> None"
    by (rule reporting_worker_keeps_recording [OF rep g])
      (simp_all add: demo_running_def demo_recording_def time_defs)
  with rep show ?thesis by blast
qed

subsection \<open>Enrichment\<close>

lemma finish_row_fields [simp]:
  "rec_id (finish_row m c) = rec_id c" "rec_stt_meta (finish_row m c) = rec_stt_meta c"
  "rec_language (finish_row m c) = rec_language c" "rec_duration (finish_row m c) = rec_duration c"
  "rec_path_current (finish_row m c) = rec_path_current c" "rec_error (finish_row m c) = rec_error c"
  "rec_summary (finish_row m c) = rec_summary c" "rec_duplicate_of (finish_row m c) = rec_duplicate_of c"
  "rec_request (finish_row m c) = rec_request c" "rec_ws (finish_row m c) = rec_ws c"
  "rec_path (finish_row m c) = rec_path c"
  by (simp_all add: finish_row_def)

lemma finish_row_status:
  "rec_status m = Summarizing \<or> m = c \<Longrightarrow>
     rec_status (finish_row m c) = (if rec_path_current c then Done else Missing)"
  by (auto simp: finish_row_def flushed_def)

lemma enriched_row_fields [simp]:
  "rec_id (enriched_row m m' c) = rec_id c" "rec_stt_meta (enriched_row m m' c) = rec_stt_meta c"
  "rec_language (enriched_row m m' c) = rec_language c" "rec_duration (enriched_row m m' c) = rec_duration c"
  "rec_path_current (enriched_row m m' c) = rec_path_current c"
  "rec_duplicate_of (enriched_row m m' c) = rec_duplicate_of c"
  "rec_request (enriched_row m m' c) = rec_request c" "rec_ws (enriched_row m m' c) = rec_ws c"
  "rec_path (enriched_row m m' c) = rec_path c" "rec_status (enriched_row m m' c) = rec_status c"
  by (simp_all add: enriched_row_def)

text \<open>Enrichment never costs a transcript: whether the language model answers, raises or
  is switched off, the recording ends as done (or as missing, if its file was replaced in
  the meantime), and its segments, speech-to-text metadata, language, length and usage are
  what they were.\<close>

theorem enrichment_keeps_transcript:
  assumes t: "table_ok rec_id (recordings d)" and m: "rec_status m = Summarizing"
    and r: "get_recording d (rec_id m) = Some r"
  shows "\<exists>r'. fst (settle_enrich m started now out d) = Returned \<and>
    get_recording (snd (settle_enrich m started now out d)) (rec_id m) = Some r' \<and>
    rec_status r' = (if rec_path_current r then Done else Missing) \<and>
    (rec_stt_meta r', rec_language r', rec_duration r') = (rec_stt_meta r, rec_language r, rec_duration r) \<and>
    segments (snd (settle_enrich m started now out d)) = segments d \<and>
    used_seconds (snd (settle_enrich m started now out d)) w since = used_seconds d w since"
proof -
  from rec_tbl.by_id_SomeD [OF r] have rm: "r \<in> set (rows (recordings d))" "rec_id r = rec_id m" by auto
  have put: "get_recording d' (rec_id m) = Some (stored_as now r r')"
    if "recordings d' = recordings (put_recording now r' d)" "rec_id r' = rec_id r" for r' d'
    using get_put [OF t rm(1) that(2), of now] that(1) rm(2) by simp
  have stored: "rec_stt_meta (stored_as now r x) = rec_stt_meta x" for x by simp
  show ?thesis
  proof (cases out)
    case NoEnricher
    then have "recordings (snd (settle_enrich m started now out d)) = recordings (put_recording now (finish_row m r) d)"
      using r by (simp add: settle_enrich_def)
    from put [OF this] NoEnricher r m show ?thesis
      by (simp add: settle_enrich_def finish_row_status)
  next
    case (EnrichRaised e)
    let ?c = "r\<lparr>rec_error := Some (EnrichFailed (ExcText e))\<rparr>"
    have st: "rec_status (finish_row r ?c) = (if rec_path_current r then Done else Missing)"
      by (simp add: finish_row_def flushed_def)
    have "recordings (snd (settle_enrich m started now out d)) = recordings (put_recording now (finish_row r ?c) d)"
      using r EnrichRaised by (simp add: settle_enrich_def)
    from put [OF this] EnrichRaised r st show ?thesis
      by (simp add: settle_enrich_def used_seconds_log_separately counted_def log_row_def Let_def)
  next
    case (Enriched m' nps)
    let ?d = "add_log (log_row m StageEnrich started now JobDone None None) (apply_tags (rec_id m) (rec_ws m) nps d)"
    have d': "snd (settle_enrich m started now out d) = put_recording now (finish_row m (enriched_row m m' r)) ?d"
      using r Enriched by (simp add: settle_enrich_def)
    have rec: "recordings (put_recording now x ?d) = recordings (put_recording now x d)" for x
      by (simp add: put_recording_def)
    have used: "used_seconds ?d w since = used_seconds d w since"
      using used_seconds_logs [of "apply_tags (rec_id m) (rec_ws m) nps d" d]
      by (simp add: used_seconds_add_log counted_def log_row_def Let_def)
    have "get_recording (snd (settle_enrich m started now out d)) (rec_id m) =
        Some (stored_as now r (finish_row m (enriched_row m m' r)))"
      by (rule put) (simp_all only: d' rec finish_row_fields enriched_row_fields)
    with Enriched r m used show ?thesis
      by (simp add: d') (simp add: settle_enrich_def finish_row_status)
  qed
qed

theorem enrichment_keeps_transcript_witness:
  "\<exists>r'. get_recording (snd (settle_enrich (demo_running\<lparr>rec_status := Summarizing\<rparr>) 5 6 (EnrichRaised ''x'')
     demo_running_db)) 1 = Some r' \<and> rec_status r' = Done"
proof -
  have g: "get_recording demo_running_db (rec_id (demo_running\<lparr>rec_status := Summarizing\<rparr>)) = Some demo_running"
    by (simp add: by_id_def scalar_def demo_running_db_def demo_running_def demo_recording_def)
  have c: "rec_path_current demo_running" "rec_id (demo_running\<lparr>rec_status := Summarizing\<rparr>) = 1"
    by (simp_all add: demo_running_def demo_recording_def)
  have s: "rec_status (demo_running\<lparr>rec_status := Summarizing\<rparr>) = Summarizing" by simp
  from enrichment_keeps_transcript [OF demo_running_ok s g, of 5 6 "EnrichRaised ''x''" 1 0] c
  show ?thesis by auto
qed

end
