(* ===== verification/Service_Runs.thy ===== *)
theory Service_Runs
  imports Worker_Stages
begin

text \<open>
  The registry under everything at once: any number of workers claiming, reporting and
  settling, registrations and scans, maintenance, deletions and edits, interleaved at the
  boundaries of their transactions. The state is the database and what the running
  processes hold; \<open>sv_issued\<close> and \<open>sv_accepted\<close> record the request ids ever drawn and
  those whose result was stored.
\<close>

subsection \<open>How the registry evolves\<close>

text \<open>A row that is there was there before, with its original or without one, with its
  request or without one; a new row has no request. Nobody becomes transcribing.\<close>

definition row_evolves :: "recording \<Rightarrow> recording \<Rightarrow> bool" where
  "row_evolves r r' \<longleftrightarrow> rec_id r' = rec_id r \<and>
     (rec_duplicate_of r' = rec_duplicate_of r \<or> rec_duplicate_of r' = None) \<and>
     (rec_request r' = rec_request r \<or> rec_request r' = None) \<and>
     (rec_status r' = Transcribing \<longrightarrow> rec_status r = Transcribing \<and> rec_request r' = rec_request r)"

definition row_new :: "nat \<Rightarrow> recording \<Rightarrow> bool" where
  "row_new n r \<longleftrightarrow> n \<le> rec_id r \<and> rec_request r = None \<and> rec_status r \<noteq> Transcribing"

definition evolves :: "db \<Rightarrow> db \<Rightarrow> bool" where
  "evolves d d' \<longleftrightarrow> next_id (recordings d) \<le> next_id (recordings d') \<and>
     (\<forall>r'\<in>set (rows (recordings d')). row_new (next_id (recordings d)) r' \<or>
        (\<exists>r\<in>set (rows (recordings d)). row_evolves r r'))"

lemma row_evolves_refl [simp]: "row_evolves r r"
  by (simp add: row_evolves_def)

lemma row_evolves_trans: "row_evolves r s \<Longrightarrow> row_evolves s t \<Longrightarrow> row_evolves r t"
  by (auto simp: row_evolves_def)

lemma evolvesI:
  assumes "next_id (recordings d) \<le> next_id (recordings d')"
    and "\<And>r'. r' \<in> set (rows (recordings d')) \<Longrightarrow> row_new (next_id (recordings d)) r' \<or>
      r' \<in> set (rows (recordings d)) \<or> (\<exists>r\<in>set (rows (recordings d)). row_evolves r r')"
  shows "evolves d d'"
  using assms row_evolves_refl unfolding evolves_def by blast

lemma evolves_same: "recordings d' = recordings d \<Longrightarrow> evolves d d'"
  by (rule evolvesI) auto

lemma evolves_refl [simp]: "evolves d d"
  by (rule evolves_same) simp

lemma evolves_trans:
  assumes "evolves d d'" "evolves d' d''"
  shows "evolves d d''"
proof -
  have "row_new (next_id (recordings d)) t \<or> (\<exists>r\<in>set (rows (recordings d)). row_evolves r t)"
    if t: "t \<in> set (rows (recordings d''))" for t
  proof -
    consider (new) "row_new (next_id (recordings d')) t"
      | (old) s where "s \<in> set (rows (recordings d'))" "row_evolves s t"
      using assms(2) t unfolding evolves_def by blast
    then show ?thesis
    proof cases
      case new
      with assms(1) show ?thesis by (auto simp: evolves_def row_new_def)
    next
      case old
      then consider (new) "row_new (next_id (recordings d)) s"
        | (old) r where "r \<in> set (rows (recordings d))" "row_evolves r s"
        using assms(1) unfolding evolves_def by blast
      then show ?thesis
      proof cases
        case new
        with old(2) have "row_new (next_id (recordings d)) t"
          by (auto simp: row_new_def row_evolves_def)
        then show ?thesis ..
      next
        case (old r)
        with \<open>row_evolves s t\<close> show ?thesis using row_evolves_trans by blast
      qed
    qed
  qed
  with assms show ?thesis by (auto simp: evolves_def)
qed

lemma stored_as_evolves: "row_evolves r r' \<Longrightarrow> row_evolves r (stored_as now r r')"
  unfolding row_evolves_def by (simp only: stored_as_fields stored_as_more) blast

lemma evolves_put:
  assumes "table_ok rec_id (recordings d)" "r \<in> set (rows (recordings d))" "row_evolves r r'"
  shows "evolves d (put_recording now r' d)"
proof -
  have id: "rec_id r' = rec_id r" using assms(3) by (simp add: row_evolves_def)
  show ?thesis
  proof (rule evolvesI)
    fix x assume "x \<in> set (rows (recordings (put_recording now r' d)))"
    then have "x = stored_as now r r' \<or> x \<in> set (rows (recordings d))"
      unfolding set_put [OF assms(1,2) id] by blast
    then show "row_new (next_id (recordings d)) x \<or> x \<in> set (rows (recordings d)) \<or>
        (\<exists>r\<in>set (rows (recordings d)). row_evolves r x)"
      using assms(2) stored_as_evolves [OF assms(3), of now] by blast
  qed simp
qed

lemma evolves_update:
  assumes "\<And>r. r \<in> set (rows (recordings d)) \<Longrightarrow> P r \<Longrightarrow> row_evolves r (f r)"
  shows "evolves d (update_recordings now P f d)"
proof -
  have "row_evolves r ((f r)\<lparr>rec_updated_at := now\<rparr>)" if "r \<in> set (rows (recordings d))" "P r" for r
    using assms [OF that] by (simp add: row_evolves_def)
  then show ?thesis by (intro evolvesI) (auto simp: update_recordings_def)
qed

lemma evolves_insert:
  assumes "rec_request r = None" "rec_status r \<noteq> Transcribing"
  shows "evolves d (d\<lparr>recordings := insert_row set_rec_id r (recordings d)\<rparr>)"
  using assms by (intro evolvesI) (auto simp: row_new_def)

lemma evolves_delete: "evolves d (delete_recording_row i d)"
  by (auto simp: evolves_def delete_recording_row_def row_evolves_def)

lemma resume_not_transcribing [simp]: "resume_status d r \<noteq> Transcribing" "sql_resume d r \<noteq> Transcribing"
  by (simp_all add: resume_status_def sql_resume_def ENRICH_WAITING_def)

subsection \<open>Registration, scans, maintenance\<close>

lemma move_row_evolves: "row_evolves r (move_row d rd sg digest r)"
  by (simp add: row_evolves_def) (simp add: move_row_def Let_def)

lemma confirm_row_evolves: "row_evolves r (fst (confirm_row d rd sg full r))"
  by (auto simp: row_evolves_def confirm_row_def Let_def)

lemma release_path_evolves: "row_evolves r (release_path r)"
  by (simp add: row_evolves_def) (simp add: release_path_def)

lemma register_content_evolves:
  assumes "registry_ok d"
  shows "evolves d (snd (register_content rd sg full digest w src cb pub d))"
proof (cases "find_moved (rd_moved_fs rd) d full w")
  case None
  have "evolves d (d\<lparr>recordings := insert_row set_rec_id (new_row rd sg full digest w src cb q pub) (recordings d)\<rparr>)" for q
    by (rule evolves_insert) (simp_all add: new_row_def)
  with None show ?thesis by (simp add: register_content_def Let_def)
next
  case (Some r)
  from find_moved_Some [OF Some] assms have "r \<in> set (rows (recordings d))" "table_ok rec_id (recordings d)"
    by (simp_all add: registry_ok_def recordings_ok_def)
  with Some show ?thesis by (simp add: register_content_def evolves_put move_row_evolves)
qed

lemma ingest_file_evolves:
  assumes ok: "registry_ok d" and res: "ingest_file rd w src cb verify pub d d = Inr (x, d')"
  shows "evolves d d'"
proof -
  have t: "table_ok rec_id (recordings d)" using ok by (simp add: registry_ok_def recordings_ok_def)
  have locked: "evolves d d'" if res: "register_locked rd sg full digest w src cb pub d = Inr (x, d')"
    for sg full digest
  proof (cases "scalar (current_at (rd_path rd)) (recordings d)")
    case None
    with register_content_evolves [OF ok] res show ?thesis
      by (auto simp: register_locked_def split: if_splits) (metis snd_conv)
  next
    case (Some r)
    then have r: "r \<in> set (rows (recordings d))" using scalar_Some by fastforce
    have rel: "evolves d (snd (register_content rd sg full digest w src cb pub
        (put_recording (rd_now rd) (release_path r) d)))"
      by (rule evolves_trans [OF evolves_put [OF t r release_path_evolves]
            register_content_evolves [OF release_path_free(1) [OF ok Some]]])
    from evolves_put [OF t r confirm_row_evolves] rel res Some show ?thesis
      by (auto simp: register_locked_def split_beta split: if_splits)
  qed
  with res show ?thesis
    by (auto simp: ingest_file_def Let_def split: option.splits if_splits)
qed

lemma scan_evolves:
  assumes "registry_ok d"
  shows "evolves d (snd (scan stat walks w now d))"
proof -
  have one: "evolves (sc_db st) (sc_db (scan_file w base f st))" if "registry_ok (sc_db st)" for base f st
    using ingest_file_evolves [OF that] by (auto simp: scan_file_def Let_def split: sum.splits)
  have files: "evolves (sc_db st) (sc_db (fold (scan_file w base) fs st))" if "registry_ok (sc_db st)" for base fs st
    using that
  proof (induction fs arbitrary: st)
    case (Cons f fs)
    from evolves_trans [OF one [OF Cons.prems] Cons.IH [OF scan_file_ok [OF Cons.prems]]]
    show ?case by simp
  qed simp
  have step: "evolves (sc_db st) (sc_db (scan_root w r st))" if "registry_ok (sc_db st)" for r st
    using files [OF that] by (simp add: scan_root_def Let_def)
  have ok: "registry_ok (sc_db (scan_root w r st))" if "registry_ok (sc_db st)" for r st
    using walk_ok [OF that, of w "[r]"] by simp
  have walk: "evolves (sc_db st) (sc_db (fold (scan_root w) walks st))" if "registry_ok (sc_db st)" for walks st
    using that
  proof (induction walks arbitrary: st)
    case (Cons r walks)
    from evolves_trans [OF step [OF Cons.prems] Cons.IH [OF ok [OF Cons.prems]]] show ?case by simp
  qed simp
  have mark: "evolves d (mark_missing now ids d)" for ids d
    unfolding mark_missing_def by (rule evolves_update) (simp add: row_evolves_def)
  have marks: "evolves d (fold (mark_missing now) idss d)" for idss d
    by (induction idss arbitrary: d) (auto intro: evolves_trans mark)
  have sweep: "evolves d (fold (sweep_root now) idss d)" for idss d
  proof (induction idss arbitrary: d)
    case (Cons ids idss)
    have "evolves d (sweep_root now ids d)" by (simp add: sweep_root_def marks)
    from evolves_trans [OF this Cons] show ?case by simp
  qed simp
  have "evolves d (sc_db (walk_all walks w d))"
    using walk [of "\<lparr>sc_seen = [], sc_stats = no_stats, sc_complete = [], sc_db = d\<rparr>" walks] assms
    by (simp add: walk_all_def)
  from evolves_trans [OF this sweep] show ?thesis by (simp add: scan_def Let_def)
qed

lemma requeue_evolves:
  "evolves d (snd (recover_in_flight now d))" "evolves d (snd (retry_failed w now d))"
  "evolves d (snd (requeue_unenriched now d))"
  by (auto simp: recover_in_flight_def retry_failed_def requeue_unenriched_def row_evolves_def
      ENRICH_WAITING_def intro!: evolves_update)

lemma release_evolves: "evolves d (snd (release_quota_blocked now d))"
proof -
  have "evolves d (release_chunk now ids d)" for ids d
    unfolding release_chunk_def by (rule evolves_update) (simp add: row_evolves_def)
  then have "evolves d (fold (release_chunk now) idss d)" for idss d
    by (induction idss arbitrary: d) (auto intro: evolves_trans)
  then show ?thesis by (simp add: release_quota_blocked_def Let_def)
qed

subsection \<open>The service\<close>

record service =
  sv_db :: db
  sv_issued :: "uuid list"
  sv_accepted :: "uuid list"
  sv_running :: "(recording \<times> uuid) list"
  sv_enriching :: "recording list"

text \<open>A change of a recording by a person (title, summary, tags, retry): the row keeps what
  identifies it, and its status or gets the resumed one.\<close>

definition is_edit :: "db \<Rightarrow> recording \<Rightarrow> recording \<Rightarrow> bool" where
  "is_edit d r r' \<longleftrightarrow> rec_id r' = rec_id r \<and> rec_ws r' = rec_ws r \<and> rec_path r' = rec_path r \<and>
     rec_path_current r' = rec_path_current r \<and> rec_duplicate_of r' = rec_duplicate_of r \<and>
     (rec_request r' = rec_request r \<or> rec_request r' = None) \<and>
     (rec_status r' = rec_status r \<and> rec_request r' = rec_request r \<or> rec_status r' = resume_status d r)"

inductive service_step :: "service \<Rightarrow> service \<Rightarrow> bool" where
  claim_run: "claim_next lw lr now (sv_db s) = (Some r, d) \<Longrightarrow> rec_status r \<noteq> ENRICH_WAITING \<Longrightarrow>
    transcription_block d r now = None \<Longrightarrow> fresh \<notin> set (sv_issued s) \<Longrightarrow>
    m = start_transcribe fresh now r \<Longrightarrow> rec_request m = Some q \<Longrightarrow>
    service_step s (s\<lparr>sv_db := put_recording now m d, sv_issued := fresh # sv_issued s,
      sv_running := (m, q) # sv_running s\<rparr>)"
| claim_unknown: "claim_next lw lr now (sv_db s) = (Some r, d) \<Longrightarrow> rec_status r \<noteq> ENRICH_WAITING \<Longrightarrow>
    transcription_block d r now = Some DurationUnknown \<Longrightarrow>
    service_step s (s\<lparr>sv_db := put_recording now
      (r\<lparr>rec_status := Error, rec_error := Some LengthUnknown\<rparr>) d\<rparr>)"
| claim_blocked: "claim_next lw lr now (sv_db s) = (Some r, d) \<Longrightarrow> rec_status r \<noteq> ENRICH_WAITING \<Longrightarrow>
    transcription_block d r now = Some e \<Longrightarrow> e \<noteq> DurationUnknown \<Longrightarrow>
    service_step s (s\<lparr>sv_db := put_recording now (r\<lparr>rec_status := QuotaBlocked\<rparr>) d\<rparr>)"
| claim_enrich: "claim_next lw lr now (sv_db s) = (Some r, d) \<Longrightarrow> rec_status r = ENRICH_WAITING \<Longrightarrow>
    m = start_enrich now r \<Longrightarrow>
    service_step s (s\<lparr>sv_db := put_recording now m d, sv_enriching := m # sv_enriching s\<rparr>)"
| progress: "(m, q) \<in> set (sv_running s) \<Longrightarrow> report (rec_id m) sr now (hb, sv_db s) = Some (hb', d) \<Longrightarrow>
    service_step s (s\<lparr>sv_db := d\<rparr>)"
| settle: "(m, q) \<in> set (sv_running s) \<Longrightarrow>
    settle_transcription accepts m q started now out (sv_db s) = (e, d) \<Longrightarrow>
    service_step s (s\<lparr>sv_db := d, sv_running := remove1 (m, q) (sv_running s),
      sv_accepted := (if e = Returned then q # sv_accepted s else sv_accepted s),
      sv_enriching := (case get_recording d (rec_id m) of
        Some r \<Rightarrow> if e = Returned then r # sv_enriching s else sv_enriching s | None \<Rightarrow> sv_enriching s)\<rparr>)"
| finish: "m \<in> set (sv_enriching s) \<Longrightarrow> settle_enrich m started now out (sv_db s) = (e, d) \<Longrightarrow>
    service_step s (s\<lparr>sv_db := d, sv_enriching := remove1 m (sv_enriching s)\<rparr>)"
| register: "ingest_file rd w src cb verify pub (sv_db s) (sv_db s) = Inr (x, d) \<Longrightarrow>
    service_step s (s\<lparr>sv_db := d\<rparr>)"
| rescan: "service_step s (s\<lparr>sv_db := snd (scan stat walks w now (sv_db s))\<rparr>)"
| recover: "service_step s (s\<lparr>sv_db := snd (recover_in_flight now (sv_db s))\<rparr>)"
| retry: "service_step s (s\<lparr>sv_db := snd (retry_failed ws now (sv_db s))\<rparr>)"
| requeue: "service_step s (s\<lparr>sv_db := snd (requeue_unenriched now (sv_db s))\<rparr>)"
| release: "service_step s (s\<lparr>sv_db := snd (release_quota_blocked now (sv_db s))\<rparr>)"
| remove: "service_step s (s\<lparr>sv_db := delete_recording_row i (sv_db s)\<rparr>)"
| edit: "r \<in> set (rows (recordings (sv_db s))) \<Longrightarrow> is_edit (sv_db s) r r' \<Longrightarrow>
    service_step s (s\<lparr>sv_db := put_recording now r' (sv_db s)\<rparr>)"
| elsewhere: "recordings d = recordings (sv_db s) \<Longrightarrow> service_step s (s\<lparr>sv_db := d\<rparr>)"

definition initial_service :: "db \<Rightarrow> service" where
  "initial_service d = \<lparr>sv_db = d, sv_issued = [], sv_accepted = [], sv_running = [], sv_enriching = []\<rparr>"

inductive service_reachable :: "service \<Rightarrow> bool" where
  start: "recordings d = empty_table \<Longrightarrow> service_reachable (initial_service d)"
| step: "service_reachable s \<Longrightarrow> service_step s s' \<Longrightarrow> service_reachable s'"

subsection \<open>Its invariant\<close>

definition requests_ok :: "recording set \<Rightarrow> uuid set \<Rightarrow> uuid list \<Rightarrow> bool" where
  "requests_ok R issued accepted \<longleftrightarrow>
     (\<forall>r\<in>R. \<forall>q. rec_request r = Some q \<longrightarrow> q \<in> issued \<and> q \<notin> set accepted \<and>
        (\<forall>r'\<in>R. rec_request r' = Some q \<longrightarrow> rec_id r' = rec_id r)) \<and>
     (\<forall>r\<in>R. rec_status r = Transcribing \<longrightarrow> rec_request r \<noteq> None) \<and>
     (\<forall>r\<in>R. rec_request r \<noteq> None \<longrightarrow> rec_duplicate_of r = None) \<and>
     distinct accepted \<and> set accepted \<subseteq> issued"

text \<open>A held object is of a row that is no duplicate, now and later.\<close>

definition held_ok :: "db \<Rightarrow> recording \<Rightarrow> bool" where
  "held_ok d m \<longleftrightarrow> rec_id m < next_id (recordings d) \<and>
     (\<forall>r\<in>set (rows (recordings d)). rec_id r = rec_id m \<longrightarrow> rec_duplicate_of r = None)"

definition service_ok :: "service \<Rightarrow> bool" where
  "service_ok s \<longleftrightarrow> registry_ok (sv_db s) \<and>
     requests_ok (set (rows (recordings (sv_db s)))) (set (sv_issued s)) (sv_accepted s) \<and>
     (\<forall>m\<in>set (sv_enriching s). held_ok (sv_db s) m \<and> rec_status m = Summarizing)"

lemma held_ok_evolves: "held_ok d m \<Longrightarrow> evolves d d' \<Longrightarrow> held_ok d' m"
proof -
  assume h: "held_ok d m" and e: "evolves d d'"
  have "rec_duplicate_of r' = None" if "r' \<in> set (rows (recordings d'))" "rec_id r' = rec_id m" for r'
  proof -
    from e that(1) consider "row_new (next_id (recordings d)) r'"
      | r where "r \<in> set (rows (recordings d))" "row_evolves r r'"
      unfolding evolves_def by blast
    then show ?thesis
    proof cases
      case 1
      with h that(2) show ?thesis by (simp add: row_new_def held_ok_def)
    next
      case (2 r)
      with h that(2) show ?thesis by (auto simp: row_evolves_def held_ok_def)
    qed
  qed
  with h e show ?thesis by (auto simp: held_ok_def evolves_def)
qed

lemma requests_evolve:
  assumes s: "requests_ok (set (rows (recordings d))) issued accepted" and e: "evolves d d'"
  shows "requests_ok (set (rows (recordings d'))) issued accepted"
proof -
  have from_old: "\<exists>r\<in>set (rows (recordings d)). rec_id r = rec_id r' \<and> rec_request r = Some q"
    if "r' \<in> set (rows (recordings d'))" "rec_request r' = Some q" for r' q
    using e that unfolding evolves_def row_new_def row_evolves_def by fastforce
  have transcribing: "rec_request r' \<noteq> None" if r': "r' \<in> set (rows (recordings d'))" "rec_status r' = Transcribing" for r'
  proof -
    from e r' obtain r where "r \<in> set (rows (recordings d))" "row_evolves r r'"
      unfolding evolves_def row_new_def by blast
    with r'(2) s show ?thesis unfolding row_evolves_def requests_ok_def by metis
  qed
  have reqs: "q \<in> issued \<and> q \<notin> set accepted \<and>
      (\<forall>x\<in>set (rows (recordings d')). rec_request x = Some q \<longrightarrow> rec_id x = rec_id r')"
    if r': "r' \<in> set (rows (recordings d'))" "rec_request r' = Some q" for r' q
  proof -
    obtain r where r: "r \<in> set (rows (recordings d))" "rec_id r = rec_id r'" "rec_request r = Some q"
      using from_old [OF r'] by blast
    have "rec_id x = rec_id r'" if x: "x \<in> set (rows (recordings d'))" "rec_request x = Some q" for x
    proof -
      obtain y where y: "y \<in> set (rows (recordings d))" "rec_id y = rec_id x" "rec_request y = Some q"
        using from_old [OF x] by blast
      have "rec_id y = rec_id r" using s r(1,3) y(1,3) unfolding requests_ok_def by blast
      with y r show ?thesis by simp
    qed
    moreover have "q \<in> issued \<and> q \<notin> set accepted"
      using s r(1,3) unfolding requests_ok_def by blast
    ultimately show ?thesis by blast
  qed
  have originals: "rec_duplicate_of r' = None" if r': "r' \<in> set (rows (recordings d'))" "rec_request r' \<noteq> None" for r'
  proof -
    from e r' obtain r where r: "r \<in> set (rows (recordings d))" "row_evolves r r'"
      unfolding evolves_def row_new_def by metis
    with r'(2) have "rec_request r \<noteq> None" by (auto simp: row_evolves_def)
    with s r(1) have "rec_duplicate_of r = None" unfolding requests_ok_def by blast
    with r(2) show ?thesis by (auto simp: row_evolves_def)
  qed
  have "distinct accepted \<and> set accepted \<subseteq> issued"
    using s unfolding requests_ok_def by blast
  with reqs transcribing originals show ?thesis unfolding requests_ok_def by blast
qed

text \<open>The steps that only evolve the registry.\<close>

lemma service_ok_evolves:
  assumes "service_ok s" "registry_ok d'" "evolves (sv_db s) d'"
  shows "service_ok (s\<lparr>sv_db := d'\<rparr>)"
proof -
  have "requests_ok (set (rows (recordings d'))) (set (sv_issued s)) (sv_accepted s)"
    using assms(1) by (intro requests_evolve [OF _ assms(3)]) (simp add: service_ok_def)
  moreover have "held_ok d' m \<and> rec_status m = Summarizing" if "m \<in> set (sv_enriching s)" for m
    using assms(1) that held_ok_evolves [OF _ assms(3)] by (simp add: service_ok_def)
  ultimately show ?thesis using assms(2) by (simp add: service_ok_def)
qed

lemma claim_next_facts:
  assumes "claim_next lw lr now d = (Some r, d')"
  shows "recordings d' = recordings d" "r \<in> set (rows (recordings d))" "rec_status r \<in> {Pending, Enriching}"
    "rec_path_current r"
proof -
  from assms have c: "fst (claim_next lw lr now d) = Some r" and d': "d' = snd (claim_next lw lr now d)" by simp_all
  from claim_next_cases [OF c] obtain w where "claim_in_workspace lr d w = Some r" by blast
  from claim_in_workspace_Some [OF this] show "r \<in> set (rows (recordings d))"
    "rec_status r \<in> {Pending, Enriching}" "rec_path_current r"
    by (simp_all add: available_def)
  show "recordings d' = recordings d"
    unfolding d' by (simp add: claim_next_def Let_def claim_loop_frame del: claim_loop.simps split: list.splits)
qed

lemma registry_ok_cong: "recordings d' = recordings d \<Longrightarrow> registry_ok d' = registry_ok d"
  by (simp add: registry_ok_def recordings_ok_def)

lemma claim_put_ok:
  assumes ok: "registry_ok d0" and c: "claim_next lw lr now d0 = (Some r, d)"
    and same: "rec_id m = rec_id r" "rec_ws m = rec_ws r" "rec_path m = rec_path r"
      "rec_path_current m = rec_path_current r" "rec_duplicate_of m = rec_duplicate_of r"
  shows "registry_ok (put_recording now m d)" and "rec_duplicate_of r = None"
proof -
  note f = claim_next_facts [OF c]
  have ok': "registry_ok d" using ok registry_ok_cong [OF f(1)] by simp
  show dup: "rec_duplicate_of r = None"
    using ok f(2,3) by (cases "rec_duplicate_of r") (auto simp: registry_ok_def)
  have rm: "r \<in> set (rows (recordings d))" using f(1,2) by simp
  show "registry_ok (put_recording now m d)"
  proof (rule registry_put [OF ok' rm same(1,2,5)])
    show "x = r" if "rec_path_current m" "x \<in> set (rows (recordings d))" "rec_path_current x"
      "rec_path x = rec_path m" for x
      using that ok' rm f(4) same(3) unfolding registry_ok_def recordings_ok_iff by metis
  qed (simp add: dup)
qed

lemma claim_put_evolves:
  assumes ok: "registry_ok d0" and c: "claim_next lw lr now d0 = (Some r, d)" and e: "row_evolves r m"
  shows "evolves d0 (put_recording now m d)"
proof -
  note f = claim_next_facts [OF c]
  have "table_ok rec_id (recordings d)" using ok f(1) by (simp add: registry_ok_def recordings_ok_def)
  moreover have "r \<in> set (rows (recordings d))" using f(1,2) by simp
  ultimately have "evolves d (put_recording now m d)" using e by (rule evolves_put)
  with evolves_same [OF f(1)] show ?thesis by (rule evolves_trans)
qed

subsection \<open>Every step keeps it\<close>

lemma registry_put_same:
  assumes ok: "registry_ok d" and r: "r \<in> set (rows (recordings d))"
    and same: "rec_id r' = rec_id r" "rec_ws r' = rec_ws r" "rec_path r' = rec_path r"
      "rec_path_current r' = rec_path_current r" "rec_duplicate_of r' = rec_duplicate_of r"
    and status: "rec_duplicate_of r \<noteq> None \<Longrightarrow> rec_status r' \<in> {Duplicate, Missing}"
  shows "registry_ok (put_recording now r' d)"
proof (rule registry_put [OF ok r same(1,2,5) status])
  show "x = r" if "rec_path_current r'" "x \<in> set (rows (recordings d))" "rec_path_current x"
    "rec_path x = rec_path r'" for x
    using that ok r same(3,4) unfolding registry_ok_def recordings_ok_iff by metis
qed

lemma held_ok_put:
  assumes "table_ok rec_id (recordings d)" "r \<in> set (rows (recordings d))" "rec_id r' = rec_id r"
    "rec_duplicate_of r' = rec_duplicate_of r" "held_ok d m"
  shows "held_ok (put_recording now r' d) m"
  using assms(2,3,4,5) unfolding held_ok_def set_put [OF assms(1-3)] by auto

lemma requests_ok_insert:
  assumes R: "requests_ok R issued accepted" and more: "issued \<subseteq> issued'"
    and q: "rec_request x = Some q" "q \<in> issued'" "q \<notin> set accepted"
      "\<forall>y\<in>R. rec_request y = Some q \<longrightarrow> rec_id y = i"
    and x: "rec_id x = i" "rec_duplicate_of x = None"
  shows "requests_ok (insert x {y \<in> R. rec_id y \<noteq> i}) issued' accepted"
proof -
  let ?R = "insert x {y \<in> R. rec_id y \<noteq> i}"
  have old: "p \<in> issued \<and> p \<notin> set accepted \<and> (\<forall>z\<in>R. rec_request z = Some p \<longrightarrow> rec_id z = rec_id y)"
    if "y \<in> R" "rec_request y = Some p" for y p
    using R that unfolding requests_ok_def by blast
  have "p \<in> issued' \<and> p \<notin> set accepted \<and> (\<forall>z\<in>?R. rec_request z = Some p \<longrightarrow> rec_id z = rec_id y)"
    if y: "y \<in> ?R" "rec_request y = Some p" for y p
  proof (cases "y = x")
    case True
    with y q x show ?thesis by auto
  next
    case False
    with y have yR: "y \<in> R" "rec_id y \<noteq> i" by auto
    have "p \<noteq> q" using q(4) yR y(2) by auto
    with old [OF yR(1) y(2)] q(1) more show ?thesis by auto
  qed
  moreover have "\<forall>y\<in>?R. rec_status y = Transcribing \<longrightarrow> rec_request y \<noteq> None"
    using R q(1) unfolding requests_ok_def by auto
  moreover have "\<forall>y\<in>?R. rec_request y \<noteq> None \<longrightarrow> rec_duplicate_of y = None"
    using R x(2) unfolding requests_ok_def by auto
  moreover have "distinct accepted \<and> set accepted \<subseteq> issued'"
    using R more unfolding requests_ok_def by blast
  ultimately show ?thesis unfolding requests_ok_def by blast
qed

lemma claim_run_ok:
  assumes ok: "service_ok s" and c: "claim_next lw lr now (sv_db s) = (Some r, d)"
    and fresh: "fresh \<notin> set (sv_issued s)" and m: "m = start_transcribe fresh now r"
  shows "service_ok (s\<lparr>sv_db := put_recording now m d, sv_issued := fresh # sv_issued s, sv_running := X\<rparr>)"
proof -
  let ?R = "set (rows (recordings d))"
  note f = claim_next_facts [OF c]
  have reg: "registry_ok (sv_db s)" using ok by (simp add: service_ok_def)
  have same: "rec_id m = rec_id r" "rec_ws m = rec_ws r" "rec_path m = rec_path r"
    "rec_path_current m = rec_path_current r" "rec_duplicate_of m = rec_duplicate_of r"
    "rec_request m = (case rec_request r of None \<Rightarrow> Some fresh | Some q \<Rightarrow> Some q)"
    by (auto simp: m start_transcribe_def split: option.splits)
  note put = claim_put_ok [OF reg c same(1-5)]
  have R: "requests_ok ?R (set (sv_issued s)) (sv_accepted s)"
    using ok f(1) by (simp add: service_ok_def)
  have t: "table_ok rec_id (recordings d)" using reg f(1) by (simp add: registry_ok_def recordings_ok_def)
  have rm: "r \<in> ?R" using f(1,2) by simp
  note S = set_put [OF t rm same(1), of now]
  have mq: "rec_request (stored_as now r m) = rec_request m" by simp
  obtain q where q: "rec_request (stored_as now r m) = Some q" "q \<in> set (fresh # sv_issued s)"
    "q \<notin> set (sv_accepted s)" "\<forall>y\<in>?R. rec_request y = Some q \<longrightarrow> rec_id y = rec_id r"
  proof (cases "rec_request r")
    case None
    then have "rec_request (stored_as now r m) = Some fresh" using same(6) mq by simp
    moreover have "\<forall>y\<in>?R. rec_request y \<noteq> Some fresh" "fresh \<notin> set (sv_accepted s)"
      using R fresh unfolding requests_ok_def by blast+
    ultimately show ?thesis by (intro that [of fresh]) simp_all
  next
    case (Some q0)
    then have "rec_request (stored_as now r m) = Some q0" using same(6) mq by simp
    moreover have "q0 \<in> set (sv_issued s)" "q0 \<notin> set (sv_accepted s)"
      "\<forall>y\<in>?R. rec_request y = Some q0 \<longrightarrow> rec_id y = rec_id r"
      using R rm Some unfolding requests_ok_def by blast+
    ultimately show ?thesis by (intro that [of q0]) simp_all
  qed
  have "requests_ok (insert (stored_as now r m) {x \<in> ?R. rec_id x \<noteq> rec_id r})
      (set (fresh # sv_issued s)) (sv_accepted s)"
    by (rule requests_ok_insert [OF R _ q]) (auto simp: same put(2))
  moreover have "held_ok (put_recording now m d) x \<and> rec_status x = Summarizing"
    if "x \<in> set (sv_enriching s)" for x
  proof -
    have h: "held_ok (sv_db s) x" "rec_status x = Summarizing" using ok that by (simp_all add: service_ok_def)
    then have "held_ok d x" using f(1) by (simp add: held_ok_def)
    with held_ok_put [OF t rm same(1,5)] h(2) show ?thesis by blast
  qed
  ultimately show ?thesis
    using put(1) unfolding service_ok_def by (simp add: S)
qed

lemma settle_failure_evolves:
  assumes ok: "registry_ok d" and orig: "\<forall>r\<in>set (rows (recordings d)). rec_request r \<noteq> None \<longrightarrow> rec_duplicate_of r = None"
  shows "registry_ok (snd (settle_failure i q started now e d)) \<and> evolves d (snd (settle_failure i q started now e d))"
proof (cases "lock_current_request d i q")
  case None
  with ok show ?thesis by (simp add: settle_failure_def)
next
  case (Some r)
  have t: "table_ok rec_id (recordings d)" using ok by (simp add: registry_ok_def recordings_ok_def)
  from lock_current_request_Some [OF Some] have r: "r \<in> set (rows (recordings d))" "rec_request r = Some q" by auto
  have dup: "rec_duplicate_of r = None" using orig r by simp
  have put: "registry_ok d' \<and> evolves d d'"
    if d': "recordings d' = recordings (put_recording now x d)" and x: "x = unreached_row r \<or> (\<exists>e. x = failed_row e r)"
    for d' x
  proof -
    have "registry_ok (put_recording now x d)"
      using x by (intro registry_put_same [OF ok r(1)]) (auto simp: unreached_row_def failed_row_def dup)
    moreover have "evolves d (put_recording now x d)"
      using x by (intro evolves_put [OF t r(1)]) (auto simp: row_evolves_def unreached_row_def failed_row_def)
    ultimately show ?thesis
      using registry_ok_cong [OF d'] evolves_trans [OF _ evolves_same [OF d']] by blast
  qed
  from Some show ?thesis
  proof (cases rule: settle_failure_cases [where e = e and started = started and now = now])
    case unreached
    from put [OF unreached(2)] show ?thesis by simp
  next
    case (failed x)
    from put [OF failed(2)] show ?thesis by blast
  qed
qed

lemma settle_evolves:
  assumes ok: "registry_ok d" and orig: "\<forall>r\<in>set (rows (recordings d)). rec_request r \<noteq> None \<longrightarrow> rec_duplicate_of r = None"
    and res: "settle_transcription accepts m q started now out d = (e, d')"
  shows "registry_ok d' \<and> evolves d d' \<and>
    (e = Returned \<longrightarrow> (\<exists>r. lock_current_request d (rec_id m) q = Some r \<and>
       recordings d' = recordings (put_recording now (transcribed_row now (projr out)
         (projr (res_segments (projr out))) r) d)))"
proof (cases out)
  case (Inl x)
  with res have d': "(e, d') = settle_failure (rec_id m) q started now x d" by (simp add: settle_transcription_def)
  then have "e \<noteq> Returned" by (auto simp: settle_failure_def split: option.splits stage_exc.splits)
  with settle_failure_evolves [OF ok orig, of "rec_id m" q started now x] d' show ?thesis
    by (metis snd_conv)
next
  case (Inr y)
  have t: "table_ok rec_id (recordings d)" using ok by (simp add: registry_ok_def recordings_ok_def)
  show ?thesis
  proof (cases "lock_current_request d (rec_id m) q")
    case None
    with res Inr have "recordings d' = recordings d" "e \<noteq> Returned"
      by (auto simp: settle_transcription_def settle_result_def split: option.splits)
    then show ?thesis using registry_ok_cong ok evolves_same by blast
  next
    case (Some r)
    show ?thesis
    proof (cases "res_segments y")
      case (Inl x)
      with res \<open>out = Inr y\<close> Some have d': "(e, d') = settle_failure (rec_id m) q started now (EOther x) d"
        by (simp add: settle_transcription_def settle_result_def)
      then have "e \<noteq> Returned" by (auto simp: settle_failure_def split: option.splits)
      with settle_failure_evolves [OF ok orig, of "rec_id m" q started now "EOther x"] d' show ?thesis
        by (metis snd_conv)
    next
      case (Inr ss)
      show ?thesis
      proof (cases "accepts ss")
        case False
        with res \<open>out = Inr y\<close> Some Inr have "d' = d" "e = RaisedOther"
          by (simp_all add: settle_transcription_def settle_result_def)
        with ok show ?thesis by simp
      next
        case True
        let ?r' = "transcribed_row now y ss r"
        from res \<open>out = Inr y\<close> Some Inr True have d': "recordings d' = recordings (put_recording now ?r' d)"
          by (auto simp: settle_transcription_def settle_result_def Let_def)
        from lock_current_request_Some [OF Some] have r: "r \<in> set (rows (recordings d))" "rec_request r = Some q" by auto
        have dup: "rec_duplicate_of r = None" using orig r by simp
        have "registry_ok (put_recording now ?r' d)"
          by (rule registry_put_same [OF ok r(1)]) (auto simp: transcribed_row_def dup)
        moreover have "evolves d (put_recording now ?r' d)"
          by (rule evolves_put [OF t r(1)]) (simp add: row_evolves_def transcribed_row_def)
        ultimately have "registry_ok d' \<and> evolves d d'"
          using registry_ok_cong [OF d'] evolves_trans [OF _ evolves_same [OF d']] by blast
        with Some \<open>out = Inr y\<close> Inr d' show ?thesis by simp
      qed
    qed
  qed
qed

lemma finish_evolves:
  assumes ok: "registry_ok d" and m: "held_ok d m" "rec_status m = Summarizing"
    and res: "settle_enrich m started now out d = (e, d')"
  shows "registry_ok d' \<and> evolves d d'"
proof (cases "get_recording d (rec_id m)")
  case None
  with res ok show ?thesis by (simp add: settle_enrich_def)
next
  case (Some cur)
  have t: "table_ok rec_id (recordings d)" using ok by (simp add: registry_ok_def recordings_ok_def)
  from rec_tbl.by_id_SomeD [OF Some] have c: "cur \<in> set (rows (recordings d))" "rec_id cur = rec_id m" by auto
  have dup: "rec_duplicate_of cur = None" using m(1) c by (simp add: held_ok_def)
  have put: "registry_ok d'' \<and> evolves d d''"
    if d'': "recordings d'' = recordings (put_recording now x d)"
      and x: "rec_id x = rec_id cur" "rec_ws x = rec_ws cur" "rec_path x = rec_path cur"
        "rec_path_current x = rec_path_current cur" "rec_duplicate_of x = rec_duplicate_of cur"
        "rec_request x = rec_request cur" "rec_status x \<noteq> Transcribing" for d'' x
  proof -
    have "registry_ok (put_recording now x d)"
      by (rule registry_put_same [OF ok c(1) x(1-5)]) (simp add: dup)
    moreover have "evolves d (put_recording now x d)"
      by (rule evolves_put [OF t c(1)]) (simp add: row_evolves_def x)
    ultimately show ?thesis
      using registry_ok_cong [OF d''] evolves_trans [OF _ evolves_same [OF d'']] by blast
  qed
  show ?thesis
  proof (cases out)
    case NoEnricher
    with res Some have "recordings d' = recordings (put_recording now (finish_row m cur) d)"
      by (auto simp: settle_enrich_def)
    from put [OF this] finish_row_status [of m cur] m(2) show ?thesis by simp
  next
    case (EnrichRaised t)
    let ?c = "cur\<lparr>rec_error := Some (EnrichFailed (ExcText t))\<rparr>"
    have "rec_status (finish_row cur ?c) \<noteq> Transcribing" by (simp add: finish_row_def flushed_def)
    moreover from res Some EnrichRaised have "recordings d' = recordings (put_recording now (finish_row cur ?c) d)"
      by (auto simp: settle_enrich_def)
    ultimately show ?thesis using put [of d' "finish_row cur ?c"] by simp
  next
    case (Enriched m' nps)
    with res Some have "recordings d' = recordings (put_recording now (finish_row m (enriched_row m m' cur)) d)"
      by (auto simp: settle_enrich_def put_recording_def)
    from put [OF this] finish_row_status [of m "enriched_row m m' cur"] m(2) show ?thesis by simp
  qed
qed

lemma write_row_evolves:
  assumes ok: "registry_ok d" and w: "write_row now i f d = Some d'"
    and f: "\<And>r. rec_id (f r) = rec_id r" "\<And>r. rec_ws (f r) = rec_ws r"
      "\<And>r. rec_duplicate_of (f r) = rec_duplicate_of r" "\<And>r. rec_path (f r) = rec_path r"
      "\<And>r. rec_path_current (f r) = rec_path_current r" "\<And>r. rec_status (f r) = rec_status r"
      "\<And>r. rec_request (f r) = rec_request r"
  shows "registry_ok d' \<and> evolves d d'"
proof -
  from w have d': "d' = update_recordings now (\<lambda>r. rec_id r = i) f d"
    by (simp add: write_row_def split: if_splits)
  have "rec_status (f r) \<in> {Duplicate, Missing}"
    if "r \<in> set (rows (recordings d))" "rec_duplicate_of r \<noteq> None" for r
    using ok that unfolding f registry_ok_def by blast
  then have "registry_ok d'" unfolding d' by (intro registry_update [OF ok f(1-5)])
  moreover have "evolves d d'"
    unfolding d' by (rule evolves_update) (simp add: row_evolves_def f)
  ultimately show ?thesis ..
qed

lemma beat_evolves:
  assumes "registry_ok d" "beat i now (hb, d) = Some (hb', d')"
  shows "registry_ok d' \<and> evolves d d'"
proof (cases "now - hb_last hb < HEARTBEAT_EVERY")
  case True
  with assms show ?thesis by (simp add: beat_def)
next
  case False
  with assms(2) have "write_row now i (\<lambda>r. r) d = Some d'" by (auto simp: beat_def)
  then show ?thesis by (rule write_row_evolves [OF assms(1)]) simp_all
qed

lemma report_evolves:
  assumes ok: "registry_ok d" and rep: "report i sr now (hb, d) = Some (hb', d')"
  shows "registry_ok d' \<and> evolves d d'"
proof -
  obtain stage ratio where sr: "sr = (stage, ratio)" by fastforce
  consider (beat) "beat i now (hb, d) = Some (hb', d')"
    | (stage) "write_row now i (\<lambda>r. r\<lparr>rec_progress := None, rec_stage_started := Some now\<rparr>) d = Some d'"
    | (ratio) x where "write_row now i (\<lambda>r. r\<lparr>rec_progress := Some x\<rparr>) d = Some d'"
    using rep sr by (auto simp: report_def split: if_splits option.splits)
  then show ?thesis
  proof cases
    case beat
    with ok show ?thesis by (rule beat_evolves)
  next
    case stage
    then show ?thesis by (rule write_row_evolves [OF ok]) simp_all
  next
    case (ratio x)
    then show ?thesis by (rule write_row_evolves [OF ok]) simp_all
  qed
qed

lemma requeue_ok:
  assumes ok: "registry_ok d"
  shows "registry_ok (snd (recover_in_flight now d))" "registry_ok (snd (retry_failed w now d))"
    "registry_ok (snd (requeue_unenriched now d))" "registry_ok (snd (release_quota_blocked now d))"
proof -
  have orig: "rec_status r \<in> {Duplicate, Missing}"
    if "r \<in> set (rows (recordings d'))" "rec_duplicate_of r \<noteq> None" "registry_ok d'" for r d'
    using that unfolding registry_ok_def by blast
  show "registry_ok (snd (recover_in_flight now d))"
    unfolding recover_in_flight_def snd_conv
    by (rule registry_update [OF ok]) (simp_all add: resume_status_dup)
  show "registry_ok (snd (retry_failed w now d))"
    unfolding retry_failed_def snd_conv
    by (rule registry_update [OF ok]) (use orig [OF _ _ ok] in \<open>(fastforce simp: is_failed_def)+\<close>)
  show "registry_ok (snd (requeue_unenriched now d))"
    unfolding requeue_unenriched_def snd_conv
    by (rule registry_update [OF ok]) (use orig [OF _ _ ok] in \<open>(fastforce simp: is_unenriched_def)+\<close>)
  have chunk: "registry_ok (release_chunk now ids d')"
    if d': "registry_ok d'" "\<forall>r\<in>set (rows (recordings d')). rec_id r \<in> set ids \<longrightarrow> rec_duplicate_of r = None"
    for ids d'
    unfolding release_chunk_def by (rule registry_update [OF d'(1)]) (use d'(2) in auto)
  have dups: "\<forall>r\<in>set (rows (recordings (release_chunk now ids d'))). rec_id r \<in> set js \<longrightarrow> rec_duplicate_of r = None"
    if "\<forall>r\<in>set (rows (recordings d')). rec_id r \<in> set js \<longrightarrow> rec_duplicate_of r = None" for ids js d'
    using that by (auto simp: release_chunk_def update_recordings_def)
  have chunks: "registry_ok (fold (release_chunk now) idss d')"
    if "registry_ok d'" "\<forall>r\<in>set (rows (recordings d')). rec_id r \<in> set (concat idss) \<longrightarrow> rec_duplicate_of r = None"
    for idss d'
    using that
  proof (induction idss arbitrary: d')
    case (Cons ids idss)
    have "registry_ok (release_chunk now ids d')" by (rule chunk) (use Cons.prems in auto)
    moreover have "\<forall>r\<in>set (rows (recordings (release_chunk now ids d'))).
        rec_id r \<in> set (concat idss) \<longrightarrow> rec_duplicate_of r = None"
      by (rule dups) (use Cons.prems(2) in auto)
    ultimately show ?case by (simp add: Cons.IH)
  qed simp
  have t: "table_ok rec_id (recordings d)" using ok by (simp add: registry_ok_def recordings_ok_def)
  have "rec_duplicate_of r = None" if r: "r \<in> set (rows (recordings d))" "rec_id r \<in> set (freed_ids d now)" for r
  proof -
    from r(2) obtain x where x: "x \<in> set (rows (recordings d))" "rec_id x = rec_id r" "is_blocked x"
      by (auto simp: freed_ids_def select_def)
    then have "x = r" using rec_tbl.same_key [OF t] r(1) by blast
    with x(3) orig [OF r(1) _ ok] show ?thesis by (cases "rec_duplicate_of r") (auto simp: is_blocked_def)
  qed
  then have "registry_ok (fold (release_chunk now) (chunks MAINTENANCE_CHUNK (freed_ids d now)) d)"
    by (intro chunks ok) (simp add: concat_chunks MAINTENANCE_CHUNK_def del: set_concat)
  then show "registry_ok (snd (release_quota_blocked now d))"
    using ok by (simp add: release_quota_blocked_def Let_def)
qed

lemma claim_hold_ok:
  assumes ok: "service_ok s" and c: "claim_next lw lr now (sv_db s) = (Some r, d)"
    and m: "rec_id m = rec_id r" "rec_ws m = rec_ws r" "rec_path m = rec_path r"
      "rec_path_current m = rec_path_current r" "rec_duplicate_of m = rec_duplicate_of r"
      "rec_request m = rec_request r" "rec_status m \<noteq> Transcribing"
  shows "service_ok (s\<lparr>sv_db := put_recording now m d\<rparr>)"
proof -
  have reg: "registry_ok (sv_db s)" using ok by (simp add: service_ok_def)
  show ?thesis
    by (rule service_ok_evolves [OF ok claim_put_ok(1) [OF reg c m(1-5)] claim_put_evolves [OF reg c]])
      (simp add: row_evolves_def m)
qed

lemma settle_ok:
  assumes ok: "service_ok s" and res: "settle_transcription accepts m q started now out (sv_db s) = (e, d)"
  shows "service_ok (s\<lparr>sv_db := d, sv_running := X,
      sv_accepted := (if e = Returned then q # sv_accepted s else sv_accepted s),
      sv_enriching := (case get_recording d (rec_id m) of
        Some r \<Rightarrow> if e = Returned then r # sv_enriching s else sv_enriching s | None \<Rightarrow> sv_enriching s)\<rparr>)"
proof -
  let ?R = "set (rows (recordings (sv_db s)))" and ?R' = "set (rows (recordings d))"
  have reg: "registry_ok (sv_db s)" and R: "requests_ok ?R (set (sv_issued s)) (sv_accepted s)"
    and held: "\<forall>m\<in>set (sv_enriching s). held_ok (sv_db s) m \<and> rec_status m = Summarizing"
    using ok by (simp_all add: service_ok_def)
  have orig: "\<forall>r\<in>?R. rec_request r \<noteq> None \<longrightarrow> rec_duplicate_of r = None"
    using R unfolding requests_ok_def by blast
  from settle_evolves [OF reg orig res] have reg': "registry_ok d" and ev: "evolves (sv_db s) d"
    and acc: "e = Returned \<Longrightarrow> \<exists>r y. lock_current_request (sv_db s) (rec_id m) q = Some r \<and>
      recordings d = recordings (put_recording now (transcribed_row now y (projr (res_segments y)) r) (sv_db s))"
    by blast+
  have R': "requests_ok ?R' (set (sv_issued s)) (sv_accepted s)" by (rule requests_evolve [OF R ev])
  have held': "\<forall>m\<in>set (sv_enriching s). held_ok d m \<and> rec_status m = Summarizing"
    using held held_ok_evolves [OF _ ev] by blast
  show ?thesis
  proof (cases "e = Returned")
    case False
    then show ?thesis
      using reg' R' held' by (auto simp: service_ok_def split: option.splits)
  next
    case True
    from acc [OF True] obtain r y where r: "lock_current_request (sv_db s) (rec_id m) q = Some r"
      and d: "recordings d = recordings (put_recording now (transcribed_row now y (projr (res_segments y)) r) (sv_db s))"
      by blast
    let ?r = "stored_as now r (transcribed_row now y (projr (res_segments y)) r)"
    from lock_current_request_Some [OF r] have rm: "r \<in> ?R" "rec_id r = rec_id m" "rec_request r = Some q" by auto
    have t: "table_ok rec_id (recordings (sv_db s))" using reg by (simp add: registry_ok_def recordings_ok_def)
    have S: "?R' = insert ?r {x \<in> ?R. rec_id x \<noteq> rec_id r}"
      unfolding d by (rule set_put [OF t rm(1)]) simp
    have "\<forall>x\<in>?R'. rec_request x \<noteq> Some q"
    proof
      fix x assume "x \<in> ?R'"
      then consider "x = ?r" | "x \<in> ?R" "rec_id x \<noteq> rec_id r" unfolding S by blast
      then show "rec_request x \<noteq> Some q"
      proof cases
        case 1
        then show ?thesis by simp
      next
        case 2
        with R rm(1,3) show ?thesis unfolding requests_ok_def by blast
      qed
    qed
    moreover have "q \<in> set (sv_issued s)" "q \<notin> set (sv_accepted s)"
      using R rm(1,3) unfolding requests_ok_def by blast+
    ultimately have R2: "requests_ok ?R' (set (sv_issued s)) (q # sv_accepted s)"
      using R' unfolding requests_ok_def distinct.simps list.set by blast
    have row: "get_recording d (rec_id m) = Some ?r"
      using get_put [OF t rm(1), of "transcribed_row now y (projr (res_segments y)) r" now] rm(2)
      by (simp add: d)
    have "rec_duplicate_of r = None" using orig rm(1,3) by simp
    moreover have t': "table_ok rec_id (recordings d)" using reg' by (simp add: registry_ok_def recordings_ok_def)
    moreover have "?r \<in> ?R'" unfolding S by simp
    moreover from t' \<open>?r \<in> ?R'\<close> have "rec_id ?r < next_id (recordings d)"
      unfolding table_ok_def by blast
    ultimately have "held_ok d ?r"
      unfolding held_ok_def S by (auto simp: transcribed_row_def)
    then show ?thesis
      using True reg' R2 held' row by (simp add: service_ok_def)
  qed
qed

lemma service_step_ok: "service_step s s' \<Longrightarrow> service_ok s \<Longrightarrow> service_ok s'"
proof (induction rule: service_step.induct)
  case (claim_run lw lr now s r d fresh m q)
  then show ?case by (intro claim_run_ok)
next
  case (claim_unknown lw lr now s r d)
  then show ?case by (intro claim_hold_ok) simp_all
next
  case (claim_blocked lw lr now s r d e)
  then show ?case by (intro claim_hold_ok) simp_all
next
  case (claim_enrich lw lr now s r d m)
  have m: "rec_id m = rec_id r" "rec_ws m = rec_ws r" "rec_path m = rec_path r"
      "rec_path_current m = rec_path_current r" "rec_duplicate_of m = rec_duplicate_of r"
      "rec_request m = rec_request r" "rec_status m = Summarizing"
    using claim_enrich.hyps(3) by (simp_all add: start_enrich_def)
  have reg: "registry_ok (sv_db s)" using claim_enrich.prems by (simp add: service_ok_def)
  note f = claim_next_facts [OF claim_enrich.hyps(1)]
  have ok: "service_ok (s\<lparr>sv_db := put_recording now m d\<rparr>)"
    using claim_hold_ok [OF claim_enrich.prems claim_enrich.hyps(1) m(1-6)] m(7) by simp
  have t: "table_ok rec_id (recordings d)" using reg f(1) by (simp add: registry_ok_def recordings_ok_def)
  have rm: "r \<in> set (rows (recordings d))" using f(1,2) by simp
  have dup: "rec_duplicate_of r = None" by (rule claim_put_ok(2) [OF reg claim_enrich.hyps(1) m(1-5)])
  have "rec_id r < next_id (recordings d)" using t rm by (simp add: table_ok_def)
  then have "held_ok (put_recording now m d) m"
    unfolding held_ok_def set_put [OF t rm m(1)] using m(1,5) dup by auto
  with ok m(7) show ?case by (simp add: service_ok_def)
next
  case (progress m q s sr now hb hb' d)
  then show ?case
    using report_evolves [OF _ progress.hyps(2)] by (intro service_ok_evolves) (auto simp: service_ok_def)
next
  case (settle m q s accepts started now out e d)
  then show ?case by (intro settle_ok)
next
  case (finish m s started now out e d)
  have "registry_ok (sv_db s)" "held_ok (sv_db s) m" "rec_status m = Summarizing"
    using finish.hyps(1) finish.prems by (auto simp: service_ok_def)
  from finish_evolves [OF this finish.hyps(2)]
  have "service_ok (s\<lparr>sv_db := d\<rparr>)" using finish.prems by (intro service_ok_evolves) simp_all
  then show ?case by (auto simp: service_ok_def dest: notin_set_remove1)
next
  case (register rd w src cb verify pub s x d)
  have "registry_ok (sv_db s)" using register.prems by (simp add: service_ok_def)
  then show ?case
    using register ingest_file_ok ingest_file_evolves by (intro service_ok_evolves) blast+
next
  case (rescan s stat walks w now)
  then show ?case by (intro service_ok_evolves) (simp_all add: service_ok_def scan_ok scan_evolves)
next
  case (recover s now)
  then show ?case by (intro service_ok_evolves) (simp_all add: service_ok_def requeue_ok requeue_evolves)
next
  case (retry s ws now)
  then show ?case by (intro service_ok_evolves) (simp_all add: service_ok_def requeue_ok requeue_evolves)
next
  case (requeue s now)
  then show ?case by (intro service_ok_evolves) (simp_all add: service_ok_def requeue_ok requeue_evolves)
next
  case (release s now)
  then show ?case by (intro service_ok_evolves) (simp_all add: service_ok_def requeue_ok release_evolves)
next
  case (remove s i)
  then show ?case
    by (intro service_ok_evolves) (simp_all add: service_ok_def registry_delete_recording evolves_delete)
next
  case (edit r s r' now)
  have reg: "registry_ok (sv_db s)" using edit.prems by (simp add: service_ok_def)
  have t: "table_ok rec_id (recordings (sv_db s))" using reg by (simp add: registry_ok_def recordings_ok_def)
  have st: "rec_status r' \<in> {Duplicate, Missing}" if "rec_duplicate_of r \<noteq> None"
    using that edit.hyps reg resume_status_dup [OF that, of "sv_db s"]
    unfolding is_edit_def registry_ok_def by auto
  have "registry_ok (put_recording now r' (sv_db s))"
    using edit.hyps(2) by (intro registry_put_same [OF reg edit.hyps(1) _ _ _ _ _ st]) (simp_all add: is_edit_def)
  moreover have "evolves (sv_db s) (put_recording now r' (sv_db s))"
    using edit.hyps(2) by (intro evolves_put [OF t edit.hyps(1)]) (auto simp: is_edit_def row_evolves_def)
  ultimately show ?case by (rule service_ok_evolves [OF edit.prems])
next
  case (elsewhere d s)
  then show ?case
    using registry_ok_cong [OF elsewhere.hyps] evolves_same [OF elsewhere.hyps]
    by (intro service_ok_evolves) (simp_all add: service_ok_def)
qed

lemma service_reachable_ok: "service_reachable s \<Longrightarrow> service_ok s"
proof (induction rule: service_reachable.induct)
  case (start d)
  then show ?case
    by (simp add: service_ok_def initial_service_def registry_ok_def recordings_ok_def requests_ok_def
        rec_tbl.empty_ok)
next
  case (step s s')
  then show ?case by (blast intro: service_step_ok)
qed

subsection \<open>Properties\<close>

text \<open>C6. In every state that interleaved workers, registrations, scans, retries, releases,
  deletions and edits can reach: identities and current paths are unique, a duplicate is
  marked as such or missing, and its original is a recording of the same workspace that is
  itself no duplicate.\<close>

theorem registry_always_consistent:
  assumes "service_reachable s"
  shows "recordings_ok (sv_db s) \<and> (\<forall>r\<in>set (rows (recordings (sv_db s))). \<forall>i.
    rec_duplicate_of r = Some i \<longrightarrow> rec_status r \<in> {Duplicate, Missing} \<and>
      (\<exists>q\<in>set (rows (recordings (sv_db s))). rec_id q = i \<and> rec_ws q = rec_ws r \<and> rec_duplicate_of q = None))"
  using service_reachable_ok [OF assms] by (simp add: service_ok_def registry_ok_def)

text \<open>A reachable state in which a recording was registered, claimed and transcribed.\<close>

definition demo_start :: db where
  "demo_start = empty_db\<lparr>workspaces := \<lparr>rows = [demo_ws], next_id = 2\<rparr>\<rparr>"

definition demo_new :: recording where
  "demo_new = (new_row (demo_reading ''c'' demo_files) (demo_sig 2) ''c'' ''p2'' 1 Scan None None 32)\<lparr>rec_id := 1\<rparr>"

definition demo_registered :: db where
  "demo_registered = demo_start\<lparr>recordings := \<lparr>rows = [demo_new], next_id = 2\<rparr>\<rparr>"

lemma demo_new_simps [simp]:
  "rec_id demo_new = 1" "rec_ws demo_new = 1" "rec_status demo_new = Pending" "rec_path_current demo_new"
  "rec_request demo_new = None" "rec_duration demo_new = Some 300"
  by (simp_all add: demo_new_def new_row_def demo_reading_def)

lemma demo_register: "ingest_file (demo_reading ''c'' demo_files) 1 Scan None True 32 demo_start demo_start =
    Inr ((1, New), demo_registered)"
  by (simp add: demo_start_def demo_registered_def demo_new_def empty_db_def empty_table_def demo_reading_def
      demo_sig_def ingest_file_def register_locked_def register_content_def find_moved_def find_original_def
      find_duplicate_def find_by_content_def insert_row_def select_def scalar_def Let_def)

lemma demo_claim: "claim_next {} {} 5 demo_registered = (Some demo_new, demo_registered)"
proof -
  have "workspaces_with_work demo_registered = [1]"
    by (simp add: workspaces_with_work_def demo_registered_def select_def queue_consts)
  then show ?thesis
    by (simp add: claim_next_def claim_in_workspace_def queue_consts demo_registered_def in_tier_def
        select_def first_by_def)
qed

lemma demo_allowed: "transcription_block demo_registered demo_new 5 = None"
  by (simp add: transcription_block_def by_id_def scalar_def demo_registered_def demo_start_def demo_ws_def
      check_minutes_def minutes_left_def measure_usage_def used_seconds_def select_def empty_db_def)

definition demo_claimed :: recording where
  "demo_claimed = start_transcribe 77 5 demo_new"

lemma demo_claimed_simps [simp]:
  "rec_id demo_claimed = 1" "rec_ws demo_claimed = 1" "rec_path_current demo_claimed"
  "rec_request demo_claimed = Some 77" "rec_status demo_claimed = Transcribing"
  by (simp_all add: demo_claimed_def start_transcribe_def)

lemma demo_service_reachable:
  "\<exists>s. service_reachable s \<and> sv_accepted s = [77] \<and> rows (recordings (sv_db s)) \<noteq> []"
proof -
  have r0: "service_reachable (initial_service demo_start)"
    by (rule service_reachable.start) (simp add: demo_start_def empty_db_def)
  let ?s1 = "(initial_service demo_start)\<lparr>sv_db := demo_registered\<rparr>"
  have "service_step (initial_service demo_start) ?s1"
    using demo_register by (intro service_step.register) (simp add: initial_service_def)
  with r0 have r1: "service_reachable ?s1" by (rule service_reachable.step)
  let ?d2 = "put_recording 5 demo_claimed demo_registered"
  let ?s2 = "?s1\<lparr>sv_db := ?d2, sv_issued := [77], sv_running := [(demo_claimed, 77)]\<rparr>"
  have "service_step ?s1 (?s1\<lparr>sv_db := ?d2, sv_issued := 77 # sv_issued ?s1,
      sv_running := (demo_claimed, 77) # sv_running ?s1\<rparr>)"
    by (rule service_step.claim_run [where lw = "{}" and lr = "{}" and r = demo_new])
      (simp_all add: demo_claim demo_allowed demo_claimed_def [symmetric] ENRICH_WAITING_def initial_service_def)
  then have "service_step ?s1 ?s2" by (simp add: initial_service_def)
  with r1 have r2: "service_reachable ?s2" by (rule service_reachable.step)
  have "demo_claimed \<noteq> demo_new"
  proof
    assume "demo_claimed = demo_new"
    then have "rec_request demo_claimed = rec_request demo_new" by simp
    then show False by simp
  qed
  then have rows2: "rows (recordings ?d2) = [demo_claimed\<lparr>rec_updated_at := 5\<rparr>]"
    by (auto simp: put_recording_def demo_registered_def)
  then have lock: "lock_current_request ?d2 (rec_id demo_claimed) 77 = Some (demo_claimed\<lparr>rec_updated_at := 5\<rparr>)"
    by (simp add: lock_current_request_def scalar_def)
  obtain e d3 where res: "settle_transcription (\<lambda>_. True) demo_claimed 77 5 6 (Inr demo_result) ?d2 = (e, d3)"
    by fastforce
  with lock have e: "e = Returned"
    by (auto simp: settle_transcription_def settle_result_def demo_result_def Let_def)
  have "recordings d3 = recordings (put_recording 6 (transcribed_row 6 demo_result [demo_spoken 0 2, demo_spoken 2 400]
      (demo_claimed\<lparr>rec_updated_at := 5\<rparr>)) ?d2)"
    using res lock by (auto simp: settle_transcription_def settle_result_def demo_result_def Let_def)
  then have rows3: "rows (recordings d3) \<noteq> []" using rows2 by (simp add: put_recording_def)
  have "(demo_claimed, 77) \<in> set (sv_running ?s2)"
    "settle_transcription (\<lambda>_. True) demo_claimed 77 5 6 (Inr demo_result) (sv_db ?s2) = (e, d3)"
    using res by simp_all
  from service_step.settle [OF this] r2 e rows3 show ?thesis
    by (intro exI conjI) (rule service_reachable.step, assumption+, simp_all add: initial_service_def)
qed

theorem registry_always_consistent_witness:
  "\<exists>s. service_reachable s \<and> recordings_ok (sv_db s) \<and> rows (recordings (sv_db s)) \<noteq> []"
  using demo_service_reachable registry_always_consistent by blast

text \<open>C11. A runner request is used for at most one stored transcript, however often workers
  lose, recover and resubmit it: the accepted request ids are pairwise distinct, none of
  them is still attached to a recording, no two recordings share one, and a recording is
  never transcribing without one.\<close>

theorem requests_accepted_at_most_once:
  assumes "service_reachable s"
  shows "distinct (sv_accepted s) \<and>
    (\<forall>r\<in>set (rows (recordings (sv_db s))). \<forall>q. rec_request r = Some q \<longrightarrow> q \<notin> set (sv_accepted s) \<and>
       (\<forall>x\<in>set (rows (recordings (sv_db s))). rec_request x = Some q \<longrightarrow> x = r)) \<and>
    (\<forall>r\<in>set (rows (recordings (sv_db s))). rec_status r = Transcribing \<longrightarrow> rec_request r \<noteq> None)"
proof -
  let ?R = "set (rows (recordings (sv_db s)))"
  from service_reachable_ok [OF assms] have t: "table_ok rec_id (recordings (sv_db s))"
    and R: "requests_ok ?R (set (sv_issued s)) (sv_accepted s)"
    by (simp_all add: service_ok_def registry_ok_def recordings_ok_def)
  have "x = r" if "r \<in> ?R" "x \<in> ?R" "rec_request r = Some q" "rec_request x = Some q" for r x q
  proof -
    have "rec_id x = rec_id r" using R that unfolding requests_ok_def by blast
    then show ?thesis using rec_tbl.same_key [OF t] that by blast
  qed
  with R show ?thesis unfolding requests_ok_def by blast
qed

theorem requests_accepted_at_most_once_witness:
  "\<exists>s. service_reachable s \<and> distinct (sv_accepted s) \<and> sv_accepted s = [77]"
  using demo_service_reachable requests_accepted_at_most_once by blast

end
