(* ===== verification/Worker_Loop.thy ===== *)
theory Worker_Loop
  imports Service_Runs
begin

text \<open>
  The main loop of the worker, \<open>worker.run_worker\<close>: the recovery at the start, and one turn of
  the loop with what it does about maintenance and how long it sleeps. The loop has no end of
  its own, so the model is the turn and the state it carries, the number of recordings since
  the last maintenance.
\<close>

definition MAINTENANCE_EVERY :: nat where "MAINTENANCE_EVERY = 20"

text \<open>\<open>enriches\<close> says whether there is an enricher; an exception of the database is logged and
  the loop starts all the same.\<close>

definition worker_start :: "bool \<Rightarrow> time \<Rightarrow> db \<Rightarrow> db" where
  "worker_start enriches now d =
     (let d1 = snd (recover_in_flight now d)
      in if enriches then snd (requeue_unenriched now d1) else d1)"

text \<open>What happens to a turn: \<open>process_one\<close> with its inputs, the time of the maintenance and, if
  the maintenance raises, what it had committed; an exception of \<open>process_one\<close> that is not
  \<open>RunnerUnavailable\<close>, with what was committed before it; or \<open>Ctrl-C\<close>.\<close>

datatype turn_input =
    Consume "nat set" "nat set" work_inputs time "db option"
  | Breaks db
  | Interrupt

record turn_result =
  tr_sleep :: rat
  tr_maintenance :: bool
  tr_since :: nat
  tr_db :: db

definition worker_turn :: "rat \<Rightarrow> turn_input \<Rightarrow> nat \<Rightarrow> db \<Rightarrow> turn_result option" where
  "worker_turn idle_sleep inp since d =
     (case inp of
        Consume lw lr wi now broken \<Rightarrow>
          (case process_one lw lr wi d of
             (BackOff, d1) \<Rightarrow>
               Some \<lparr>tr_sleep = idle_sleep * 4, tr_maintenance = False, tr_since = since, tr_db = d1\<rparr>
           | (e, d1) \<Rightarrow>
               if e = Idle \<or> MAINTENANCE_EVERY \<le> Suc since
               then (case broken of
                       Some d2 \<Rightarrow>
                         Some \<lparr>tr_sleep = idle_sleep * 2, tr_maintenance = True, tr_since = 0, tr_db = d2\<rparr>
                     | None \<Rightarrow>
                         Some \<lparr>tr_sleep = (if e = Idle then idle_sleep else 0), tr_maintenance = True,
                               tr_since = 0, tr_db = idle_maintenance now d1\<rparr>)
               else Some \<lparr>tr_sleep = 0, tr_maintenance = False, tr_since = Suc since, tr_db = d1\<rparr>)
      | Breaks d1 \<Rightarrow> Some \<lparr>tr_sleep = idle_sleep * 2, tr_maintenance = False, tr_since = since, tr_db = d1\<rparr>
      | Interrupt \<Rightarrow> None)"

text \<open>The turns up to the interrupt.\<close>

fun worker_run :: "rat \<Rightarrow> turn_input list \<Rightarrow> nat \<Rightarrow> db \<Rightarrow> turn_result list" where
  "worker_run idle_sleep [] since d = []"
| "worker_run idle_sleep (inp # rest) since d =
     (case worker_turn idle_sleep inp since d of
        None \<Rightarrow> []
      | Some r \<Rightarrow> r # worker_run idle_sleep rest (tr_since r) (tr_db r))"

subsection \<open>Maintenance comes round\<close>

text \<open>A turn that consumed the queue: it did not wait for the runner and did not break.\<close>

definition consumed :: "rat \<Rightarrow> turn_result \<Rightarrow> bool" where
  "consumed idle_sleep r \<longleftrightarrow> tr_sleep r \<in> {0, idle_sleep}"

lemma worker_turn_since:
  assumes "worker_turn idle inp since d = Some r" "since < MAINTENANCE_EVERY" "0 < idle"
  shows "tr_since r < MAINTENANCE_EVERY"
    and "consumed idle r \<Longrightarrow> \<not> tr_maintenance r \<Longrightarrow> tr_since r = Suc since"
    and "\<not> consumed idle r \<Longrightarrow> \<not> tr_maintenance r \<Longrightarrow> tr_since r = since"
  using assms
  by (auto simp: worker_turn_def consumed_def MAINTENANCE_EVERY_def
      split: turn_input.splits prod.splits work_end.splits if_splits option.splits)

lemma no_maintenance_counts:
  assumes "0 < idle" "since < MAINTENANCE_EVERY" "\<forall>r\<in>set (worker_run idle inps since d). \<not> tr_maintenance r"
  shows "since + length (filter (consumed idle) (worker_run idle inps since d)) < MAINTENANCE_EVERY"
  using assms(2,3)
proof (induction inps arbitrary: since d)
  case (Cons inp rest)
  show ?case
  proof (cases "worker_turn idle inp since d")
    case None
    with Cons.prems show ?thesis by simp
  next
    case (Some r)
    note T = worker_turn_since [OF Some Cons.prems(1) assms(1)]
    have quiet: "\<not> tr_maintenance r" using Cons.prems(2) Some by simp
    have "tr_since r + length (filter (consumed idle) (worker_run idle rest (tr_since r) (tr_db r))) < MAINTENANCE_EVERY"
      using Cons.prems(2) Some T(1) by (intro Cons.IH) auto
    with Some T(2,3) quiet show ?thesis by (cases "consumed idle r") auto
  qed
qed simp

lemma worker_run_suffix:
  assumes "0 < idle" "since < MAINTENANCE_EVERY" "worker_run idle inps since d = before @ after"
  shows "\<exists>rest since' d'. after = worker_run idle rest since' d' \<and> since' < MAINTENANCE_EVERY"
  using assms(2,3)
proof (induction before arbitrary: inps since d)
  case Nil
  then show ?case by auto
next
  case (Cons r before)
  then obtain inp rest where i: "inps = inp # rest" by (cases inps) auto
  with Cons.prems(2) have t: "worker_turn idle inp since d = Some r"
    and r: "worker_run idle rest (tr_since r) (tr_db r) = before @ after"
    by (auto split: option.splits)
  show ?case by (rule Cons.IH [OF worker_turn_since(1) [OF t Cons.prems(1) assms(1)] r])
qed

lemma worker_run_prefix:
  "stretch @ after = worker_run idle rest since d \<Longrightarrow> \<exists>inps. worker_run idle inps since d = stretch"
proof (induction stretch arbitrary: rest since d)
  case Nil
  show ?case by (intro exI [of _ "[]"]) simp
next
  case (Cons r stretch)
  then obtain inp more where i: "rest = inp # more" by (cases rest) auto
  with Cons.prems have t: "worker_turn idle inp since d = Some r"
    and r: "stretch @ after = worker_run idle more (tr_since r) (tr_db r)"
    by (auto split: option.splits)
  from Cons.IH [OF r] obtain inps' where "worker_run idle inps' (tr_since r) (tr_db r) = stretch" by blast
  with t show ?case by (intro exI [of _ "inp # inps'"]) simp
qed

text \<open>However long the queue is, the worker comes round to maintenance: in every stretch of its
  life in which it consumed twenty recordings, maintenance (stalled rows recovered, quotas
  measured again, dead sessions swept) was started at least once. Turns that wait for the
  runner or break do not count.\<close>

theorem maintenance_comes_round:
  assumes "0 < idle" "worker_run idle inps 0 d = before @ stretch @ after"
    and "MAINTENANCE_EVERY \<le> length (filter (consumed idle) stretch)"
  shows "\<exists>r\<in>set stretch. tr_maintenance r"
proof (rule ccontr)
  assume none: "\<not> (\<exists>r\<in>set stretch. tr_maintenance r)"
  obtain rest since d' where s: "stretch @ after = worker_run idle rest since d'" "since < MAINTENANCE_EVERY"
    using worker_run_suffix [OF assms(1) _ assms(2)] by (auto simp: MAINTENANCE_EVERY_def)
  from worker_run_prefix [OF s(1)] obtain inps' where "worker_run idle inps' since d' = stretch" by blast
  with no_maintenance_counts [OF assms(1) s(2), of inps' d'] none assms(3) show False by auto
qed

text \<open>An empty queue, looked at twenty times.\<close>

lemma nothing_to_do:
  assumes "rows (recordings d) = []"
  shows "process_one lw lr wi d = (Idle, d)" "rows (recordings (idle_maintenance now d)) = []"
proof -
  show "process_one lw lr wi d = (Idle, d)"
    using assms by (simp add: process_one_def claim_next_def workspaces_with_work_def select_def Let_def)
  have r: "rows (recordings (snd (recover_in_flight now d))) = []"
    using assms by (simp add: recover_in_flight_def update_recordings_def Let_def)
  then have "rows (recordings (snd (release_quota_blocked now (snd (recover_in_flight now d))))) = []"
    by (simp add: release_quota_blocked_def freed_ids_def select_def Let_def)
  then show "rows (recordings (idle_maintenance now d)) = []"
    by (simp add: idle_maintenance_def split_beta Let_def sweep_sessions_def sweep_attempts_def)
qed

lemma idle_turns_consume:
  "rows (recordings d) = [] \<Longrightarrow>
     length (filter (consumed 5) (worker_run 5 (replicate n (Consume {} {} wi 9 None)) since d)) = n"
proof (induction n arbitrary: since d)
  case (Suc n)
  let ?r = "\<lparr>tr_sleep = 5, tr_maintenance = True, tr_since = 0, tr_db = idle_maintenance 9 d\<rparr>"
  have "worker_turn 5 (Consume {} {} wi 9 None) since d = Some ?r"
    using nothing_to_do(1) [OF Suc.prems] by (simp add: worker_turn_def Let_def)
  moreover have "length (filter (consumed 5) (worker_run 5 (replicate n (Consume {} {} wi 9 None)) 0 (idle_maintenance 9 d))) = n"
    by (rule Suc.IH [OF nothing_to_do(2) [OF Suc.prems]])
  moreover have "consumed 5 ?r" by (simp add: consumed_def)
  ultimately show ?case by simp
qed simp

definition demo_inputs :: work_inputs where
  "demo_inputs = \<lparr>wi_now = 1, wi_settled = 2, wi_enrich_started = 3, wi_done = 4, wi_fresh = 5, wi_oserr = [],
     wi_before = \<lparr>fv_before = None, fv_content = None, fv_after = None\<rparr>, wi_run = RunUnavailable [],
     wi_after = \<lparr>fv_before = None, fv_content = None, fv_after = None\<rparr>, wi_accepts = (\<lambda>_. True),
     wi_enrich = (\<lambda>_ _. NoEnricher), wi_during_run = id, wi_during_enrich = id\<rparr>"

theorem maintenance_comes_round_witness:
  "\<exists>r\<in>set (worker_run 5 (replicate 20 (Consume {} {} demo_inputs 9 None)) 0 empty_db). tr_maintenance r"
proof (rule maintenance_comes_round [where before = "[]" and after = "[]"])
  show "worker_run 5 (replicate 20 (Consume {} {} demo_inputs 9 None)) 0 empty_db =
    [] @ worker_run 5 (replicate 20 (Consume {} {} demo_inputs 9 None)) 0 empty_db @ []" by simp
  show "MAINTENANCE_EVERY \<le> length (filter (consumed 5) (worker_run 5 (replicate 20 (Consume {} {} demo_inputs 9 None)) 0 empty_db))"
    by (subst idle_turns_consume) (simp_all add: MAINTENANCE_EVERY_def empty_db_def)
qed simp

end
