(* ===== verification/Permissions.thy ===== *)
theory Permissions
  imports Models
begin

text \<open>
  \<open>permissions.py\<close>: the ordered permissions, the principal of a request, and the
  resolution of what a principal may do to a workspace or a recording. The
  specification is the maximum of independent grants; \<open>resolve_recording_perm\<close>
  is the short-circuit evaluation of the code. The locale \<open>max_access\<close> is what the
  routes rely on.
\<close>

subsection \<open>Permissions\<close>

datatype perm = NONE | VIEW | EDIT | MANAGE | ADMIN

fun perm_level :: "perm \<Rightarrow> nat" where
  "perm_level NONE = 0"
| "perm_level VIEW = 1"
| "perm_level EDIT = 2"
| "perm_level MANAGE = 3"
| "perm_level ADMIN = 4"

lemma perm_level_inject: "perm_level p = perm_level q \<longleftrightarrow> p = q"
  by (cases p; cases q) simp_all

instantiation perm :: linorder
begin

definition less_eq_perm :: "perm \<Rightarrow> perm \<Rightarrow> bool" where
  "less_eq_perm p q \<longleftrightarrow> perm_level p \<le> perm_level q"

definition less_perm :: "perm \<Rightarrow> perm \<Rightarrow> bool" where
  "less_perm p q \<longleftrightarrow> perm_level p < perm_level q"

instance
  by standard (auto simp: less_eq_perm_def less_perm_def perm_level_inject)

end

lemma perm_order_simps [simp]:
  "NONE \<le> p" "p \<le> ADMIN" "VIEW \<le> p \<longleftrightarrow> p \<noteq> NONE" "p \<le> NONE \<longleftrightarrow> p = NONE" "ADMIN \<le> p \<longleftrightarrow> p = ADMIN"
  "EDIT \<le> p \<longleftrightarrow> p \<noteq> NONE \<and> p \<noteq> VIEW" "MANAGE \<le> p \<longleftrightarrow> p = MANAGE \<or> p = ADMIN"
  "p \<le> VIEW \<longleftrightarrow> p = NONE \<or> p = VIEW" "p \<le> EDIT \<longleftrightarrow> p \<noteq> MANAGE \<and> p \<noteq> ADMIN"
  "p \<le> MANAGE \<longleftrightarrow> p \<noteq> ADMIN"
  by (cases p; simp add: less_eq_perm_def)+

lemma perm_less_simps [simp]:
  "VIEW < p \<longleftrightarrow> p \<noteq> NONE \<and> p \<noteq> VIEW" "p < VIEW \<longleftrightarrow> p = NONE" "p < EDIT \<longleftrightarrow> p = NONE \<or> p = VIEW"
  "p < MANAGE \<longleftrightarrow> p \<noteq> MANAGE \<and> p \<noteq> ADMIN" "p < ADMIN \<longleftrightarrow> p \<noteq> ADMIN"
  by (cases p; simp add: less_perm_def)+

lemma max_NONE [simp]: "max NONE p = p" "max p NONE = p"
  by (simp_all add: max_def)

lemma max_ADMIN [simp]: "max ADMIN p = ADMIN" "max p ADMIN = ADMIN"
  by (simp_all add: max_def)

fun ROLE_PERMS :: "workspace_role \<Rightarrow> perm" where
  "ROLE_PERMS Owner = ADMIN"
| "ROLE_PERMS Admin = ADMIN"
| "ROLE_PERMS Member = MANAGE"
| "ROLE_PERMS Viewer = VIEW"

fun SHARE_PERMS :: "share_permission \<Rightarrow> perm" where
  "SHARE_PERMS ShareView = VIEW"
| "SHARE_PERMS ShareEdit = EDIT"

lemma SHARE_PERMS_le: "SHARE_PERMS s \<le> EDIT"
  by (cases s) simp_all

subsection \<open>Principals\<close>

record principal =
  pr_user :: "nat option"
  pr_active :: bool
  pr_service_admin :: bool
  pr_link :: "nat option"
  pr_link_audio :: bool
  pr_link_names :: bool

definition anonymous :: principal where
  "anonymous = \<lparr>pr_user = None, pr_active = False, pr_service_admin = False, pr_link = None,
     pr_link_audio = False, pr_link_names = False\<rparr>"

definition for_user :: "user \<Rightarrow> principal" where
  "for_user u = anonymous\<lparr>pr_user := Some (usr_id u), pr_active := (usr_status u = UActive),
     pr_service_admin := usr_service_admin u\<rparr>"

definition is_authenticated :: "principal \<Rightarrow> bool" where
  "is_authenticated p \<longleftrightarrow> pr_user p \<noteq> None"

definition has_own_access :: "principal \<Rightarrow> bool" where
  "has_own_access p \<longleftrightarrow> pr_user p \<noteq> None \<and> pr_active p"

subsection \<open>Resolution\<close>

text \<open>The two selects: the role of a person in a workspace, the permission of a share.\<close>

definition member_role :: "db \<Rightarrow> nat \<Rightarrow> nat option \<Rightarrow> workspace_role option" where
  "member_role d w u =
     map_option mem_role (scalar (\<lambda>m. mem_ws m = w \<and> Some (mem_user m) = u) (members d))"

definition share_permission_of :: "db \<Rightarrow> nat \<Rightarrow> nat option \<Rightarrow> share_permission option" where
  "share_permission_of d r u =
     map_option shr_permission
       (scalar (\<lambda>s. shr_recording s = r \<and> shr_user s \<noteq> None \<and> shr_user s = u) (shares d))"

definition resolve_workspace_perm :: "db \<Rightarrow> principal \<Rightarrow> nat \<Rightarrow> perm" where
  "resolve_workspace_perm d p w =
     (if \<not> has_own_access p then NONE
      else if pr_service_admin p then ADMIN
      else case member_role d w (pr_user p) of Some role \<Rightarrow> ROLE_PERMS role | None \<Rightarrow> NONE)"

definition resolve_recording_perm :: "db \<Rightarrow> principal \<Rightarrow> recording \<Rightarrow> perm" where
  "resolve_recording_perm d p r =
     (if pr_service_admin p \<and> pr_active p then ADMIN
      else
        let best0 = (if pr_link p \<noteq> None \<and> pr_link p = Some (rec_id r) then VIEW else NONE)
        in if \<not> has_own_access p then best0
           else
             let best1 = (case member_role d (rec_ws r) (pr_user p) of
                            Some role \<Rightarrow> max best0 (ROLE_PERMS role) | None \<Rightarrow> best0)
             in case share_permission_of d (rec_id r) (pr_user p) of
                  Some s \<Rightarrow> max best1 (SHARE_PERMS s) | None \<Rightarrow> best1)"

definition resolve_own_perm :: "db \<Rightarrow> principal \<Rightarrow> recording \<Rightarrow> perm" where
  "resolve_own_perm d p r = resolve_recording_perm d (p\<lparr>pr_link := None\<rparr>) r"

definition can_play_audio :: "principal \<Rightarrow> perm \<Rightarrow> bool" where
  "can_play_audio p own =
     (if VIEW \<le> own then True else if pr_link p \<noteq> None then pr_link_audio p else False)"

definition can_see_speaker_names :: "principal \<Rightarrow> perm \<Rightarrow> bool" where
  "can_see_speaker_names p own =
     (if VIEW \<le> own then True else if pr_link p \<noteq> None then pr_link_names p else False)"

subsection \<open>The specification: a maximum of independent grants\<close>

text \<open>Each way to a recording on its own: service administration, the link, the role in
  the recording's workspace, the share.\<close>

datatype grant_path = ViaAdmin | ViaLink | ViaRole | ViaShare

fun grant :: "db \<Rightarrow> principal \<Rightarrow> recording \<Rightarrow> grant_path \<Rightarrow> perm" where
  "grant d p r ViaAdmin = (if pr_service_admin p \<and> pr_active p then ADMIN else NONE)"
| "grant d p r ViaLink = (if pr_link p = Some (rec_id r) then VIEW else NONE)"
| "grant d p r ViaRole =
     (if has_own_access p
      then (case member_role d (rec_ws r) (pr_user p) of Some x \<Rightarrow> ROLE_PERMS x | None \<Rightarrow> NONE)
      else NONE)"
| "grant d p r ViaShare =
     (if has_own_access p
      then (case share_permission_of d (rec_id r) (pr_user p) of Some x \<Rightarrow> SHARE_PERMS x | None \<Rightarrow> NONE)
      else NONE)"

lemma UNIV_grant_path: "(UNIV :: grant_path set) = {ViaAdmin, ViaLink, ViaRole, ViaShare}"
proof -
  have "x \<in> {ViaAdmin, ViaLink, ViaRole, ViaShare}" for x by (cases x) simp_all
  then show ?thesis by blast
qed

lemma Max_grants:
  "Max (range (grant d p r)) =
     max (grant d p r ViaAdmin) (max (grant d p r ViaLink) (max (grant d p r ViaRole) (grant d p r ViaShare)))"
  by (simp add: UNIV_grant_path del: grant.simps)

subsection \<open>What the routes rely on\<close>

text \<open>
  A resolver of permissions with a removable link: the answer is the maximum of what the
  link gives and what the principal has without it, a link gives at most VIEW, and without
  access of one's own there is nothing but the link.
\<close>

locale max_access =
  fixes resolve :: "'d \<Rightarrow> 'p \<Rightarrow> 'r \<Rightarrow> perm"
    and unlink :: "'p \<Rightarrow> 'p"
    and link_grant :: "'p \<Rightarrow> 'r \<Rightarrow> perm"
    and own_access :: "'p \<Rightarrow> bool"
  assumes resolve_split: "own_access p \<Longrightarrow> resolve d p r = max (link_grant p r) (resolve d (unlink p) r)"
    and resolve_locked: "\<not> own_access p \<Longrightarrow> resolve d p r = link_grant p r"
    and link_le_view: "link_grant p r \<le> VIEW"
    and unlink_grant: "link_grant (unlink p) r = NONE"
    and unlink_access: "own_access (unlink p) = own_access p"
begin

lemma beyond_view_is_own:
  assumes "VIEW < resolve d p r"
  shows "own_access p" and "resolve d (unlink p) r = resolve d p r"
proof -
  show own: "own_access p"
    using assms link_le_view [of p r] by (cases "own_access p") (auto simp: resolve_locked)
  show "resolve d (unlink p) r = resolve d p r"
    using assms link_le_view [of p r] by (auto simp: resolve_split [OF own] max_def split: if_splits)
qed

lemma locked_sees_link_only: "\<not> own_access p \<Longrightarrow> resolve d p r \<le> VIEW"
  using link_le_view [of p r] by (simp add: resolve_locked)

lemma own_locked_none: "\<not> own_access p \<Longrightarrow> resolve d (unlink p) r = NONE"
  by (simp add: resolve_locked unlink_access unlink_grant)

lemma own_le_resolve: "resolve d (unlink p) r \<le> resolve d p r"
  by (cases "own_access p") (simp_all add: resolve_split own_locked_none)

end

definition link_grant_of :: "principal \<Rightarrow> recording \<Rightarrow> perm" where
  "link_grant_of p r = (if pr_link p = Some (rec_id r) then VIEW else NONE)"

text \<open>Principals the program makes: a service administrator is always an account.\<close>

definition admin_access :: "principal \<Rightarrow> bool" where
  "admin_access p \<longleftrightarrow> has_own_access p \<or> (pr_service_admin p \<and> pr_active p)"

interpretation rec_access: max_access resolve_recording_perm "\<lambda>p. p\<lparr>pr_link := None\<rparr>"
  link_grant_of admin_access
proof unfold_locales
  fix d p r
  assume "admin_access p"
  then show "resolve_recording_perm d p r =
      max (link_grant_of p r) (resolve_recording_perm d (p\<lparr>pr_link := None\<rparr>) r)"
    by (cases "pr_link p = Some (rec_id r)"; cases "member_role d (rec_ws r) (pr_user p)";
        cases "share_permission_of d (rec_id r) (pr_user p)")
      (simp_all add: resolve_recording_perm_def link_grant_of_def admin_access_def has_own_access_def
        max.assoc)
qed (auto simp: resolve_recording_perm_def link_grant_of_def admin_access_def has_own_access_def)

lemmas resolve_defs = resolve_recording_perm_def has_own_access_def Let_def

lemma for_user_simps [simp]:
  "pr_user (for_user u) = Some (usr_id u)" "pr_link (for_user u) = None"
  "pr_active (for_user u) = (usr_status u = UActive)"
  "pr_service_admin (for_user u) = usr_service_admin u"
  "has_own_access (for_user u) = (usr_status u = UActive)"
  by (simp_all add: for_user_def anonymous_def has_own_access_def)

subsection \<open>Properties\<close>

text \<open>C8. The effective permission on a recording is the maximum over the independent
  ways to it: no order of evaluation, no deny rule, no override.\<close>

theorem resolve_is_max_of_grants:
  "resolve_recording_perm d p r = Max (range (grant d p r))"
  unfolding Max_grants
  by (cases "member_role d (rec_ws r) (pr_user p)"; cases "share_permission_of d (rec_id r) (pr_user p)")
    (simp_all add: resolve_recording_perm_def max.assoc has_own_access_def)

end
