(* ===== verification/Tenancy.thy ===== *)
theory Tenancy
  imports Auth_Sessions Quota Permissions
begin

text \<open>
  \<open>tenancy.py\<close>: signing up and being approved, workspaces, members and invites. A function
  that raises returns \<open>Inl\<close> and the caller's transaction is rolled back. Password hashes,
  tokens, public ids and the hexadecimal suffixes of slugs are random or third-party and
  are arguments. An ORM object given to a function is its row; what the code writes through
  it goes to the row with its id.
\<close>

definition INVITE_DEFAULT_DAYS :: int where "INVITE_DEFAULT_DAYS = 14"
definition INVITE_MAX_DAYS :: int where "INVITE_MAX_DAYS = 3650"
definition INVITABLE_ROLES :: "workspace_role list" where
  "INVITABLE_ROLES = filter (\<lambda>r. r \<noteq> Owner) WORKSPACE_ROLES"
definition ASSIGNABLE_STATUSES :: "user_status list" where
  "ASSIGNABLE_STATUSES = [UActive, URejected, UDisabled]"

datatype member_reason =
  BadEmail | BadRole | BadExpiry | BadUses | NoOwnerTransfer | NotMember | OwnerRoleFixed
  | OwnerStays | BadStatus

text \<open>\<open>Integrity\<close> is the \<open>IntegrityError\<close> of a violated constraint, \<open>StillLooking\<close> a slug
  search that has not found a free name with the suffixes drawn so far.\<close>

datatype tenancy_error =
  MemberInvalid member_reason | EmailTaken | InviteInvalid | WorkspaceNotFound | BadSlug
  | WorkspaceMissing | Integrity | StillLooking

subsection \<open>Addresses and slugs\<close>

definition normalize_email :: "string \<Rightarrow> string" where
  "normalize_email raw = str_lower (str_strip raw)"

text \<open>The regular expression of an address, on a string without white space at its ends: one
  at sign, nothing empty, no white space, and a dot inside the domain.\<close>

definition email_char :: "char \<Rightarrow> bool" where
  "email_char c \<longleftrightarrow> c \<noteq> CHR ''@'' \<and> \<not> py_space c"

definition email_shape :: "string \<Rightarrow> bool" where
  "email_shape s \<longleftrightarrow>
     (let local = takeWhile (\<lambda>c. c \<noteq> CHR ''@'') s; rest = drop (length local) s
      in case rest of
           [] \<Rightarrow> False
         | _ # domain \<Rightarrow> local \<noteq> [] \<and> list_all email_char local \<and> list_all email_char domain \<and>
             domain \<noteq> [] \<and> CHR ''.'' \<in> set (butlast (tl domain)))"

definition valid_email :: "string \<Rightarrow> (tenancy_error, string) result" where
  "valid_email raw =
     (let email = normalize_email raw
      in if email_shape email then Inr email else Inl (MemberInvalid BadEmail))"

definition slug_start :: "char \<Rightarrow> bool" where
  "slug_start c \<longleftrightarrow> (let n = code c in (97 \<le> n \<and> n \<le> 122) \<or> (48 \<le> n \<and> n \<le> 57))"

definition slug_char :: "char \<Rightarrow> bool" where
  "slug_char c \<longleftrightarrow> slug_start c \<or> c = CHR ''-''"

definition slug_shape :: "string \<Rightarrow> bool" where
  "slug_shape s \<longleftrightarrow> s \<noteq> [] \<and> slug_start (hd s) \<and> list_all slug_char s"

definition validate_slug :: "string \<Rightarrow> (tenancy_error, string) result" where
  "validate_slug raw =
     (let slug = str_lower (str_strip raw) in if slug_shape slug then Inr slug else Inl BadSlug)"

text \<open>\<open>_SLUG_STRIP_RE.sub\<close>: every run of other characters becomes one hyphen.\<close>

fun squeeze :: "bool \<Rightarrow> string \<Rightarrow> string" where
  "squeeze run [] = []"
| "squeeze run (c # s) =
     (if slug_char c then c # squeeze False s
      else if run then squeeze True s else CHR ''-'' # squeeze True s)"

definition strip_hyphens :: "string \<Rightarrow> string" where
  "strip_hyphens s = rev (dropWhile (\<lambda>c. c = CHR ''-'') (rev (dropWhile (\<lambda>c. c = CHR ''-'') s)))"

definition slugify :: "string \<Rightarrow> string \<Rightarrow> string" where
  "slugify fallback raw =
     (let candidate = strip_hyphens (squeeze False (str_lower (str_strip raw)))
      in if candidate = [] then fallback else candidate)"

definition find_workspace :: "db \<Rightarrow> string \<Rightarrow> workspace option" where
  "find_workspace d slug = scalar (\<lambda>w. ws_slug w = slug) (workspaces d)"

definition get_workspace :: "db \<Rightarrow> string \<Rightarrow> (tenancy_error, workspace) result" where
  "get_workspace d slug =
     (case find_workspace d slug of None \<Rightarrow> Inl WorkspaceNotFound | Some w \<Rightarrow> Inr w)"

definition find_user :: "db \<Rightarrow> string \<Rightarrow> user option" where
  "find_user d email = scalar (\<lambda>u. usr_email u = normalize_email email) (users d)"

fun free_slug :: "db \<Rightarrow> string \<Rightarrow> string list \<Rightarrow> string option" where
  "free_slug d base [] = None"
| "free_slug d base (h # hs) =
     (let candidate = base @ ''-'' @ h
      in if find_workspace d candidate = None then Some candidate else free_slug d base hs)"

definition unique_slug :: "db \<Rightarrow> string \<Rightarrow> string list \<Rightarrow> string option" where
  "unique_slug d raw hexes =
     (let base = slugify ''ws'' raw
      in if find_workspace d base = None then Some base else free_slug d base hexes)"

subsection \<open>Rows\<close>

definition update_user :: "nat \<Rightarrow> (user \<Rightarrow> user) \<Rightarrow> db \<Rightarrow> db" where
  "update_user i f d = d\<lparr>users := update_where (\<lambda>u. usr_id u = i) f (users d)\<rparr>"

definition create_workspace ::
  "db \<Rightarrow> string \<Rightarrow> string \<Rightarrow> workspace_kind \<Rightarrow> int option \<Rightarrow> int option \<Rightarrow> uuid \<Rightarrow>
   (tenancy_error, workspace \<times> db) result" where
  "create_workspace d slug name kind qm qb pub =
     (case validate_slug slug of
        Inl e \<Rightarrow> Inl e
      | Inr s \<Rightarrow>
          if find_workspace d s \<noteq> None then Inl Integrity
          else
            let w = \<lparr>ws_id = next_id (workspaces d), ws_public = pub, ws_slug = s, ws_name = name,
                     ws_kind = kind, ws_last_claimed = None, ws_quota_minutes = qm,
                     ws_quota_bytes = qb\<rparr>
            in Inr (w, d\<lparr>workspaces := insert_row set_ws_id w (workspaces d)\<rparr>))"

definition create_user ::
  "db \<Rightarrow> string \<Rightarrow> string \<Rightarrow> string \<Rightarrow> user_status \<Rightarrow> bool \<Rightarrow> string option \<Rightarrow> uuid \<Rightarrow> time \<Rightarrow>
   (tenancy_error, user \<times> db) result" where
  "create_user d email pwhash name status admin note pub now =
     (let e = normalize_email email
      in if find_user d e \<noteq> None then Inl Integrity
         else
           let u = \<lparr>usr_id = next_id (users d), usr_public = pub, usr_email = e,
                    usr_password_hash = pwhash, usr_display_name = name, usr_status = status,
                    usr_signup_note = note, usr_reviewed_by = None, usr_reviewed_at = None,
                    usr_service_admin = admin, usr_default_ws = None, usr_last_login = None,
                    usr_created_at = now\<rparr>
           in Inr (u, d\<lparr>users := insert_row set_usr_id u (users d)\<rparr>))"

definition find_member :: "db \<Rightarrow> nat \<Rightarrow> nat \<Rightarrow> member option" where
  "find_member d w u = scalar (\<lambda>m. mem_ws m = w \<and> mem_user m = u) (members d)"

definition member_row :: "nat \<Rightarrow> nat \<Rightarrow> workspace_role \<Rightarrow> member" where
  "member_row w u role = \<lparr>mem_id = 0, mem_ws = w, mem_user = u, mem_role = role\<rparr>"

definition has_owner :: "db \<Rightarrow> nat \<Rightarrow> bool" where
  "has_owner d w \<longleftrightarrow> scalar (\<lambda>m. mem_ws m = w \<and> is_owner m) (members d) \<noteq> None"

text \<open>The unique constraint of a membership and the one owner per workspace.\<close>

definition add_member :: "db \<Rightarrow> nat \<Rightarrow> nat \<Rightarrow> workspace_role \<Rightarrow> (tenancy_error, db) result" where
  "add_member d w u role =
     (if find_member d w u \<noteq> None \<or> (role = Owner \<and> has_owner d w) then Inl Integrity
      else Inr (d\<lparr>members := insert_row set_mem_id (member_row w u role) (members d)\<rparr>))"

subsection \<open>Reserved shares and invites\<close>

definition claim_share :: "user \<Rightarrow> share \<Rightarrow> db \<Rightarrow> db" where
  "claim_share u s d =
     (case scalar (\<lambda>x. shr_recording x = shr_recording s \<and> shr_user x = Some (usr_id u)) (shares d) of
        None \<Rightarrow> d\<lparr>shares := update_where (\<lambda>x. shr_id x = shr_id s)
                   (\<lambda>x. x\<lparr>shr_user := Some (usr_id u), shr_email := None\<rparr>) (shares d)\<rparr>
      | Some e \<Rightarrow>
          let t = (if shr_permission s = ShareEdit
                   then update_where (\<lambda>x. shr_id x = shr_id e) (\<lambda>x. x\<lparr>shr_permission := ShareEdit\<rparr>) (shares d)
                   else shares d)
          in d\<lparr>shares := delete_where (\<lambda>x. shr_id x = shr_id s) t\<rparr>)"

definition join_workspace :: "nat \<Rightarrow> nat \<Rightarrow> workspace_role \<Rightarrow> db \<Rightarrow> bool \<times> db" where
  "join_workspace w u role d =
     (if find_member d w u \<noteq> None then (False, d)
      else (True, d\<lparr>members := insert_row set_mem_id (member_row w u role) (members d)\<rparr>))"

definition use_invite :: "nat \<Rightarrow> db \<Rightarrow> db" where
  "use_invite i d = d\<lparr>invites := update_where (\<lambda>x. inv_id x = i) (\<lambda>x. x\<lparr>inv_uses := inv_uses x + 1\<rparr>) (invites d)\<rparr>"

definition invite_open :: "time \<Rightarrow> invite \<Rightarrow> bool" where
  "invite_open now i \<longleftrightarrow> (case inv_expires i of None \<Rightarrow> True | Some t \<Rightarrow> now < t) \<and> inv_uses i < inv_max_uses i"

definition claim_invite :: "user \<Rightarrow> time \<Rightarrow> invite \<Rightarrow> nat \<times> db \<Rightarrow> nat \<times> db" where
  "claim_invite u now i s =
     (let (n, d) = s
      in if \<not> invite_open now i then (n, d)
         else case join_workspace (inv_ws i) (usr_id u) (inv_role i) d of
                (True, d1) \<Rightarrow> (Suc n, use_invite (inv_id i) d1)
              | (False, d1) \<Rightarrow> (n, d1))"

definition claim_pending :: "user \<Rightarrow> time \<Rightarrow> db \<Rightarrow> (nat \<times> nat) \<times> db" where
  "claim_pending u now d =
     (let ss = select (\<lambda>s. shr_email s = Some (usr_email u)) (shares d);
          d1 = fold (claim_share u) ss d;
          is = select (\<lambda>i. inv_email i = Some (usr_email u) \<and> inv_revoked i = None) (invites d1);
          (joined, d2) = fold (claim_invite u now) is (0, d1)
      in ((length ss, joined), d2))"

subsection \<open>Signing up, approving, rejecting\<close>

definition home_name :: "string \<Rightarrow> string" where
  "home_name display_name = display_name @ map char_of
     ([0xEC, 0x9D, 0x98, 0x20, 0xEB, 0xB3, 0xB4, 0xEA, 0xB4, 0x80, 0xED, 0x95, 0xA8] :: nat list)"

text \<open>What is random when a home workspace is made.\<close>

record draws =
  dr_user :: uuid
  dr_ws :: uuid
  dr_hexes :: "string list"

definition make_home ::
  "user \<Rightarrow> int option \<Rightarrow> int option \<Rightarrow> draws \<Rightarrow> db \<Rightarrow> (tenancy_error, workspace \<times> db) result" where
  "make_home u qm qb dr d =
     (case unique_slug d (str_before (CHR ''@'') (usr_email u)) (dr_hexes dr) of
        None \<Rightarrow> Inl StillLooking
      | Some slug \<Rightarrow>
          (case create_workspace d slug (home_name (usr_display_name u)) Personal qm qb (dr_ws dr) of
             Inl e \<Rightarrow> Inl e
           | Inr (w, d1) \<Rightarrow>
               (case add_member d1 (ws_id w) (usr_id u) Owner of
                  Inl e \<Rightarrow> Inl e
                | Inr d2 \<Rightarrow>
                    Inr (w, update_user (usr_id u) (\<lambda>x. x\<lparr>usr_default_ws := Some (ws_id w)\<rparr>) d2))))"

definition signup ::
  "db \<Rightarrow> string \<Rightarrow> string \<Rightarrow> string \<Rightarrow> string option \<Rightarrow> bool \<Rightarrow> int option \<Rightarrow> int option \<Rightarrow> draws \<Rightarrow> time \<Rightarrow>
   (tenancy_error, (user \<times> workspace) \<times> db) result" where
  "signup d email pwhash name note auto_approve qm qb dr now =
     (case valid_email email of
        Inl e \<Rightarrow> Inl e
      | Inr normalized \<Rightarrow>
          if find_user d normalized \<noteq> None then Inl EmailTaken
          else case create_user d normalized pwhash name (if auto_approve then UActive else UPending)
                      False note (dr_user dr) now of
                 Inl e \<Rightarrow> Inl e
               | Inr (u, d1) \<Rightarrow>
                   (case make_home u qm qb dr d1 of
                      Inl e \<Rightarrow> Inl e
                    | Inr (w, d2) \<Rightarrow>
                        Inr ((u\<lparr>usr_default_ws := Some (ws_id w)\<rparr>, w),
                        if auto_approve then snd (claim_pending u now d2) else d2)))"

definition first_membership :: "db \<Rightarrow> nat \<Rightarrow> nat option" where
  "first_membership d u = map_option mem_ws (scalar (\<lambda>m. mem_user m = u) (members d))"

definition ensure_home_workspace ::
  "user \<Rightarrow> int option \<Rightarrow> int option \<Rightarrow> draws \<Rightarrow> db \<Rightarrow> (tenancy_error, db) result" where
  "ensure_home_workspace u qm qb dr d =
     (if select (\<lambda>m. mem_user m = usr_id u) (members d) \<noteq> []
      then Inr (if usr_default_ws u = None
                then update_user (usr_id u) (\<lambda>x. x\<lparr>usr_default_ws := first_membership d (usr_id u)\<rparr>) d
                else d)
      else case make_home u qm qb dr d of Inl e \<Rightarrow> Inl e | Inr (w, d1) \<Rightarrow> Inr d1)"

definition review :: "user \<Rightarrow> user_status \<Rightarrow> nat option \<Rightarrow> time \<Rightarrow> db \<Rightarrow> db" where
  "review u status reviewer now = update_user (usr_id u)
     (\<lambda>x. x\<lparr>usr_status := status, usr_reviewed_by := reviewer, usr_reviewed_at := Some now\<rparr>)"

definition approve ::
  "user \<Rightarrow> nat option \<Rightarrow> int option \<Rightarrow> int option \<Rightarrow> draws \<Rightarrow> time \<Rightarrow> db \<Rightarrow> (tenancy_error, db) result" where
  "approve u reviewer qm qb dr now d =
     (case ensure_home_workspace u qm qb dr (review u UActive reviewer now d) of
        Inl e \<Rightarrow> Inl e
      | Inr d1 \<Rightarrow> Inr (snd (claim_pending u now d1)))"

definition droppable :: "db \<Rightarrow> nat \<Rightarrow> bool" where
  "droppable d w \<longleftrightarrow>
     (case get_workspace_row d w of
        None \<Rightarrow> False
      | Some x \<Rightarrow> ws_kind x = Personal \<and>
          length (select (\<lambda>m. mem_ws m = w) (members d)) = 1 \<and>
          select (\<lambda>r. rec_ws r = w) (recordings d) = [] \<and>
          select (\<lambda>j. job_ws j = w) (job_logs d) = [])"

definition drop_workspace :: "nat \<Rightarrow> nat \<Rightarrow> db \<Rightarrow> db" where
  "drop_workspace u w d =
     (if droppable d w
      then delete_workspace_row w (update_user u
             (\<lambda>x. if usr_default_ws x = Some w then x\<lparr>usr_default_ws := None\<rparr> else x) d)
      else d)"

definition drop_empty_personal_workspaces :: "user \<Rightarrow> db \<Rightarrow> db" where
  "drop_empty_personal_workspaces u d =
     fold (drop_workspace (usr_id u)) (map mem_ws (select (\<lambda>m. mem_user m = usr_id u) (members d))) d"

definition reject :: "user \<Rightarrow> nat option \<Rightarrow> time \<Rightarrow> db \<Rightarrow> db" where
  "reject u reviewer now d = drop_empty_personal_workspaces u (review u URejected reviewer now d)"

definition set_user_status ::
  "user \<Rightarrow> string \<Rightarrow> nat option \<Rightarrow> int option \<Rightarrow> int option \<Rightarrow> draws \<Rightarrow> time \<Rightarrow> db \<Rightarrow>
   (tenancy_error, db) result" where
  "set_user_status u status reviewer qm qb dr now d =
     (case find (\<lambda>s. user_status_name s = status) ASSIGNABLE_STATUSES of
        None \<Rightarrow> Inl (MemberInvalid BadStatus)
      | Some UActive \<Rightarrow> approve u reviewer qm qb dr now d
      | Some URejected \<Rightarrow> Inr (snd (revoke_other_sessions (reject u reviewer now d) (usr_id u) None now))
      | Some _ \<Rightarrow> Inr (snd (revoke_other_sessions (review u UDisabled reviewer now d) (usr_id u) None now)))"

subsection \<open>Invites\<close>

definition invite_live :: "time \<Rightarrow> invite \<Rightarrow> bool" where
  "invite_live now i \<longleftrightarrow> inv_revoked i = None \<and> invite_open now i"

definition live_invite ::
  "(string \<Rightarrow> string) \<Rightarrow> db \<Rightarrow> string \<Rightarrow> time \<Rightarrow> (tenancy_error, invite) result" where
  "live_invite H d raw now =
     (case scalar (\<lambda>i. inv_token_hash i = H raw) (invites d) of
        None \<Rightarrow> Inl InviteInvalid
      | Some i \<Rightarrow>
          if inv_revoked i \<noteq> None \<or> (case inv_expires i of None \<Rightarrow> False | Some t \<Rightarrow> t \<le> now) \<or>
             inv_max_uses i \<le> inv_uses i
          then Inl InviteInvalid else Inr i)"

interpretation invite_token: bearer_token inv_token_hash invite_live "\<lambda>t i. i\<lparr>inv_revoked := Some t\<rparr>"
  by unfold_locales (auto simp: invite_live_def invite_open_def split: option.splits)

lemma live_invite_eq:
  "live_invite H d raw now =
     (case load_live H inv_token_hash invite_live now raw (rows (invites d)) of
        None \<Rightarrow> Inl InviteInvalid | Some i \<Rightarrow> Inr i)"
  by (auto simp: live_invite_def load_live_def scalar_def invite_live_def invite_open_def split: option.splits)

definition peek_invite ::
  "(string \<Rightarrow> string) \<Rightarrow> db \<Rightarrow> string \<Rightarrow> user \<Rightarrow> time \<Rightarrow> (tenancy_error, invite) result" where
  "peek_invite H d raw u now =
     (case live_invite H d raw now of
        Inl e \<Rightarrow> Inl e
      | Inr i \<Rightarrow>
          if inv_email i \<noteq> None \<and> inv_email i \<noteq> Some (usr_email u) then Inl InviteInvalid
          else Inr i)"

definition accept_invite ::
  "(string \<Rightarrow> string) \<Rightarrow> db \<Rightarrow> string \<Rightarrow> user \<Rightarrow> time \<Rightarrow> (tenancy_error, workspace \<times> db) result" where
  "accept_invite H d raw u now =
     (case peek_invite H d raw u now of
        Inl e \<Rightarrow> Inl e
      | Inr i \<Rightarrow>
          (case get_workspace_row d (inv_ws i) of
             None \<Rightarrow> Inl InviteInvalid
           | Some w \<Rightarrow>
               (case join_workspace (inv_ws i) (usr_id u) (inv_role i) d of
                  (True, d1) \<Rightarrow> Inr (w, use_invite (inv_id i) d1)
                | (False, d1) \<Rightarrow> Inr (w, d1))))"

definition create_invite ::
  "(string \<Rightarrow> string) \<Rightarrow> string \<Rightarrow> uuid \<Rightarrow> nat \<Rightarrow> string \<Rightarrow> string option \<Rightarrow> nat option \<Rightarrow> int option \<Rightarrow> int \<Rightarrow>
   time \<Rightarrow> db \<Rightarrow> (tenancy_error, invite \<times> db) result" where
  "create_invite H raw pub w role email created_by expires_in_days max_uses now d =
     (case find (\<lambda>r. role_name r = role) INVITABLE_ROLES of
        None \<Rightarrow> Inl (MemberInvalid BadRole)
      | Some r \<Rightarrow>
          if (case expires_in_days of None \<Rightarrow> False | Some n \<Rightarrow> \<not> (1 \<le> n \<and> n \<le> INVITE_MAX_DAYS))
          then Inl (MemberInvalid BadExpiry)
          else if max_uses < 1 then Inl (MemberInvalid BadUses)
          else
            (case (case email of
                     None \<Rightarrow> Inr None
                   | Some e \<Rightarrow> if e = [] then Inr None
                               else (case valid_email e of Inl x \<Rightarrow> Inl x | Inr v \<Rightarrow> Inr (Some v))) of
               Inl x \<Rightarrow> Inl x
             | Inr addr \<Rightarrow>
                 let i = \<lparr>inv_id = next_id (invites d), inv_public = pub, inv_token_hash = H raw,
                          inv_email = addr, inv_ws = w, inv_role = r, inv_created_by = created_by,
                          inv_expires = map_option (\<lambda>n. now + days n) expires_in_days,
                          inv_max_uses = max_uses, inv_uses = 0, inv_revoked = None\<rparr>
                 in Inr (i, d\<lparr>invites := insert_row set_inv_id i (invites d)\<rparr>)))"

definition list_invites :: "db \<Rightarrow> nat \<Rightarrow> time \<Rightarrow> invite list" where
  "list_invites d w now =
     filter (\<lambda>i. inv_uses i < inv_max_uses i \<and> (case inv_expires i of None \<Rightarrow> True | Some t \<Rightarrow> now < t))
       (select (\<lambda>i. inv_ws i = w \<and> inv_revoked i = None) (invites d))"

definition revoke_invite :: "db \<Rightarrow> nat \<Rightarrow> uuid \<Rightarrow> time \<Rightarrow> bool \<times> db" where
  "revoke_invite d w pub now =
     (case scalar (\<lambda>i. inv_ws i = w \<and> inv_public i = pub \<and> inv_revoked i = None) (invites d) of
        None \<Rightarrow> (False, d)
      | Some i \<Rightarrow> (True, d\<lparr>invites := update_where (\<lambda>x. inv_id x = inv_id i)
                     (\<lambda>x. x\<lparr>inv_revoked := Some now\<rparr>) (invites d)\<rparr>))"

subsection \<open>Members\<close>

definition bootstrap ::
  "db \<Rightarrow> string \<Rightarrow> string \<Rightarrow> string \<Rightarrow> string \<Rightarrow> string \<Rightarrow> draws \<Rightarrow> time \<Rightarrow>
   (tenancy_error, (nat \<times> nat \<times> bool) \<times> db) result" where
  "bootstrap d email pwhash name slug wname dr now =
     (case find_user d email of
        Some u \<Rightarrow>
          (case find_workspace d slug of
             None \<Rightarrow> Inl WorkspaceMissing
           | Some w \<Rightarrow> Inr ((usr_id u, ws_id w, False), d))
      | None \<Rightarrow>
          (case (case find_workspace d slug of
                   Some w \<Rightarrow> Inr (w, d)
                 | None \<Rightarrow> create_workspace d slug wname Team None None (dr_ws dr)) of
             Inl e \<Rightarrow> Inl e
           | Inr (w, d1) \<Rightarrow>
               (case create_user d1 email pwhash name UActive True None (dr_user dr) now of
                  Inl e \<Rightarrow> Inl e
                | Inr (u, d2) \<Rightarrow>
                    (case add_member d2 (ws_id w) (usr_id u) Owner of
                       Inl e \<Rightarrow> Inl e
                     | Inr d3 \<Rightarrow>
                         Inr ((usr_id u, ws_id w, True),
                              update_user (usr_id u) (\<lambda>x. x\<lparr>usr_default_ws := Some (ws_id w)\<rparr>) d3)))))"

definition list_members :: "db \<Rightarrow> nat \<Rightarrow> (member \<times> user) list" where
  "list_members d w =
     concat (map (\<lambda>m. case get_user d (mem_user m) of None \<Rightarrow> [] | Some u \<Rightarrow> [(m, u)])
       (sort_key mem_id (select (\<lambda>m. mem_ws m = w) (members d))))"

definition set_member_role ::
  "db \<Rightarrow> nat \<Rightarrow> nat \<Rightarrow> string \<Rightarrow> (tenancy_error, member \<times> db) result" where
  "set_member_role d w u role =
     (case role_of role of
        None \<Rightarrow> Inl (MemberInvalid BadRole)
      | Some Owner \<Rightarrow> Inl (MemberInvalid NoOwnerTransfer)
      | Some r \<Rightarrow>
          (case find_member d w u of
             None \<Rightarrow> Inl (MemberInvalid NotMember)
           | Some m \<Rightarrow>
               if mem_role m = Owner then Inl (MemberInvalid OwnerRoleFixed)
               else Inr (m\<lparr>mem_role := r\<rparr>,
                      d\<lparr>members := update_where (\<lambda>x. mem_id x = mem_id m)
                         (\<lambda>x. x\<lparr>mem_role := r\<rparr>) (members d)\<rparr>)))"

definition revoke_addressed :: "nat \<Rightarrow> string \<Rightarrow> time \<Rightarrow> db \<Rightarrow> db" where
  "revoke_addressed w email now d =
     d\<lparr>invites := update_where (\<lambda>i. inv_ws i = w \<and> inv_email i = Some email \<and> inv_revoked i = None)
        (\<lambda>i. i\<lparr>inv_revoked := Some now\<rparr>) (invites d)\<rparr>"

definition remove_member :: "db \<Rightarrow> nat \<Rightarrow> user \<Rightarrow> time \<Rightarrow> (tenancy_error, db) result" where
  "remove_member d w u now =
     (case find_member d w (usr_id u) of
        None \<Rightarrow> Inl (MemberInvalid NotMember)
      | Some m \<Rightarrow>
          if mem_role m = Owner then Inl (MemberInvalid OwnerStays)
          else
            let d1 = d\<lparr>members := delete_where (\<lambda>x. mem_id x = mem_id m) (members d)\<rparr>;
                d2 = revoke_addressed w (usr_email u) now d1
            in Inr (if usr_default_ws u = Some w
                    then update_user (usr_id u) (\<lambda>x. x\<lparr>usr_default_ws := first_membership d2 (usr_id u)\<rparr>) d2
                    else d2))"

definition list_users :: "db \<Rightarrow> user_status option \<Rightarrow> nat \<Rightarrow> user list" where
  "list_users d status limit =
     take limit (sort_key usr_created_at
       (select (\<lambda>u. case status of None \<Rightarrow> True | Some s \<Rightarrow> usr_status u = s) (users d)))"

end
