(* ===== verification/Membership.thy ===== *)
theory Membership
  imports Tenancy
begin

text \<open>
  What the operations of \<open>tenancy.py\<close> keep: the declared constraints and references of
  accounts, workspaces, members and invites, and the owner of every workspace.
\<close>

subsection \<open>The invariant\<close>

definition ws_ids :: "db \<Rightarrow> nat set" where
  "ws_ids d = ws_id ` set (rows (workspaces d))"

definition user_ids :: "db \<Rightarrow> nat set" where
  "user_ids d = usr_id ` set (rows (users d))"

definition belongs :: "db \<Rightarrow> nat \<Rightarrow> nat \<Rightarrow> bool" where
  "belongs d w u \<longleftrightarrow> (\<exists>m\<in>set (rows (members d)). mem_ws m = w \<and> mem_user m = u)"

definition owns :: "db \<Rightarrow> nat \<Rightarrow> nat \<Rightarrow> bool" where
  "owns d w u \<longleftrightarrow> (\<exists>m\<in>set (rows (members d)). mem_ws m = w \<and> mem_user m = u \<and> mem_role m = Owner)"

text \<open>The foreign keys, the roles an invite may carry, and that the default workspace of an
  account is one it belongs to.\<close>

definition members_refer :: "db \<Rightarrow> bool" where
  "members_refer d \<longleftrightarrow> (\<forall>m\<in>set (rows (members d)). mem_ws m \<in> ws_ids d \<and> mem_user m \<in> user_ids d)"

definition invite_fits :: "db \<Rightarrow> invite \<Rightarrow> bool" where
  "invite_fits d i \<longleftrightarrow> inv_ws i \<in> ws_ids d \<and> inv_role i \<noteq> Owner \<and> inv_uses i \<le> inv_max_uses i"

definition invites_fit :: "db \<Rightarrow> bool" where
  "invites_fit d \<longleftrightarrow> table_ok inv_id (invites d) \<and> (\<forall>i\<in>set (rows (invites d)). invite_fits d i)"

definition defaults_belong :: "db \<Rightarrow> bool" where
  "defaults_belong d \<longleftrightarrow>
     (\<forall>u\<in>set (rows (users d)). \<forall>w\<in>set_option (usr_default_ws u). belongs d w (usr_id u))"

definition tenancy_ok :: "db \<Rightarrow> bool" where
  "tenancy_ok d \<longleftrightarrow> users_ok d \<and> workspaces_ok d \<and> members_ok d \<and> members_refer d \<and>
     invites_fit d \<and> defaults_belong d"

text \<open>The owner of a workspace stays for as long as the workspace exists.\<close>

definition owners_stay :: "db \<Rightarrow> db \<Rightarrow> bool" where
  "owners_stay d d' \<longleftrightarrow> (\<forall>w u. owns d w u \<longrightarrow> w \<in> ws_ids d' \<longrightarrow> owns d' w u)"

lemma owners_stay_refl [simp]: "owners_stay d d"
  by (simp add: owners_stay_def)

lemma owners_stay_trans:
  "owners_stay d e \<Longrightarrow> owners_stay e f \<Longrightarrow> ws_ids f \<subseteq> ws_ids e \<Longrightarrow> owners_stay d f"
  unfolding owners_stay_def by blast

lemma belongs_iff: "belongs d w u \<longleftrightarrow> find_member d w u \<noteq> None"
  unfolding belongs_def find_member_def scalar_ex by blast

lemma has_owner_iff: "has_owner d w \<longleftrightarrow> (\<exists>u. owns d w u)"
  unfolding has_owner_def owns_def scalar_ex is_owner_def by blast

lemma belongs_keys:
  "belongs d w u \<longleftrightarrow> (w, u) \<in> set (map (\<lambda>m. (mem_ws m, mem_user m)) (rows (members d)))"
  by (auto simp: belongs_def)

lemma owns_keys:
  "owns d w u \<longleftrightarrow> (w, u) \<in> set (map (\<lambda>m. (mem_ws m, mem_user m)) (filter is_owner (rows (members d))))"
  by (auto simp: owns_def is_owner_def)

lemma owns_belongs: "owns d w u \<Longrightarrow> belongs d w u"
  by (auto simp: owns_def belongs_def)

lemma tenancy_okI:
  "users_ok d \<Longrightarrow> workspaces_ok d \<Longrightarrow> members_ok d \<Longrightarrow> members_refer d \<Longrightarrow> invites_fit d \<Longrightarrow>
     defaults_belong d \<Longrightarrow> tenancy_ok d"
  by (simp add: tenancy_ok_def)

lemma tenancy_okD:
  assumes "tenancy_ok d"
  shows "users_ok d" "workspaces_ok d" "members_ok d" "members_refer d" "invites_fit d"
    "defaults_belong d"
  using assms by (auto simp: tenancy_ok_def)

subsection \<open>Changes that keep it\<close>

text \<open>Each of the following is one kind of change; the operations are sequences of them.\<close>

lemma tenancy_ok_cong:
  assumes "users d' = users d" "workspaces d' = workspaces d" "members d' = members d"
    "invites d' = invites d"
  shows "tenancy_ok d' = tenancy_ok d" and "owners_stay d d'"
proof -
  have same: "belongs d' = belongs d" "owns d' = owns d" "ws_ids d' = ws_ids d" "user_ids d' = user_ids d"
    by (simp_all add: fun_eq_iff belongs_def owns_def ws_ids_def user_ids_def assms)
  show "tenancy_ok d' = tenancy_ok d"
    by (simp add: tenancy_ok_def users_ok_def workspaces_ok_def members_ok_def members_refer_def
        invites_fit_def invite_fits_def defaults_belong_def same assms)
  show "owners_stay d d'" by (simp add: owners_stay_def same)
qed

lemma new_workspace_ok:
  assumes "tenancy_ok d" "create_workspace d slug name kind qm qb pub = Inr (w, d')"
  shows "tenancy_ok d'" "owners_stay d d'" "ws_id w \<in> ws_ids d'" "\<not> belongs d' (ws_id w) u"
    "users d' = users d" "members d' = members d" "invites d' = invites d"
    "ws_ids d' = insert (ws_id w) (ws_ids d)"
proof -
  obtain s where s: "validate_slug slug = Inr s" "find_workspace d s = None"
    and w: "w = \<lparr>ws_id = next_id (workspaces d), ws_public = pub, ws_slug = s, ws_name = name,
       ws_kind = kind, ws_last_claimed = None, ws_quota_minutes = qm, ws_quota_bytes = qb\<rparr>"
    and d': "d' = d\<lparr>workspaces := insert_row set_ws_id w (workspaces d)\<rparr>"
    using assms(2) by (auto simp: create_workspace_def Let_def split: sum.splits if_splits)
  have low: "s = str_lower s" using s(1) by (auto simp: validate_slug_def Let_def split: if_splits)
  have fresh: "s \<notin> ws_slug ` set (rows (workspaces d))"
    using s(2) by (auto simp: find_workspace_def scalar_None)
  note ok = tenancy_okD [OF assms(1)]
  have ids: "ws_ids d' = insert (ws_id w) (ws_ids d)" by (auto simp: d' ws_ids_def w)
  have new: "ws_id w \<notin> ws_ids d"
    using ok(2) by (auto simp: workspaces_ok_def ws_ids_def w table_ok_def)
  show "ws_ids d' = insert (ws_id w) (ws_ids d)" "ws_id w \<in> ws_ids d'" by (simp_all add: ids)
  show same: "users d' = users d" "members d' = members d" "invites d' = invites d"
    by (simp_all add: d')
  show "\<not> belongs d' (ws_id w) u"
    using ok(4) new by (auto simp: belongs_def members_refer_def same)
  have "workspaces_ok d'"
    using ok(2) low fresh by (auto simp: workspaces_ok_def d' w ws_tbl.insert_ok)
  then show "tenancy_ok d'"
    using ok by (intro tenancy_okI)
      (auto simp: users_ok_def members_ok_def members_refer_def invites_fit_def invite_fits_def
        defaults_belong_def belongs_def user_ids_def same ids split: option.splits)
  show "owners_stay d d'" by (simp add: owners_stay_def owns_def same)
qed

text \<open>A quota that is set or a claim that is stamped: the rows keep their ids and slugs.\<close>

lemma workspace_update_ok:
  assumes keep: "\<And>x. ws_id (f x) = ws_id x \<and> ws_slug (f x) = ws_slug x" and ok: "tenancy_ok d"
  shows "tenancy_ok (d\<lparr>workspaces := update_where P f (workspaces d)\<rparr>)" (is "tenancy_ok ?d")
    and "owners_stay d (d\<lparr>workspaces := update_where P f (workspaces d)\<rparr>)"
proof -
  have cols: "map ws_id (rows (workspaces ?d)) = map ws_id (rows (workspaces d))"
      "map ws_slug (rows (workspaces ?d)) = map ws_slug (rows (workspaces d))"
    using keep by (simp_all add: comp_def if_distrib cong: if_cong)
  have ids: "ws_ids ?d = ws_ids d" unfolding ws_ids_def using cols(1) by (metis set_map)
  have slugs: "\<forall>w\<in>set (rows (workspaces ?d)). ws_slug w = str_lower (ws_slug w)"
    using tenancy_okD(2) [OF ok] keep by (auto simp: workspaces_ok_def)
  have "table_ok ws_id (workspaces ?d)"
    using tenancy_okD(2) [OF ok] keep by (simp add: workspaces_ok_def ws_tbl.update_ok)
  moreover have "distinct (map ws_slug (rows (workspaces ?d)))"
    unfolding cols(2) using tenancy_okD(2) [OF ok] by (simp add: workspaces_ok_def)
  ultimately have "workspaces_ok ?d" using slugs unfolding workspaces_ok_def by blast
  then show "tenancy_ok ?d"
    using tenancy_okD [OF ok] ids by (intro tenancy_okI)
      (auto simp: users_ok_def members_ok_def members_refer_def invites_fit_def invite_fits_def
        defaults_belong_def belongs_def user_ids_def split: option.splits)
  show "owners_stay d ?d" by (simp add: owners_stay_def owns_def)
qed

lemma new_user_ok:
  assumes "tenancy_ok d" "create_user d email pw name st adm note pub now = Inr (u, d')"
  shows "tenancy_ok d'" "owners_stay d d'" "u \<in> set (rows (users d'))" "\<not> belongs d' w (usr_id u)"
    "ws_ids d' = ws_ids d" "workspaces d' = workspaces d" "members d' = members d"
    "usr_email u = normalize_email email" "usr_default_ws u = None" "usr_status u = st"
    "usr_display_name u = name" "invites d' = invites d" "shares d' = shares d"
proof -
  let ?e = "normalize_email email"
  have none: "find_user d ?e = None"
    and u: "u = \<lparr>usr_id = next_id (users d), usr_public = pub, usr_email = ?e,
       usr_password_hash = pw, usr_display_name = name, usr_status = st,
       usr_signup_note = note, usr_reviewed_by = None, usr_reviewed_at = None,
       usr_service_admin = adm, usr_default_ws = None, usr_last_login = None, usr_created_at = now\<rparr>"
    and d': "d' = d\<lparr>users := insert_row set_usr_id u (users d)\<rparr>"
    using assms(2) by (auto simp: create_user_def Let_def split: if_splits)
  have low: "?e = str_lower ?e" by (simp add: normalize_email_def)
  have "normalize_email ?e = ?e" by (simp add: normalize_email_def str_strip_lower)
  with none have fresh: "?e \<notin> usr_email ` set (rows (users d))"
    by (auto simp: find_user_def scalar_None)
  note ok = tenancy_okD [OF assms(1)]
  show same: "workspaces d' = workspaces d" "members d' = members d" "invites d' = invites d"
    "shares d' = shares d"
    by (simp_all add: d')
  show ws: "ws_ids d' = ws_ids d" by (simp add: ws_ids_def same)
  have new: "usr_id u \<notin> user_ids d"
    using ok(1) by (auto simp: users_ok_def user_ids_def u table_ok_def)
  show mem: "u \<in> set (rows (users d'))" by (simp add: d' u)
  show "\<not> belongs d' w (usr_id u)"
    using ok(4) new by (auto simp: belongs_def members_refer_def same)
  show "usr_email u = ?e" "usr_default_ws u = None" "usr_status u = st" "usr_display_name u = name"
    by (simp_all add: u)
  have "users_ok d'"
    using ok(1) low fresh by (auto simp: users_ok_def d' u user_tbl.insert_ok)
  moreover have "user_ids d' = insert (usr_id u) (user_ids d)"
    by (auto simp: user_ids_def d' u)
  then have "members_refer d'" using ok(4) by (auto simp: members_refer_def same ws)
  moreover have "rows (users d') = rows (users d) @ [u]" "usr_default_ws u = None"
    by (simp_all add: d' u)
  then have "defaults_belong d'"
    using ok(6) by (auto simp: defaults_belong_def belongs_def same split: option.splits)
  moreover have "invites_fit d'" using ok(5) by (auto simp: invites_fit_def invite_fits_def same ws)
  ultimately show "tenancy_ok d'"
    using ok workspaces_ok_cong [OF same(1)] members_ok_cong [OF same(2)] by (intro tenancy_okI) auto
  show "owners_stay d d'" by (simp add: owners_stay_def owns_def same)
qed

lemma new_member_ok:
  assumes "tenancy_ok d" "w \<in> ws_ids d" "u \<in> user_ids d" "\<not> belongs d w u"
    and "role = Owner \<longrightarrow> \<not> has_owner d w"
    and d': "d' = d\<lparr>members := insert_row set_mem_id (member_row w u role) (members d)\<rparr>"
  shows "tenancy_ok d'" "owners_stay d d'" "belongs d' w u"
proof -
  note ok = tenancy_okD [OF assms(1)]
  have fresh: "(w, u) \<notin> (\<lambda>m. (mem_ws m, mem_user m)) ` set (rows (members d))"
    using assms(4) by (auto simp: belongs_def)
  have own: "role = Owner \<longrightarrow> w \<notin> mem_ws ` set (filter is_owner (rows (members d)))"
    using assms(5) by (auto simp: has_owner_def scalar_None)
  have "members_ok d'"
    using ok(3) fresh own
    by (auto simp: members_ok_def d' mem_tbl.insert_ok member_row_def is_owner_def)
  moreover have "members_refer d'"
    using ok(4) assms(2,3) by (auto simp: members_refer_def d' ws_ids_def user_ids_def member_row_def)
  moreover have "defaults_belong d'"
    using ok(6) by (auto simp: defaults_belong_def belongs_def d' split: option.splits)
  ultimately show "tenancy_ok d'"
    using ok by (intro tenancy_okI)
      (auto simp: users_ok_def workspaces_ok_def invites_fit_def invite_fits_def ws_ids_def d')
  show "owners_stay d d'" by (auto simp: owners_stay_def owns_def d')
  show "belongs d' w u" by (simp add: belongs_def d' member_row_def)
qed

lemma update_user_ids [simp]:
  "workspaces (update_user i f d) = workspaces d" "members (update_user i f d) = members d"
  "invites (update_user i f d) = invites d" "shares (update_user i f d) = shares d"
  "user_sessions (update_user i f d) = user_sessions d" "ws_ids (update_user i f d) = ws_ids d"
  "recordings (update_user i f d) = recordings d" "job_logs (update_user i f d) = job_logs d"
  by (simp_all add: update_user_def ws_ids_def)

lemma update_user_ok:
  assumes "tenancy_ok d" and keep: "\<And>x. usr_id (f x) = usr_id x" "\<And>x. usr_email (f x) = usr_email x"
    and deflt: "\<And>x. x \<in> set (rows (users d)) \<Longrightarrow> usr_id x = i \<Longrightarrow>
      usr_default_ws (f x) = None \<or> usr_default_ws (f x) = usr_default_ws x \<or>
      (\<exists>w. usr_default_ws (f x) = Some w \<and> belongs d w i)"
  shows "tenancy_ok (update_user i f d)" "owners_stay d (update_user i f d)"
    "user_ids (update_user i f d) = user_ids d"
proof -
  let ?d = "update_user i f d"
  note ok = tenancy_okD [OF assms(1)]
  show ids: "user_ids ?d = user_ids d"
  proof -
    have "usr_id (if usr_id x = i then f x else x) = usr_id x" for x by (simp add: keep)
    then show ?thesis by (simp add: user_ids_def update_user_def image_image del: if_image_distrib)
  qed
  have em: "map usr_email (rows (users ?d)) = map usr_email (rows (users d))"
    unfolding update_user_def by (simp add: map_key_update keep(2) del: map_map)
  have "users_ok ?d"
    using ok(1) unfolding users_ok_def em
    by (auto simp: update_user_def keep user_tbl.update_ok)
  moreover have "defaults_belong ?d"
    unfolding defaults_belong_def
  proof
    fix u assume "u \<in> set (rows (users ?d))"
    then obtain x where x: "x \<in> set (rows (users d))" "u = (if usr_id x = i then f x else x)"
      by (auto simp: update_user_def)
    have b: "belongs ?d = belongs d" by (simp add: fun_eq_iff belongs_def)
    have old: "\<forall>w\<in>set_option (usr_default_ws x). belongs d w (usr_id x)"
      using ok(6) x(1) by (simp add: defaults_belong_def)
    show "\<forall>w\<in>set_option (usr_default_ws u). belongs ?d w (usr_id u)"
      using deflt [OF x(1)] old by (auto simp: x(2) b keep split: option.splits if_splits)
  qed
  ultimately show "tenancy_ok ?d"
    using ok by (intro tenancy_okI)
      (auto simp: workspaces_ok_def members_ok_def members_refer_def invites_fit_def invite_fits_def ids)
  show "owners_stay d ?d" by (simp add: owners_stay_def owns_def)
qed

lemma invites_change_ok:
  assumes "tenancy_ok d" "table_ok inv_id t" "\<And>i. i \<in> set (rows t) \<Longrightarrow> invite_fits d i"
  shows "tenancy_ok (d\<lparr>invites := t\<rparr>)" "owners_stay d (d\<lparr>invites := t\<rparr>)"
  using assms(1) tenancy_okD(5) [OF assms(1)] assms(2,3)
  by (auto simp: tenancy_ok_def users_ok_def workspaces_ok_def members_ok_def members_refer_def
      invites_fit_def invite_fits_def defaults_belong_def belongs_def ws_ids_def user_ids_def
      owners_stay_def owns_def split: option.splits)


lemma drop_workspace_row_ok:
  assumes "tenancy_ok d"
  shows "tenancy_ok (delete_workspace_row w d)" "owners_stay d (delete_workspace_row w d)"
    "user_ids (delete_workspace_row w d) = user_ids d"
    "ws_ids (delete_workspace_row w d) = ws_ids d - {w}"
proof -
  let ?d = "delete_workspace_row w d"
  note ok = tenancy_okD [OF assms]
  show ws: "ws_ids ?d = ws_ids d - {w}" by (auto simp: ws_ids_def)
  have us: "map usr_id (rows (users ?d)) = map usr_id (rows (users d))"
      "map usr_email (rows (users ?d)) = map usr_email (rows (users d))"
    by (simp_all only: delete_workspace_row_frame rows_update_where) (simp_all add: map_key_update del: map_map)
  show ids: "user_ids ?d = user_ids d" by (simp only: user_ids_def set_map [symmetric] us)
  have "\<forall>u\<in>set (rows (users ?d)). usr_email u = str_lower (usr_email u)"
    using ok(1) by (auto simp: users_ok_def)
  then have "users_ok ?d"
    using ok(1) unfolding users_ok_def us by (simp add: user_tbl.update_ok)
  moreover have "workspaces_ok ?d"
    using ok(2) by (auto simp: workspaces_ok_def ws_tbl.delete_ok distinct_map_filter)
  moreover have "members_ok ?d"
    using ok(3) by (auto simp: members_ok_def mem_tbl.delete_ok distinct_map_filter
        intro: distinct_map_filter_mono)
  moreover have "members_refer ?d" using ok(4) by (auto simp: members_refer_def ws ids)
  moreover have "invites_fit ?d"
    using ok(5) by (auto simp: invites_fit_def invite_fits_def inv_tbl.delete_ok ws)
  moreover have "defaults_belong ?d"
    unfolding defaults_belong_def
  proof
    fix u assume "u \<in> set (rows (users ?d))"
    then obtain x where x: "x \<in> set (rows (users d))"
      "u = (if usr_default_ws x = Some w then x\<lparr>usr_default_ws := None\<rparr> else x)" by auto
    have "\<forall>v\<in>set_option (usr_default_ws x). belongs d v (usr_id x)"
      using ok(6) x(1) by (simp add: defaults_belong_def)
    then show "\<forall>v\<in>set_option (usr_default_ws u). belongs ?d v (usr_id u)"
      by (auto simp: x(2) belongs_def split: option.splits)
  qed
  ultimately show "tenancy_ok ?d" by (intro tenancy_okI)
  show "owners_stay d ?d" by (auto simp: owners_stay_def owns_def ws)
qed

text \<open>One membership changes its role, or goes, while the others stay.\<close>

lemma role_change_ok:
  assumes "tenancy_ok d" "m \<in> set (rows (members d))" "mem_role m \<noteq> Owner" "r \<noteq> Owner"
    and d': "d' = d\<lparr>members := update_where (\<lambda>x. mem_id x = mem_id m) (\<lambda>x. x\<lparr>mem_role := r\<rparr>) (members d)\<rparr>"
  shows "tenancy_ok d'" "owners_stay d d'"
proof -
  note ok = tenancy_okD [OF assms(1)]
  let ?g = "\<lambda>x. if mem_id x = mem_id m then x\<lparr>mem_role := r\<rparr> else x"
  have tab: "table_ok mem_id (members d)" using ok(3) by (simp add: members_ok_def)
  have same: "x \<in> set (rows (members d)) \<Longrightarrow> mem_id x = mem_id m \<Longrightarrow> x = m" for x
    using mem_tbl.same_key [OF tab _ assms(2)] by blast
  have keys: "map (\<lambda>m. (mem_ws m, mem_user m)) (map ?g xs) = map (\<lambda>m. (mem_ws m, mem_user m)) xs" for xs
    by (rule map_key_update) simp
  have "filter is_owner (map ?g xs) = filter is_owner xs" if "set xs \<subseteq> set (rows (members d))" for xs
    using that
  proof (induction xs)
    case (Cons x xs)
    then have "is_owner (?g x) = is_owner x" "is_owner x \<Longrightarrow> ?g x = x"
      using same [of x] assms(3,4) by (auto simp: is_owner_def)
    with Cons show ?case by auto
  qed simp
  then have own: "filter is_owner (rows (members d')) = filter is_owner (rows (members d))"
    by (simp add: d' del: filter_map)
  have rows': "rows (members d') = map ?g (rows (members d))" by (simp add: d')
  have "members_ok d'"
    using ok(3) tab unfolding members_ok_def own unfolding rows' keys
    by (simp add: d' mem_tbl.update_ok)
  moreover have bel: "belongs d' = belongs d"
    by (simp only: fun_eq_iff belongs_keys rows' keys) simp
  moreover have ids: "ws_ids d' = ws_ids d" "user_ids d' = user_ids d"
    by (simp_all add: d' ws_ids_def user_ids_def)
  have "members_refer d'"
    unfolding members_refer_def ids
  proof
    fix x assume "x \<in> set (rows (members d'))"
    then obtain y where "y \<in> set (rows (members d))" "mem_ws x = mem_ws y" "mem_user x = mem_user y"
      by (auto simp: rows')
    with ok(4) show "mem_ws x \<in> ws_ids d \<and> mem_user x \<in> user_ids d" by (simp add: members_refer_def)
  qed
  moreover have "users_ok d' = users_ok d" "workspaces_ok d' = workspaces_ok d"
    "invites_fit d' = invites_fit d" "defaults_belong d' = defaults_belong d"
    by (simp_all add: users_ok_def workspaces_ok_def invites_fit_def invite_fits_def
        defaults_belong_def bel ids) (simp_all add: d')
  ultimately show "tenancy_ok d'" using ok by (simp add: tenancy_ok_def)
  show "owners_stay d d'" by (simp only: owners_stay_def owns_keys own) simp
qed

subsection \<open>Invites that are taken up\<close>

lemma use_invite_ok:
  assumes "tenancy_ok d" "i \<in> set (rows (invites d))" "inv_uses i < inv_max_uses i"
  shows "tenancy_ok (use_invite (inv_id i) d)" "owners_stay d (use_invite (inv_id i) d)"
proof -
  note ok = tenancy_okD(5) [OF assms(1)]
  have tab: "table_ok inv_id (invites d)" using ok by (simp add: invites_fit_def)
  let ?t = "update_where (\<lambda>x. inv_id x = inv_id i) (\<lambda>x. x\<lparr>inv_uses := inv_uses x + 1\<rparr>) (invites d)"
  have fit: "invite_fits d x" if x: "x \<in> set (rows ?t)" for x
  proof -
    from x obtain y where y: "y \<in> set (rows (invites d))"
      "x = (if inv_id y = inv_id i then y\<lparr>inv_uses := inv_uses y + 1\<rparr> else y)" by auto
    have fy: "invite_fits d y" using ok y(1) by (simp add: invites_fit_def)
    show ?thesis
    proof (cases "inv_id y = inv_id i")
      case True
      then have "y = i" using inv_tbl.same_key [OF tab y(1) assms(2)] by blast
      with fy assms(3) y(2) show ?thesis by (simp add: invite_fits_def)
    next
      case False
      with fy y(2) show ?thesis by simp
    qed
  qed
  have t: "table_ok inv_id ?t" by (rule inv_tbl.update_ok [OF tab]) simp
  show "tenancy_ok (use_invite (inv_id i) d)" "owners_stay d (use_invite (inv_id i) d)"
    unfolding use_invite_def using invites_change_ok [OF assms(1) t fit] by blast+
qed

lemma join_ok:
  assumes "tenancy_ok d" "w \<in> ws_ids d" "u \<in> user_ids d" "r \<noteq> Owner" "join_workspace w u r d = (b, d')"
  shows "tenancy_ok d'" "owners_stay d d'" "belongs d' w u" "invites d' = invites d"
    "users d' = users d" "workspaces d' = workspaces d" "b \<longleftrightarrow> \<not> belongs d w u"
proof -
  have "(find_member d w u \<noteq> None \<and> b = False \<and> d' = d) \<or>
      (find_member d w u = None \<and> b = True \<and>
       d' = d\<lparr>members := insert_row set_mem_id (member_row w u r) (members d)\<rparr>)"
    using assms(5) by (auto simp: join_workspace_def split: if_splits)
  then consider (old) "belongs d w u" "\<not> b" "d' = d"
    | (new) "\<not> belongs d w u" "b"
      "d' = d\<lparr>members := insert_row set_mem_id (member_row w u r) (members d)\<rparr>"
    by (auto simp: belongs_iff)
  then have all: "tenancy_ok d' \<and> owners_stay d d' \<and> belongs d' w u \<and> invites d' = invites d \<and>
      users d' = users d \<and> workspaces d' = workspaces d \<and> (b \<longleftrightarrow> \<not> belongs d w u)"
  proof cases
    case old
    with assms(1) show ?thesis by simp
  next
    case new
    with new_member_ok [OF assms(1-3) new(1) _ new(3)] assms(4) show ?thesis by simp
  qed
  then show "tenancy_ok d'" "owners_stay d d'" "belongs d' w u" "invites d' = invites d"
    "users d' = users d" "workspaces d' = workspaces d" "b \<longleftrightarrow> \<not> belongs d w u" by blast+
qed

lemma claim_invite_ok:
  assumes "tenancy_ok d" "usr_id u \<in> user_ids d" "i \<in> set (rows (invites d))"
    and step: "claim_invite u now i (n, d) = (n', d')"
  shows "tenancy_ok d'" "owners_stay d d'" "users d' = users d" "workspaces d' = workspaces d"
    "\<forall>j. inv_id j \<noteq> inv_id i \<longrightarrow> j \<in> set (rows (invites d)) \<longrightarrow> j \<in> set (rows (invites d'))"
proof -
  have fit: "inv_ws i \<in> ws_ids d" "inv_role i \<noteq> Owner"
    using tenancy_okD(5) [OF assms(1)] assms(3) by (auto simp: invites_fit_def invite_fits_def)
  have all: "tenancy_ok d' \<and> owners_stay d d' \<and> users d' = users d \<and> workspaces d' = workspaces d \<and>
      (\<forall>j. inv_id j \<noteq> inv_id i \<longrightarrow> j \<in> set (rows (invites d)) \<longrightarrow> j \<in> set (rows (invites d')))"
  proof (cases "invite_open now i")
    case False
    with step assms(1) show ?thesis by (auto simp: claim_invite_def)
  next
    case True
    then have room: "inv_uses i < inv_max_uses i" by (simp add: invite_open_def)
    obtain b d1 where j: "join_workspace (inv_ws i) (usr_id u) (inv_role i) d = (b, d1)" by fastforce
    note J = join_ok [OF assms(1) fit(1) assms(2) fit(2) j]
    show ?thesis
    proof (cases b)
      case True
      have "i \<in> set (rows (invites d1))" using assms(3) J(4) by simp
      note U = use_invite_ok [OF J(1) this room]
      have d': "d' = use_invite (inv_id i) d1" using step True j \<open>invite_open now i\<close>
        by (simp add: claim_invite_def)
      have "owners_stay d d'" unfolding d'
        by (rule owners_stay_trans [OF J(2) U(2)]) (simp add: use_invite_def ws_ids_def)
      with U J show ?thesis by (auto simp: d' use_invite_def)
    next
      case False
      then have "d' = d1" using step j \<open>invite_open now i\<close> by (simp add: claim_invite_def)
      with J show ?thesis by simp
    qed
  qed
  then show "tenancy_ok d'" "owners_stay d d'" "users d' = users d" "workspaces d' = workspaces d"
    "\<forall>j. inv_id j \<noteq> inv_id i \<longrightarrow> j \<in> set (rows (invites d)) \<longrightarrow> j \<in> set (rows (invites d'))"
    by blast+
qed

lemma claim_invites_ok:
  assumes "tenancy_ok d" "usr_id u \<in> user_ids d" "set xs \<subseteq> set (rows (invites d))"
    "distinct (map inv_id xs)" "fold (claim_invite u now) xs (n, d) = (n', d')"
  shows "tenancy_ok d' \<and> owners_stay d d' \<and> users d' = users d \<and> workspaces d' = workspaces d"
  using assms
proof (induction xs arbitrary: n d)
  case Nil
  then show ?case by simp
next
  case (Cons i xs)
  obtain n1 d1 where s: "claim_invite u now i (n, d) = (n1, d1)" by fastforce
  have "i \<in> set (rows (invites d))" using Cons.prems(3) by simp
  note C = claim_invite_ok [OF Cons.prems(1,2) this s]
  have "usr_id u \<in> user_ids d1" using Cons.prems(2) C(3) by (simp add: user_ids_def)
  moreover have "set xs \<subseteq> set (rows (invites d1))"
  proof
    fix j assume j: "j \<in> set xs"
    with Cons.prems(4) have "inv_id j \<noteq> inv_id i" by (auto simp: image_iff)
    with j Cons.prems(3) C(5) show "j \<in> set (rows (invites d1))" by auto
  qed
  moreover have "distinct (map inv_id xs)" "fold (claim_invite u now) xs (n1, d1) = (n', d')"
    using Cons.prems(4,5) s by simp_all
  ultimately have I: "tenancy_ok d' \<and> owners_stay d1 d' \<and> users d' = users d1 \<and> workspaces d' = workspaces d1"
    using Cons.IH [OF C(1)] by blast
  moreover have "owners_stay d d'"
    using I by (intro owners_stay_trans [OF C(2)]) (auto simp: ws_ids_def)
  ultimately show ?case using C by simp
qed

lemma claim_share_frame [simp]:
  "users (claim_share u s d) = users d" "workspaces (claim_share u s d) = workspaces d"
  "members (claim_share u s d) = members d" "invites (claim_share u s d) = invites d"
  "user_sessions (claim_share u s d) = user_sessions d" "recordings (claim_share u s d) = recordings d"
  "job_logs (claim_share u s d) = job_logs d"
  by (simp_all add: claim_share_def Let_def split: option.splits)

lemma claim_shares_frame [simp]:
  "users (fold (claim_share u) ss d) = users d" "workspaces (fold (claim_share u) ss d) = workspaces d"
  "members (fold (claim_share u) ss d) = members d" "invites (fold (claim_share u) ss d) = invites d"
  "user_sessions (fold (claim_share u) ss d) = user_sessions d"
  "recordings (fold (claim_share u) ss d) = recordings d" "job_logs (fold (claim_share u) ss d) = job_logs d"
  by (induction ss arbitrary: d) simp_all

lemma claim_invite_frame [simp]:
  "shares (snd (claim_invite u now i s)) = shares (snd s)"
  "user_sessions (snd (claim_invite u now i s)) = user_sessions (snd s)"
  "recordings (snd (claim_invite u now i s)) = recordings (snd s)"
  "job_logs (snd (claim_invite u now i s)) = job_logs (snd s)"
  "users (snd (claim_invite u now i s)) = users (snd s)"
  by (cases s; simp add: claim_invite_def join_workspace_def use_invite_def)+

lemma claim_invites_frame [simp]:
  "shares (snd (fold (claim_invite u now) xs s)) = shares (snd s)"
  "user_sessions (snd (fold (claim_invite u now) xs s)) = user_sessions (snd s)"
  "recordings (snd (fold (claim_invite u now) xs s)) = recordings (snd s)"
  "job_logs (snd (fold (claim_invite u now) xs s)) = job_logs (snd s)"
  "users (snd (fold (claim_invite u now) xs s)) = users (snd s)"
  by (induction xs arbitrary: s) simp_all

lemma claim_pending_snd:
  "snd (claim_pending u now d) =
     snd (fold (claim_invite u now) (select (\<lambda>i. inv_email i = Some (usr_email u) \<and> inv_revoked i = None) (invites d))
       (0, fold (claim_share u) (select (\<lambda>s. shr_email s = Some (usr_email u)) (shares d)) d))"
  by (simp add: claim_pending_def Let_def split_beta)

lemma claim_pending_frame [simp]:
  "user_sessions (snd (claim_pending u now d)) = user_sessions d"
  "recordings (snd (claim_pending u now d)) = recordings d"
  "job_logs (snd (claim_pending u now d)) = job_logs d"
  "users (snd (claim_pending u now d)) = users d"
  by (simp_all add: claim_pending_snd)

lemma claim_pending_ok:
  assumes "tenancy_ok d" "usr_id u \<in> user_ids d"
  shows "tenancy_ok (snd (claim_pending u now d))" "owners_stay d (snd (claim_pending u now d))"
    "ws_ids (snd (claim_pending u now d)) = ws_ids d"
proof -
  let ?xs = "select (\<lambda>i. inv_email i = Some (usr_email u) \<and> inv_revoked i = None) (invites d)"
  let ?d1 = "fold (claim_share u) (select (\<lambda>s. shr_email s = Some (usr_email u)) (shares d)) d"
  have 1: "tenancy_ok ?d1" "owners_stay d ?d1"
    using tenancy_ok_cong [of ?d1 d] assms(1) by simp_all
  have 2: "usr_id u \<in> user_ids ?d1" using assms(2) by (simp add: user_ids_def)
  have 3: "set ?xs \<subseteq> set (rows (invites ?d1))" by (auto simp: select_def)
  have "table_ok inv_id (invites d)" using tenancy_okD(5) [OF assms(1)] by (simp add: invites_fit_def)
  then have 4: "distinct (map inv_id ?xs)"
    by (simp add: table_ok_def select_def distinct_map_filter)
  obtain n d' where f: "fold (claim_invite u now) ?xs (0, ?d1) = (n, d')" by fastforce
  then have d': "snd (claim_pending u now d) = d'" by (simp add: claim_pending_snd)
  have R: "tenancy_ok d'" "owners_stay ?d1 d'" "workspaces d' = workspaces ?d1"
    using claim_invites_ok [OF 1(1) 2 3 4 f] by blast+
  show "tenancy_ok (snd (claim_pending u now d))" using R by (simp add: d')
  show "ws_ids (snd (claim_pending u now d)) = ws_ids d" using R(3) by (simp add: d' ws_ids_def)
  show "owners_stay d (snd (claim_pending u now d))"
    unfolding d' by (rule owners_stay_trans [OF 1(2) R(2)]) (simp add: ws_ids_def R(3))
qed

subsection \<open>Accounts and their home workspace\<close>

lemma make_home_ok:
  assumes "tenancy_ok d" "usr_id u \<in> user_ids d" "make_home u qm qb dr d = Inr (w, d')"
  shows "tenancy_ok d'" "owners_stay d d'" "user_ids d' = user_ids d" "ws_ids d \<subseteq> ws_ids d'"
proof -
  obtain slug d1 d2 where c: "create_workspace d slug (home_name (usr_display_name u)) Personal qm qb
        (dr_ws dr) = Inr (w, d1)"
    and a: "add_member d1 (ws_id w) (usr_id u) Owner = Inr d2"
    and d': "d' = update_user (usr_id u) (\<lambda>x. x\<lparr>usr_default_ws := Some (ws_id w)\<rparr>) d2"
    using assms(3) by (auto simp: make_home_def split: option.splits sum.splits)
  note W = new_workspace_ok [OF assms(1) c]
  have u1: "usr_id u \<in> user_ids d1" using assms(2) W(5) by (simp add: user_ids_def)
  have free: "\<not> has_owner d1 (ws_id w)"
    using W(4) owns_belongs by (auto simp: has_owner_iff)
  have d2: "d2 = d1\<lparr>members := insert_row set_mem_id (member_row (ws_id w) (usr_id u) Owner) (members d1)\<rparr>"
    using a by (auto simp: add_member_def split: if_splits)
  note M = new_member_ok [OF W(1) W(3) u1 W(4) _ d2]
  have M1: "tenancy_ok d2" "owners_stay d1 d2" "belongs d2 (ws_id w) (usr_id u)"
    using M free by simp_all
  have U: "tenancy_ok d'" "owners_stay d2 d'" "user_ids d' = user_ids d2"
    unfolding d' using update_user_ok [OF M1(1), of "\<lambda>x. x\<lparr>usr_default_ws := Some (ws_id w)\<rparr>" "usr_id u"] M1(3)
    by simp_all
  show "tenancy_ok d'" by (rule U(1))
  have ids: "ws_ids d2 = ws_ids d1" "ws_ids d' = ws_ids d2" "user_ids d2 = user_ids d1"
    by (simp_all add: d2 d' ws_ids_def user_ids_def)
  show "owners_stay d d'"
    using owners_stay_trans [OF owners_stay_trans [OF W(2) M1(2)] U(2)] ids by simp
  show "user_ids d' = user_ids d" using U(3) ids(3) W(5) by (simp add: user_ids_def)
  show "ws_ids d \<subseteq> ws_ids d'" using W(8) ids by auto
qed

lemma signup_ok:
  assumes "tenancy_ok d" "signup d email pw name note auto qm qb dr now = Inr ((v, w), d')"
  shows "tenancy_ok d'" "owners_stay d d'"
proof -
  obtain e u d1 d2 where c: "create_user d e pw name (if auto then UActive else UPending) False note
        (dr_user dr) now = Inr (u, d1)"
    and h: "make_home u qm qb dr d1 = Inr (w, d2)"
    and d': "d' = (if auto then snd (claim_pending u now d2) else d2)"
    using assms(2) by (auto simp: signup_def split: sum.splits if_splits)
  note U = new_user_ok [OF assms(1) c]
  have in1: "usr_id u \<in> user_ids d1" using U(3) by (auto simp: user_ids_def)
  note H = make_home_ok [OF U(1) in1 h]
  have H2: "owners_stay d d2"
    using H(2) U(2,7) by (simp add: owners_stay_def owns_def)
  have in2: "usr_id u \<in> user_ids d2" using in1 H(3) by simp
  note P = claim_pending_ok [OF H(1) in2, where now = now]
  show "tenancy_ok d'" unfolding d' using H(1) P(1) by simp
  show "owners_stay d d'" unfolding d' using H2 owners_stay_trans [OF H2 P(2)] P(3) by simp
qed

lemma first_membership_belongs: "first_membership d u = Some w \<Longrightarrow> belongs d w u"
  by (auto simp: first_membership_def belongs_def dest!: scalar_Some)

lemma ensure_home_ok:
  assumes "tenancy_ok d" "usr_id u \<in> user_ids d" "ensure_home_workspace u qm qb dr d = Inr d'"
  shows "tenancy_ok d'" "owners_stay d d'" "user_ids d' = user_ids d" "ws_ids d \<subseteq> ws_ids d'"
proof -
  let ?f = "\<lambda>x. x\<lparr>usr_default_ws := first_membership d (usr_id u)\<rparr>"
  have dd: "usr_default_ws (?f x) = None \<or> usr_default_ws (?f x) = usr_default_ws x \<or>
      (\<exists>w. usr_default_ws (?f x) = Some w \<and> belongs d w (usr_id u))" for x
    using first_membership_belongs by (cases "first_membership d (usr_id u)") auto
  note U = update_user_ok [OF assms(1) _ _ dd, simplified]
  consider "d' = d" | "d' = update_user (usr_id u) ?f d" | w where "make_home u qm qb dr d = Inr (w, d')"
    using assms(3) by (auto simp: ensure_home_workspace_def split: if_splits sum.splits)
  then have all: "tenancy_ok d' \<and> owners_stay d d' \<and> user_ids d' = user_ids d \<and> ws_ids d \<subseteq> ws_ids d'"
  proof cases
    case 1
    with assms(1) show ?thesis by simp
  next
    case 2
    with U show ?thesis by simp
  next
    case 3
    with make_home_ok [OF assms(1,2) 3] show ?thesis by simp
  qed
  then show "tenancy_ok d'" "owners_stay d d'" "user_ids d' = user_ids d" "ws_ids d \<subseteq> ws_ids d'" by blast+
qed

lemma review_ok:
  assumes "tenancy_ok d"
  shows "tenancy_ok (review u s r now d)" "owners_stay d (review u s r now d)"
    "user_ids (review u s r now d) = user_ids d" "ws_ids (review u s r now d) = ws_ids d"
  using update_user_ok [OF assms, of "\<lambda>x. x\<lparr>usr_status := s, usr_reviewed_by := r, usr_reviewed_at := Some now\<rparr>"]
  by (simp_all add: review_def)

lemma approve_ok:
  assumes "tenancy_ok d" "usr_id u \<in> user_ids d" "approve u r qm qb dr now d = Inr d'"
  shows "tenancy_ok d'" "owners_stay d d'"
proof -
  obtain d1 where e: "ensure_home_workspace u qm qb dr (review u UActive r now d) = Inr d1"
    and d': "d' = snd (claim_pending u now d1)"
    using assms(3) by (auto simp: approve_def split: sum.splits)
  note R = review_ok [OF assms(1), of u UActive r now]
  have in1: "usr_id u \<in> user_ids (review u UActive r now d)" using assms(2) R(3) by simp
  note E = ensure_home_ok [OF R(1) in1 e]
  have in2: "usr_id u \<in> user_ids d1" using in1 E(3) by simp
  note P = claim_pending_ok [OF E(1) in2, of now]
  show "tenancy_ok d'" unfolding d' by (rule P(1))
  have "owners_stay d d1" using R(2) E(2) by (simp add: owners_stay_def owns_def review_def)
  then show "owners_stay d d'" unfolding d' using owners_stay_trans [OF _ P(2)] P(3) by simp
qed

lemma drop_one_ok:
  assumes "tenancy_ok d"
  shows "tenancy_ok (drop_workspace u w d) \<and> owners_stay d (drop_workspace u w d) \<and>
    ws_ids (drop_workspace u w d) \<subseteq> ws_ids d"
proof -
  let ?f = "\<lambda>x. if usr_default_ws x = Some w then x\<lparr>usr_default_ws := None\<rparr> else x"
  have U: "tenancy_ok (update_user u ?f d)" "owners_stay d (update_user u ?f d)"
    using update_user_ok [OF assms, of ?f u] by auto
  note D = drop_workspace_row_ok [OF U(1), of w]
  have "owners_stay d (delete_workspace_row w (update_user u ?f d))"
    using owners_stay_trans [OF U(2) D(2)] D(4) by auto
  with D assms show ?thesis by (auto simp: drop_workspace_def)
qed

lemma drop_all_ok:
  assumes "tenancy_ok d"
  shows "tenancy_ok (fold (drop_workspace u) ws d) \<and> owners_stay d (fold (drop_workspace u) ws d) \<and>
    ws_ids (fold (drop_workspace u) ws d) \<subseteq> ws_ids d"
  using assms
proof (induction ws arbitrary: d)
  case Nil
  then show ?case by simp
next
  case (Cons w ws)
  note D = drop_one_ok [OF Cons.prems, of u w]
  have I: "tenancy_ok (fold (drop_workspace u) ws (drop_workspace u w d)) \<and>
      owners_stay (drop_workspace u w d) (fold (drop_workspace u) ws (drop_workspace u w d)) \<and>
      ws_ids (fold (drop_workspace u) ws (drop_workspace u w d)) \<subseteq> ws_ids (drop_workspace u w d)"
    by (rule Cons.IH) (use D in blast)
  with D owners_stay_trans show ?case by (simp add: subset_trans) blast
qed

lemma reject_ok:
  assumes "tenancy_ok d"
  shows "tenancy_ok (reject u r now d)" "owners_stay d (reject u r now d)"
proof -
  note R = review_ok [OF assms, of u URejected r now]
  let ?ws = "map mem_ws (select (\<lambda>m. mem_user m = usr_id u) (members (review u URejected r now d)))"
  note D = drop_all_ok [OF R(1), of "usr_id u" ?ws]
  show "tenancy_ok (reject u r now d)"
    using D by (simp add: reject_def drop_empty_personal_workspaces_def)
  show "owners_stay d (reject u r now d)"
    using D owners_stay_trans [OF R(2), of "fold (drop_workspace (usr_id u)) ?ws (review u URejected r now d)"]
    by (simp add: reject_def drop_empty_personal_workspaces_def)
qed

lemma revoke_sessions_frame [simp]:
  "users (snd (revoke_other_sessions d i k now)) = users d"
  "workspaces (snd (revoke_other_sessions d i k now)) = workspaces d"
  "members (snd (revoke_other_sessions d i k now)) = members d"
  "invites (snd (revoke_other_sessions d i k now)) = invites d"
  "shares (snd (revoke_other_sessions d i k now)) = shares d"
  "recordings (snd (revoke_other_sessions d i k now)) = recordings d"
  "job_logs (snd (revoke_other_sessions d i k now)) = job_logs d"
  by (simp_all add: revoke_other_sessions_def)

text \<open>The four outcomes of a status change.\<close>

lemma set_user_status_cases:
  assumes "set_user_status u s r qm qb dr now d = Inr d'"
  obtains (active) "s = ''active''" "approve u r qm qb dr now d = Inr d'"
  | (rejected) "s = ''rejected''" "d' = snd (revoke_other_sessions (reject u r now d) (usr_id u) None now)"
  | (disabled) "s = ''disabled''" "d' = snd (revoke_other_sessions (review u UDisabled r now d) (usr_id u) None now)"
  using assms by (auto simp: set_user_status_def ASSIGNABLE_STATUSES_def split: if_splits)

lemma set_user_status_ok:
  assumes "tenancy_ok d" "usr_id u \<in> user_ids d" "set_user_status u s r qm qb dr now d = Inr d'"
  shows "tenancy_ok d'" "owners_stay d d'"
proof -
  have frame: "tenancy_ok (snd (revoke_other_sessions e i k now)) = tenancy_ok e"
      "owners_stay e (snd (revoke_other_sessions e i k now))" for e i k
    using tenancy_ok_cong [of "snd (revoke_other_sessions e i k now)" e] by simp_all
  have same: "owners_stay d (snd (revoke_other_sessions e i k now)) = owners_stay d e" for e i k
    by (simp add: owners_stay_def owns_def ws_ids_def)
  from assms(3) have "tenancy_ok d' \<and> owners_stay d d'"
  proof (cases rule: set_user_status_cases)
    case active
    with approve_ok [OF assms(1,2)] show ?thesis by blast
  next
    case rejected
    with reject_ok [OF assms(1)] show ?thesis by (simp add: frame same)
  next
    case disabled
    with review_ok [OF assms(1)] show ?thesis by (simp add: frame same)
  qed
  then show "tenancy_ok d'" "owners_stay d d'" by blast+
qed

subsection \<open>Members and invites\<close>

lemma find_memberD:
  "find_member d w u = Some m \<Longrightarrow> m \<in> set (rows (members d)) \<and> mem_ws m = w \<and> mem_user m = u"
  unfolding find_member_def by (drule scalar_Some) simp

lemma set_member_role_ok:
  assumes "tenancy_ok d" "set_member_role d w u role = Inr (m, d')"
  shows "tenancy_ok d'" "owners_stay d d'"
proof -
  obtain r n where r: "role_of role = Some r" "r \<noteq> Owner"
    and n: "find_member d w u = Some n" "mem_role n \<noteq> Owner"
    and d': "d' = d\<lparr>members := update_where (\<lambda>x. mem_id x = mem_id n) (\<lambda>x. x\<lparr>mem_role := r\<rparr>) (members d)\<rparr>"
    using assms(2)
    by (auto simp: set_member_role_def split: option.splits workspace_role.splits if_splits)
  have "n \<in> set (rows (members d))" using find_memberD [OF n(1)] by blast
  from role_change_ok [OF assms(1) this n(2) r(2) d'] show "tenancy_ok d'" "owners_stay d d'" .
qed

lemma belongs_after_delete:
  assumes "members_ok d" "m \<in> set (rows (members d))"
    and "members d' = delete_where (\<lambda>x. mem_id x = mem_id m) (members d)"
  shows "belongs d' w u \<longleftrightarrow> belongs d w u \<and> (w, u) \<noteq> (mem_ws m, mem_user m)"
proof -
  have tab: "table_ok mem_id (members d)" using assms(1) by (simp add: members_ok_def)
  have "(x \<noteq> m) \<longleftrightarrow> (mem_ws x, mem_user x) \<noteq> (mem_ws m, mem_user m)" if "x \<in> set (rows (members d))" for x
    using members_unique [OF assms(1) that assms(2)] by auto
  moreover have "(mem_id x = mem_id m) \<longleftrightarrow> x = m" if "x \<in> set (rows (members d))" for x
    using mem_tbl.same_key [OF tab that assms(2)] by auto
  ultimately show ?thesis unfolding belongs_def assms(3) by auto
qed

lemma remove_member_cases:
  assumes "remove_member d w u now = Inr d'"
  obtains m d1 where "find_member d w (usr_id u) = Some m" "mem_role m \<noteq> Owner"
    "d1 = revoke_addressed w (usr_email u) now
       (d\<lparr>members := delete_where (\<lambda>x. mem_id x = mem_id m) (members d)\<rparr>)"
    "d' = (if usr_default_ws u = Some w
           then update_user (usr_id u) (\<lambda>x. x\<lparr>usr_default_ws := first_membership d1 (usr_id u)\<rparr>) d1 else d1)"
  using assms by (auto simp: remove_member_def Let_def split: option.splits if_splits)

lemma revoke_addressed_fields [simp]:
  "users (revoke_addressed w e now d) = users d" "workspaces (revoke_addressed w e now d) = workspaces d"
  "members (revoke_addressed w e now d) = members d"
  by (simp_all add: revoke_addressed_def)

lemma remove_member_ok:
  assumes ok: "tenancy_ok d" and u: "u \<in> set (rows (users d))" and "remove_member d w u now = Inr d'"
  shows "tenancy_ok d'" "owners_stay d d'"
    "belongs d' x y \<longleftrightarrow> belongs d x y \<and> (x, y) \<noteq> (w, usr_id u)"
proof -
  note [simp] = ws_ids_def user_ids_def
  obtain m d1 where m: "find_member d w (usr_id u) = Some m" "mem_role m \<noteq> Owner"
    and d1: "d1 = revoke_addressed w (usr_email u) now
       (d\<lparr>members := delete_where (\<lambda>x. mem_id x = mem_id m) (members d)\<rparr>)"
    and d': "d' = (if usr_default_ws u = Some w
           then update_user (usr_id u) (\<lambda>x. x\<lparr>usr_default_ws := first_membership d1 (usr_id u)\<rparr>) d1 else d1)"
    using assms(3) by (rule remove_member_cases)
  note O = tenancy_okD [OF ok]
  have M: "m \<in> set (rows (members d))" "mem_ws m = w" "mem_user m = usr_id u"
    using find_memberD [OF m(1)] by auto
  have mem1: "members d1 = delete_where (\<lambda>x. mem_id x = mem_id m) (members d)" by (simp add: d1)
  have mem': "members d' = members d1" "workspaces d' = workspaces d1" "invites d' = invites d1"
    by (simp_all add: d')
  have bel1: "belongs d1 x y \<longleftrightarrow> belongs d x y \<and> (x, y) \<noteq> (w, usr_id u)" for x y
    using belongs_after_delete [OF O(3) M(1) mem1] M by simp
  have bel': "belongs d' = belongs d1" by (simp add: fun_eq_iff belongs_def mem')
  show "belongs d' x y \<longleftrightarrow> belongs d x y \<and> (x, y) \<noteq> (w, usr_id u)" by (simp only: bel' bel1)
  have tab: "table_ok usr_id (users d)" using O(1) by (simp add: users_ok_def)
  have same: "v = u" if "v \<in> set (rows (users d))" "usr_id v = usr_id u" for v
    using user_tbl.same_key [OF tab that(1) u that(2)] .
  have us: "users d' = (if usr_default_ws u = Some w
      then users (update_user (usr_id u) (\<lambda>x. x\<lparr>usr_default_ws := first_membership d1 (usr_id u)\<rparr>) d) else users d)"
    by (simp add: d' d1 update_user_def)
  have ids: "map usr_id (rows (users d')) = map usr_id (rows (users d))"
      "map usr_email (rows (users d')) = map usr_email (rows (users d))"
    by (simp_all add: us update_user_def map_key_update del: map_map)
  have "\<forall>u\<in>set (rows (users d')). usr_email u = str_lower (usr_email u)"
    using O(1) by (auto simp: us users_ok_def update_user_def)
  moreover have "next_id (users d') = next_id (users d)" by (simp add: us update_user_def)
  ultimately have "users_ok d'"
    using O(1) tab unfolding users_ok_def ids by (auto simp: us update_user_def user_tbl.update_ok)
  moreover have "members_ok d'"
    using O(3) by (auto simp: members_ok_def mem' mem1 mem_tbl.delete_ok distinct_map_filter
        intro: distinct_map_filter_mono)
  moreover have uids: "user_ids d' = user_ids d" by (simp only: user_ids_def set_map [symmetric] ids)
  then have "members_refer d'" using O(4) by (auto simp: members_refer_def mem' mem1 d1)
  moreover have "invites_fit d'"
    using O(5) by (auto simp: invites_fit_def invite_fits_def mem' d1 revoke_addressed_def inv_tbl.update_ok)
  moreover have "defaults_belong d'"
    unfolding defaults_belong_def
  proof
    fix v assume "v \<in> set (rows (users d'))"
    then obtain x where x: "x \<in> set (rows (users d))" "usr_id v = usr_id x"
      "usr_default_ws v = (if usr_id x = usr_id u \<and> usr_default_ws u = Some w
         then first_membership d1 (usr_id u) else usr_default_ws x)"
      by (auto simp: us update_user_def split: if_splits)
    have "\<forall>a\<in>set_option (usr_default_ws x). belongs d a (usr_id x)"
      using O(6) x(1) by (simp add: defaults_belong_def)
    then show "\<forall>a\<in>set_option (usr_default_ws v). belongs d' a (usr_id v)"
      using same [OF x(1)] first_membership_belongs [of d1 "usr_id u"]
      by (auto simp: x(2,3) bel' bel1)
  qed
  moreover have "workspaces_ok d'" using O(2) by (simp add: workspaces_ok_def mem' d1)
  ultimately show "tenancy_ok d'" by (intro tenancy_okI)
  show "owners_stay d d'"
    unfolding owners_stay_def
  proof (intro allI impI)
    fix a b assume "owns d a b"
    then obtain n where n: "n \<in> set (rows (members d))" "mem_ws n = a" "mem_user n = b" "mem_role n = Owner"
      by (auto simp: owns_def)
    have "mem_id n \<noteq> mem_id m"
      using O(3) mem_tbl.same_key [OF _ n(1) M(1)] n(4) m(2) by (auto simp: members_ok_def)
    with n show "owns d' a b" by (auto simp: owns_def mem' mem1)
  qed
qed

lemma create_invite_cases:
  assumes "create_invite H raw pub w role email author expiry uses now d = Inr (i, d')"
  shows "d' = d\<lparr>invites := insert_row set_inv_id i (invites d)\<rparr>" "inv_ws i = w" "inv_role i \<noteq> Owner"
    "0 = inv_uses i" "1 \<le> inv_max_uses i" "inv_id i = next_id (invites d)" "inv_token_hash i = H raw"
    "inv_revoked i = None"
proof -
  let ?addr = "case email of None \<Rightarrow> Inr None
    | Some e \<Rightarrow> if e = [] then Inr None
                else (case valid_email e of Inl x \<Rightarrow> Inl x | Inr v \<Rightarrow> Inr (Some v))"
  obtain r where r: "find (\<lambda>r. role_name r = role) INVITABLE_ROLES = Some r"
    using assms by (cases "find (\<lambda>r. role_name r = role) INVITABLE_ROLES") (simp_all add: create_invite_def)
  note a = assms [unfolded create_invite_def r option.case]
  have uses: "\<not> uses < 1" using a by (cases "uses < 1") (simp_all split: if_splits)
  obtain addr where addr: "?addr = Inr addr"
    using a by (cases ?addr) (simp_all split: if_splits)
  have "i = \<lparr>inv_id = next_id (invites d), inv_public = pub, inv_token_hash = H raw,
      inv_email = addr, inv_ws = w, inv_role = r, inv_created_by = author,
      inv_expires = map_option (\<lambda>n. now + days n) expiry, inv_max_uses = uses, inv_uses = 0,
      inv_revoked = None\<rparr>" "d' = d\<lparr>invites := insert_row set_inv_id i (invites d)\<rparr>"
    using a unfolding addr by (auto simp: Let_def split: if_splits)
  moreover have "r \<noteq> Owner"
    using find_SomeD [OF r] by (auto simp: INVITABLE_ROLES_def)
  ultimately show "d' = d\<lparr>invites := insert_row set_inv_id i (invites d)\<rparr>" "inv_ws i = w"
    "inv_role i \<noteq> Owner" "0 = inv_uses i" "1 \<le> inv_max_uses i" "inv_id i = next_id (invites d)"
    "inv_token_hash i = H raw" "inv_revoked i = None"
    using uses by simp_all
qed

lemma create_invite_ok:
  assumes "tenancy_ok d" "w \<in> ws_ids d"
    "create_invite H raw pub w role email author expiry uses now d = Inr (i, d')"
  shows "tenancy_ok d'" "owners_stay d d'"
proof -
  note C = create_invite_cases [OF assms(3)]
  note O = tenancy_okD(5) [OF assms(1)]
  have t: "table_ok inv_id (insert_row set_inv_id i (invites d))"
    using O by (simp add: invites_fit_def inv_tbl.insert_ok)
  have "invite_fits d i" using C assms(2) by (simp add: invite_fits_def)
  then have "invite_fits d x" if "x \<in> set (rows (insert_row set_inv_id i (invites d)))" for x
    using that O by (auto simp: invites_fit_def invite_fits_def)
  from invites_change_ok [OF assms(1) t this] show "tenancy_ok d'" "owners_stay d d'"
    unfolding C(1) by blast+
qed

lemma revoke_invite_ok:
  assumes "tenancy_ok d"
  shows "tenancy_ok (snd (revoke_invite d w pub now))" "owners_stay d (snd (revoke_invite d w pub now))"
proof -
  note O = tenancy_okD(5) [OF assms]
  have 1: "table_ok inv_id (update_where P (\<lambda>x. x\<lparr>inv_revoked := Some now\<rparr>) (invites d))" for P
    using O by (simp add: invites_fit_def inv_tbl.update_ok)
  have 2: "invite_fits d x" if "x \<in> set (rows (update_where P (\<lambda>x. x\<lparr>inv_revoked := Some now\<rparr>) (invites d)))" for x P
    using that O by (auto simp: invites_fit_def invite_fits_def)
  note I = invites_change_ok [OF assms 1 2]
  show "tenancy_ok (snd (revoke_invite d w pub now))" "owners_stay d (snd (revoke_invite d w pub now))"
    using I assms by (auto simp: revoke_invite_def split: option.split)
qed

lemma live_invite_Some:
  "live_invite H d raw now = Inr i \<Longrightarrow>
     i \<in> set (rows (invites d)) \<and> inv_token_hash i = H raw \<and> invite_live now i"
  using invite_token.load_Some by (fastforce simp: live_invite_eq split: option.splits)

lemma peek_invite_Some:
  "peek_invite H d raw u now = Inr i \<Longrightarrow>
     i \<in> set (rows (invites d)) \<and> inv_token_hash i = H raw \<and> invite_live now i \<and>
     (inv_email i = None \<or> inv_email i = Some (usr_email u))"
  using live_invite_Some by (fastforce simp: peek_invite_def split: sum.splits if_splits)

text \<open>\<open>take_invite\<close> gives the person who accepts a default workspace when it has none.\<close>

definition default_if_unset :: "user \<Rightarrow> workspace \<Rightarrow> db \<Rightarrow> db" where
  "default_if_unset u w d =
     (if usr_default_ws u = None then update_user (usr_id u) (\<lambda>x. x\<lparr>usr_default_ws := Some (ws_id w)\<rparr>) d
      else d)"

lemma accept_invite_cases:
  assumes "accept_invite H d raw u now = Inr (w, d')"
  obtains i d1 b where "peek_invite H d raw u now = Inr i" "get_workspace_row d (inv_ws i) = Some w"
    "join_workspace (inv_ws i) (usr_id u) (inv_role i) d = (b, d1)"
    "d' = (if b then use_invite (inv_id i) d1 else d1)"
  using assms
  by (auto simp: accept_invite_def split: sum.splits option.splits prod.splits bool.splits)

lemma accept_invite_ok:
  assumes "tenancy_ok d" "usr_id u \<in> user_ids d" "accept_invite H d raw u now = Inr (w, d')"
  shows "tenancy_ok d'" "owners_stay d d'" "belongs d' (ws_id w) (usr_id u)" "users d' = users d"
    "workspaces d' = workspaces d"
proof -
  obtain i d1 b where p: "peek_invite H d raw u now = Inr i" and w: "get_workspace_row d (inv_ws i) = Some w"
    and j: "join_workspace (inv_ws i) (usr_id u) (inv_role i) d = (b, d1)"
    and d': "d' = (if b then use_invite (inv_id i) d1 else d1)"
    using assms(3) by (rule accept_invite_cases)
  have i: "i \<in> set (rows (invites d))" "invite_live now i" using peek_invite_Some [OF p] by auto
  then have fit: "inv_ws i \<in> ws_ids d" "inv_role i \<noteq> Owner"
    using tenancy_okD(5) [OF assms(1)] by (auto simp: invites_fit_def invite_fits_def)
  note J = join_ok [OF assms(1) fit(1) assms(2) fit(2) j]
  have wid: "ws_id w = inv_ws i" using ws_tbl.by_id_SomeD [OF w] by blast
  have "i \<in> set (rows (invites d1))" "inv_uses i < inv_max_uses i"
    using i J(4) by (simp_all add: invite_live_def invite_open_def)
  note U = use_invite_ok [OF J(1) this]
  show "tenancy_ok d'" using U J by (simp add: d')
  show "owners_stay d d'" using J(2) owners_stay_trans [OF J(2) U(2)] by (simp add: d' use_invite_def ws_ids_def)
  show "belongs d' (ws_id w) (usr_id u)" using J(3) by (simp add: d' wid use_invite_def belongs_def)
  show "users d' = users d" "workspaces d' = workspaces d" using J by (simp_all add: d' use_invite_def)
qed

lemma default_if_unset_ok:
  assumes "tenancy_ok d" "belongs d (ws_id w) (usr_id u)"
  shows "tenancy_ok (default_if_unset u w d)" "owners_stay d (default_if_unset u w d)"
proof -
  let ?f = "\<lambda>x. x\<lparr>usr_default_ws := Some (ws_id w)\<rparr>"
  have "tenancy_ok (update_user (usr_id u) ?f d)" "owners_stay d (update_user (usr_id u) ?f d)"
    using update_user_ok [OF assms(1), of ?f "usr_id u"] assms(2) by simp_all
  with assms(1) show "tenancy_ok (default_if_unset u w d)" "owners_stay d (default_if_unset u w d)"
    by (simp_all add: default_if_unset_def)
qed

lemma add_member_ok:
  assumes "tenancy_ok d" "w \<in> ws_ids d" "u \<in> user_ids d" "add_member d w u r = Inr d'"
  shows "tenancy_ok d'" "owners_stay d d'" "belongs d' w u" "users d' = users d" "workspaces d' = workspaces d"
proof -
  have a: "\<not> belongs d w u" "r = Owner \<longrightarrow> \<not> has_owner d w"
    and d': "d' = d\<lparr>members := insert_row set_mem_id (member_row w u r) (members d)\<rparr>"
    using assms(4) by (auto simp: add_member_def belongs_iff split: if_splits)
  from new_member_ok [OF assms(1-3) a d'] show "tenancy_ok d'" "owners_stay d d'" "belongs d' w u" .
  show "users d' = users d" "workspaces d' = workspaces d" by (simp_all add: d')
qed

lemma bootstrap_ok:
  assumes "tenancy_ok d" "bootstrap d email pw name slug wname dr now = Inr (r, d')"
  shows "tenancy_ok d'" "owners_stay d d'"
proof -
  have "tenancy_ok d' \<and> owners_stay d d'"
  proof (cases "find_user d email")
    case (Some u)
    with assms show ?thesis by (auto simp: bootstrap_def split: option.splits)
  next
    case None
    then obtain w d1 u d2 d3 where
      w: "(case find_workspace d slug of Some w \<Rightarrow> Inr (w, d)
           | None \<Rightarrow> create_workspace d slug wname Team None None (dr_ws dr)) = Inr (w, d1)"
      and u: "create_user d1 email pw name UActive True None (dr_user dr) now = Inr (u, d2)"
      and m: "add_member d2 (ws_id w) (usr_id u) Owner = Inr d3"
      and d': "d' = update_user (usr_id u) (\<lambda>x. x\<lparr>usr_default_ws := Some (ws_id w)\<rparr>) d3"
      using assms(2) by (auto simp: bootstrap_def split: sum.splits)
    have W: "tenancy_ok d1 \<and> owners_stay d d1 \<and> ws_id w \<in> ws_ids d1"
    proof (cases "find_workspace d slug")
      case None
      with w new_workspace_ok [OF assms(1)] show ?thesis by fastforce
    next
      case (Some x)
      then have "x \<in> set (rows (workspaces d))" by (auto simp: find_workspace_def dest: scalar_Some)
      with w Some assms(1) show ?thesis by (auto simp: ws_ids_def)
    qed
    then have W1: "tenancy_ok d1" "owners_stay d d1" "ws_id w \<in> ws_ids d1" by blast+
    note U = new_user_ok [OF W1(1) u]
    have "usr_id u \<in> user_ids d2" "ws_id w \<in> ws_ids d2" using U W1(3) by (auto simp: user_ids_def)
    note M = add_member_ok [OF U(1) this(2,1) m]
    have P: "tenancy_ok d'" "owners_stay d3 d'"
      unfolding d' using update_user_ok [OF M(1), of "\<lambda>x. x\<lparr>usr_default_ws := Some (ws_id w)\<rparr>" "usr_id u"] M(3)
      by simp_all
    have ids: "ws_ids d2 = ws_ids d1" "ws_ids d3 = ws_ids d2" "ws_ids d' = ws_ids d3"
      using U(5) M(5) by (simp_all add: ws_ids_def d')
    have "owners_stay d d2" by (rule owners_stay_trans [OF W1(2) U(2)]) (simp add: ids)
    then have "owners_stay d d3" using owners_stay_trans [OF _ M(2)] ids by simp
    then have "owners_stay d d'" using owners_stay_trans [OF _ P(2)] ids by simp
    with P(1) show ?thesis by simp
  qed
  then show "tenancy_ok d'" "owners_stay d d'" by blast+
qed

subsection \<open>The life of accounts and workspaces\<close>

inductive tenancy_step :: "(string \<Rightarrow> string) \<Rightarrow> db \<Rightarrow> db \<Rightarrow> bool" for H where
  signed_up: "signup d email pw name note auto qm qb dr now = Inr (r, d') \<Longrightarrow> tenancy_step H d d'"
| reviewed: "u \<in> set (rows (users d)) \<Longrightarrow> set_user_status u s rv qm qb dr now d = Inr d' \<Longrightarrow>
    tenancy_step H d d'"
| cli_approved: "u \<in> set (rows (users d)) \<Longrightarrow> approve u None qm qb dr now d = Inr d' \<Longrightarrow> tenancy_step H d d'"
| cli_rejected: "u \<in> set (rows (users d)) \<Longrightarrow> tenancy_step H d (reject u None now d)"
| bootstrapped: "bootstrap d email pw name slug wname dr now = Inr (r, d') \<Longrightarrow> tenancy_step H d d'"
| cli_workspace: "create_workspace d slug name kind qm qb pub = Inr (w, d') \<Longrightarrow> tenancy_step H d d'"
| team: "create_workspace d slug name Team qm qb pub = Inr (w, d1) \<Longrightarrow> u \<in> set (rows (users d)) \<Longrightarrow>
    add_member d1 (ws_id w) (usr_id u) Owner = Inr d' \<Longrightarrow> tenancy_step H d d'"
| role_set: "set_member_role d w u role = Inr (m, d') \<Longrightarrow> tenancy_step H d d'"
| removed: "u \<in> set (rows (users d)) \<Longrightarrow> remove_member d w u now = Inr d' \<Longrightarrow> tenancy_step H d d'"
| invited: "get_workspace_row d w = Some x \<Longrightarrow>
    create_invite H raw pub w role email author expiry uses now d = Inr (i, d') \<Longrightarrow> tenancy_step H d d'"
| invite_revoked: "tenancy_step H d (snd (revoke_invite d w pub now))"
| accepted: "u \<in> set (rows (users d)) \<Longrightarrow> accept_invite H d raw u now = Inr (w, d1) \<Longrightarrow>
    tenancy_step H d (default_if_unset u w d1)"
| logged_in: "tenancy_step H d (update_user i (\<lambda>x. x\<lparr>usr_password_hash := pw, usr_last_login := t\<rparr>) d)"
| password_set: "tenancy_step H d (update_user i (\<lambda>x. x\<lparr>usr_password_hash := pw\<rparr>) d)"
| workspace_set: "(\<And>x. ws_id (f x) = ws_id x \<and> ws_slug (f x) = ws_slug x) \<Longrightarrow>
    tenancy_step H d (d\<lparr>workspaces := update_where P f (workspaces d)\<rparr>)"
| elsewhere: "users d' = users d \<Longrightarrow> workspaces d' = workspaces d \<Longrightarrow> members d' = members d \<Longrightarrow>
    invites d' = invites d \<Longrightarrow> tenancy_step H d d'"

inductive tenancy_reachable :: "(string \<Rightarrow> string) \<Rightarrow> db \<Rightarrow> bool" for H where
  start: "tenancy_reachable H empty_db"
| step: "tenancy_reachable H d \<Longrightarrow> tenancy_step H d d' \<Longrightarrow> tenancy_reachable H d'"

lemma user_idsI: "u \<in> set (rows (users d)) \<Longrightarrow> usr_id u \<in> user_ids d"
  by (simp add: user_ids_def)

lemma tenancy_step_ok: "tenancy_step H d d' \<Longrightarrow> tenancy_ok d \<Longrightarrow> tenancy_ok d' \<and> owners_stay d d'"
proof (induction rule: tenancy_step.induct)
  case (signed_up d email pw name memo auto qm qb dr now r d')
  then show ?case using signup_ok [of d email pw name memo auto qm qb dr now "fst r" "snd r" d'] by simp
next
  case (reviewed u d s rv qm qb dr now d')
  then show ?case using set_user_status_ok user_idsI by blast
next
  case (cli_approved u d qm qb dr now d')
  then show ?case using approve_ok user_idsI by blast
next
  case (cli_rejected u d now)
  then show ?case using reject_ok by blast
next
  case (bootstrapped d email pw name slug wname dr now r d')
  then show ?case using bootstrap_ok by blast
next
  case (cli_workspace d slug name kind qm qb pub w d')
  then show ?case using new_workspace_ok by blast
next
  case (team d slug name qm qb pub w d1 u d')
  note W = new_workspace_ok [OF team.prems team.hyps(1)]
  have "usr_id u \<in> user_ids d1" using team.hyps(2) W(5) by (simp add: user_ids_def)
  note M = add_member_ok [OF W(1) W(3) this team.hyps(3)]
  have "owners_stay d d'" by (rule owners_stay_trans [OF W(2) M(2)]) (simp add: ws_ids_def M(5))
  with M show ?case by blast
next
  case (role_set d w u role m d')
  then show ?case using set_member_role_ok by blast
next
  case (removed u d w now d')
  then show ?case using remove_member_ok by blast
next
  case (invited d w x raw pub role email author expiry uses now i d')
  have "w \<in> ws_ids d" using ws_tbl.by_id_SomeD [OF invited.hyps(1)] by (auto simp: ws_ids_def)
  from create_invite_ok [OF invited.prems this invited.hyps(2)] show ?case by blast
next
  case (invite_revoked d w pub now)
  then show ?case using revoke_invite_ok by blast
next
  case (accepted u d raw now w d1)
  note A = accept_invite_ok [OF accepted.prems user_idsI [OF accepted.hyps(1)] accepted.hyps(2)]
  note D = default_if_unset_ok [OF A(1,3)]
  have "owners_stay d (default_if_unset u w d1)"
    by (rule owners_stay_trans [OF A(2) D(2)]) (simp add: default_if_unset_def)
  with D show ?case by blast
next
  case (logged_in d i t pw)
  then show ?case
    using update_user_ok [of d "\<lambda>x. x\<lparr>usr_password_hash := pw, usr_last_login := t\<rparr>" i] by simp
next
  case (password_set d i pw)
  then show ?case using update_user_ok [of d "\<lambda>x. x\<lparr>usr_password_hash := pw\<rparr>" i] by simp
next
  case (workspace_set f d P)
  from workspace_update_ok [OF this(1,2)] show ?case by blast
next
  case (elsewhere d' d)
  then show ?case using tenancy_ok_cong [of d' d] by blast
qed

lemma empty_tenancy_ok: "tenancy_ok empty_db"
  by (simp add: tenancy_ok_def users_ok_def workspaces_ok_def members_ok_def members_refer_def
      invites_fit_def defaults_belong_def empty_db_def user_tbl.empty_ok ws_tbl.empty_ok
      mem_tbl.empty_ok inv_tbl.empty_ok)

lemma tenancy_reachable_ok: "tenancy_reachable H d \<Longrightarrow> tenancy_ok d"
  by (induction rule: tenancy_reachable.induct) (use empty_tenancy_ok tenancy_step_ok in \<open>blast+\<close>)

subsection \<open>Addresses and slugs\<close>

lemma slug_charI: "slug_start c \<Longrightarrow> slug_char c" by (simp add: slug_char_def)

lemma slug_lower: "slug_char c \<Longrightarrow> lower_char c = c"
  by (auto simp: slug_char_def slug_start_def Let_def lower_char_def py_upper_def code_def)

lemma slug_not_space: "slug_char c \<Longrightarrow> \<not> py_space c"
  by (auto simp: slug_char_def slug_start_def Let_def py_space_def code_def)

lemma squeeze_chars: "c \<in> set (squeeze b s) \<Longrightarrow> slug_char c"
  by (induction b s rule: squeeze.induct) (auto simp: slug_char_def split: if_splits)

lemma strip_hyphens_set: "set (strip_hyphens s) \<subseteq> set s"
  unfolding strip_hyphens_def by (auto dest!: set_dropWhileD)

lemma strip_hyphens_hd: "strip_hyphens s \<noteq> [] \<Longrightarrow> hd (strip_hyphens s) \<noteq> CHR ''-''"
proof -
  let ?l = "dropWhile (\<lambda>c. c = CHR ''-'') s"
  let ?r = "dropWhile (\<lambda>c. c = CHR ''-'') (rev ?l)"
  assume ne: "strip_hyphens s \<noteq> []"
  then have r: "?r \<noteq> []" by (simp add: strip_hyphens_def)
  have l: "?l \<noteq> []"
  proof
    assume "?l = []"
    then have "?r = []" by (simp only: rev.simps dropWhile.simps)
    with r show False by blast
  qed
  have "last ?r = hd ?l"
    using dropWhile_hd [of "\<lambda>c. c = CHR ''-''" s] r by (intro hd_dropWhile_rev) auto
  moreover have "hd (strip_hyphens s) = last ?r" using r by (simp add: strip_hyphens_def hd_rev)
  ultimately show ?thesis using hd_dropWhile [OF l] by simp
qed

lemma slugify_shape:
  assumes "slug_shape fallback"
  shows "slug_shape (slugify fallback raw)"
proof -
  let ?c = "strip_hyphens (squeeze False (str_lower (str_strip raw)))"
  have all: "c \<in> set ?c \<Longrightarrow> slug_char c" for c
    using strip_hyphens_set squeeze_chars by blast
  show ?thesis
  proof (cases "?c = []")
    case True
    with assms show ?thesis by (simp add: slugify_def Let_def)
  next
    case False
    then have "slug_char (hd ?c)" "hd ?c \<noteq> CHR ''-''"
      using all strip_hyphens_hd by auto
    with False all show ?thesis
      by (auto simp: slugify_def Let_def slug_shape_def slug_char_def list_all_iff)
  qed
qed

lemma slug_shape_ws: "slug_shape ''ws''"
  by (simp add: slug_shape_def slug_start_def slug_char_def Let_def code_def)

lemma validate_slug_shape:
  assumes "slug_shape s"
  shows "validate_slug s = Inr s"
proof -
  have all: "\<forall>c\<in>set s. slug_char c" and ne: "s \<noteq> []" using assms by (auto simp: slug_shape_def list_all_iff)
  have "stripped s" using all ne slug_not_space by (simp add: stripped_def)
  then have "str_strip s = s" by (rule str_strip_id)
  moreover have "str_lower s = s"
    unfolding str_lower_def by (rule map_idI) (use all slug_lower in blast)
  ultimately show ?thesis using assms by (simp add: validate_slug_def)
qed

definition hex_digits :: "string \<Rightarrow> bool" where
  "hex_digits h \<longleftrightarrow> list_all (\<lambda>c. let n = code c in (48 \<le> n \<and> n \<le> 57) \<or> (97 \<le> n \<and> n \<le> 102)) h"

lemma hex_slug: "hex_digits h \<Longrightarrow> list_all slug_char h"
  by (auto simp: hex_digits_def list_all_iff slug_char_def slug_start_def Let_def)

lemma free_slug_Some:
  "free_slug d base hs = Some s \<Longrightarrow> find_workspace d s = None \<and> (\<exists>h\<in>set hs. s = base @ ''-'' @ h)"
  by (induction hs) (auto simp: Let_def split: if_splits)

lemma unique_slug_Some:
  assumes "unique_slug d raw hs = Some s" "list_all hex_digits hs"
  shows "find_workspace d s = None" "slug_shape s"
proof -
  let ?b = "slugify ''ws'' raw"
  have b: "slug_shape ?b" by (rule slugify_shape [OF slug_shape_ws])
  have "find_workspace d s = None \<and> (s = ?b \<or> (\<exists>h\<in>set hs. s = ?b @ ''-'' @ h))"
    using assms(1) by (auto simp: unique_slug_def Let_def split: if_splits dest: free_slug_Some)
  moreover have "slug_shape (?b @ ''-'' @ h)" if "h \<in> set hs" for h
    using b hex_slug [of h] that assms(2) by (auto simp: slug_shape_def slug_char_def list_all_iff)
  ultimately show "find_workspace d s = None" "slug_shape s" using b by auto
qed

text \<open>The search for a free slug ends: every failed candidate is the slug of another workspace.\<close>

lemma free_slug_None: "free_slug d base hs = None \<longleftrightarrow> (\<forall>h\<in>set hs. find_workspace d (base @ ''-'' @ h) \<noteq> None)"
  by (induction hs) (auto simp: Let_def)

lemma unique_slug_found:
  assumes "distinct hs" "length (rows (workspaces d)) \<le> length hs"
  shows "unique_slug d raw hs \<noteq> None"
proof
  let ?b = "slugify ''ws'' raw"
  assume "unique_slug d raw hs = None"
  then have base: "find_workspace d ?b \<noteq> None" and cands: "\<forall>h\<in>set hs. find_workspace d (?b @ ''-'' @ h) \<noteq> None"
    by (auto simp: unique_slug_def Let_def free_slug_None split: if_splits)
  have slugs: "find_workspace d s \<noteq> None \<Longrightarrow> s \<in> ws_slug ` set (rows (workspaces d))" for s
    by (auto simp: find_workspace_def dest!: scalar_Some)
  let ?S = "insert ?b ((\<lambda>h. ?b @ ''-'' @ h) ` set hs)"
  have "?S \<subseteq> ws_slug ` set (rows (workspaces d))" using base cands slugs by auto
  then have "card ?S \<le> card (ws_slug ` set (rows (workspaces d)))" by (intro card_mono) auto
  also have "\<dots> \<le> card (set (rows (workspaces d)))" by (rule card_image_le) simp
  also have "\<dots> \<le> length (rows (workspaces d))" by (rule card_length)
  also have "\<dots> \<le> length hs" by (rule assms(2))
  finally have "card ?S \<le> length hs" .
  moreover have "card ((\<lambda>h. ?b @ ''-'' @ h) ` set hs) = length hs"
    using assms(1) by (simp add: card_image inj_on_def distinct_card)
  then have "card ?S = Suc (length hs)" by (subst card_insert_disjoint) auto
  ultimately show False by simp
qed

lemma valid_email_normal:
  assumes "valid_email raw = Inr e"
  shows "normalize_email e = e" "valid_email e = Inr e" "email_shape e"
proof -
  have e: "e = normalize_email raw" "email_shape e"
    using assms by (auto simp: valid_email_def Let_def split: if_splits)
  then show n: "normalize_email e = e" by (simp add: normalize_email_def str_strip_lower)
  show "email_shape e" by (rule e)
  with n show "valid_email e = Inr e" by (simp add: valid_email_def)
qed

lemma make_home_total:
  assumes ok: "tenancy_ok d" and u: "usr_id u \<in> user_ids d"
    and hs: "distinct (dr_hexes dr)" "list_all hex_digits (dr_hexes dr)"
      "length (rows (workspaces d)) \<le> length (dr_hexes dr)"
  shows "\<exists>w d'. make_home u qm qb dr d = Inr (w, d') \<and> owns d' (ws_id w) (usr_id u) \<and>
    ws_id w \<notin> ws_ids d \<and> ws_quota_minutes w = qm \<and> ws_quota_bytes w = qb \<and> shares d' = shares d"
proof -
  obtain slug where s: "unique_slug d (str_before (CHR ''@'') (usr_email u)) (dr_hexes dr) = Some slug"
    using unique_slug_found [OF hs(1,3)] by blast
  note S = unique_slug_Some [OF s hs(2)]
  obtain w d1 where c: "create_workspace d slug (home_name (usr_display_name u)) Personal qm qb (dr_ws dr)
        = Inr (w, d1)" and q: "ws_quota_minutes w = qm" "ws_quota_bytes w = qb" "shares d1 = shares d"
      "ws_id w = next_id (workspaces d)"
    by (simp add: create_workspace_def validate_slug_shape [OF S(2)] S(1) Let_def)
  note W = new_workspace_ok [OF ok c]
  have "\<not> has_owner d1 (ws_id w)" using W(4) owns_belongs by (auto simp: has_owner_iff)
  moreover have "find_member d1 (ws_id w) (usr_id u) = None" using W(4) belongs_iff by blast
  ultimately obtain d2 where a: "add_member d1 (ws_id w) (usr_id u) Owner = Inr d2"
    and d2: "d2 = d1\<lparr>members := insert_row set_mem_id (member_row (ws_id w) (usr_id u) Owner) (members d1)\<rparr>"
    by (simp add: add_member_def)
  have "owns d2 (ws_id w) (usr_id u)" by (simp add: owns_def d2 member_row_def)
  moreover have "ws_id w \<notin> ws_ids d"
    using tenancy_okD(2) [OF ok] by (auto simp: q workspaces_ok_def table_ok_def ws_ids_def)
  ultimately show ?thesis
    using s c a q d2 by (simp add: make_home_def owns_def)
qed

subsection \<open>A status change and the records of a workspace\<close>

lemma drop_workspace_records:
  "job_logs (drop_workspace u w d) = job_logs d" "recordings (drop_workspace u w d) = recordings d"
  "user_sessions (drop_workspace u w d) = user_sessions d"
proof -
  let ?d = "update_user u (\<lambda>x. if usr_default_ws x = Some w then x\<lparr>usr_default_ws := None\<rparr> else x) d"
  have "job_logs (drop_workspace u w d) = job_logs d \<and> recordings (drop_workspace u w d) = recordings d \<and>
      user_sessions (drop_workspace u w d) = user_sessions d"
  proof (cases "droppable d w")
    case False
    then show ?thesis by (simp add: drop_workspace_def)
  next
    case True
    then have none: "select (\<lambda>r. rec_ws r = w) (recordings d) = []" "select (\<lambda>j. job_ws j = w) (job_logs d) = []"
      by (auto simp: droppable_def split: option.splits)
    have "delete_where (\<lambda>j. job_ws j = w) (job_logs d) = job_logs d"
      using none(2) by (simp add: delete_where_def select_def filter_empty_conv)
    with True none(1) show ?thesis by (simp add: drop_workspace_def delete_workspace_row_def Let_def)
  qed
  then show "job_logs (drop_workspace u w d) = job_logs d" "recordings (drop_workspace u w d) = recordings d"
    "user_sessions (drop_workspace u w d) = user_sessions d" by blast+
qed

lemma drop_all_records [simp]:
  "job_logs (fold (drop_workspace u) ws d) = job_logs d"
  "recordings (fold (drop_workspace u) ws d) = recordings d"
  "user_sessions (fold (drop_workspace u) ws d) = user_sessions d"
  by (induction ws arbitrary: d) (simp_all add: drop_workspace_records)

lemma reject_records [simp]:
  "job_logs (reject u r now d) = job_logs d" "recordings (reject u r now d) = recordings d"
  "user_sessions (reject u r now d) = user_sessions d"
  by (simp_all add: reject_def drop_empty_personal_workspaces_def review_def)

lemma create_workspace_records:
  "create_workspace d slug name kind qm qb pub = Inr (w, d') \<Longrightarrow>
     job_logs d' = job_logs d \<and> recordings d' = recordings d \<and> user_sessions d' = user_sessions d"
  by (auto simp: create_workspace_def Let_def split: sum.splits if_splits)

lemma make_home_records:
  "make_home u qm qb dr d = Inr (w, d') \<Longrightarrow> job_logs d' = job_logs d \<and> recordings d' = recordings d \<and>
     user_sessions d' = user_sessions d"
  by (auto simp: make_home_def add_member_def split: option.splits sum.splits if_splits
      dest!: create_workspace_records)

lemma approve_records:
  assumes "approve u r qm qb dr now d = Inr d'"
  shows "job_logs d' = job_logs d" "recordings d' = recordings d"
proof -
  have "ensure_home_workspace u qm qb dr e = Inr e' \<Longrightarrow> job_logs e' = job_logs e \<and> recordings e' = recordings e"
    for e e'
    by (auto simp: ensure_home_workspace_def split: if_splits sum.splits dest: make_home_records)
  with assms show "job_logs d' = job_logs d" "recordings d' = recordings d"
    by (fastforce simp: approve_def review_def split: sum.splits)+
qed

lemma set_user_status_records:
  assumes "set_user_status u s r qm qb dr now d = Inr d'"
  shows "job_logs d' = job_logs d" "recordings d' = recordings d"
  using assms
  by (cases rule: set_user_status_cases; simp add: approve_records review_def)+

subsection \<open>The state of an account\<close>

lemma get_user_update:
  "(\<And>x. usr_id (f x) = usr_id x) \<Longrightarrow>
     get_user (update_user i f d) j = map_option (\<lambda>x. if usr_id x = i then f x else x) (get_user d j)"
  unfolding update_user_def by (simp add: user_tbl.by_id_update)

lemma drop_one_status:
  "map_option usr_status (get_user (drop_workspace u w d) i) = map_option usr_status (get_user d i)"
  by (cases "get_user d i") (simp_all add: drop_workspace_def get_user_update user_tbl.by_id_update)

lemma drop_all_status:
  "map_option usr_status (get_user (fold (drop_workspace u) ws d) i) = map_option usr_status (get_user d i)"
  by (induction ws arbitrary: d) (simp_all add: drop_one_status)

lemma review_status:
  "u \<in> set (rows (users d)) \<Longrightarrow> users_ok d \<Longrightarrow>
     map_option usr_status (get_user (review u s r now d) (usr_id u)) = Some s"
  by (simp add: review_def get_user_update users_ok_def user_tbl.by_id_member)

subsection \<open>An office for the examples\<close>

definition demo_draws :: draws where
  "demo_draws = \<lparr>dr_user = 7, dr_ws = 8, dr_hexes = [''0a'', ''0b'', ''0c'']\<rparr>"

text \<open>The operator is account 1 with workspace 1, the applicant account 2 with workspace 2.\<close>

definition demo_op :: user where
  "demo_op = \<lparr>usr_id = 1, usr_public = 7, usr_email = ''op@x.io'', usr_password_hash = ''h'',
     usr_display_name = ''Op'', usr_status = UActive, usr_signup_note = None, usr_reviewed_by = None,
     usr_reviewed_at = None, usr_service_admin = True, usr_default_ws = Some 1, usr_last_login = None,
     usr_created_at = 0\<rparr>"

definition demo_ann :: user where
  "demo_ann = \<lparr>usr_id = 2, usr_public = 9, usr_email = ''ann@x.io'', usr_password_hash = ''h'',
     usr_display_name = ''Ann'', usr_status = UPending, usr_signup_note = None, usr_reviewed_by = None,
     usr_reviewed_at = None, usr_service_admin = False, usr_default_ws = Some 2, usr_last_login = None,
     usr_created_at = 5\<rparr>"

definition demo_main :: workspace where
  "demo_main = \<lparr>ws_id = 1, ws_public = 8, ws_slug = ''main'', ws_name = ''Main'', ws_kind = Team,
     ws_last_claimed = None, ws_quota_minutes = None, ws_quota_bytes = None\<rparr>"

definition demo_home :: workspace where
  "demo_home = \<lparr>ws_id = 2, ws_public = 10, ws_slug = ''ann'', ws_name = home_name ''Ann'',
     ws_kind = Personal, ws_last_claimed = None, ws_quota_minutes = Some 60, ws_quota_bytes = None\<rparr>"

definition demo_first :: db where
  "demo_first = empty_db\<lparr>users := \<lparr>rows = [demo_op], next_id = 2\<rparr>,
     workspaces := \<lparr>rows = [demo_main], next_id = 2\<rparr>,
     members := \<lparr>rows = [\<lparr>mem_id = 1, mem_ws = 1, mem_user = 1, mem_role = Owner\<rparr>], next_id = 2\<rparr>\<rparr>"

definition demo_office :: db where
  "demo_office = empty_db\<lparr>users := \<lparr>rows = [demo_op, demo_ann], next_id = 3\<rparr>,
     workspaces := \<lparr>rows = [demo_main, demo_home], next_id = 3\<rparr>,
     members := \<lparr>rows = [\<lparr>mem_id = 1, mem_ws = 1, mem_user = 1, mem_role = Owner\<rparr>,
        \<lparr>mem_id = 2, mem_ws = 2, mem_user = 2, mem_role = Owner\<rparr>], next_id = 3\<rparr>\<rparr>"

lemma demo_first_step: "tenancy_step H empty_db demo_first"
proof (rule bootstrapped)
  show "bootstrap empty_db ''op@x.io'' ''h'' ''Op'' ''main'' ''Main'' demo_draws 0 = Inr ((1, 1, True), demo_first)"
    by code_simp
qed

lemma demo_office_step: "tenancy_step H demo_first demo_office"
proof (rule signed_up)
  show "signup demo_first '' Ann@x.io'' ''h'' ''Ann'' None False (Some 60) None
      (demo_draws\<lparr>dr_user := 9, dr_ws := 10\<rparr>) 5 = Inr ((demo_ann, demo_home), demo_office)"
    by code_simp
qed

lemma demo_reachable: "tenancy_reachable H demo_first" "tenancy_reachable H demo_office"
proof -
  show 1: "tenancy_reachable H demo_first"
    by (rule tenancy_reachable.step [OF tenancy_reachable.start demo_first_step])
  show "tenancy_reachable H demo_office" by (rule tenancy_reachable.step [OF 1 demo_office_step])
qed

lemma demo_members: "demo_ann \<in> set (rows (users demo_office))" "demo_op \<in> set (rows (users demo_office))"
  by (simp_all add: demo_office_def)

definition demo_invite :: invite where
  "demo_invite = \<lparr>inv_id = 1, inv_public = 20, inv_token_hash = ''k'', inv_email = Some ''ann@x.io'',
     inv_ws = 1, inv_role = Member, inv_created_by = Some 1, inv_expires = Some (6 + days 14),
     inv_max_uses = 1, inv_uses = 0, inv_revoked = None\<rparr>"

definition demo_invited :: db where
  "demo_invited = demo_office\<lparr>invites := \<lparr>rows = [demo_invite], next_id = 2\<rparr>\<rparr>"

definition demo_joined :: db where
  "demo_joined = demo_office\<lparr>invites := \<lparr>rows = [demo_invite\<lparr>inv_uses := 1\<rparr>], next_id = 2\<rparr>,
     members := insert_row set_mem_id (member_row 1 2 Member) (members demo_office)\<rparr>"

lemma demo_accept: "accept_invite id demo_invited ''k'' demo_ann 10 = Inr (demo_main, demo_joined)"
  by code_simp

lemma demo_invited_reachable: "tenancy_reachable id demo_invited"
proof (rule tenancy_reachable.step [OF demo_reachable(2)], rule invited)
  show "get_workspace_row demo_office 1 = Some demo_main" by code_simp
  show "create_invite id ''k'' 20 1 ''member'' (Some ''Ann@x.io '') (Some 1) (Some 14) 1 6 demo_office =
      Inr (demo_invite, demo_invited)" by code_simp
qed

lemma demo_joined_reachable: "tenancy_reachable id demo_joined"
proof -
  have "tenancy_step id demo_invited (default_if_unset demo_ann demo_main demo_joined)"
    by (rule accepted [OF _ demo_accept]) (simp add: demo_invited_def demo_office_def)
  then show ?thesis
    using tenancy_reachable.step [OF demo_invited_reachable] by (simp add: default_if_unset_def demo_ann_def)
qed

subsection \<open>Properties\<close>

text \<open>C14. In every state that sign-ups, reviews, invitations, role changes and removals can
  reach, the declared constraints and references of accounts, workspaces and members hold and a
  default workspace is one its account belongs to. A workspace has at most one owner, and the
  owner stays the owner through every further operation for as long as the workspace exists.\<close>

theorem owners_and_references_stay:
  assumes "tenancy_reachable H d" and "tenancy_step H d d'"
  shows "tenancy_ok d' \<and> owners_stay d d'"
  using tenancy_step_ok [OF assms(2) tenancy_reachable_ok [OF assms(1)]] .

theorem owners_and_references_stay_witness:
  "tenancy_ok demo_office \<and> owners_stay demo_first demo_office \<and> owns demo_first 1 1"
proof -
  have "owns demo_first 1 1" by code_simp
  with owners_and_references_stay [OF demo_reachable(1) demo_office_step] show ?thesis by blast
qed

lemma signup_home:
  assumes ok: "tenancy_ok d" and e: "valid_email email = Inr e" "find_user d e = None"
    and hs: "distinct (dr_hexes dr)" "list_all hex_digits (dr_hexes dr)"
      "length (rows (workspaces d)) \<le> length (dr_hexes dr)"
  obtains u w d1 d2 where
    "create_user d e pw name (if auto then UActive else UPending) False memo (dr_user dr) now = Inr (u, d1)"
    "make_home u qm qb dr d1 = Inr (w, d2)" "owns d2 (ws_id w) (usr_id u)" "ws_id w \<notin> ws_ids d"
    "ws_quota_minutes w = qm" "ws_quota_bytes w = qb"
    "signup d email pw name memo auto qm qb dr now =
       Inr ((u\<lparr>usr_default_ws := Some (ws_id w)\<rparr>, w),
         if auto then snd (claim_pending u now d2) else d2)"
proof -
  have n: "normalize_email e = e" using valid_email_normal [OF e(1)] by blast
  obtain u d1 where c: "create_user d e pw name (if auto then UActive else UPending) False memo (dr_user dr) now
      = Inr (u, d1)"
    using e(2) n by (auto simp: create_user_def Let_def)
  note U = new_user_ok [OF ok c]
  have in1: "usr_id u \<in> user_ids d1" using U(3) by (auto simp: user_ids_def)
  have len: "length (rows (workspaces d1)) \<le> length (dr_hexes dr)" using hs(3) U(6) by simp
  obtain w d2 where h: "make_home u qm qb dr d1 = Inr (w, d2)" "owns d2 (ws_id w) (usr_id u)"
      "ws_id w \<notin> ws_ids d1" "ws_quota_minutes w = qm" "ws_quota_bytes w = qb"
    using make_home_total [OF U(1) in1 hs(1,2) len] by blast
  have "signup d email pw name memo auto qm qb dr now =
      Inr ((u\<lparr>usr_default_ws := Some (ws_id w)\<rparr>, w),
         if auto then snd (claim_pending u now d2) else d2)"
    using e c h(1) by (simp add: signup_def)
  with c h U(5) show ?thesis by (intro that) auto
qed

text \<open>Signing up fails for no reason of its own: with a valid address that no account has,
  it makes the account in the status asked for, under the normalised address, and a new
  workspace with the given limits that the account owns. The search for a free slug ends
  after at most as many different suffixes as there are workspaces.\<close>

theorem signup_succeeds:
  assumes "tenancy_reachable H d" and "valid_email email = Inr e" and "find_user d e = None"
    and "distinct (dr_hexes dr)" and "list_all hex_digits (dr_hexes dr)"
    and "length (rows (workspaces d)) \<le> length (dr_hexes dr)"
  shows "\<exists>u w d'. signup d email pw name memo auto qm qb dr now = Inr ((u, w), d') \<and>
    usr_email u = normalize_email email \<and> usr_status u = (if auto then UActive else UPending) \<and>
    usr_id u \<notin> user_ids d \<and> ws_id w \<notin> ws_ids d \<and> owns d' (ws_id w) (usr_id u) \<and>
    ws_quota_minutes w = qm \<and> ws_quota_bytes w = qb"
proof -
  have ok: "tenancy_ok d" by (rule tenancy_reachable_ok [OF assms(1)])
  obtain u w d1 d2 where
    c: "create_user d e pw name (if auto then UActive else UPending) False memo (dr_user dr) now = Inr (u, d1)"
    and h: "make_home u qm qb dr d1 = Inr (w, d2)" "owns d2 (ws_id w) (usr_id u)" "ws_id w \<notin> ws_ids d"
      "ws_quota_minutes w = qm" "ws_quota_bytes w = qb"
    and s: "signup d email pw name memo auto qm qb dr now =
       Inr ((u\<lparr>usr_default_ws := Some (ws_id w)\<rparr>, w),
         if auto then snd (claim_pending u now d2) else d2)"
    by (rule signup_home [OF ok assms(2-6)])
  note U = new_user_ok [OF ok c]
  have in1: "usr_id u \<in> user_ids d1" using U(3) by (auto simp: user_ids_def)
  note M = make_home_ok [OF U(1) in1 h(1)]
  have P: "owners_stay d2 (snd (claim_pending u now d2))" "ws_ids (snd (claim_pending u now d2)) = ws_ids d2"
    using claim_pending_ok [OF M(1), of u now] in1 M(3) by simp_all
  have "ws_id w \<in> ws_ids d2"
    using tenancy_okD(4) [OF M(1)] h(2) by (auto simp: owns_def members_refer_def)
  then have "owns (snd (claim_pending u now d2)) (ws_id w) (usr_id u)"
    using P h(2) by (auto simp: owners_stay_def)
  moreover have "usr_id u \<notin> user_ids d"
    using c tenancy_okD(1) [OF ok]
    by (auto simp: create_user_def Let_def users_ok_def table_ok_def user_ids_def split: if_splits)
  moreover have "e = normalize_email email"
    using assms(2) by (auto simp: valid_email_def Let_def split: if_splits)
  ultimately show ?thesis
    using s h U(8,10) valid_email_normal [OF assms(2)]
    by (intro exI [of _ "u\<lparr>usr_default_ws := Some (ws_id w)\<rparr>"] exI [of _ w] exI [of _ "if auto then snd (claim_pending u now d2) else d2"]) simp
qed

theorem signup_succeeds_witness:
  "\<exists>u w d'. signup demo_first ''Ann@x.io'' ''h'' ''Ann'' None True None None demo_draws 5 = Inr ((u, w), d') \<and>
    usr_email u = normalize_email ''Ann@x.io'' \<and> usr_status u = (if True then UActive else UPending) \<and>
    usr_id u \<notin> user_ids demo_first \<and> ws_id w \<notin> ws_ids demo_first \<and> owns d' (ws_id w) (usr_id u) \<and>
    ws_quota_minutes w = None \<and> ws_quota_bytes w = None"
proof (rule signup_succeeds [OF demo_reachable(1)])
  show "valid_email ''Ann@x.io'' = Inr ''ann@x.io''" by code_simp
  show "find_user demo_first ''ann@x.io'' = None" by code_simp
  show "distinct (dr_hexes demo_draws)" by code_simp
  show "list_all hex_digits (dr_hexes demo_draws)" by code_simp
  show "length (rows (workspaces demo_first)) \<le> length (dr_hexes demo_draws)" by code_simp
qed

text \<open>Reviewing an account changes no record that usage is measured from: whatever status
  it gets, and whichever empty workspaces a rejection drops, the minutes counted and the bytes
  stored stay what they were, for every workspace and every window.\<close>

theorem status_change_keeps_usage:
  assumes "set_user_status u s reviewer qm qb dr now d = Inr d'"
  shows "used_seconds d' w since = used_seconds d w since \<and> stored_bytes d' w = stored_bytes d w"
  using set_user_status_records [OF assms] by (simp add: used_seconds_def stored_bytes_def)

theorem status_change_keeps_usage_witness:
  "\<exists>d'. set_user_status demo_ann ''rejected'' (Some 1) None None demo_draws 9 demo_office = Inr d' \<and>
     ws_ids d' = {1} \<and> used_seconds d' 2 0 = used_seconds demo_office 2 0"
proof -
  let ?s = "set_user_status demo_ann ''rejected'' (Some 1) None None demo_draws 9 demo_office"
  have "case ?s of Inr d' \<Rightarrow> ws_ids d' = {1} | Inl _ \<Rightarrow> False" by code_simp
  then obtain d' where "?s = Inr d'" "ws_ids d' = {1}" by (cases ?s) auto
  with status_change_keeps_usage [OF this(1), of 2 0] show ?thesis by blast
qed

lemma revoke_all_unloadable:
  assumes "load_session H (snd (revoke_other_sessions d i None now)) raw t = Some x"
  shows "ses_user x \<noteq> i"
proof
  assume "ses_user x = i"
  have "x \<in> set (rows (user_sessions (snd (revoke_other_sessions d i None now))))" "ses_revoked x = None"
    using load_session_Some [OF assms] by (auto simp: session_live_def)
  moreover from this \<open>ses_user x = i\<close> have "other_session i None x" by (simp add: other_session_def)
  ultimately show False by (auto simp: revoke_other_sessions_def)
qed



lemma revoke_addressed_rows:
  assumes "i \<in> set (rows (invites (revoke_addressed w e now d)))"
  shows "\<not> (inv_ws i = w \<and> inv_email i = Some e \<and> inv_revoked i = None)"
proof -
  let ?P = "\<lambda>i. inv_ws i = w \<and> inv_email i = Some e \<and> inv_revoked i = None"
  have "i \<in> (\<lambda>y. if ?P y then y\<lparr>inv_revoked := Some now\<rparr> else y) ` set (rows (invites d))"
    using assms by (simp add: revoke_addressed_def del: if_image_distrib)
  then obtain y where "i = (if ?P y then y\<lparr>inv_revoked := Some now\<rparr> else y)" by (rule imageE)
  then show ?thesis by (cases "?P y") auto
qed

text \<open>Removing a member takes exactly that membership away, and the person cannot come
  back on an invite that was addressed to them: what still lets them into the workspace is an
  invite open to anyone.\<close>

theorem removed_member_needs_open_invite:
  assumes "tenancy_reachable H d" and "u \<in> set (rows (users d))" and "remove_member d w u now = Inr d'"
  shows "(\<forall>x y. belongs d' x y \<longleftrightarrow> belongs d x y \<and> (x, y) \<noteq> (w, usr_id u)) \<and>
    (\<forall>raw t i. peek_invite G d' raw u t = Inr i \<longrightarrow> inv_ws i = w \<longrightarrow> inv_email i = None)"
proof (intro conjI allI impI)
  show "belongs d' x y \<longleftrightarrow> belongs d x y \<and> (x, y) \<noteq> (w, usr_id u)" for x y
    by (rule remove_member_ok(3) [OF tenancy_reachable_ok [OF assms(1)] assms(2,3)])
  fix raw t i assume "peek_invite G d' raw u t = Inr i" and w: "inv_ws i = w"
  note P = peek_invite_Some [OF this(1)]
  show "inv_email i = None"
  proof (rule ccontr)
    assume "inv_email i \<noteq> None"
    with P w have hit: "inv_ws i = w \<and> inv_email i = Some (usr_email u) \<and> inv_revoked i = None"
      by (auto simp: invite_live_def)
    obtain e where "invites d' = invites (revoke_addressed w (usr_email u) now e)"
      using assms(3) by (rule remove_member_cases) (auto split: if_splits)
    with P have "i \<in> set (rows (invites (revoke_addressed w (usr_email u) now e)))" by simp
    with hit show False using revoke_addressed_rows by blast
  qed
qed

text \<open>Accepting an invite admits the person the invite is for, in the role it names and
  never as owner, uses it up by one and adds that one membership. Someone who is a member
  already does not use it up: nothing changes.\<close>

theorem accept_invite_exact:
  assumes "tenancy_reachable H d" and "u \<in> set (rows (users d))"
    and "accept_invite G d raw u now = Inr (w, d')"
  shows "\<exists>i. i \<in> set (rows (invites d)) \<and> inv_token_hash i = G raw \<and> invite_live now i \<and>
    (inv_email i = None \<or> inv_email i = Some (usr_email u)) \<and> inv_ws i = ws_id w \<and>
    (if belongs d (ws_id w) (usr_id u) then d' = d
     else member_role d' (ws_id w) (Some (usr_id u)) = Some (inv_role i) \<and> inv_role i \<noteq> Owner \<and>
       inv_uses i < inv_max_uses i \<and> i\<lparr>inv_uses := inv_uses i + 1\<rparr> \<in> set (rows (invites d')) \<and>
       (\<forall>x y. belongs d' x y \<longleftrightarrow> belongs d x y \<or> (x, y) = (ws_id w, usr_id u)))"
proof -
  note O = tenancy_okD [OF tenancy_reachable_ok [OF assms(1)]]
  obtain i d1 b where p: "peek_invite G d raw u now = Inr i" and w: "get_workspace_row d (inv_ws i) = Some w"
    and j: "join_workspace (inv_ws i) (usr_id u) (inv_role i) d = (b, d1)"
    and d': "d' = (if b then use_invite (inv_id i) d1 else d1)"
    using assms(3) by (rule accept_invite_cases)
  note P = peek_invite_Some [OF p]
  have wid: "inv_ws i = ws_id w" using ws_tbl.by_id_SomeD [OF w] by simp
  show ?thesis
  proof (cases "belongs d (ws_id w) (usr_id u)")
    case True
    then have "find_member d (inv_ws i) (usr_id u) \<noteq> None" using belongs_iff wid by metis
    then have "d' = d" using j d' by (auto simp: join_workspace_def)
    with P wid True show ?thesis by (intro exI [of _ i]) simp
  next
    case False
    then have "find_member d (inv_ws i) (usr_id u) = None" using belongs_iff wid by metis
    then have d1: "d1 = d\<lparr>members := insert_row set_mem_id (member_row (ws_id w) (usr_id u) (inv_role i)) (members d)\<rparr>"
      and b: "b" using j wid by (auto simp: join_workspace_def)
    have mem: "rows (members d') = rows (members d) @ [set_mem_id (next_id (members d)) (member_row (ws_id w) (usr_id u) (inv_role i))]"
      by (simp add: d' d1 b use_invite_def)
    have "find (\<lambda>m. mem_ws m = ws_id w \<and> Some (mem_user m) = Some (usr_id u)) (rows (members d)) = None"
      using False by (auto simp: find_None_iff belongs_def)
    then have "member_role d' (ws_id w) (Some (usr_id u)) = Some (inv_role i)"
      by (simp add: member_role_def scalar_def mem find_append member_row_def)
    moreover have "belongs d' x y \<longleftrightarrow> belongs d x y \<or> (x, y) = (ws_id w, usr_id u)" for x y
      by (auto simp: belongs_def mem member_row_def)
    moreover have "i\<lparr>inv_uses := inv_uses i + 1\<rparr> \<in> set (rows (invites d'))"
      using P by (force simp: d' b d1 use_invite_def)
    moreover have "inv_role i \<noteq> Owner" "inv_uses i < inv_max_uses i"
      using O(5) P by (auto simp: invites_fit_def invite_fits_def invite_live_def invite_open_def)
    ultimately show ?thesis using P wid False by (intro exI [of _ i]) simp
  qed
qed

theorem removed_member_needs_open_invite_witness:
  "\<exists>d'. remove_member demo_joined 1 demo_ann 20 = Inr d' \<and> belongs demo_joined 1 2 \<and> \<not> belongs d' 1 2 \<and>
     belongs d' 2 2 \<and> (\<forall>raw t i. peek_invite id d' raw demo_ann t = Inr i \<longrightarrow> inv_ws i = 1 \<longrightarrow> inv_email i = None)"
proof -
  have "is_ok (remove_member demo_joined 1 demo_ann 20)" by code_simp
  then obtain d' where r: "remove_member demo_joined 1 demo_ann 20 = Inr d'" by (auto simp: is_ok_iff)
  have "demo_ann \<in> set (rows (users demo_joined))" by (simp add: demo_joined_def demo_office_def)
  note R = removed_member_needs_open_invite [OF demo_joined_reachable this r, where G = id]
  have "belongs demo_joined 1 2" "belongs demo_joined 2 2" "usr_id demo_ann = 2" by code_simp+
  with R r show ?thesis by (intro exI [of _ d']) simp
qed

theorem accept_invite_exact_witness:
  "member_role demo_joined 1 (Some 2) = Some Member \<and> \<not> belongs demo_invited 1 2 \<and> belongs demo_joined 1 2"
proof -
  have "demo_ann \<in> set (rows (users demo_invited))" by (simp add: demo_invited_def demo_office_def)
  note A = accept_invite_exact [OF demo_invited_reachable this demo_accept]
  have no: "\<not> belongs demo_invited 1 2" by code_simp
  have ids: "ws_id demo_main = 1" "usr_id demo_ann = 2" "rows (invites demo_invited) = [demo_invite]"
      "inv_role demo_invite = Member" by code_simp+
  from A no have "member_role demo_joined 1 (Some 2) = Some Member \<and> belongs demo_joined 1 2"
    by (auto simp add: ids simp del: One_nat_def)
  with no show ?thesis by blast
qed

end
