(* ===== verification/Sharing.thy ===== *)
theory Sharing
  imports Membership
begin

text \<open>
  \<open>sharing.py\<close>: opening one recording to a person (who may not have an account yet) or to
  whoever holds a link. Tokens are random and arguments, \<open>H\<close> is the token hash. The links
  interpret \<open>bearer_token\<close>; the table of shares is an upsert per recording and person
  whose laws the last section proves together with \<open>claim_pending\<close>.
\<close>

definition LINK_DEFAULT_DAYS :: int where "LINK_DEFAULT_DAYS = 30"
definition LINK_PASSWORD_MIN :: nat where "LINK_PASSWORD_MIN = 6"
definition LINK_MAX_DAYS :: int where "LINK_MAX_DAYS = 3650"

datatype share_reason = BadPermission | BadShareAddress | OwnAddress | BadLinkExpiry | NotLocked

datatype share_error = ShareInvalid share_reason | LinkInvalid

subsection \<open>Sharing with a person\<close>

definition validate_permission :: "string \<Rightarrow> (share_error, share_permission) result" where
  "validate_permission p =
     (case share_of p of None \<Rightarrow> Inl (ShareInvalid BadPermission) | Some x \<Rightarrow> Inr x)"

definition find_share :: "db \<Rightarrow> nat \<Rightarrow> user option \<Rightarrow> string \<Rightarrow> share option" where
  "find_share d r target email =
     (case target of
        Some u \<Rightarrow> scalar (\<lambda>s. shr_recording s = r \<and> shr_user s = Some (usr_id u)) (shares d)
      | None \<Rightarrow> scalar (\<lambda>s. shr_recording s = r \<and> shr_email s = Some email) (shares d))"

definition set_permission :: "nat \<Rightarrow> share_permission \<Rightarrow> db \<Rightarrow> db" where
  "set_permission i p d =
     d\<lparr>shares := update_where (\<lambda>s. shr_id s = i) (\<lambda>s. s\<lparr>shr_permission := p\<rparr>) (shares d)\<rparr>"

definition share_with_email ::
  "db \<Rightarrow> recording \<Rightarrow> string \<Rightarrow> string \<Rightarrow> user option \<Rightarrow> uuid \<Rightarrow> (share_error, share \<times> db) result" where
  "share_with_email d r email permission author pub =
     (case validate_permission permission of
        Inl e \<Rightarrow> Inl e
      | Inr p \<Rightarrow>
          (case valid_email email of
             Inl _ \<Rightarrow> Inl (ShareInvalid BadShareAddress)
           | Inr normalized \<Rightarrow>
               let target = scalar (\<lambda>u. usr_email u = normalized) (users d)
               in if target \<noteq> None \<and> author \<noteq> None \<and> map_option usr_id target = map_option usr_id author
                  then Inl (ShareInvalid OwnAddress)
                  else
                    (case find_share d (rec_id r) target normalized of
                       Some s \<Rightarrow> Inr (s\<lparr>shr_permission := p\<rparr>, set_permission (shr_id s) p d)
                     | None \<Rightarrow>
                         let s = \<lparr>shr_id = next_id (shares d), shr_public = pub, shr_recording = rec_id r,
                                  shr_user = map_option usr_id target,
                                  shr_email = (if target \<noteq> None then None else Some normalized),
                                  shr_permission = p, shr_created_by = map_option usr_id author\<rparr>
                         in Inr (s, d\<lparr>shares := insert_row set_shr_id s (shares d)\<rparr>))))"

definition list_shares :: "db \<Rightarrow> nat \<Rightarrow> (share \<times> user option) list" where
  "list_shares d r =
     map (\<lambda>s. (s, case shr_user s of None \<Rightarrow> None | Some i \<Rightarrow> get_user d i))
       (sort_key shr_id (select (\<lambda>s. shr_recording s = r) (shares d)))"

definition revoke_share :: "db \<Rightarrow> nat \<Rightarrow> uuid \<Rightarrow> bool \<times> db" where
  "revoke_share d r pub =
     (case scalar (\<lambda>s. shr_recording s = r \<and> shr_public s = pub) (shares d) of
        None \<Rightarrow> (False, d)
      | Some s \<Rightarrow> (True, d\<lparr>shares := delete_where (\<lambda>x. shr_id x = shr_id s) (shares d)\<rparr>))"

subsection \<open>Links\<close>

definition create_link ::
  "(string \<Rightarrow> string) \<Rightarrow> string \<Rightarrow> uuid \<Rightarrow> nat \<Rightarrow> string option \<Rightarrow> string option \<Rightarrow> bool \<Rightarrow> bool \<Rightarrow> int option \<Rightarrow>
   nat option \<Rightarrow> time \<Rightarrow> db \<Rightarrow> (share_error, share_link \<times> db) result" where
  "create_link H raw pub r label pwhash audio names expires_in_days author now d =
     (if (case expires_in_days of None \<Rightarrow> False | Some n \<Rightarrow> \<not> (1 \<le> n \<and> n \<le> LINK_MAX_DAYS))
      then Inl (ShareInvalid BadLinkExpiry)
      else
        let text = str_strip (case label of None \<Rightarrow> [] | Some t \<Rightarrow> t);
            l = \<lparr>lnk_id = next_id (links d), lnk_public = pub, lnk_recording = r, lnk_token_hash = H raw,
                 lnk_label = (if text = [] then None else Some text), lnk_password = pwhash,
                 lnk_audio = audio, lnk_names = names,
                 lnk_expires = map_option (\<lambda>n. now + days n) expires_in_days, lnk_revoked = None,
                 lnk_views = 0, lnk_last_viewed = None, lnk_created_by = author\<rparr>
        in Inr (l, d\<lparr>links := insert_row set_lnk_id l (links d)\<rparr>))"

definition list_links :: "db \<Rightarrow> nat \<Rightarrow> share_link list" where
  "list_links d r = sort_key lnk_id (select (\<lambda>l. lnk_recording l = r \<and> lnk_revoked l = None) (links d))"

definition revoke_link :: "db \<Rightarrow> nat \<Rightarrow> uuid \<Rightarrow> time \<Rightarrow> bool \<times> db" where
  "revoke_link d r pub now =
     (case scalar (\<lambda>l. lnk_recording l = r \<and> lnk_public l = pub \<and> lnk_revoked l = None) (links d) of
        None \<Rightarrow> (False, d)
      | Some l \<Rightarrow> (True, d\<lparr>links := update_where (\<lambda>x. lnk_id x = lnk_id l)
                     (\<lambda>x. x\<lparr>lnk_revoked := Some now\<rparr>) (links d)\<rparr>))"

definition load_link ::
  "(string \<Rightarrow> string) \<Rightarrow> db \<Rightarrow> string \<Rightarrow> time \<Rightarrow> (share_error, share_link) result" where
  "load_link H d raw now =
     (case scalar (\<lambda>l. lnk_token_hash l = H raw) (links d) of
        None \<Rightarrow> Inl LinkInvalid
      | Some l \<Rightarrow>
          if lnk_revoked l \<noteq> None then Inl LinkInvalid
          else if (case lnk_expires l of None \<Rightarrow> False | Some t \<Rightarrow> t \<le> now) then Inl LinkInvalid
          else Inr l)"

definition unlock_value :: "(string \<Rightarrow> string) \<Rightarrow> share_link \<Rightarrow> (share_error, string) result" where
  "unlock_value H l =
     (case lnk_password l of None \<Rightarrow> Inl (ShareInvalid NotLocked) | Some h \<Rightarrow> Inr (H h))"

definition is_unlocked :: "(string \<Rightarrow> string) \<Rightarrow> share_link \<Rightarrow> string option \<Rightarrow> bool" where
  "is_unlocked H l cookie =
     (if lnk_password l = None then True
      else case cookie of
             None \<Rightarrow> False
           | Some c \<Rightarrow> if c = [] then False else unlock_value H l = Inr c)"

definition record_view :: "share_link \<Rightarrow> time \<Rightarrow> db \<Rightarrow> db" where
  "record_view l now d = d\<lparr>links := update_where (\<lambda>x. lnk_id x = lnk_id l)
     (\<lambda>x. x\<lparr>lnk_views := lnk_views x + 1, lnk_last_viewed := Some now\<rparr>) (links d)\<rparr>"

record share_counts =
  user_count :: nat
  link_count :: nat

definition share_counts_of :: "db \<Rightarrow> nat \<Rightarrow> share_counts" where
  "share_counts_of d r =
     \<lparr>user_count = length (select (\<lambda>s. shr_recording s = r) (shares d)),
      link_count = length (select (\<lambda>l. lnk_recording l = r \<and> lnk_revoked l = None) (links d))\<rparr>"

subsection \<open>Links are bearer tokens\<close>

definition link_live :: "time \<Rightarrow> share_link \<Rightarrow> bool" where
  "link_live now l \<longleftrightarrow> lnk_revoked l = None \<and> (case lnk_expires l of None \<Rightarrow> True | Some t \<Rightarrow> now < t)"

interpretation link_token: bearer_token lnk_token_hash link_live "\<lambda>t l. l\<lparr>lnk_revoked := Some t\<rparr>"
  by unfold_locales (auto simp: link_live_def split: option.splits)

lemma load_link_eq:
  "load_link H d raw now =
     (case load_live H lnk_token_hash link_live now raw (rows (links d)) of
        None \<Rightarrow> Inl LinkInvalid | Some l \<Rightarrow> Inr l)"
  by (auto simp: load_link_def load_live_def scalar_def link_live_def split: option.splits)

lemma load_link_Inr:
  "load_link H d raw now = Inr l \<Longrightarrow>
     l \<in> set (rows (links d)) \<and> lnk_token_hash l = H raw \<and> link_live now l"
  using link_token.load_Some by (fastforce simp: load_link_eq split: option.splits)

lemma is_unlocked_iff:
  "is_unlocked H l c \<longleftrightarrow> lnk_password l = None \<or> (\<exists>h. lnk_password l = Some h \<and> c = Some (H h) \<and> H h \<noteq> [])"
  by (auto simp: is_unlocked_def unlock_value_def split: option.splits)

subsection \<open>The table of shares\<close>

lemma shares_ok_iff:
  "shares_ok d \<longleftrightarrow> table_ok shr_id (shares d) \<and>
     (\<forall>s\<in>set (rows (shares d)). (shr_user s = None) \<noteq> (shr_email s = None) \<and>
        (\<forall>e\<in>set_option (shr_email s). e = str_lower e)) \<and>
     (\<forall>x\<in>set (rows (shares d)). \<forall>y\<in>set (rows (shares d)). shr_user x \<noteq> None \<longrightarrow>
        shr_recording x = shr_recording y \<longrightarrow> shr_user x = shr_user y \<longrightarrow> x = y) \<and>
     (\<forall>x\<in>set (rows (shares d)). \<forall>y\<in>set (rows (shares d)). shr_email x \<noteq> None \<longrightarrow>
        shr_recording x = shr_recording y \<longrightarrow> shr_email x = shr_email y \<longrightarrow> x = y)"
proof (cases "table_ok shr_id (shares d)")
  case True
  then have "distinct (rows (shares d))" by (auto simp: table_ok_def dest: distinct_keys)
  note D = distinct_filter_iff [OF this]
  have opt: "(case x of None \<Rightarrow> True | Some e \<Rightarrow> P e) \<longleftrightarrow> (\<forall>e\<in>set_option x. P e)" for x P
    by (cases x) auto
  show ?thesis
    unfolding shares_ok_def D opt by (auto simp: True)
qed (simp add: shares_ok_def)

lemma share_key: "shares_ok d \<Longrightarrow> x \<in> set (rows (shares d)) \<Longrightarrow> y \<in> set (rows (shares d)) \<Longrightarrow>
    shr_id x = shr_id y \<longleftrightarrow> x = y"
  unfolding shares_ok_iff using shr_tbl.same_key by blast

lemma share_user_unique: "shares_ok d \<Longrightarrow> x \<in> set (rows (shares d)) \<Longrightarrow> y \<in> set (rows (shares d)) \<Longrightarrow>
    shr_user x = Some v \<Longrightarrow> shr_user y = Some v \<Longrightarrow> shr_recording x = shr_recording y \<Longrightarrow> x = y"
  unfolding shares_ok_iff by (metis option.distinct(1))

lemma share_email_unique: "shares_ok d \<Longrightarrow> x \<in> set (rows (shares d)) \<Longrightarrow> y \<in> set (rows (shares d)) \<Longrightarrow>
    shr_email x = Some v \<Longrightarrow> shr_email y = Some v \<Longrightarrow> shr_recording x = shr_recording y \<Longrightarrow> x = y"
  unfolding shares_ok_iff by (metis option.distinct(1))

text \<open>What a person, or an address without an account, has been given on a recording.\<close>

definition share_level :: "db \<Rightarrow> nat \<Rightarrow> nat \<Rightarrow> perm" where
  "share_level d r v = (case share_permission_of d r (Some v) of None \<Rightarrow> NONE | Some p \<Rightarrow> SHARE_PERMS p)"

definition reserved_level :: "db \<Rightarrow> nat \<Rightarrow> string \<Rightarrow> perm" where
  "reserved_level d r e =
     (case scalar (\<lambda>s. shr_recording s = r \<and> shr_email s = Some e) (shares d) of
        None \<Rightarrow> NONE | Some s \<Rightarrow> SHARE_PERMS (shr_permission s))"

lemma share_level_row:
  assumes "shares_ok d" "x \<in> set (rows (shares d))" "shr_user x = Some v"
  shows "share_level d (shr_recording x) v = SHARE_PERMS (shr_permission x)"
proof -
  have "find (\<lambda>s. shr_recording s = shr_recording x \<and> shr_user s \<noteq> None \<and> shr_user s = Some v) (rows (shares d)) = Some x"
    using assms by (intro find_unique) (auto dest: share_user_unique)
  then show ?thesis by (simp add: share_level_def share_permission_of_def scalar_def)
qed

lemma share_level_none:
  "\<forall>x\<in>set (rows (shares d)). \<not> (shr_recording x = r \<and> shr_user x = Some v) \<Longrightarrow> share_level d r v = NONE"
proof -
  assume "\<forall>x\<in>set (rows (shares d)). \<not> (shr_recording x = r \<and> shr_user x = Some v)"
  then have "find (\<lambda>s. shr_recording s = r \<and> shr_user s \<noteq> None \<and> shr_user s = Some v) (rows (shares d)) = None"
    by (auto simp: find_None_iff)
  then show ?thesis by (simp add: share_level_def share_permission_of_def scalar_def)
qed

lemma reserved_level_row:
  assumes "shares_ok d" "x \<in> set (rows (shares d))" "shr_email x = Some e"
  shows "reserved_level d (shr_recording x) e = SHARE_PERMS (shr_permission x)"
proof -
  have "find (\<lambda>s. shr_recording s = shr_recording x \<and> shr_email s = Some e) (rows (shares d)) = Some x"
    using assms by (intro find_unique) (auto dest: share_email_unique)
  then show ?thesis by (simp add: reserved_level_def scalar_def)
qed

lemma reserved_level_none:
  "\<forall>x\<in>set (rows (shares d)). \<not> (shr_recording x = r \<and> shr_email x = Some e) \<Longrightarrow> reserved_level d r e = NONE"
proof -
  assume "\<forall>x\<in>set (rows (shares d)). \<not> (shr_recording x = r \<and> shr_email x = Some e)"
  then have "find (\<lambda>s. shr_recording s = r \<and> shr_email s = Some e) (rows (shares d)) = None"
    by (auto simp: find_None_iff)
  then show ?thesis by (simp add: reserved_level_def scalar_def)
qed

text \<open>A table whose rows for \<open>(r, v)\<close> are the same gives the same level.\<close>

lemma share_level_cong:
  assumes "shares_ok d" "shares_ok d'"
    and same: "\<And>x. shr_recording x = r \<Longrightarrow> shr_user x = Some v \<Longrightarrow>
      x \<in> set (rows (shares d')) \<longleftrightarrow> x \<in> set (rows (shares d))"
  shows "share_level d' r v = share_level d r v"
proof (cases "\<exists>x\<in>set (rows (shares d)). shr_recording x = r \<and> shr_user x = Some v")
  case True
  then obtain x where x: "x \<in> set (rows (shares d))" "shr_recording x = r" "shr_user x = Some v" by blast
  with same have "x \<in> set (rows (shares d'))" by blast
  with x share_level_row [OF assms(1) x(1,3)] share_level_row [OF assms(2) _ x(3)] show ?thesis by simp
next
  case False
  then have "\<not> (\<exists>x\<in>set (rows (shares d')). shr_recording x = r \<and> shr_user x = Some v)" using same by blast
  with False share_level_none show ?thesis by metis
qed

lemma reserved_level_cong:
  assumes "shares_ok d" "shares_ok d'"
    and same: "\<And>x. shr_recording x = r \<Longrightarrow> shr_email x = Some e \<Longrightarrow>
      x \<in> set (rows (shares d')) \<longleftrightarrow> x \<in> set (rows (shares d))"
  shows "reserved_level d' r e = reserved_level d r e"
proof (cases "\<exists>x\<in>set (rows (shares d)). shr_recording x = r \<and> shr_email x = Some e")
  case True
  then obtain x where x: "x \<in> set (rows (shares d))" "shr_recording x = r" "shr_email x = Some e" by blast
  with same have "x \<in> set (rows (shares d'))" by blast
  with x reserved_level_row [OF assms(1) x(1,3)] reserved_level_row [OF assms(2) _ x(3)] show ?thesis by simp
next
  case False
  then have "\<not> (\<exists>x\<in>set (rows (shares d')). shr_recording x = r \<and> shr_email x = Some e)" using same by blast
  with False reserved_level_none show ?thesis by metis
qed

text \<open>One reserved share becomes a share of the account: taken over when the account has none
  on that recording, merged into the one it has otherwise.\<close>

definition taken_over :: "user \<Rightarrow> share \<Rightarrow> share" where
  "taken_over u s = s\<lparr>shr_user := Some (usr_id u), shr_email := None\<rparr>"

definition merged :: "share \<Rightarrow> share \<Rightarrow> share" where
  "merged s e = (if shr_permission s = ShareEdit then e\<lparr>shr_permission := ShareEdit\<rparr> else e)"

lemma claim_share_rows:
  assumes ok: "shares_ok d" and s: "s \<in> set (rows (shares d))" "shr_email s \<noteq> None"
  obtains (taken) "\<forall>x\<in>set (rows (shares d)). \<not> (shr_recording x = shr_recording s \<and> shr_user x = Some (usr_id u))"
    "set (rows (shares (claim_share u s d))) = insert (taken_over u s) (set (rows (shares d)) - {s})"
  | (merge) e where "e \<in> set (rows (shares d))" "e \<noteq> s" "shr_recording e = shr_recording s"
    "shr_user e = Some (usr_id u)"
    "set (rows (shares (claim_share u s d))) = insert (merged s e) (set (rows (shares d)) - {s, e})"
proof -
  note key = share_key [OF ok]
  show thesis
  proof (cases "scalar (\<lambda>x. shr_recording x = shr_recording s \<and> shr_user x = Some (usr_id u)) (shares d)")
    case None
    let ?g = "\<lambda>x. if shr_id x = shr_id s then taken_over u x else x"
    have "rows (shares (claim_share u s d)) = map ?g (rows (shares d))"
      using None by (simp add: claim_share_def taken_over_def)
    moreover have "?g ` set (rows (shares d)) = insert (taken_over u s) (set (rows (shares d)) - {s})"
      using key [OF _ s(1)] s(1) by (auto simp: image_iff)
    ultimately have "set (rows (shares (claim_share u s d))) = insert (taken_over u s) (set (rows (shares d)) - {s})"
      by simp
    with None show thesis by (intro taken) (auto simp: scalar_None)
  next
    case (Some e)
    then have e: "e \<in> set (rows (shares d))" "shr_recording e = shr_recording s" "shr_user e = Some (usr_id u)"
      using scalar_Some [OF Some] by auto
    then have ne: "e \<noteq> s" using ok s by (auto simp: shares_ok_iff)
    let ?g = "\<lambda>x. if shr_permission s = ShareEdit \<and> shr_id x = shr_id e then x\<lparr>shr_permission := ShareEdit\<rparr> else x"
    have "rows (shares (claim_share u s d)) = filter (\<lambda>x. shr_id x \<noteq> shr_id s) (map ?g (rows (shares d)))"
      using Some by (simp add: claim_share_def Let_def)
    then have "set (rows (shares (claim_share u s d))) = {x \<in> ?g ` set (rows (shares d)). shr_id x \<noteq> shr_id s}"
      by (simp add: set_filter)
    moreover have "?g ` set (rows (shares d)) = insert (merged s e) (set (rows (shares d)) - {e})"
      using key [OF _ e(1)] e(1) by (auto simp: image_iff merged_def)
    moreover have "shr_id (merged s e) \<noteq> shr_id s" using key [OF e(1) s(1)] ne by (simp add: merged_def)
    ultimately have "set (rows (shares (claim_share u s d))) = insert (merged s e) (set (rows (shares d)) - {s, e})"
      using key [OF _ s(1)] by auto
    with e ne show thesis by (intro merge)
  qed
qed

lemma claim_share_table: "table_ok shr_id (shares d) \<Longrightarrow> table_ok shr_id (shares (claim_share u s d))"
  by (simp add: claim_share_def Let_def shr_tbl.update_ok shr_tbl.delete_ok split: option.split)

lemma claim_share_ok:
  assumes ok: "shares_ok d" and s: "s \<in> set (rows (shares d))" "shr_email s \<noteq> None"
  shows "shares_ok (claim_share u s d)"
proof -
  have t: "table_ok shr_id (shares (claim_share u s d))"
    using ok by (intro claim_share_table) (simp add: shares_ok_def)
  from ok s show ?thesis
  proof (cases rule: claim_share_rows [where u = u])
    case taken
    with ok s show ?thesis
      unfolding shares_ok_iff by (simp add: t) (auto simp: taken_over_def)
  next
    case (merge e)
    have m: "shr_user (merged s e) = shr_user e" "shr_email (merged s e) = shr_email e"
      "shr_recording (merged s e) = shr_recording e" by (simp_all add: merged_def)
    have ee: "shr_email e = None" using ok merge by (auto simp: shares_ok_iff)
    have u: "x = e" if "x \<in> set (rows (shares d))" "shr_user x = shr_user e" "shr_recording x = shr_recording e" for x
      using share_user_unique [OF ok that(1) merge(1)] that merge(4) by simp
    let ?S = "set (rows (shares d))"
    note O = ok [unfolded shares_ok_iff]
    have row: "(shr_user x = None) \<noteq> (shr_email x = None) \<and> (\<forall>e\<in>set_option (shr_email x). e = str_lower e)"
      if "x \<in> insert (merged s e) (?S - {s, e})" for x
      using that O by (auto simp: m ee merge(4))
    have own: "x \<in> ?S" "x \<noteq> e" "x \<noteq> s" if "x \<in> insert (merged s e) (?S - {s, e})" "x \<noteq> merged s e" for x
      using that by auto
    have us: "x = y" if x: "x \<in> insert (merged s e) (?S - {s, e})" and y: "y \<in> insert (merged s e) (?S - {s, e})"
      and v: "shr_user x \<noteq> None" "shr_recording x = shr_recording y" "shr_user x = shr_user y" for x y
    proof -
      consider "x = merged s e" "y = merged s e" | "x = merged s e" "y \<noteq> merged s e"
        | "x \<noteq> merged s e" "y = merged s e" | "x \<noteq> merged s e" "y \<noteq> merged s e" by blast
      then show ?thesis
      proof cases
        case 2
        then show ?thesis using u [of y] own [OF y] v m by simp
      next
        case 3
        then show ?thesis using u [of x] own [OF x] v m by simp
      next
        case 4
        obtain v where "shr_user x = Some v" "shr_user y = Some v" using v by auto
        with share_user_unique [OF ok own(1) [OF x] own(1) [OF y]] 4 v(2) show ?thesis by blast
      qed simp
    qed
    have em: "x = y" if x: "x \<in> insert (merged s e) (?S - {s, e})" and y: "y \<in> insert (merged s e) (?S - {s, e})"
      and e: "shr_email x \<noteq> None" "shr_recording x = shr_recording y" "shr_email x = shr_email y" for x y
    proof -
      have "x \<noteq> merged s e" "y \<noteq> merged s e" using e m(2) ee by auto
      moreover obtain v where "shr_email x = Some v" "shr_email y = Some v" using e by auto
      ultimately show ?thesis using share_email_unique [OF ok own(1) [OF x] own(1) [OF y]] e(2) by blast
    qed
    show ?thesis unfolding shares_ok_iff merge(5)
      by (intro conjI ballI impI t)
        ((rule row [THEN conjunct1]; assumption)
        | (rule row [THEN conjunct2, THEN bspec]; assumption) | (rule us; assumption) | (rule em; assumption))+
  qed
qed

lemma merged_level: "SHARE_PERMS (shr_permission (merged s e)) = max (SHARE_PERMS (shr_permission s)) (SHARE_PERMS (shr_permission e))"
  by (cases "shr_permission s"; cases "shr_permission e") (simp_all add: merged_def max_def)

lemma claim_share_levels:
  assumes ok: "shares_ok d" and s: "s \<in> set (rows (shares d))" "shr_email s = Some e"
  shows "share_level (claim_share u s d) r v =
      (if r = shr_recording s \<and> v = usr_id u
       then max (SHARE_PERMS (shr_permission s)) (share_level d r v) else share_level d r v)"
    and "reserved_level (claim_share u s d) r a =
      (if r = shr_recording s \<and> a = e then NONE else reserved_level d r a)"
    and "{x \<in> set (rows (shares (claim_share u s d))). shr_email x \<noteq> None} =
      {x \<in> set (rows (shares d)). shr_email x \<noteq> None} - {s}"
proof -
  let ?d = "claim_share u s d"
  have em: "shr_email s \<noteq> None" using s(2) by simp
  have ok': "shares_ok ?d" by (rule claim_share_ok [OF ok s(1) em])
  have su: "shr_user s = None" using ok s by (auto simp: shares_ok_iff)
  have all: "share_level ?d r v =
      (if r = shr_recording s \<and> v = usr_id u
       then max (SHARE_PERMS (shr_permission s)) (share_level d r v) else share_level d r v) \<and>
    {x \<in> set (rows (shares ?d)). shr_email x \<noteq> None} = {x \<in> set (rows (shares d)). shr_email x \<noteq> None} - {s}"
    using ok s(1) em
  proof (cases rule: claim_share_rows [where u = u])
    case taken
    have t: "taken_over u s \<in> set (rows (shares ?d))" using taken(2) by simp
    have "share_level ?d r v = share_level d r v" if "\<not> (r = shr_recording s \<and> v = usr_id u)"
      by (rule share_level_cong [OF ok ok']) (use that su in \<open>auto simp: taken(2) taken_over_def\<close>)
    moreover have "share_level d (shr_recording s) (usr_id u) = NONE"
      using taken(1) by (intro share_level_none) blast
    moreover have "share_level ?d (shr_recording s) (usr_id u) = SHARE_PERMS (shr_permission s)"
      using share_level_row [OF ok' t] by (simp add: taken_over_def)
    moreover have "shr_email (taken_over u s) = None" by (simp add: taken_over_def)
    ultimately show ?thesis by (auto simp: taken(2))
  next
    case (merge x)
    have xe: "shr_email x = None" using ok merge by (auto simp: shares_ok_iff)
    have t: "merged s x \<in> set (rows (shares ?d))" using merge(5) by simp
    have mu: "shr_user (merged s x) = Some (usr_id u)" "shr_recording (merged s x) = shr_recording s"
      "shr_email (merged s x) = None" using merge xe by (simp_all add: merged_def)
    have "share_level ?d r v = share_level d r v" if "\<not> (r = shr_recording s \<and> v = usr_id u)"
      by (rule share_level_cong [OF ok ok']) (use that su mu merge in \<open>auto simp: merge(5)\<close>)
    moreover have "share_level d (shr_recording s) (usr_id u) = SHARE_PERMS (shr_permission x)"
      using share_level_row [OF ok merge(1,4)] merge(3) by simp
    moreover have "share_level ?d (shr_recording s) (usr_id u) = SHARE_PERMS (shr_permission (merged s x))"
      using share_level_row [OF ok' t mu(1)] mu(2) by simp
    ultimately show ?thesis using xe mu by (auto simp: merge(5) merged_level)
  qed
  then show "share_level ?d r v =
      (if r = shr_recording s \<and> v = usr_id u
       then max (SHARE_PERMS (shr_permission s)) (share_level d r v) else share_level d r v)"
    and rows: "{x \<in> set (rows (shares ?d)). shr_email x \<noteq> None} = {x \<in> set (rows (shares d)). shr_email x \<noteq> None} - {s}"
    by blast+
  have mem: "x \<in> set (rows (shares ?d)) \<longleftrightarrow> x \<in> set (rows (shares d)) \<and> x \<noteq> s" if "shr_email x = Some b" for x b
    using rows that by blast
  show "reserved_level ?d r a = (if r = shr_recording s \<and> a = e then NONE else reserved_level d r a)"
  proof (cases "r = shr_recording s \<and> a = e")
    case True
    then have "\<forall>x\<in>set (rows (shares ?d)). \<not> (shr_recording x = r \<and> shr_email x = Some a)"
      using mem share_email_unique [OF ok _ s(1) _ s(2)] by blast
    with True show ?thesis by (simp add: reserved_level_none)
  next
    case False
    then have "reserved_level ?d r a = reserved_level d r a"
      by (intro reserved_level_cong [OF ok ok']) (use mem s(2) in auto)
    then show ?thesis unfolding if_not_P [OF False] .
  qed
qed

text \<open>All reserved shares of an address, each on its own recording.\<close>

definition listed_level :: "share list \<Rightarrow> nat \<Rightarrow> perm" where
  "listed_level ss r =
     (case find (\<lambda>s. shr_recording s = r) ss of None \<Rightarrow> NONE | Some s \<Rightarrow> SHARE_PERMS (shr_permission s))"

lemma listed_level_simps [simp]:
  "listed_level [] r = NONE"
  "listed_level (s # ss) r = (if shr_recording s = r then SHARE_PERMS (shr_permission s) else listed_level ss r)"
  by (simp_all add: listed_level_def)

lemma listed_level_none: "r \<notin> shr_recording ` set ss \<Longrightarrow> listed_level ss r = NONE"
  by (induction ss) auto

lemma claim_shares_levels:
  assumes "shares_ok d" "set ss \<subseteq> set (rows (shares d))" "\<forall>s\<in>set ss. shr_email s = Some e"
    and "distinct (map shr_recording ss)"
  shows "shares_ok (fold (claim_share u) ss d) \<and>
    share_level (fold (claim_share u) ss d) r v =
      (if v = usr_id u then max (listed_level ss r) (share_level d r v) else share_level d r v) \<and>
    reserved_level (fold (claim_share u) ss d) r a =
      (if a = e \<and> r \<in> shr_recording ` set ss then NONE else reserved_level d r a)"
  using assms
proof (induction ss arbitrary: d)
  case Nil
  then show ?case by simp
next
  case (Cons s ss)
  have s: "s \<in> set (rows (shares d))" "shr_email s = Some e" using Cons.prems by auto
  let ?d = "claim_share u s d"
  have ok': "shares_ok ?d" using claim_share_ok [OF Cons.prems(1) s(1)] s(2) by simp
  note L = claim_share_levels [OF Cons.prems(1) s, of u]
  have "set ss \<subseteq> set (rows (shares ?d))"
  proof
    fix x assume x: "x \<in> set ss"
    then have "x \<in> {x \<in> set (rows (shares d)). shr_email x \<noteq> None} - {s}"
      using Cons.prems by (auto simp: image_iff)
    then show "x \<in> set (rows (shares ?d))" using L(3) by blast
  qed
  then have I: "shares_ok (fold (claim_share u) ss ?d)"
    "share_level (fold (claim_share u) ss ?d) r v =
      (if v = usr_id u then max (listed_level ss r) (share_level ?d r v) else share_level ?d r v)"
    "reserved_level (fold (claim_share u) ss ?d) r a =
      (if a = e \<and> r \<in> shr_recording ` set ss then NONE else reserved_level ?d r a)"
    using Cons.IH [OF ok'] Cons.prems by simp_all
  have none: "listed_level ss (shr_recording s) = NONE"
    using Cons.prems(4) by (intro listed_level_none) simp
  have "share_level (fold (claim_share u) ss ?d) r v =
      (if v = usr_id u then max (listed_level (s # ss) r) (share_level d r v) else share_level d r v)"
    unfolding I(2) L(1) by (auto simp: none)
  moreover have "reserved_level (fold (claim_share u) ss ?d) r a =
      (if a = e \<and> r \<in> shr_recording ` set (s # ss) then NONE else reserved_level d r a)"
    unfolding I(3) L(2) by auto
  ultimately show ?case using I(1) by simp
qed

lemma claim_pending_shares: "shares (snd (claim_pending u now d)) =
    shares (fold (claim_share u) (select (\<lambda>s. shr_email s = Some (usr_email u)) (shares d)) d)"
  by (simp add: claim_pending_snd)

lemma share_level_of_shares: "shares d' = shares d \<Longrightarrow> share_level d' r v = share_level d r v"
  by (simp add: share_level_def share_permission_of_def)

lemma reserved_level_of_shares: "shares d' = shares d \<Longrightarrow> reserved_level d' r e = reserved_level d r e"
  by (simp add: reserved_level_def)

lemma claim_pending_levels:
  assumes ok: "shares_ok d"
  shows "shares_ok (snd (claim_pending u now d))"
    and "share_level (snd (claim_pending u now d)) r v =
      (if v = usr_id u then max (reserved_level d r (usr_email u)) (share_level d r v) else share_level d r v)"
    and "reserved_level (snd (claim_pending u now d)) r e =
      (if e = usr_email u then NONE else reserved_level d r e)"
proof -
  let ?ss = "select (\<lambda>s. shr_email s = Some (usr_email u)) (shares d)"
  let ?f = "fold (claim_share u) ?ss d"
  have "table_ok shr_id (shares d)" using ok by (simp add: shares_ok_def)
  then have "distinct (rows (shares d))" by (auto simp: table_ok_def dest: distinct_keys)
  then have dist: "distinct (map shr_recording ?ss)"
    unfolding select_def using share_email_unique [OF ok]
    by (simp add: distinct_filter_iff)
  have sub: "set ?ss \<subseteq> set (rows (shares d))" "\<forall>s\<in>set ?ss. shr_email s = Some (usr_email u)"
    by (auto simp: select_def)
  note L = claim_shares_levels [OF ok sub dist, where u = u]
  have listed: "listed_level ?ss r = reserved_level d r (usr_email u)" for r
  proof -
    have *: "find (\<lambda>s. shr_recording s = r) (filter (\<lambda>s. shr_email s = Some (usr_email u)) xs) =
        find (\<lambda>s. shr_recording s = r \<and> shr_email s = Some (usr_email u)) xs" for xs
      by (induction xs) auto
    show ?thesis unfolding listed_level_def reserved_level_def select_def scalar_def * ..
  qed
  note cl = claim_pending_shares [of u now d]
  show "shares_ok (snd (claim_pending u now d))" using L shares_ok_cong [OF cl] by blast
  show "share_level (snd (claim_pending u now d)) r v =
      (if v = usr_id u then max (reserved_level d r (usr_email u)) (share_level d r v) else share_level d r v)"
    unfolding share_level_of_shares [OF cl] using L listed by simp
  have "r \<notin> shr_recording ` set ?ss \<Longrightarrow> reserved_level d r (usr_email u) = NONE"
    by (rule reserved_level_none) (auto simp: select_def)
  then show "reserved_level (snd (claim_pending u now d)) r e =
      (if e = usr_email u then NONE else reserved_level d r e)"
    unfolding reserved_level_of_shares [OF cl] using L by auto
qed

lemma create_workspace_shares: "create_workspace d slug name kind qm qb pub = Inr (w, d') \<Longrightarrow> shares d' = shares d"
  by (auto simp: create_workspace_def Let_def split: sum.splits if_splits)

lemma make_home_shares: "make_home u qm qb dr d = Inr (w, d') \<Longrightarrow> shares d' = shares d"
  by (auto simp: make_home_def add_member_def split: option.splits sum.splits if_splits
      dest!: create_workspace_shares)

lemma approve_cases:
  assumes "approve u r qm qb dr now d = Inr d'"
  obtains d1 where "d' = snd (claim_pending u now d1)" "shares d1 = shares d"
proof -
  obtain d1 where e: "ensure_home_workspace u qm qb dr (review u UActive r now d) = Inr d1"
    and d': "d' = snd (claim_pending u now d1)"
    using assms by (auto simp: approve_def split: sum.splits)
  have "shares d1 = shares (review u UActive r now d)"
    using e by (auto simp: ensure_home_workspace_def split: if_splits sum.splits dest: make_home_shares)
  then have "shares d1 = shares d" by (simp add: review_def)
  with d' show thesis by (rule that)
qed

lemma share_le_resolve:
  assumes "has_own_access p" "pr_user p = Some v"
  shows "share_level d (rec_id r) v \<le> resolve_recording_perm d p r"
  using assms
  by (auto simp: resolve_recording_perm_def share_level_def Let_def has_own_access_def le_max_iff_disj
      split: option.split)

subsection \<open>Sharing changes one entry\<close>

lemma share_with_email_cases:
  assumes "share_with_email d r email permission author pub = Inr (s, d')"
  obtains p e target where "share_of permission = Some p" "valid_email email = Inr e"
    "target = scalar (\<lambda>u. usr_email u = e) (users d)"
    "(\<exists>x. find_share d (rec_id r) target e = Some x \<and> d' = set_permission (shr_id x) p d \<and>
        s = x\<lparr>shr_permission := p\<rparr>) \<or>
     (find_share d (rec_id r) target e = None \<and>
        s = \<lparr>shr_id = next_id (shares d), shr_public = pub, shr_recording = rec_id r,
             shr_user = map_option usr_id target,
             shr_email = (if target \<noteq> None then None else Some e), shr_permission = p,
             shr_created_by = map_option usr_id author\<rparr> \<and>
        d' = d\<lparr>shares := insert_row set_shr_id s (shares d)\<rparr>)"
proof -
  obtain p where p: "share_of permission = Some p"
    using assms by (cases "share_of permission") (simp_all add: share_with_email_def validate_permission_def)
  obtain e where e: "valid_email email = Inr e"
    using assms by (cases "valid_email email") (simp_all add: share_with_email_def validate_permission_def p)
  show thesis
    using assms
    by (intro that [OF p e refl]) (auto simp: share_with_email_def validate_permission_def p e Let_def
        split: if_splits option.splits)
qed

lemma set_permission_rows:
  assumes "shares_ok d" "x \<in> set (rows (shares d))"
  shows "set (rows (shares (set_permission (shr_id x) p d))) =
    insert (x\<lparr>shr_permission := p\<rparr>) (set (rows (shares d)) - {x})"
proof -
  have "(\<lambda>y. if shr_id y = shr_id x then y\<lparr>shr_permission := p\<rparr> else y) ` set (rows (shares d)) =
      insert (x\<lparr>shr_permission := p\<rparr>) (set (rows (shares d)) - {x})"
    using share_key [OF assms(1) _ assms(2)] assms(2) by (auto simp: image_iff)
  then show ?thesis by (simp add: set_permission_def del: if_image_distrib)
qed

lemma shares_okI:
  assumes "table_ok shr_id (shares d)"
    and "\<And>s. s \<in> set (rows (shares d)) \<Longrightarrow> (shr_user s = None) \<noteq> (shr_email s = None)"
    and "\<And>s e. s \<in> set (rows (shares d)) \<Longrightarrow> shr_email s = Some e \<Longrightarrow> e = str_lower e"
    and "\<And>x y v. x \<in> set (rows (shares d)) \<Longrightarrow> y \<in> set (rows (shares d)) \<Longrightarrow>
      shr_recording x = shr_recording y \<Longrightarrow> shr_user x = Some v \<Longrightarrow> shr_user y = Some v \<Longrightarrow> x = y"
    and "\<And>x y v. x \<in> set (rows (shares d)) \<Longrightarrow> y \<in> set (rows (shares d)) \<Longrightarrow>
      shr_recording x = shr_recording y \<Longrightarrow> shr_email x = Some v \<Longrightarrow> shr_email y = Some v \<Longrightarrow> x = y"
  shows "shares_ok d"
  unfolding shares_ok_iff
proof (intro conjI ballI impI)
  show "table_ok shr_id (shares d)" by fact
  fix x y assume x: "x \<in> set (rows (shares d))" and y: "y \<in> set (rows (shares d))"
    and r: "shr_recording x = shr_recording y"
  show "x = y" if u: "shr_user x \<noteq> None" "shr_user x = shr_user y"
    using assms(4) [OF x y r] u by (cases "shr_user x") auto
  show "x = y" if e: "shr_email x \<noteq> None" "shr_email x = shr_email y"
    using assms(5) [OF x y r] e by (cases "shr_email x") auto
qed (use assms(2,3) in auto)

text \<open>Writing the one row of a target: an insertion, or an update of the row it has.\<close>

definition same_target :: "share \<Rightarrow> share \<Rightarrow> bool" where
  "same_target x y \<longleftrightarrow> shr_recording x = shr_recording y \<and> shr_user x = shr_user y \<and> shr_email x = shr_email y"

lemma upsert_levels:
  assumes ok: "shares_ok d" and t: "table_ok shr_id (shares d')"
    and rows: "set (rows (shares d')) = insert y {x \<in> set (rows (shares d)). \<not> same_target x y}"
    and y: "(shr_user y = None) \<noteq> (shr_email y = None)" "\<And>e. shr_email y = Some e \<Longrightarrow> e = str_lower e"
  shows "shares_ok d'"
    and "share_level d' q v = (if q = shr_recording y \<and> shr_user y = Some v
      then SHARE_PERMS (shr_permission y) else share_level d q v)"
    and "reserved_level d' q a = (if q = shr_recording y \<and> shr_email y = Some a
      then SHARE_PERMS (shr_permission y) else reserved_level d q a)"
proof -
  have xor: "(shr_user x = None) \<noteq> (shr_email x = None)" "shr_email x = Some e \<Longrightarrow> e = str_lower e"
    if "x \<in> set (rows (shares d))" for x e
    using ok that by (auto simp: shares_ok_iff)
  have clash_u: "same_target x y" if "x \<in> set (rows (shares d))" "shr_recording x = shr_recording y"
    "shr_user x = Some w" "shr_user y = Some w" for x w
    using xor(1) [OF that(1)] y(1) that by (simp add: same_target_def)
  have clash_e: "same_target x y" if "x \<in> set (rows (shares d))" "shr_recording x = shr_recording y"
    "shr_email x = Some w" "shr_email y = Some w" for x w
    using xor(1) [OF that(1)] y(1) that by (simp add: same_target_def)
  show ok': "shares_ok d'"
  proof (rule shares_okI [OF t])
    fix x z w assume x: "x \<in> set (rows (shares d'))" and z: "z \<in> set (rows (shares d'))"
      and r: "shr_recording x = shr_recording z" and u: "shr_user x = Some w" "shr_user z = Some w"
    show "x = z"
      using x z r u clash_u [of x w] clash_u [of z w] share_user_unique [OF ok, of x z w]
      by (auto simp: rows)
  next
    fix x z w assume x: "x \<in> set (rows (shares d'))" and z: "z \<in> set (rows (shares d'))"
      and r: "shr_recording x = shr_recording z" and e: "shr_email x = Some w" "shr_email z = Some w"
    show "x = z"
      using x z r e clash_e [of x w] clash_e [of z w] share_email_unique [OF ok, of x z w]
      by (auto simp: rows)
  qed (use xor y in \<open>auto simp: rows\<close>)
  have yin: "y \<in> set (rows (shares d'))" by (simp add: rows)
  show "share_level d' q v = (if q = shr_recording y \<and> shr_user y = Some v
      then SHARE_PERMS (shr_permission y) else share_level d q v)"
  proof (cases "q = shr_recording y \<and> shr_user y = Some v")
    case True
    with share_level_row [OF ok' yin] show ?thesis by simp
  next
    case False
    then have "share_level d' q v = share_level d q v"
      by (intro share_level_cong [OF ok ok']) (auto simp: rows same_target_def)
    then show ?thesis unfolding if_not_P [OF False] .
  qed
  show "reserved_level d' q a = (if q = shr_recording y \<and> shr_email y = Some a
      then SHARE_PERMS (shr_permission y) else reserved_level d q a)"
  proof (cases "q = shr_recording y \<and> shr_email y = Some a")
    case True
    with reserved_level_row [OF ok' yin] show ?thesis by simp
  next
    case False
    then have "reserved_level d' q a = reserved_level d q a"
      by (intro reserved_level_cong [OF ok ok']) (auto simp: rows same_target_def)
    then show ?thesis unfolding if_not_P [OF False] .
  qed
qed

lemma valid_email_lower: "valid_email raw = Inr e \<Longrightarrow> e = str_lower e"
  by (auto simp: valid_email_def normalize_email_def Let_def split: if_splits)

lemma share_with_email_upserts:
  assumes ok: "shares_ok d" and done_: "share_with_email d r email permission author pub = Inr (s, d')"
  obtains p e where "share_of permission = Some p" "valid_email email = Inr e"
    "shr_recording s = rec_id r" "shr_permission s = p"
    "shr_user s = map_option usr_id (scalar (\<lambda>u. usr_email u = e) (users d))"
    "shr_email s = (if shr_user s = None then Some e else None)"
    "table_ok shr_id (shares d')"
    "set (rows (shares d')) = insert s {x \<in> set (rows (shares d)). \<not> same_target x s}"
proof -
  from done_ obtain p e target where p: "share_of permission = Some p" and e: "valid_email email = Inr e"
    and target: "target = scalar (\<lambda>u. usr_email u = e) (users d)"
    and how: "(\<exists>x. find_share d (rec_id r) target e = Some x \<and> d' = set_permission (shr_id x) p d \<and>
        s = x\<lparr>shr_permission := p\<rparr>) \<or>
     (find_share d (rec_id r) target e = None \<and>
        s = \<lparr>shr_id = next_id (shares d), shr_public = pub, shr_recording = rec_id r,
             shr_user = map_option usr_id target,
             shr_email = (if target \<noteq> None then None else Some e), shr_permission = p,
             shr_created_by = map_option usr_id author\<rparr> \<and>
        d' = d\<lparr>shares := insert_row set_shr_id s (shares d)\<rparr>)"
    by (rule share_with_email_cases)
  have t: "table_ok shr_id (shares d)" using ok by (simp add: shares_ok_def)
  have hit: "find_share d (rec_id r) target e = Some x \<Longrightarrow> x \<in> set (rows (shares d)) \<and>
      shr_recording x = rec_id r \<and> shr_user x = map_option usr_id target \<and>
      shr_email x = (if target = None then Some e else None)" for x
    using ok by (cases target) (auto simp: find_share_def shares_ok_iff dest!: scalar_Some)
  have miss: "find_share d (rec_id r) target e = None \<Longrightarrow> x \<in> set (rows (shares d)) \<Longrightarrow>
      \<not> (shr_recording x = rec_id r \<and> shr_user x = map_option usr_id target \<and>
         shr_email x = (if target = None then Some e else None))" for x
    by (cases target) (auto simp: find_share_def scalar_None)
  from how show thesis
  proof (elim disjE exE conjE)
    fix x assume x: "find_share d (rec_id r) target e = Some x" and d': "d' = set_permission (shr_id x) p d"
      and s: "s = x\<lparr>shr_permission := p\<rparr>"
    note X = hit [OF x]
    have "{y \<in> set (rows (shares d)). \<not> same_target y s} = set (rows (shares d)) - {x}"
    proof -
      have "same_target y s \<longleftrightarrow> y = x" if y: "y \<in> set (rows (shares d))" for y
      proof
        assume "same_target y s"
        then have "shr_recording y = shr_recording x" "shr_user y = shr_user x" "shr_email y = shr_email x"
          by (simp_all add: same_target_def s)
        with X share_user_unique [OF ok y, of x] share_email_unique [OF ok y, of x] show "y = x"
          by (cases target) auto
      qed (simp add: same_target_def s)
      then show ?thesis by blast
    qed
    moreover have "table_ok shr_id (shares d')" using t by (simp add: d' set_permission_def shr_tbl.update_ok)
    ultimately show thesis
      using X set_permission_rows [OF ok, of x p] by (intro that [OF p e]) (auto simp: d' s target)
  next
    assume none: "find_share d (rec_id r) target e = None"
      and s: "s = \<lparr>shr_id = next_id (shares d), shr_public = pub, shr_recording = rec_id r,
             shr_user = map_option usr_id target,
             shr_email = (if target \<noteq> None then None else Some e), shr_permission = p,
             shr_created_by = map_option usr_id author\<rparr>"
      and d': "d' = d\<lparr>shares := insert_row set_shr_id s (shares d)\<rparr>"
    have "\<not> same_target x s" if "x \<in> set (rows (shares d))" for x
      using miss [OF none that] by (auto simp: same_target_def s)
    then have "{x \<in> set (rows (shares d)). \<not> same_target x s} = set (rows (shares d))" by blast
    moreover have "set (rows (shares d')) = insert s (set (rows (shares d)))" by (simp add: d') (simp add: s)
    moreover have "table_ok shr_id (shares d')" using t by (simp add: d' shr_tbl.insert_ok)
    ultimately show thesis by (intro that [OF p e]) (simp_all add: s target)
  qed
qed

subsection \<open>Properties\<close>

text \<open>Sharing a recording sets exactly one entry: an address with an account gets exactly the
  permission given on that recording, an address without one gets it reserved, and no other
  person, address or recording changes. One row per recording and person is kept, so sharing
  again is an update.\<close>

theorem share_with_email_exact:
  assumes "shares_ok d" and "share_with_email d r email permission author pub = Inr (s, d')"
  shows "\<exists>p e. share_of permission = Some p \<and> valid_email email = Inr e \<and> shares_ok d' \<and>
    (case scalar (\<lambda>u. usr_email u = e) (users d) of
       Some u \<Rightarrow>
         (\<forall>q v. share_level d' q v =
            (if q = rec_id r \<and> v = usr_id u then SHARE_PERMS p else share_level d q v)) \<and>
         (\<forall>q a. reserved_level d' q a = reserved_level d q a)
     | None \<Rightarrow>
         (\<forall>q v. share_level d' q v = share_level d q v) \<and>
         (\<forall>q a. reserved_level d' q a =
            (if q = rec_id r \<and> a = e then SHARE_PERMS p else reserved_level d q a)))"
proof -
  obtain p e where p: "share_of permission = Some p" "valid_email email = Inr e"
    and s: "shr_recording s = rec_id r" "shr_permission s = p"
      "shr_user s = map_option usr_id (scalar (\<lambda>u. usr_email u = e) (users d))"
      "shr_email s = (if shr_user s = None then Some e else None)"
    and rows: "table_ok shr_id (shares d')"
      "set (rows (shares d')) = insert s {x \<in> set (rows (shares d)). \<not> same_target x s}"
    using assms by (rule share_with_email_upserts)
  have xor: "(shr_user s = None) \<noteq> (shr_email s = None)" using s(4) by simp
  have low: "\<And>a. shr_email s = Some a \<Longrightarrow> a = str_lower a"
    using s(4) valid_email_lower [OF p(2)] by (auto split: if_splits)
  note U = upsert_levels [OF assms(1) rows xor low]
  show ?thesis
  proof (cases "scalar (\<lambda>u. usr_email u = e) (users d)")
    case None
    with U s p show ?thesis by (intro exI [of _ p] exI [of _ e]) auto
  next
    case (Some u)
    with U s p show ?thesis by (intro exI [of _ p] exI [of _ e]) auto
  qed
qed

text \<open>A share made to an address before it had an account becomes effective exactly when the
  account is approved: the permission on every recording is then the higher of the reserved and
  the direct one, nothing stays reserved for the address, and nobody else gains or loses.\<close>

theorem reserved_share_counts_on_approval:
  assumes "shares_ok d" and "approve u reviewer qm qb dr now d = Inr d'"
  shows "share_level d' r (usr_id u) = max (reserved_level d r (usr_email u)) (share_level d r (usr_id u)) \<and>
    reserved_level d' r (usr_email u) = NONE \<and>
    (v \<noteq> usr_id u \<longrightarrow> share_level d' r v = share_level d r v) \<and>
    (a \<noteq> usr_email u \<longrightarrow> reserved_level d' r a = reserved_level d r a) \<and>
    (rec_id q = r \<longrightarrow> reserved_level d r (usr_email u) \<le>
       resolve_recording_perm d' (for_user (u\<lparr>usr_status := UActive\<rparr>)) q)"
proof -
  obtain d1 where d': "d' = snd (claim_pending u now d1)" and same: "shares d1 = shares d"
    using assms(2) by (rule approve_cases)
  have ok: "shares_ok d1" using assms(1) shares_ok_cong [OF same] by simp
  note L = claim_pending_levels [OF ok, of u now, folded d', unfolded share_level_of_shares [OF same]
      reserved_level_of_shares [OF same]]
  have "share_level d' (rec_id q) (usr_id u) \<le> resolve_recording_perm d' (for_user (u\<lparr>usr_status := UActive\<rparr>)) q"
    by (rule share_le_resolve) simp_all
  then show ?thesis using L(2,3) by (auto simp: le_max_iff_disj intro: order_trans)
qed

definition demo_tape :: recording where
  "demo_tape = \<lparr>rec_id = 1, rec_public = 30, rec_ws = 1, rec_created_by = Some 1, rec_source = Upload,
     rec_path = ''/u/a.m4a'', rec_path_current = True, rec_signature = None, rec_filename = ''a.m4a'',
     rec_size = 10, rec_partial_hash = ''p'', rec_content_hash = Some ''c'', rec_recorded_at = None,
     rec_duration = Some 60, rec_language = None, rec_title = None, rec_summary = None,
     rec_status = Done, rec_error = None, rec_stt_meta = SqlNull, rec_request = None,
     rec_request_started = None, rec_progress = None, rec_stage_started = None,
     rec_duplicate_of = None, rec_updated_at = 0\<rparr>"

definition demo_reserved :: db where
  "demo_reserved = demo_first\<lparr>recordings := \<lparr>rows = [demo_tape], next_id = 2\<rparr>,
     shares := \<lparr>rows = [\<lparr>shr_id = 1, shr_public = 40, shr_recording = 1, shr_user = None,
        shr_email = Some ''ann@x.io'', shr_permission = ShareEdit, shr_created_by = Some 1\<rparr>], next_id = 2\<rparr>\<rparr>"

lemma demo_shared: "share_with_email (demo_first\<lparr>recordings := \<lparr>rows = [demo_tape], next_id = 2\<rparr>\<rparr>) demo_tape
    ''Ann@x.io '' ''edit'' (Some demo_op) 40 = Inr (rows (shares demo_reserved) ! 0, demo_reserved)"
  by code_simp

theorem share_with_email_exact_witness:
  "reserved_level demo_reserved 1 ''ann@x.io'' = EDIT \<and> shares_ok demo_reserved"
proof -
  have 0: "shares_ok (demo_first\<lparr>recordings := \<lparr>rows = [demo_tape], next_id = 2\<rparr>\<rparr>)" by code_simp
  have 1: "share_of ''edit'' = Some ShareEdit" "valid_email ''Ann@x.io '' = Inr ''ann@x.io''" by code_simp+
  have 2: "scalar (\<lambda>u. usr_email u = ''ann@x.io'')
      (users (demo_first\<lparr>recordings := \<lparr>rows = [demo_tape], next_id = 2\<rparr>\<rparr>)) = None" by code_simp
  from share_with_email_exact [OF 0 demo_shared] show ?thesis
    using 1 2 by (auto simp: demo_tape_def)
qed

theorem reserved_share_counts_on_approval_witness:
  "\<exists>d'. approve demo_ann (Some 1) None None demo_draws 9 (demo_office\<lparr>shares := shares demo_reserved\<rparr>) = Inr d' \<and>
     share_level d' 1 2 = EDIT"
proof -
  let ?d = "demo_office\<lparr>shares := shares demo_reserved\<rparr>"
  have 0: "shares_ok ?d" by code_simp
  have "is_ok (approve demo_ann (Some 1) None None demo_draws 9 ?d)" by code_simp
  then obtain d' where a: "approve demo_ann (Some 1) None None demo_draws 9 ?d = Inr d'" by (auto simp: is_ok_iff)
  have "reserved_level ?d 1 (usr_email demo_ann) = EDIT" "share_level ?d 1 (usr_id demo_ann) = NONE"
    "usr_id demo_ann = 2" by code_simp+
  with reserved_share_counts_on_approval [OF 0 a, of 1] a show ?thesis by (intro exI [of _ d']) simp
qed

end
