(* ===== verification/Settings_Env.thy ===== *)
theory Settings_Env
  imports Ingest
begin

text \<open>
  \<open>config.py\<close>: the settings of a process from its environment and the \<open>.env\<close> file, and
  the configurations that are refused. The environment is an association list; \<open>expand\<close>
  is \<open>Path.expanduser\<close> and \<open>resolve\<close> the resolved parts of a path (symbolic links
  followed), both functions of the file system. Spellings outside Latin-1 are left out.
\<close>

subsection \<open>Strings of the environment\<close>

fun split_on :: "char \<Rightarrow> string \<Rightarrow> string list" where
  "split_on c [] = [[]]"
| "split_on c (x # s) =
     (if x = c then [] # split_on c s
      else case split_on c s of [] \<Rightarrow> [[x]] | p # ps \<Rightarrow> (x # p) # ps)"

definition line_break :: "char \<Rightarrow> bool" where
  "line_break c \<longleftrightarrow> (let n = code c in (10 \<le> n \<and> n \<le> 13) \<or> (28 \<le> n \<and> n \<le> 30) \<or> n = 133)"

text \<open>\<open>str.splitlines\<close>: a carriage return and line feed are one break.\<close>

fun lines_of :: "string \<Rightarrow> string list" where
  "lines_of [] = []"
| "lines_of (c # s) =
     (if line_break c
      then [] # (if code c = 13 \<and> s \<noteq> [] \<and> code (hd s) = 10 then lines_of (tl s) else lines_of s)
      else case lines_of s of [] \<Rightarrow> [[c]] | l # ls \<Rightarrow> (c # l) # ls)"

definition strip_quotes :: "string \<Rightarrow> string" where
  "strip_quotes s =
     (let q = (\<lambda>c. code c = 39 \<or> code c = 34) in rev (dropWhile q (rev (dropWhile q s))))"

text \<open>\<open>int(raw)\<close>: white space around, a sign, digits with single underscores between.\<close>

definition digit_value :: "char \<Rightarrow> int option" where
  "digit_value c = (let n = code c in if 48 \<le> n \<and> n \<le> 57 then Some (int n - 48) else None)"

fun int_digits :: "int \<Rightarrow> string \<Rightarrow> int option" where
  "int_digits acc [] = Some acc"
| "int_digits acc (c # s) =
     (case digit_value c of
        Some v \<Rightarrow> int_digits (10 * acc + v) s
      | None \<Rightarrow>
          if c = CHR ''_'' \<and> s \<noteq> [] \<and> digit_value (hd s) \<noteq> None then int_digits acc s else None)"

definition unsigned_int :: "string \<Rightarrow> int option" where
  "unsigned_int s = (if s = [] \<or> digit_value (hd s) = None then None else int_digits 0 s)"

definition py_int :: "string \<Rightarrow> int option" where
  "py_int raw =
     (case str_strip raw of
        [] \<Rightarrow> None
      | c # s \<Rightarrow>
          if c = CHR ''-'' then map_option uminus (unsigned_int s)
          else if c = CHR ''+'' then unsigned_int s
          else unsigned_int (c # s))"

subsection \<open>Settings\<close>

record settings =
  cfg_database_url :: string
  cfg_audio_dirs :: "string list"
  cfg_runner_url :: string
  cfg_runner_upload :: bool
  cfg_stt_model :: "string option"
  cfg_stt_language :: "string option"
  cfg_cors_origins :: "string list"
  cfg_upload_dir :: "string option"
  cfg_default_workspace :: "string option"
  cfg_cookie_name :: string
  cfg_cookie_secure :: bool
  cfg_cookie_domain :: "string option"
  cfg_auto_approve :: bool
  cfg_console_dir :: "string option"
  cfg_quota_minutes :: "int option"
  cfg_quota_bytes :: "int option"
  cfg_expose_docs :: bool
  cfg_max_upload :: int
  cfg_enrich_backend :: string
  cfg_ollama_url :: string
  cfg_ollama_model :: string

type_synonym env = "(string \<times> string) list"

text \<open>\<open>e.get(key) or default\<close> and \<open>e.get(key) or None\<close>.\<close>

definition env_or :: "env \<Rightarrow> string \<Rightarrow> string \<Rightarrow> string" where
  "env_or e key deflt = (case map_of e key of None \<Rightarrow> deflt | Some v \<Rightarrow> if v = [] then deflt else v)"

definition env_opt :: "env \<Rightarrow> string \<Rightarrow> string option" where
  "env_opt e key = (case map_of e key of None \<Rightarrow> None | Some v \<Rightarrow> if v = [] then None else Some v)"

datatype config_error = NoDatabase | Overlap string string | WildcardOrigin | BadQuota string | NotAnInteger

definition flag :: "env \<Rightarrow> string \<Rightarrow> bool \<Rightarrow> bool" where
  "flag e key deflt =
     (case env_opt e key of
        None \<Rightarrow> deflt
      | Some raw \<Rightarrow> str_lower (str_strip raw) \<in> set [''1'', ''true'', ''yes'', ''on''])"

definition quota_setting :: "env \<Rightarrow> string \<Rightarrow> int \<Rightarrow> (config_error, int option) result" where
  "quota_setting e key deflt =
     (let raw = str_strip (env_or e key [])
      in if raw = [] then Inr (Some deflt)
         else if str_lower raw \<in> set [''unlimited'', ''none''] then Inr None
         else case py_int raw of
                None \<Rightarrow> Inl NotAnInteger
              | Some v \<Rightarrow> if v \<le> 0 then Inl (BadQuota key) else Inr (Some v))"

definition gb_to_bytes :: "int option \<Rightarrow> int option" where
  "gb_to_bytes gb = map_option (\<lambda>n. n * 1024 * 1024 * 1024) gb"

definition overlapping :: "(string \<Rightarrow> string list) \<Rightarrow> string \<Rightarrow> string \<Rightarrow> bool" where
  "overlapping resolve up dir \<longleftrightarrow> (let u = resolve up; b = resolve dir in u = b \<or> relative_to u b \<or> relative_to b u)"

definition reject_overlap ::
  "(string \<Rightarrow> string list) \<Rightarrow> string list \<Rightarrow> string option \<Rightarrow> (config_error, unit) result" where
  "reject_overlap resolve dirs upload =
     (case upload of
        None \<Rightarrow> Inr ()
      | Some up \<Rightarrow>
          (case find (overlapping resolve up) dirs of None \<Rightarrow> Inr () | Some x \<Rightarrow> Inl (Overlap up x)))"

text \<open>One line of \<open>.env\<close> sets a key that is not set yet.\<close>

definition dotenv_line :: "string \<Rightarrow> env \<Rightarrow> env" where
  "dotenv_line raw e =
     (let line = str_strip raw
      in if line = [] \<or> hd line = CHR ''#'' \<or> CHR ''='' \<notin> set line then e
         else let key = str_strip (str_before (CHR ''='') line);
                  val = tl (dropWhile (\<lambda>c. c \<noteq> CHR ''='') line)
              in if key = [] \<or> map_of e key \<noteq> None then e
                 else e @ [(key, strip_quotes (str_strip val))])"

definition load_dotenv :: "string option \<Rightarrow> env \<Rightarrow> env" where
  "load_dotenv file_text e = (case file_text of None \<Rightarrow> e | Some t \<Rightarrow> fold dotenv_line (lines_of t) e)"

definition load_settings ::
  "(string \<Rightarrow> string list) \<Rightarrow> (string \<Rightarrow> string) \<Rightarrow> string option \<Rightarrow> env \<Rightarrow> (config_error, settings) result" where
  "load_settings resolve expand dotenv env0 =
     (let e = load_dotenv dotenv env0;
          dirs = map expand (filter (\<lambda>p. p \<noteq> []) (split_on (CHR '':'') (env_or e ''AUDIO_DIRS'' [])));
          upload = map_option expand (env_opt e ''UPLOAD_DIR'');
          origins = filter (\<lambda>x. x \<noteq> []) (map str_strip
            (split_on (CHR '','') (env_or e ''CORS_ORIGINS'' ''http://localhost:5173'')))
      in case env_opt e ''DATABASE_URL'' of
           None \<Rightarrow> Inl NoDatabase
         | Some url \<Rightarrow>
             (case reject_overlap resolve dirs upload of
                Inl x \<Rightarrow> Inl x
              | Inr _ \<Rightarrow>
                  if ''*'' \<in> set origins then Inl WildcardOrigin
                  else (case quota_setting e ''DEFAULT_MONTHLY_MINUTES'' 600 of
                          Inl x \<Rightarrow> Inl x
                        | Inr qm \<Rightarrow>
                            (case quota_setting e ''DEFAULT_STORAGE_GB'' 20 of
                               Inl x \<Rightarrow> Inl x
                             | Inr gb \<Rightarrow>
                                 (case py_int (env_or e ''MAX_UPLOAD_MB'' ''4096'') of
                                    None \<Rightarrow> Inl NotAnInteger
                                  | Some mb \<Rightarrow> Inr
                                      \<lparr>cfg_database_url = url, cfg_audio_dirs = dirs,
                                       cfg_runner_url = env_or e ''RUNNER_URL'' ''http://localhost:8100'',
                                       cfg_runner_upload =
                                         (str_lower (env_or e ''RUNNER_UPLOAD'' []) \<in> set [''1'', ''true'', ''yes'']),
                                       cfg_stt_model = env_opt e ''STT_MODEL'',
                                       cfg_stt_language = env_opt e ''STT_LANGUAGE'',
                                       cfg_cors_origins = origins, cfg_upload_dir = upload,
                                       cfg_default_workspace = env_opt e ''DEFAULT_WORKSPACE'',
                                       cfg_cookie_name = env_or e ''COOKIE_NAME'' ''soriham_session'',
                                       cfg_cookie_secure = flag e ''COOKIE_SECURE'' True,
                                       cfg_cookie_domain = env_opt e ''COOKIE_DOMAIN'',
                                       cfg_auto_approve = flag e ''AUTO_APPROVE'' False,
                                       cfg_console_dir = map_option expand (env_opt e ''CONSOLE_DIR''),
                                       cfg_quota_minutes = qm, cfg_quota_bytes = gb_to_bytes gb,
                                       cfg_expose_docs = flag e ''EXPOSE_DOCS'' False,
                                       cfg_max_upload = mb * 1024 * 1024,
                                       cfg_enrich_backend = env_or e ''ENRICH_BACKEND'' ''ollama'',
                                       cfg_ollama_url = env_or e ''OLLAMA_URL'' ''http://localhost:11434'',
                                       cfg_ollama_model = env_or e ''OLLAMA_MODEL'' ''qwen3:8b''\<rparr>)))))"

subsection \<open>What a process that starts can rely on\<close>

lemma quota_setting_pos: "quota_setting e key n = Inr (Some v) \<Longrightarrow> 0 < n \<Longrightarrow> 0 < v"
  by (auto simp: quota_setting_def Let_def split: if_splits option.splits)

lemma relative_to_iff: "relative_to p base \<longleftrightarrow> (\<exists>rest. p = base @ rest)"
  by (metis append_eq_conv_conj relative_to_def)

text \<open>Two folders with a common descendant: one is in the other.\<close>

lemma relative_to_linear:
  assumes "relative_to p a" "relative_to p b"
  shows "relative_to a b \<or> relative_to b a"
proof (cases "length a \<le> length b")
  case True
  then have "take (length a) b = take (length a) (take (length b) p)" using assms(2) by (simp add: relative_to_def)
  with assms(1) True show ?thesis by (simp add: relative_to_def min_def)
next
  case False
  then have "take (length b) a = take (length b) (take (length a) p)" using assms(1) by (simp add: relative_to_def)
  with assms(2) False show ?thesis by (simp add: relative_to_def min_def)
qed

lemma load_settings_Inr:
  assumes "load_settings resolve expand dotenv env0 = Inr s"
  shows "reject_overlap resolve (cfg_audio_dirs s) (cfg_upload_dir s) = Inr ()"
    and "''*'' \<notin> set (cfg_cors_origins s)"
    and "\<forall>q\<in>set_option (cfg_quota_minutes s). 0 < q" "\<forall>q\<in>set_option (cfg_quota_bytes s). 0 < q"
    and "cfg_database_url s \<noteq> []"
proof -
  define e where "e = load_dotenv dotenv env0"
  define dirs where "dirs = map expand (filter (\<lambda>p. p \<noteq> []) (split_on (CHR '':'') (env_or e ''AUDIO_DIRS'' [])))"
  define upload where "upload = map_option expand (env_opt e ''UPLOAD_DIR'')"
  define origins where "origins = filter (\<lambda>x. x \<noteq> []) (map str_strip
    (split_on (CHR '','') (env_or e ''CORS_ORIGINS'' ''http://localhost:5173'')))"
  note a = assms [unfolded load_settings_def Let_def, folded e_def, folded dirs_def upload_def origins_def]
  obtain url where url: "env_opt e ''DATABASE_URL'' = Some url"
    using a by (cases "env_opt e ''DATABASE_URL''") simp_all
  obtain v where ov: "reject_overlap resolve dirs upload = Inr v"
    using a url by (cases "reject_overlap resolve dirs upload") simp_all
  have star: "''*'' \<notin> set origins" using a url ov by (cases "''*'' \<in> set origins") simp_all
  obtain qm where qm: "quota_setting e ''DEFAULT_MONTHLY_MINUTES'' 600 = Inr qm"
    using a url ov star by (cases "quota_setting e ''DEFAULT_MONTHLY_MINUTES'' 600") simp_all
  obtain gb where gb: "quota_setting e ''DEFAULT_STORAGE_GB'' 20 = Inr gb"
    using a url ov star qm by (cases "quota_setting e ''DEFAULT_STORAGE_GB'' 20") simp_all
  obtain mb where mb: "py_int (env_or e ''MAX_UPLOAD_MB'' ''4096'') = Some mb"
    using a url ov star qm gb by (cases "py_int (env_or e ''MAX_UPLOAD_MB'' ''4096'')") simp_all
  have f: "cfg_database_url s = url" "cfg_audio_dirs s = dirs" "cfg_upload_dir s = upload"
    "cfg_cors_origins s = origins" "cfg_quota_minutes s = qm" "cfg_quota_bytes s = gb_to_bytes gb"
    using a url ov star qm gb mb by auto
  show "reject_overlap resolve (cfg_audio_dirs s) (cfg_upload_dir s) = Inr ()" using ov by (simp add: f)
  show "''*'' \<notin> set (cfg_cors_origins s)" by (simp add: f star)
  show "\<forall>q\<in>set_option (cfg_quota_minutes s). 0 < q" using qm quota_setting_pos by (cases qm) (auto simp: f)
  show "\<forall>q\<in>set_option (cfg_quota_bytes s). 0 < q"
    using gb quota_setting_pos by (cases gb) (auto simp: f gb_to_bytes_def)
  show "cfg_database_url s \<noteq> []" using url by (auto simp: f env_opt_def split: option.splits if_splits)
qed


definition demo_env :: env where
  "demo_env = [(''DATABASE_URL'', ''pg''), (''UPLOAD_DIR'', ''/up''), (''AUDIO_DIRS'', ''/a:/b''),
     (''DEFAULT_MONTHLY_MINUTES'', ''30'')]"


end
