(* ===== verification/Requests.thy ===== *)
theory Requests
  imports Sharing Settings_Env Ratelimit
begin

text \<open>
  \<open>deps.py\<close>: what every route goes through. A request carries its cookies and headers;
  \<open>current_principal\<close> turns the session cookie into a caller and commits the touch of the
  session before the route runs. The guards read the database and either pass or answer
  with an HTTP error. A route is a function from the caller and the database to its answer
  and the database that is committed; \<open>transaction\<close> is the request's own session, which is
  rolled back when an exception leaves the route. All reads of the clock within a request
  are one moment. The locale \<open>hidden_resource\<close> is the contract of the two ways to get a
  row from an id in the path.
\<close>

subsection \<open>Answers\<close>

text \<open>The texts of the answers, one constructor each, by the module that gives them.\<close>

datatype access_text =
  LoginRequired | AccountPending | AccountRejected | AccountDisabled | AccountUnusable
  | NotFound | OriginRefused | RequestExpired | NoWorkspace | NoRecording | TooMany

datatype account_text =
  ShortPassword | EmptyName | EmailInUse | BadLogin | WrongPassword | NoSuchStatus | OwnAccount
  | NoAccount | BadAccountStatus member_reason

datatype sharing_text =
  ShareRefused share_reason | NoShare | EmptyPassword | ShortLinkPassword | NoLink | LinkGone
  | PasswordRequired | BadLinkPassword | AudioNotAllowed

datatype team_text =
  AdminsOnly | NoMember | BadMember member_reason | BadInviteToken | NoInvite | SlugRefused | SlugTaken | EmptyTeamName

datatype recording_text =
  NoUploads | UploadForbidden | NoFileName | BadFormat string | FileTooLarge int | EmptyFile | OverQuota
  | AlreadyRegistered string uuid | NoUploadPath | NoAudio | OnlyFailed | EmptySpeaker | EmptyTag | StatsForbidden

datatype detail =
  Access access_text | Account account_text | Opened sharing_text | Teams team_text | Media recording_text

datatype http_error = Http nat detail | Unhandled

subsection \<open>Requests and callers\<close>

record request =
  rq_method :: string
  rq_cookies :: "(string \<times> string) list"
  rq_headers :: "(string \<times> string) list"
  rq_self :: string
  rq_ip :: "string option"
  rq_now :: time

definition CSRF_HEADER :: string where "CSRF_HEADER = ''x-csrf-token''"
definition SAFE_METHODS :: "string list" where "SAFE_METHODS = [''GET'', ''HEAD'', ''OPTIONS'']"

definition cookie :: "request \<Rightarrow> string \<Rightarrow> string option" where
  "cookie rq k = map_of (rq_cookies rq) k"

definition header :: "request \<Rightarrow> string \<Rightarrow> string option" where
  "header rq k = map_of (rq_headers rq) k"

text \<open>\<open>not x\<close> of an optional string.\<close>

definition absent :: "string option \<Rightarrow> bool" where
  "absent s \<longleftrightarrow> s = None \<or> s = Some []"

record caller =
  ca_principal :: principal
  ca_user :: "user option"
  ca_session :: "user_session option"

definition nobody :: caller where
  "nobody = \<lparr>ca_principal = anonymous, ca_user = None, ca_session = None\<rparr>"

definition current_principal :: "(string \<Rightarrow> string) \<Rightarrow> settings \<Rightarrow> request \<Rightarrow> db \<Rightarrow> caller \<times> db" where
  "current_principal H cfg rq d =
     (case cookie rq (cfg_cookie_name cfg) of
        None \<Rightarrow> (nobody, d)
      | Some raw \<Rightarrow>
          if raw = [] then (nobody, d)
          else case load_session H d raw (rq_now rq) of
                 None \<Rightarrow> (nobody, d)
               | Some s \<Rightarrow>
                   (case get_user d (ses_user s) of
                      None \<Rightarrow> (nobody, d)
                    | Some u \<Rightarrow>
                        (\<lparr>ca_principal = for_user u, ca_user = Some u, ca_session = Some s\<rparr>,
                         snd (touch_session d s (rq_now rq)))))"

subsection \<open>Guards\<close>

fun status_message :: "user_status \<Rightarrow> detail" where
  "status_message UPending = Access AccountPending"
| "status_message URejected = Access AccountRejected"
| "status_message UDisabled = Access AccountDisabled"
| "status_message UActive = Access AccountUnusable"

definition require_user :: "caller \<Rightarrow> (http_error, user) result" where
  "require_user c =
     (case ca_user c of
        None \<Rightarrow> Inl (Http 401 (Access LoginRequired))
      | Some u \<Rightarrow> if \<not> is_authenticated (ca_principal c) then Inl (Http 401 (Access LoginRequired)) else Inr u)"

definition require_active :: "caller \<Rightarrow> (http_error, user) result" where
  "require_active c =
     (case require_user c of
        Inl e \<Rightarrow> Inl e
      | Inr u \<Rightarrow> if usr_status u \<noteq> UActive then Inl (Http 403 (status_message (usr_status u))) else Inr u)"

definition require_service_admin :: "caller \<Rightarrow> (http_error, user) result" where
  "require_service_admin c =
     (case require_active c of
        Inl e \<Rightarrow> Inl e
      | Inr u \<Rightarrow> if \<not> usr_service_admin u then Inl (Http 404 (Access NotFound)) else Inr u)"

definition require_known_origin :: "settings \<Rightarrow> request \<Rightarrow> (http_error, unit) result" where
  "require_known_origin cfg rq =
     (case header rq ''origin'' of
        None \<Rightarrow> Inr ()
      | Some origin \<Rightarrow>
          if origin = [] then Inr ()
          else if origin = rq_self rq then Inr ()
          else if origin \<notin> set (cfg_cors_origins cfg) then Inl (Http 403 (Access OriginRefused))
          else Inr ())"

definition require_csrf :: "request \<Rightarrow> caller \<Rightarrow> (http_error, unit) result" where
  "require_csrf rq c =
     (case require_user c of
        Inl e \<Rightarrow> Inl e
      | Inr _ \<Rightarrow>
          if rq_method rq \<in> set SAFE_METHODS then Inr ()
          else
            let sent = header rq CSRF_HEADER
            in case ca_session c of
                 None \<Rightarrow> Inl (Http 403 (Access RequestExpired))
               | Some s \<Rightarrow>
                   if absent sent \<or> sent \<noteq> Some (ses_csrf s) then Inl (Http 403 (Access RequestExpired)) else Inr ())"

definition find_ws_public :: "db \<Rightarrow> uuid \<Rightarrow> workspace option" where
  "find_ws_public d pub = scalar (\<lambda>w. ws_public w = pub) (workspaces d)"

definition find_rec_public :: "db \<Rightarrow> uuid \<Rightarrow> recording option" where
  "find_rec_public d pub = scalar (\<lambda>r. rec_public r = pub) (recordings d)"

definition workspace_ctx :: "caller \<Rightarrow> db \<Rightarrow> uuid \<Rightarrow> (http_error, workspace \<times> perm) result" where
  "workspace_ctx c d pub =
     (case require_active c of
        Inl e \<Rightarrow> Inl e
      | Inr _ \<Rightarrow>
          (case find_ws_public d pub of
             None \<Rightarrow> Inl (Http 404 (Access NoWorkspace))
           | Some w \<Rightarrow>
               let p = resolve_workspace_perm d (ca_principal c) (ws_id w)
               in if p < VIEW then Inl (Http 404 (Access NoWorkspace)) else Inr (w, p)))"

definition blocked_status :: "db \<Rightarrow> principal \<Rightarrow> user_status option" where
  "blocked_status d p =
     (case pr_user p of
        None \<Rightarrow> None
      | Some i \<Rightarrow>
          (case get_user d i of
             None \<Rightarrow> None
           | Some u \<Rightarrow> if usr_status u = UActive then None else Some (usr_status u)))"

definition recording_at :: "perm \<Rightarrow> caller \<Rightarrow> db \<Rightarrow> uuid \<Rightarrow> (http_error, recording) result" where
  "recording_at need c d pub =
     (if \<not> is_authenticated (ca_principal c) then Inl (Http 401 (Access LoginRequired))
      else case blocked_status d (ca_principal c) of
             Some st \<Rightarrow> Inl (Http 403 (status_message st))
           | None \<Rightarrow>
               (case find_rec_public d pub of
                  None \<Rightarrow> Inl (Http 404 (Access NoRecording))
                | Some r \<Rightarrow>
                    if resolve_recording_perm d (ca_principal c) r < need then Inl (Http 404 (Access NoRecording))
                    else Inr r))"

text \<open>\<open>order_by(Workspace.name)\<close>: the order of names is the database's collation.\<close>

definition user_workspaces :: "(string \<Rightarrow> nat) \<Rightarrow> db \<Rightarrow> user \<Rightarrow> workspace list" where
  "user_workspaces collate d u =
     sort_key (\<lambda>w. collate (ws_name w))
       (select (\<lambda>w. \<exists>m\<in>set (rows (members d)). mem_ws m = ws_id w \<and> mem_user m = usr_id u) (workspaces d))"

subsection \<open>The transaction of a request\<close>

definition transaction :: "db \<Rightarrow> (http_error, 'a \<times> db) result \<Rightarrow> (http_error, 'a) result \<times> db" where
  "transaction d r = (case r of Inl e \<Rightarrow> (Inl e, d) | Inr (x, d') \<Rightarrow> (Inr x, d'))"

lemma transaction_simps [simp]:
  "transaction d (Inl e) = (Inl e, d)" "transaction d (Inr (x, d')) = (Inr x, d')"
  by (simp_all add: transaction_def)

lemma transaction_changed: "snd (transaction d r) \<noteq> d \<Longrightarrow> \<exists>x. r = Inr (x, snd (transaction d r))"
  by (cases r) (auto simp: transaction_def)

subsection \<open>Callers\<close>

lemma nobody_simps [simp]:
  "ca_principal nobody = anonymous" "ca_user nobody = None" "ca_session nobody = None"
  by (simp_all add: nobody_def)

lemma is_authenticated_simps [simp]: "is_authenticated (for_user u)" "\<not> is_authenticated anonymous"
  by (simp_all add: is_authenticated_def anonymous_def)

text \<open>A caller is either nobody, and nothing was touched, or the account of a live session.\<close>

definition called_by :: "(string \<Rightarrow> string) \<Rightarrow> settings \<Rightarrow> request \<Rightarrow> db \<Rightarrow> user \<Rightarrow> user_session \<Rightarrow> bool" where
  "called_by H cfg rq d u s \<longleftrightarrow>
     (\<exists>raw. cookie rq (cfg_cookie_name cfg) = Some raw \<and> raw \<noteq> [] \<and>
        load_session H d raw (rq_now rq) = Some s) \<and> get_user d (ses_user s) = Some u"

lemma current_principal_cases:
  obtains (nobody) "current_principal H cfg rq d = (nobody, d)"
  | (account) u s where "called_by H cfg rq d u s"
      "current_principal H cfg rq d =
        (\<lparr>ca_principal = for_user u, ca_user = Some u, ca_session = Some s\<rparr>, snd (touch_session d s (rq_now rq)))"
proof (cases "\<exists>u s. called_by H cfg rq d u s")
  case True
  then obtain u s where c: "called_by H cfg rq d u s" by blast
  then show thesis by (intro account) (auto simp: called_by_def current_principal_def)
next
  case False
  then show thesis
    by (intro nobody) (auto simp: called_by_def current_principal_def split: option.splits)
qed

lemma touch_frame: "snd (touch_session d s now) = d\<lparr>user_sessions := user_sessions (snd (touch_session d s now))\<rparr>"
  by (simp add: touch_session_def)

lemma touch_same_tables [simp]:
  "users (snd (touch_session d s now)) = users d"
  "workspaces (snd (touch_session d s now)) = workspaces d"
  "members (snd (touch_session d s now)) = members d"
  "shares (snd (touch_session d s now)) = shares d"
  "links (snd (touch_session d s now)) = links d"
  "recordings (snd (touch_session d s now)) = recordings d"
  "attempts (snd (touch_session d s now)) = attempts d"
  "invites (snd (touch_session d s now)) = invites d"
  by (simp_all add: touch_session_def)

lemma current_principal_frame:
  "snd (current_principal H cfg rq d) = d\<lparr>user_sessions := user_sessions (snd (current_principal H cfg rq d))\<rparr>"
  by (rule current_principal_cases [of H cfg rq d]) (simp_all, metis touch_frame)

text \<open>Permissions do not depend on the session table.\<close>

lemma perm_cong:
  assumes "members d' = members d" "shares d' = shares d"
  shows "resolve_recording_perm d' p r = resolve_recording_perm d p r"
    and "resolve_workspace_perm d' p w = resolve_workspace_perm d p w"
  using assms by (simp_all add: resolve_recording_perm_def resolve_workspace_perm_def member_role_def
      share_permission_of_def)

lemma perm_touched [simp]:
  "resolve_recording_perm (snd (touch_session d s now)) p r = resolve_recording_perm d p r"
  "resolve_workspace_perm (snd (touch_session d s now)) p w = resolve_workspace_perm d p w"
  by (rule perm_cong; simp)+

subsection \<open>What a guard lets through\<close>

lemma require_user_Inr: "require_user c = Inr u \<longleftrightarrow> ca_user c = Some u \<and> is_authenticated (ca_principal c)"
  by (auto simp: require_user_def split: option.splits)

lemma require_active_Inr:
  "require_active c = Inr u \<longleftrightarrow> ca_user c = Some u \<and> is_authenticated (ca_principal c) \<and> usr_status u = UActive"
  by (auto simp: require_active_def require_user_def split: option.splits)

lemma require_service_admin_Inr:
  "require_service_admin c = Inr u \<longleftrightarrow> require_active c = Inr u \<and> usr_service_admin u"
  by (auto simp: require_service_admin_def split: sum.splits)

definition csrf_matches :: "request \<Rightarrow> user_session \<Rightarrow> bool" where
  "csrf_matches rq s \<longleftrightarrow> ses_csrf s \<noteq> [] \<and> header rq CSRF_HEADER = Some (ses_csrf s)"

lemma require_csrf_Inr:
  assumes "rq_method rq \<notin> set SAFE_METHODS"
  shows "require_csrf rq c = Inr x \<longleftrightarrow>
    (\<exists>u s. require_user c = Inr u \<and> ca_session c = Some s \<and> csrf_matches rq s)"
  using assms by (auto simp: require_csrf_def absent_def csrf_matches_def Let_def split: sum.splits option.splits)

text \<open>
  A lookup by an id of the path that hides what the caller may not see: a refusal of the
  caller comes before the lookup, and a row out of reach is answered like one that does
  not exist.
\<close>

locale hidden_resource =
  fixes admit :: "'c \<Rightarrow> 'd \<Rightarrow> 'e option"
    and find_row :: "'d \<Rightarrow> 'k \<Rightarrow> 'r option"
    and allowed :: "'c \<Rightarrow> 'd \<Rightarrow> 'r \<Rightarrow> bool"
    and fetch :: "'c \<Rightarrow> 'd \<Rightarrow> 'k \<Rightarrow> ('e, 'x) result"
    and absent_answer :: 'e
  assumes fetch_refused: "admit c d = Some e \<Longrightarrow> fetch c d k = Inl e"
    and fetch_absent: "admit c d = None \<Longrightarrow> find_row d k = None \<Longrightarrow> fetch c d k = Inl absent_answer"
    and fetch_forbidden: "admit c d = None \<Longrightarrow> find_row d k = Some r \<Longrightarrow> \<not> allowed c d r \<Longrightarrow>
      fetch c d k = Inl absent_answer"
    and fetch_reached: "admit c d = None \<Longrightarrow> find_row d k = Some r \<Longrightarrow> allowed c d r \<Longrightarrow>
      is_ok (fetch c d k)"
begin

definition reachable_row :: "'c \<Rightarrow> 'd \<Rightarrow> 'k \<Rightarrow> bool" where
  "reachable_row c d k \<longleftrightarrow> (case find_row d k of None \<Rightarrow> False | Some r \<Rightarrow> allowed c d r)"

lemma no_probe:
  assumes "\<not> reachable_row c d k" "find_row d k' = None"
  shows "fetch c d k = fetch c d k'"
  using assms fetch_refused fetch_absent fetch_forbidden
  by (cases "admit c d"; cases "find_row d k") (auto simp: reachable_row_def)

lemma fetch_ok_iff: "is_ok (fetch c d k) \<longleftrightarrow> admit c d = None \<and> reachable_row c d k"
  using fetch_refused [of c d] fetch_absent [of c d k] fetch_forbidden [of c d k] fetch_reached [of c d k]
  by (cases "admit c d"; cases "find_row d k"; cases "allowed c d (the (find_row d k))")
    (auto simp: reachable_row_def)

end

definition recording_admits :: "caller \<Rightarrow> db \<Rightarrow> http_error option" where
  "recording_admits c d =
     (if \<not> is_authenticated (ca_principal c) then Some (Http 401 (Access LoginRequired))
      else map_option (\<lambda>st. Http 403 (status_message st)) (blocked_status d (ca_principal c)))"

definition workspace_admits :: "caller \<Rightarrow> db \<Rightarrow> http_error option" where
  "workspace_admits c d = (case require_active c of Inl e \<Rightarrow> Some e | Inr _ \<Rightarrow> None)"

interpretation rec_hidden: hidden_resource recording_admits find_rec_public
  "\<lambda>c d r. need \<le> resolve_recording_perm d (ca_principal c) r" "recording_at need" "Http 404 (Access NoRecording)"
  for need
  by unfold_locales (auto simp: recording_admits_def recording_at_def not_less split: if_splits option.splits)

interpretation ws_hidden: hidden_resource workspace_admits find_ws_public
  "\<lambda>c d w. VIEW \<le> resolve_workspace_perm d (ca_principal c) (ws_id w)" workspace_ctx "Http 404 (Access NoWorkspace)"
  by unfold_locales (auto simp: workspace_admits_def workspace_ctx_def Let_def split: sum.splits option.splits)

lemma recording_at_Inr:
  "recording_at need c d pub = Inr r \<longleftrightarrow> recording_admits c d = None \<and> find_rec_public d pub = Some r \<and>
     need \<le> resolve_recording_perm d (ca_principal c) r"
  by (auto simp: recording_at_def recording_admits_def not_less not_le split: option.splits)

lemma workspace_ctx_Inr:
  "workspace_ctx c d pub = Inr (w, p) \<longleftrightarrow> is_ok (require_active c) \<and> find_ws_public d pub = Some w \<and>
     p = resolve_workspace_perm d (ca_principal c) (ws_id w) \<and> p \<noteq> NONE"
  by (auto simp: workspace_ctx_def Let_def is_ok_iff split: sum.splits option.splits if_splits)

end
