(* ===== verification/Audio_Files.thy ===== *)
theory Audio_Files
  imports Settings_Env
begin

text \<open>
  The files behind recordings: \<open>storage.py\<close> (which file may be read), \<open>media.py\<close> (the
  bytes of a response), \<open>uploads.py\<close> (the name and place of an upload) and
  \<open>app.console_file\<close>. What the file system answers is an argument: \<open>resolve\<close> for the
  parts of a resolved path, \<open>is_file\<close>, the reads of an open file. A disk is the map from
  paths to contents.
\<close>

subsection \<open>Which file may be read\<close>

definition WORKSPACE_DIRNAME :: string where "WORKSPACE_DIRNAME = ''w''"

definition hex_char :: "nat \<Rightarrow> char" where
  "hex_char n = (if n < 10 then char_of (48 + n) else char_of (87 + n))"

definition uuid_hex :: "uuid \<Rightarrow> string" where
  "uuid_hex n = map (\<lambda>k. hex_char ((n div 16 ^ (31 - k)) mod 16)) [0..<32]"

definition workspace_upload_dir :: "string \<Rightarrow> uuid \<Rightarrow> string" where
  "workspace_upload_dir up pub = up @ ''/'' @ WORKSPACE_DIRNAME @ ''/'' @ uuid_hex pub"

datatype audio_unavailable = ContentReplaced | NoUploadDir | OutsideRoots | NoSuchFile

definition audio_roots ::
  "(string \<Rightarrow> string list) \<Rightarrow> recording_source \<Rightarrow> uuid \<Rightarrow> string option \<Rightarrow> string list \<Rightarrow>
   (audio_unavailable, string list list) result" where
  "audio_roots resolve source pub upload audio_dirs =
     (case source of
        Upload \<Rightarrow>
          (case upload of
             None \<Rightarrow> Inl NoUploadDir
           | Some up \<Rightarrow> Inr [resolve (workspace_upload_dir up pub)])
      | Scan \<Rightarrow> Inr (map resolve audio_dirs))"

definition resolve_audio_path ::
  "(string \<Rightarrow> string list) \<Rightarrow> (string list \<Rightarrow> bool) \<Rightarrow> string \<Rightarrow> recording_source \<Rightarrow> uuid \<Rightarrow> string option \<Rightarrow>
   string list \<Rightarrow> bool \<Rightarrow> (audio_unavailable, string list) result" where
  "resolve_audio_path resolve is_file stored source pub upload audio_dirs path_current =
     (if \<not> path_current then Inl ContentReplaced
      else
        let real = resolve stored
        in case audio_roots resolve source pub upload audio_dirs of
             Inl e \<Rightarrow> Inl e
           | Inr roots \<Rightarrow>
               if roots = [] \<or> \<not> (\<exists>r\<in>set roots. real = r \<or> relative_to real r) then Inl OutsideRoots
               else if \<not> is_file real then Inl NoSuchFile
               else Inr real)"

definition console_file ::
  "(string \<Rightarrow> string list) \<Rightarrow> (string list \<Rightarrow> bool) \<Rightarrow> string \<Rightarrow> string \<Rightarrow> string list option" where
  "console_file resolve is_file base_dir path =
     (if path = [] then None
      else
        let base = resolve base_dir; candidate = resolve (base_dir @ ''/'' @ path)
        in if \<not> is_file candidate \<or> \<not> relative_to candidate base then None else Some candidate)"

subsection \<open>The bytes of a response\<close>

definition CHUNK_SIZE :: int where "CHUNK_SIZE = 1024 * 256"

definition MEDIA_TYPES :: "(string \<times> string) list" where
  "MEDIA_TYPES =
     [(''.wav'', ''audio/wav''), (''.mp3'', ''audio/mpeg''), (''.m4a'', ''audio/mp4''), (''.aac'', ''audio/aac''),
      (''.flac'', ''audio/flac''), (''.ogg'', ''audio/ogg''), (''.opus'', ''audio/ogg''),
      (''.wma'', ''audio/x-ms-wma''), (''.amr'', ''audio/amr'')]"

definition media_type :: "string \<Rightarrow> string" where
  "media_type path =
     (case map_of MEDIA_TYPES (str_lower (path_suffix path)) of
        None \<Rightarrow> ''application/octet-stream'' | Some t \<Rightarrow> t)"

text \<open>\<open>s.partition(c)\<close> without the separator.\<close>

definition str_after :: "char \<Rightarrow> string \<Rightarrow> string" where
  "str_after c s = tl (dropWhile (\<lambda>x. x \<noteq> c) s)"

text \<open>The range of a header for a file of the given size, \<open>None\<close> where the code raises
  \<open>ValueError\<close>.\<close>

definition range_bounds :: "int \<Rightarrow> string \<Rightarrow> (int \<times> int) option" where
  "range_bounds len header =
     (let unit = str_before (CHR ''='') header;
          spec = str_strip (str_after (CHR ''='') header);
          start_s = str_before (CHR ''-'') spec;
          end_s = str_after (CHR ''-'') spec
      in if str_lower (str_strip unit) \<noteq> ''bytes'' then None
         else if start_s \<noteq> []
         then (case py_int start_s of
                 None \<Rightarrow> None
               | Some a \<Rightarrow> if end_s \<noteq> [] then map_option (Pair a) (py_int end_s) else Some (a, len - 1))
         else map_option (\<lambda>n. (max 0 (len - n), len - 1)) (py_int end_s))"

definition parse_range :: "int \<Rightarrow> string \<Rightarrow> (int \<times> int) option" where
  "parse_range len header =
     (case range_bounds len header of
        None \<Rightarrow> None
      | Some (a, b) \<Rightarrow> if b < a \<or> len \<le> a then None else Some (a, min b (len - 1)))"

text \<open>An opened file: its signature, the hash of its bytes and its signature after hashing.\<close>

record open_view =
  ov_signature :: signature
  ov_hash :: "string option"
  ov_after :: "signature option"

text \<open>A response with the size for status 416, or a stream of the bytes \<open>a..b\<close> checked
  against a signature.\<close>

datatype audio_reply = Gone | BadRange int | Bytes nat int int signature

definition identity_holds :: "open_view \<Rightarrow> string option \<Rightarrow> int list option \<Rightarrow> bool" where
  "identity_holds v expected_hash expected_signature \<longleftrightarrow>
     expected_signature = Some (sig_list (ov_signature v)) \<or>
     (expected_hash \<noteq> None \<and> ov_hash v = expected_hash \<and> ov_after v = Some (ov_signature v))"

definition range_response ::
  "open_view option \<Rightarrow> string option \<Rightarrow> string option \<Rightarrow> int list option \<Rightarrow> bool \<Rightarrow> audio_reply" where
  "range_response opened range_header expected_hash expected_signature verify =
     (case opened of
        None \<Rightarrow> Gone
      | Some v \<Rightarrow>
          if verify \<and> \<not> identity_holds v expected_hash expected_signature then Gone
          else
            let len = sig_size (ov_signature v)
            in case range_header of
                 None \<Rightarrow> Bytes 200 0 (len - 1) (ov_signature v)
               | Some h \<Rightarrow>
                   if h = [] then Bytes 200 0 (len - 1) (ov_signature v)
                   else case parse_range len h of
                          None \<Rightarrow> BadRange len
                        | Some (a, b) \<Rightarrow> Bytes 206 a b (ov_signature v))"

text \<open>One turn of \<open>_iter_stream\<close>: the chunk read, the signature after the read, and what
  hashing the whole file again gives.\<close>

record stream_turn =
  st_chunk :: "nat list"
  st_now :: signature
  st_digest :: string
  st_after :: signature

fun iter_stream :: "int \<Rightarrow> signature \<Rightarrow> string option \<Rightarrow> stream_turn list \<Rightarrow> stream_turn list" where
  "iter_stream remaining sg expected [] = []"
| "iter_stream remaining sg expected (t # ts) =
     (if remaining \<le> 0 \<or> st_chunk t = [] then []
      else if st_now t = sg
      then t # iter_stream (remaining - int (length (st_chunk t))) sg expected ts
      else if expected = None \<or> expected \<noteq> Some (st_digest t) \<or> st_after t \<noteq> st_now t then []
      else t # iter_stream (remaining - int (length (st_chunk t))) (st_after t) expected ts)"

subsection \<open>Names of uploads\<close>

definition MAX_NAME_BYTES :: nat where "MAX_NAME_BYTES = 200"
definition STALE_AGE_SEC :: int where "STALE_AGE_SEC = 3600"

text \<open>UTF-8: one byte below 128, two up to 255; a cut in the middle of a character drops it.\<close>

definition char_bytes :: "char \<Rightarrow> nat" where
  "char_bytes c = (if code c < 128 then 1 else 2)"

definition utf8_len :: "string \<Rightarrow> nat" where
  "utf8_len s = sum_list (map char_bytes s)"

fun take_bytes :: "nat \<Rightarrow> string \<Rightarrow> string" where
  "take_bytes n [] = []"
| "take_bytes n (c # s) = (if char_bytes c \<le> n then c # take_bytes (n - char_bytes c) s else [])"

definition path_stem :: "string \<Rightarrow> string" where
  "path_stem name = take (length name - length (path_suffix name)) name"

definition shorten :: "string \<Rightarrow> string" where
  "shorten name =
     (if utf8_len name \<le> MAX_NAME_BYTES then name
      else
        let suffix = take_bytes (MAX_NAME_BYTES div 2) (path_suffix name);
            stem = take_bytes (MAX_NAME_BYTES - utf8_len suffix) (path_stem name)
        in (if stem = [] then ''audio'' else stem) @ suffix)"

definition last_part :: "string \<Rightarrow> string" where
  "last_part p =
     (case filter (\<lambda>x. x \<noteq> [] \<and> x \<noteq> ''.'') (path_parts p) of [] \<Rightarrow> [] | x # xs \<Rightarrow> last (x # xs))"

definition safe_filename :: "string option \<Rightarrow> string option" where
  "safe_filename raw =
     (case raw of
        None \<Rightarrow> None
      | Some s \<Rightarrow>
          if s = [] \<or> (\<exists>c\<in>set s. code c = 0) then None
          else
            let name = str_strip (last_part (map (\<lambda>c. if code c = 92 then CHR ''/'' else c) s))
            in if name = [] \<or> name = ''.'' \<or> name = ''..'' then None else Some (shorten name))"

subsection \<open>Receiving and placing an upload\<close>

datatype upload_error = UploadTooLarge | UploadEmpty

text \<open>The stream is its reads up to the first empty one; a failure leaves no file.\<close>

fun receive :: "int \<Rightarrow> int \<Rightarrow> string list \<Rightarrow> (upload_error, string) result" where
  "receive max_bytes written [] = (if written = 0 then Inl UploadEmpty else Inr [])"
| "receive max_bytes written (c # cs) =
     (if c = [] then (if written = 0 then Inl UploadEmpty else Inr [])
      else
        let n = written + int (length c)
        in if max_bytes < n then Inl UploadTooLarge
           else case receive max_bytes n cs of Inl e \<Rightarrow> Inl e | Inr rest \<Rightarrow> Inr (c @ rest))"

type_synonym disk = "string \<Rightarrow> string option"

definition stage_upload :: "int \<Rightarrow> string list \<Rightarrow> string \<Rightarrow> disk \<Rightarrow> (upload_error, unit) result \<times> disk" where
  "stage_upload max_bytes reads dest disk =
     (case receive max_bytes 0 reads of
        Inl e \<Rightarrow> (Inl e, disk(dest := None))
      | Inr content \<Rightarrow> (Inr (), disk(dest := Some content)))"

fun show_nat :: "nat \<Rightarrow> string" where
  "show_nat n = (if n < 10 then [char_of (48 + n)] else show_nat (n div 10) @ [char_of (48 + n mod 10)])"

declare show_nat.simps [simp del]

definition numbered :: "string \<Rightarrow> nat \<Rightarrow> string" where
  "numbered name n = path_stem name @ ''-'' @ show_nat n @ path_suffix name"

text \<open>The loop of \<open>_unique_path\<close>, with the number of attempts as fuel.\<close>

fun next_free :: "nat \<Rightarrow> (string \<Rightarrow> bool) \<Rightarrow> string \<Rightarrow> string \<Rightarrow> nat \<Rightarrow> string option" where
  "next_free 0 unavailable dir name n = None"
| "next_free (Suc k) unavailable dir name n =
     (let p = dir @ ''/'' @ numbered name n
      in if unavailable p then next_free k unavailable dir name (Suc n) else Some p)"

definition unique_path :: "nat \<Rightarrow> (string \<Rightarrow> bool) \<Rightarrow> string \<Rightarrow> string \<Rightarrow> string option" where
  "unique_path fuel unavailable dir name =
     (let p = dir @ ''/'' @ name
      in if unavailable p then next_free fuel unavailable dir name 2 else Some p)"

text \<open>\<open>finalize\<close>; \<open>month\<close> is the formatted month of the recording.\<close>

definition finalize ::
  "nat \<Rightarrow> string \<Rightarrow> string \<Rightarrow> string \<Rightarrow> string \<Rightarrow> (string \<Rightarrow> bool) \<Rightarrow> disk \<Rightarrow> (string \<times> disk) option" where
  "finalize fuel staged base_dir month name taken disk =
     (case unique_path fuel (\<lambda>p. disk p \<noteq> None \<or> taken p) (base_dir @ ''/'' @ month) name of
        None \<Rightarrow> None
      | Some dest \<Rightarrow> Some (dest, disk(staged := None, dest := disk staged)))"

text \<open>Clearing what interrupted uploads left: \<open>staged\<close> gives the modification time of the
  files of the staging folder.\<close>

definition cleanup_staging :: "(string \<times> int) list \<Rightarrow> int \<Rightarrow> disk \<Rightarrow> disk" where
  "cleanup_staging staged now disk =
     fold (\<lambda>(p, mtime) d. if mtime < now - STALE_AGE_SEC then d(p := None) else d) staged disk"

subsection \<open>Decimal numbers\<close>

lemma digit_value_char: "n < 10 \<Longrightarrow> digit_value (char_of (48 + n)) = Some (int n)"
  by (simp add: digit_value_def Let_def)

lemma digit_values_append:
  "\<forall>c\<in>set xs. digit_value c \<noteq> None \<Longrightarrow>
     int_digits acc (xs @ ys) = (case int_digits acc xs of None \<Rightarrow> None | Some v \<Rightarrow> int_digits v ys)"
  by (induction xs arbitrary: acc) (auto split: option.split)

lemma show_nat_digits: "c \<in> set (show_nat n) \<Longrightarrow> digit_value c \<noteq> None"
proof (induction n arbitrary: c rule: show_nat.induct)
  case (1 n)
  then show ?case
    by (subst (asm) show_nat.simps) (auto simp: digit_value_char split: if_splits)
qed

lemma show_nat_not_Nil [simp]: "show_nat n \<noteq> []"
  by (subst show_nat.simps) simp

lemma int_digits_show_nat: "int_digits 0 (show_nat n) = Some (int n)"
proof (induction n rule: show_nat.induct)
  case (1 n)
  show ?case
  proof (cases "n < 10")
    case True
    then show ?thesis by (subst show_nat.simps) (simp add: digit_value_char)
  next
    case False
    have "int_digits 0 (show_nat n) = int_digits (int (n div 10)) [char_of (48 + n mod 10)]"
      using False 1 show_nat_digits [of _ "n div 10"]
      by (subst show_nat.simps) (simp add: digit_values_append)
    also have "\<dots> = Some (10 * int (n div 10) + int (n mod 10))" by (simp add: digit_value_char)
    also have "10 * int (n div 10) + int (n mod 10) = int n"
      by (metis mult_div_mod_eq of_nat_add of_nat_mult of_nat_numeral)
    finally show ?thesis .
  qed
qed

lemma show_nat_inject: "show_nat m = show_nat n \<longleftrightarrow> m = n"
  by (metis int_digits_show_nat of_nat_eq_iff option.inject)

lemma digit_not_space: "digit_value c \<noteq> None \<Longrightarrow> \<not> py_space c"
  by (auto simp: digit_value_def py_space_def Let_def split: if_splits)

lemma digit_not_sign: "digit_value c \<noteq> None \<Longrightarrow> c \<noteq> CHR ''-'' \<and> c \<noteq> CHR ''+'' \<and> c \<noteq> CHR ''=''"
  by (auto simp: digit_value_def Let_def code_def split: if_splits)

lemma py_int_show_nat: "py_int (show_nat n) = Some (int n)"
proof -
  obtain c s where cs: "show_nat n = c # s" using show_nat_not_Nil by (meson list.exhaust)
  have "stripped (show_nat n)"
    using show_nat_digits [of _ n] digit_not_space by (auto simp: stripped_def)
  then have "str_strip (show_nat n) = c # s" by (simp add: str_strip_id cs)
  moreover have "digit_value c \<noteq> None" using show_nat_digits [of c n] cs by simp
  moreover have "int_digits 0 (c # s) = Some (int n)" using int_digits_show_nat [of n] cs by simp
  ultimately show ?thesis using digit_not_sign [of c] by (simp add: py_int_def unsigned_int_def)
qed

subsection \<open>Ranges\<close>

lemma unsigned_int_nonneg: "unsigned_int s = Some v \<Longrightarrow> 0 \<le> v"
proof -
  have "0 \<le> acc \<Longrightarrow> int_digits acc s = Some v \<Longrightarrow> 0 \<le> v" for acc s v
  proof (induction acc s rule: int_digits.induct)
    case (2 acc c s)
    then show ?case
      by (auto simp: digit_value_def Let_def split: option.splits if_splits)
  qed simp
  then show "unsigned_int s = Some v \<Longrightarrow> 0 \<le> v" by (auto simp: unsigned_int_def split: if_splits)
qed

lemma str_strip_set: "set (str_strip s) \<subseteq> set s"
  unfolding str_strip_def by (auto dest!: set_dropWhileD)

lemma py_int_nonneg:
  assumes "CHR ''-'' \<notin> set s" "py_int s = Some v"
  shows "0 \<le> v"
proof (cases "str_strip s")
  case Nil
  with assms show ?thesis by (simp add: py_int_def)
next
  case (Cons c t)
  then have "c \<noteq> CHR ''-''" using assms(1) str_strip_set [of s] by auto
  with assms(2) Cons show ?thesis
    by (auto simp: py_int_def unsigned_int_nonneg split: if_splits)
qed

lemma str_before_not: "c \<notin> set (str_before c s)"
  unfolding str_before_def by (metis (mono_tags) set_takeWhileD)

lemma parse_range_bounds:
  assumes "parse_range len header = Some (a, b)"
  shows "0 \<le> a \<and> a \<le> b \<and> b < len"
proof -
  obtain b' where r: "range_bounds len header = Some (a, b')" and ab: "a \<le> b'" "a < len" "b = min b' (len - 1)"
    using assms by (auto simp: parse_range_def split: option.splits if_splits)
  have "0 \<le> a"
    using r str_before_not py_int_nonneg
    by (auto simp: range_bounds_def Let_def split: if_splits option.splits)
  with ab show ?thesis by auto
qed

lemma before_append: "c \<notin> set xs \<Longrightarrow> str_before c (xs @ c # ys) = xs"
  by (auto simp: str_before_def takeWhile_append)

lemma after_append: "c \<notin> set xs \<Longrightarrow> str_after c (xs @ c # ys) = ys"
  by (auto simp: str_after_def dropWhile_append)

lemma parse_range_show:
  "parse_range len (''bytes='' @ show_nat a @ ''-'' @ show_nat b) =
     (if a \<le> b \<and> int a < len then Some (int a, min (int b) (len - 1)) else None)"
proof -
  let ?spec = "show_nat a @ CHR ''-'' # show_nat b"
  have h: "''bytes='' @ show_nat a @ ''-'' @ show_nat b = ''bytes'' @ CHR ''='' # ?spec" by simp
  have unit: "str_before (CHR ''='') (''bytes'' @ CHR ''='' # ?spec) = ''bytes''"
    "str_after (CHR ''='') (''bytes'' @ CHR ''='' # ?spec) = ?spec"
    by (rule before_append, simp) (rule after_append, simp)
  have "hd ?spec \<in> set (show_nat a)" "last ?spec \<in> set (show_nat b)" by simp_all
  then have "stripped ?spec"
    using show_nat_digits digit_not_space unfolding stripped_def by blast
  then have strip: "str_strip ?spec = ?spec" by (rule str_strip_id)
  have nd: "CHR ''-'' \<notin> set (show_nat a)" using show_nat_digits digit_not_sign by blast
  have parts: "str_before (CHR ''-'') ?spec = show_nat a" "str_after (CHR ''-'') ?spec = show_nat b"
    by (simp_all only: before_append [OF nd] after_append [OF nd])
  have bytes: "str_lower (str_strip ''bytes'') = ''bytes''" by code_simp
  have "range_bounds len (''bytes='' @ show_nat a @ ''-'' @ show_nat b) = Some (int a, int b)"
    unfolding range_bounds_def Let_def h unit strip parts
    by (simp add: bytes py_int_show_nat)
  then show ?thesis unfolding parse_range_def by auto
qed

subsection \<open>Names and places\<close>

lemma utf8_len_simps [simp]:
  "utf8_len [] = 0" "utf8_len (c # s) = char_bytes c + utf8_len s" "utf8_len (s @ t) = utf8_len s + utf8_len t"
  by (simp_all add: utf8_len_def)

lemma char_bytes_range: "1 \<le> char_bytes c" "char_bytes c \<le> 2"
  by (simp_all add: char_bytes_def)

lemma utf8_len_bounds: "length s \<le> utf8_len s" "utf8_len s \<le> 2 * length s"
proof (induction s)
  case (Cons c s)
  with char_bytes_range [of c] show "length (c # s) \<le> utf8_len (c # s)" "utf8_len (c # s) \<le> 2 * length (c # s)"
    by simp_all
qed simp_all

lemma take_bytes_len: "utf8_len (take_bytes n s) \<le> n"
  by (induction n s rule: take_bytes.induct) auto

lemma take_bytes_set: "set (take_bytes n s) \<subseteq> set s"
  by (induction n s rule: take_bytes.induct) auto

lemma take_bytes_all: "utf8_len s \<le> n \<Longrightarrow> take_bytes n s = s"
  by (induction n s rule: take_bytes.induct) auto

lemma take_bytes_long: "n < utf8_len s \<Longrightarrow> n \<le> Suc (utf8_len (take_bytes n s))"
proof (induction n s rule: take_bytes.induct)
  case (2 n c s)
  show ?case
  proof (cases "char_bytes c \<le> n")
    case True
    then have "n - char_bytes c < utf8_len s" using "2.prems" by simp
    from "2.IH" [OF True this] True show ?thesis by simp
  next
    case False
    with char_bytes_range(2) [of c] show ?thesis by simp
  qed
qed simp

lemma path_suffix_split: "path_name name = name \<Longrightarrow> \<exists>stem. name = stem @ path_suffix name \<and>
    (path_suffix name = [] \<or> (stem \<noteq> [] \<and> 2 \<le> length (path_suffix name) \<and> hd (path_suffix name) = CHR ''.''))"
proof -
  assume pn: "path_name name = name"
  let ?t = "takeWhile (\<lambda>c. c \<noteq> CHR ''.'') (rev name)"
  let ?r = "dropWhile (\<lambda>c. c \<noteq> CHR ''.'') (rev name)"
  have split: "name = rev ?r @ rev ?t" by (metis rev_append rev_rev_ident takeWhile_dropWhile_id)
  show ?thesis
  proof (cases "?t = [] \<or> length name \<le> Suc (length ?t)")
    case True
    then have "path_suffix name = []" by (auto simp: path_suffix_def pn Let_def)
    then show ?thesis by simp
  next
    case False
    then have ne: "?r \<noteq> []" using split by (metis append_self_conv2 length_rev le_SucI order_refl rev.simps(1))
    then have "hd ?r = CHR ''.''" using hd_dropWhile [of "\<lambda>c. c \<noteq> CHR ''.''" "rev name"] by blast
    then obtain r where r: "?r = CHR ''.'' # r" using ne by (metis list.collapse)
    have len: "length name = length ?r + length ?t" by (metis length_append length_rev split)
    have "r \<noteq> []" using False r len by auto
    moreover have "path_suffix name = CHR ''.'' # rev ?t" using False by (simp add: path_suffix_def pn Let_def)
    moreover have "name = rev r @ CHR ''.'' # rev ?t" using split r by simp
    moreover have "rev ?t \<noteq> []" using False by simp
    ultimately show ?thesis by (intro exI [of _ "rev r"]) (cases "rev ?t", auto)
  qed
qed

lemma path_stem_split: "path_name name = name \<Longrightarrow> name = path_stem name @ path_suffix name"
proof -
  assume "path_name name = name"
  then obtain stem where s: "name = stem @ path_suffix name" using path_suffix_split by blast
  then have "length name = length stem + length (path_suffix name)" by (metis length_append)
  then have "take (length name - length (path_suffix name)) name = stem" using s by (metis add_diff_cancel_right' append_eq_conv_conj)
  with s show ?thesis by (simp add: path_stem_def)
qed

lemma path_name_id: "CHR ''/'' \<notin> set name \<Longrightarrow> path_name name = name"
proof -
  assume "CHR ''/'' \<notin> set name"
  then have "takeWhile (\<lambda>c. c \<noteq> CHR ''/'') (rev name) = rev name" by (intro takeWhile_eq_all_conv [THEN iffD2]) auto
  then show ?thesis unfolding path_name_def by (metis rev_rev_ident)
qed

lemma path_parts_no_slash: "p \<in> set (path_parts s) \<Longrightarrow> CHR ''/'' \<notin> set p"
  by (induction s arbitrary: p rule: path_parts.induct) (auto split: if_splits list.splits)

lemma path_parts_chars: "p \<in> set (path_parts s) \<Longrightarrow> set p \<subseteq> set s"
proof (induction s arbitrary: p rule: path_parts.induct)
  case (2 c s)
  then show ?case by (fastforce split: if_splits list.splits)
qed simp

lemma last_part_chars: "set (last_part s) \<subseteq> set s" "CHR ''/'' \<notin> set (last_part s)"
proof -
  have "last_part s = [] \<or> last_part s \<in> set (path_parts s)"
    unfolding last_part_def using last_in_set [of "filter (\<lambda>x. x \<noteq> [] \<and> x \<noteq> ''.'') (path_parts s)"]
    by (auto split: list.splits)
  then show "set (last_part s) \<subseteq> set s" "CHR ''/'' \<notin> set (last_part s)"
    using path_parts_chars path_parts_no_slash by fastforce+
qed

text \<open>A name that can be one entry of a folder.\<close>

definition plain_name :: "string \<Rightarrow> bool" where
  "plain_name n \<longleftrightarrow> n \<noteq> [] \<and> n \<noteq> ''.'' \<and> n \<noteq> ''..'' \<and> CHR ''/'' \<notin> set n \<and> (\<forall>c\<in>set n. code c \<noteq> 0)"

lemma shorten_ok:
  assumes n: "plain_name name"
  shows "plain_name (shorten name)" "utf8_len (shorten name) \<le> MAX_NAME_BYTES"
proof -
  have pn: "path_name name = name" using n by (simp add: plain_name_def path_name_id)
  have "plain_name (shorten name) \<and> utf8_len (shorten name) \<le> MAX_NAME_BYTES"
  proof (cases "utf8_len name \<le> MAX_NAME_BYTES")
    case True
    with n show ?thesis by (simp add: shorten_def)
  next
    case False
    let ?x = "take_bytes (MAX_NAME_BYTES div 2) (path_suffix name)"
    let ?b = "MAX_NAME_BYTES - utf8_len ?x"
    let ?s = "take_bytes ?b (path_stem name)"
    let ?st = "if ?s = [] then ''audio'' else ?s"
    have sh: "shorten name = ?st @ ?x" using False by (simp add: shorten_def Let_def)
    have x: "utf8_len ?x \<le> 100" using take_bytes_len [of "MAX_NAME_BYTES div 2"] by (simp add: MAX_NAME_BYTES_def)
    have split: "name = path_stem name @ path_suffix name" by (rule path_stem_split [OF pn])
    have sets: "set ?s \<subseteq> set name" "set ?x \<subseteq> set name"
      using take_bytes_set [of ?b "path_stem name"] take_bytes_set [of "MAX_NAME_BYTES div 2" "path_suffix name"]
        arg_cong [OF split, of set] by (auto simp only: set_append)
    have audio: "utf8_len ''audio'' = 5" "CHR ''/'' \<notin> set ''audio''" "\<forall>c\<in>set ''audio''. code c \<noteq> 0"
      by code_simp+
    have len: "utf8_len ?s \<le> ?b" by (rule take_bytes_len)
    have "utf8_len (shorten name) \<le> MAX_NAME_BYTES"
      using len x audio(1) unfolding sh MAX_NAME_BYTES_def by auto
    moreover have "CHR ''/'' \<notin> set (shorten name) \<and> (\<forall>c\<in>set (shorten name). code c \<noteq> 0)"
      using n sets audio unfolding sh plain_name_def by (auto split: if_splits)
    moreover have "3 \<le> length (shorten name)"
    proof (cases "?s = []")
      case True
      then show ?thesis unfolding sh by simp
    next
      case ne: False
      show ?thesis
      proof (cases "utf8_len (path_stem name) \<le> ?b")
        case True
        then have s: "?s = path_stem name" by (rule take_bytes_all)
        have "utf8_len name = utf8_len (path_stem name) + utf8_len (path_suffix name)"
          using split by (metis utf8_len_simps(3))
        then have "MAX_NAME_BYTES div 2 < utf8_len (path_suffix name)"
          using False True x take_bytes_all [of "path_suffix name" "MAX_NAME_BYTES div 2"]
          by (auto simp: MAX_NAME_BYTES_def not_le [symmetric])
        then have "99 \<le> utf8_len ?x" using take_bytes_long [of 100 "path_suffix name"]
          by (simp add: MAX_NAME_BYTES_def)
        then show ?thesis using utf8_len_bounds(2) [of ?x] unfolding sh by simp
      next
        case big: False
        then have "?b \<le> Suc (utf8_len ?s)" by (intro take_bytes_long) simp
        then have "99 \<le> utf8_len ?s" using x by (simp add: MAX_NAME_BYTES_def)
        then show ?thesis using utf8_len_bounds(2) [of ?s] ne unfolding sh by simp
      qed
    qed
    then have "shorten name \<noteq> []" "shorten name \<noteq> ''.''" "shorten name \<noteq> ''..''" by auto
    ultimately show ?thesis by (simp add: plain_name_def)
  qed
  then show "plain_name (shorten name)" "utf8_len (shorten name) \<le> MAX_NAME_BYTES" by blast+
qed

lemma str_strip_chars: "set (str_strip s) \<subseteq> set s"
  by (rule str_strip_set)

lemma safe_filename_plain:
  assumes "safe_filename raw = Some n"
  shows "plain_name n" "utf8_len n \<le> MAX_NAME_BYTES"
proof -
  obtain s where s: "raw = Some s" using assms by (cases raw) (simp_all add: safe_filename_def)
  let ?t = "map (\<lambda>c. if code c = 92 then CHR ''/'' else c) s"
  let ?n = "str_strip (last_part ?t)"
  have nul: "\<forall>c\<in>set s. code c \<noteq> 0" and ne: "?n \<noteq> []" "?n \<noteq> ''.''" "?n \<noteq> ''..''" and n: "n = shorten ?n"
    using assms by (auto simp: safe_filename_def s Let_def split: if_splits)
  have "CHR ''/'' \<notin> set ?n" using str_strip_chars last_part_chars(2) by blast
  moreover have "\<forall>c\<in>set ?n. code c \<noteq> 0"
  proof
    fix c assume "c \<in> set ?n"
    then have "c \<in> set ?t" using str_strip_chars last_part_chars(1) by blast
    then obtain x where "x \<in> set s" "c = (if code x = 92 then CHR ''/'' else x)" by auto
    with nul show "code c \<noteq> 0" by (auto simp: code_def)
  qed
  ultimately have "plain_name ?n" using ne by (simp add: plain_name_def)
  from shorten_ok [OF this] show "plain_name n" "utf8_len n \<le> MAX_NAME_BYTES" by (simp_all add: n)
qed

lemma numbered_inject: "numbered name m = numbered name n \<longleftrightarrow> m = n"
  by (simp add: numbered_def show_nat_inject)

lemma next_free_Some:
  "next_free k unavailable dir name n = Some p \<Longrightarrow>
     \<not> unavailable p \<and> (\<exists>m. p = dir @ ''/'' @ numbered name m)"
  by (induction k arbitrary: n) (auto simp: Let_def split: if_splits)

lemma next_free_None:
  "next_free k unavailable dir name n = None \<Longrightarrow> m \<in> {n..<n + k} \<Longrightarrow> unavailable (dir @ ''/'' @ numbered name m)"
proof (induction k arbitrary: n)
  case (Suc k)
  have un: "unavailable (dir @ ''/'' @ numbered name n)" "next_free k unavailable dir name (Suc n) = None"
    using Suc.prems(1) by (auto simp: Let_def split: if_splits)
  show ?case
  proof (cases "m = n")
    case False
    then have "m \<in> {Suc n..<Suc n + k}" using Suc.prems(2) by auto
    from Suc.IH [OF un(2) this] show ?thesis .
  qed (use un in simp)
qed simp

text \<open>Enough attempts: more than there are unavailable paths.\<close>

lemma unique_path_found:
  assumes "finite {p. unavailable p}" "card {p. unavailable p} < fuel"
  shows "unique_path fuel unavailable dir name \<noteq> None"
proof
  assume "unique_path fuel unavailable dir name = None"
  then have "next_free fuel unavailable dir name 2 = None" by (auto simp: unique_path_def Let_def split: if_splits)
  then have "(\<lambda>m. dir @ ''/'' @ numbered name m) ` {2..<2 + fuel} \<subseteq> {p. unavailable p}"
    using next_free_None by blast
  then have "card ((\<lambda>m. dir @ ''/'' @ numbered name m) ` {2..<2 + fuel}) \<le> card {p. unavailable p}"
    by (rule card_mono [OF assms(1)])
  moreover have "card ((\<lambda>m. dir @ ''/'' @ numbered name m) ` {2..<2 + fuel}) = fuel"
    by (subst card_image) (auto simp: inj_on_def numbered_inject)
  ultimately show False using assms(2) by simp
qed

lemma unique_path_Some:
  assumes "unique_path fuel unavailable dir name = Some p"
  shows "\<not> unavailable p" "\<exists>n. p = dir @ ''/'' @ n \<and> (n = name \<or> (\<exists>m. n = numbered name m))"
  using assms next_free_Some [of fuel unavailable dir name 2 p]
  by (auto simp: unique_path_def Let_def split: if_splits)

lemma numbered_plain:
  assumes "plain_name name"
  shows "plain_name (numbered name m)"
proof -
  have pn: "path_name name = name" using assms by (simp add: plain_name_def path_name_id)
  have "set name = set (path_stem name) \<union> set (path_suffix name)"
    using arg_cong [OF path_stem_split [OF pn], of set] by simp
  moreover have digits: "c \<in> set (show_nat m) \<Longrightarrow> 48 \<le> code c \<and> c \<noteq> CHR ''/''" for c
    using show_nat_digits [of c m] by (auto simp: digit_value_def Let_def code_def split: if_splits)
  ultimately have "CHR ''/'' \<notin> set (numbered name m) \<and> (\<forall>c\<in>set (numbered name m). code c \<noteq> 0)"
    using assms by (fastforce simp: numbered_def plain_name_def code_def)
  moreover have "CHR ''-'' \<in> set (numbered name m)" by (simp add: numbered_def)
  then have "numbered name m \<noteq> []" "numbered name m \<noteq> ''.''" "numbered name m \<noteq> ''..''" by auto
  ultimately show ?thesis by (simp add: plain_name_def)
qed

subsection \<open>Workspaces on disk\<close>

lemma hex_char_inject: "m < 16 \<Longrightarrow> n < 16 \<Longrightarrow> hex_char m = hex_char n \<Longrightarrow> m = n"
  by (auto simp: hex_char_def split: if_splits dest!: arg_cong [where f = code])

lemma mod_digits:
  "(\<And>j. j < k \<Longrightarrow> (m div 16 ^ j) mod 16 = (n div 16 ^ j) mod 16) \<Longrightarrow> m mod 16 ^ k = n mod (16 :: nat) ^ k"
proof (induction k)
  case (Suc k)
  have "x mod 16 ^ Suc k = 16 ^ k * ((x div 16 ^ k) mod 16) + x mod (16 :: nat) ^ k" for x
  proof -
    have "(16 :: nat) ^ Suc k = 16 ^ k * 16" by simp
    then show ?thesis by (simp only: mod_mult2_eq)
  qed
  with Suc show ?case by simp
qed simp

lemma uuid_hex_inject:
  assumes "m < 16 ^ 32" "n < 16 ^ 32" "uuid_hex m = uuid_hex n"
  shows "m = n"
proof -
  have "(m div 16 ^ j) mod 16 = (n div 16 ^ j) mod 16" if j: "j < 32" for j
  proof -
    have "uuid_hex m ! (31 - j) = uuid_hex n ! (31 - j)" by (simp add: assms(3))
    moreover have "[0..<32] ! (31 - j) = 0 + (31 - j)" by (rule nth_upt) (use j in simp)
    ultimately have "hex_char ((m div 16 ^ (31 - (31 - j))) mod 16) = hex_char ((n div 16 ^ (31 - (31 - j))) mod 16)"
      using j by (simp add: uuid_hex_def del: upt_Suc)
    moreover have "31 - (31 - j) = j" using j by simp
    ultimately show ?thesis using hex_char_inject by simp
  qed
  then have "m mod 16 ^ 32 = n mod 16 ^ 32" by (rule mod_digits)
  then show ?thesis using assms(1,2) by simp
qed

lemma relative_to_refl [simp]: "relative_to p p"
  by (simp add: relative_to_def)

lemma same_or_below [simp]: "p = r \<or> relative_to p r \<longleftrightarrow> relative_to p r"
  by auto

lemma resolve_audio_path_iff:
  "resolve_audio_path resolve is_file stored source pub upload dirs cur = Inr res \<longleftrightarrow>
     cur \<and> res = resolve stored \<and> is_file res \<and>
     (case source of
        Upload \<Rightarrow> \<exists>up. upload = Some up \<and> relative_to res (resolve (workspace_upload_dir up pub))
      | Scan \<Rightarrow> \<exists>d\<in>set dirs. relative_to res (resolve d))"
proof (cases source)
  case Upload
  then show ?thesis
    by (cases upload) (auto simp: resolve_audio_path_def audio_roots_def Let_def)
next
  case Scan
  then show ?thesis by (auto simp: resolve_audio_path_def audio_roots_def Let_def)
qed

subsection \<open>Properties\<close>

text \<open>C30. A file is only handed out from where its row may point: the resolved path of a current
  row, an existing file, below the folder of the recording's own workspace for an upload and
  below a scanned folder otherwise. In an upload folder without symbolic links a file that one
  workspace's uploads may play is never playable as an upload of another workspace.\<close>

theorem audio_stays_in_its_workspace:
  assumes "resolve_audio_path resolve is_file stored source pub upload dirs cur = Inr res"
    and "\<And>up n. upload = Some up \<Longrightarrow> resolve (workspace_upload_dir up n) = resolve up @ [WORKSPACE_DIRNAME, uuid_hex n]"
    and "pub \<noteq> pub'" and "pub < 16 ^ 32" and "pub' < 16 ^ 32"
  shows "cur \<and> res = resolve stored \<and> is_file res \<and>
    (source = Scan \<longrightarrow> (\<exists>d\<in>set dirs. relative_to res (resolve d))) \<and>
    (source = Upload \<longrightarrow>
       (\<exists>up. upload = Some up \<and> relative_to res (resolve (workspace_upload_dir up pub))) \<and>
       resolve_audio_path resolve is_file stored' Upload pub' upload dirs' cur' \<noteq> Inr res)"
proof -
  have never: False if "source = Upload" "resolve_audio_path resolve is_file stored' Upload pub' upload dirs' cur' = Inr res"
  proof -
    obtain up where up: "upload = Some up" "relative_to res (resolve (workspace_upload_dir up pub))"
      using assms(1) \<open>source = Upload\<close> by (auto simp: resolve_audio_path_iff)
    moreover have "relative_to res (resolve (workspace_upload_dir up pub'))"
      using that(2) up(1) by (auto simp: resolve_audio_path_iff)
    ultimately have up: "upload = Some up" "relative_to res (resolve (workspace_upload_dir up pub))"
      "relative_to res (resolve (workspace_upload_dir up pub'))" by blast+
    from relative_to_linear [OF up(2,3)]
    have "uuid_hex pub = uuid_hex pub'"
      by (auto simp: assms(2) [OF up(1)] relative_to_def)
    with uuid_hex_inject assms(3-5) show False by blast
  qed
  show ?thesis
  proof (cases source)
    case Upload
    with never assms(1) show ?thesis by (auto simp: resolve_audio_path_iff)
  next
    case Scan
    moreover have "cur \<and> res = resolve stored \<and> is_file res \<and> (\<exists>d\<in>set dirs. relative_to res (resolve d))"
      using assms(1) unfolding resolve_audio_path_iff Scan recording_source.case .
    ultimately show ?thesis by auto
  qed
qed

lemma path_parts_plain: "CHR ''/'' \<notin> set s \<Longrightarrow> path_parts s = [s]"
  by (induction s) auto

lemma path_parts_nonempty: "path_parts s \<noteq> []"
  by (induction s) (auto split: list.splits)

lemma path_parts_join: "path_parts (s @ CHR ''/'' # t) = path_parts s @ path_parts t"
  by (induction s) (auto simp: path_parts_nonempty split: list.splits)

lemma hex_char_no_slash:
  assumes "n < 16"
  shows "hex_char n \<noteq> CHR ''/''"
proof
  assume "hex_char n = CHR ''/''"
  then have "of_char (hex_char n) = (47::nat)" by simp
  with assms show False by (simp add: hex_char_def split: if_splits)
qed

lemma uuid_hex_no_slash: "CHR ''/'' \<notin> set (uuid_hex n)"
  unfolding uuid_hex_def set_map image_iff using hex_char_no_slash [of "_ mod 16"]
  by (metis mod_less_divisor zero_less_numeral)

definition demo_stored :: string where
  "demo_stored = workspace_upload_dir ''/up'' 1 @ CHR ''/'' # ''2026-01/a.m4a''"

theorem audio_stays_in_its_workspace_witness:
  "resolve_audio_path path_parts (\<lambda>_. True) demo_stored Upload 1 (Some ''/up'') [] True = Inr (path_parts demo_stored) \<and>
   resolve_audio_path path_parts (\<lambda>_. True) demo_stored Upload 2 (Some ''/up'') [] True \<noteq> Inr (path_parts demo_stored)"
proof -
  have r: "resolve_audio_path path_parts (\<lambda>_. True) demo_stored Upload 1 (Some ''/up'') [] True = Inr (path_parts demo_stored)"
    by (simp add: resolve_audio_path_iff demo_stored_def path_parts_join relative_to_def)
  have plain: "path_parts (workspace_upload_dir up n) = path_parts up @ [WORKSPACE_DIRNAME, uuid_hex n]"
    if "Some ''/up'' = Some up" for up n
  proof -
    have up: "up = ''/up''" using that by simp
    have w: "path_parts WORKSPACE_DIRNAME = [WORKSPACE_DIRNAME]" by (simp add: WORKSPACE_DIRNAME_def)
    show ?thesis
      by (simp add: up workspace_upload_dir_def path_parts_join w path_parts_plain [OF uuid_hex_no_slash])
  qed
  have d: "(1::nat) \<noteq> 2" "(1::nat) < 16 ^ 32" "(2::nat) < 16 ^ 32" by simp_all
  have "resolve_audio_path path_parts (\<lambda>_. True) demo_stored Upload 2 (Some ''/up'') [] True \<noteq> Inr (path_parts demo_stored)"
    using audio_stays_in_its_workspace [where stored' = demo_stored and dirs' = "[]" and cur' = True, OF r _ d] plain
    by blast
  with r show ?thesis by (intro conjI)
qed

lemma iter_stream_verified:
  assumes "t \<in> set (iter_stream remaining sg expected turns)"
  shows "st_now t = sg \<or>
    (\<exists>v\<in>set turns. expected = Some (st_digest v) \<and> st_after v = st_now v \<and> st_now t = st_now v)"
  using assms
  by (induction remaining sg expected turns rule: iter_stream.induct) (auto split: if_splits)

text \<open>C29. With the identity check on, the bytes of a response belong to the registered content:
  a stream starts only on a file whose signature is the registered one or whose bytes hash to
  the registered hash at that signature, and goes on only while the signature stays, or after
  the whole file was hashed to the registered hash again. A range lies inside the file.\<close>

theorem audio_bytes_are_the_registered_content:
  assumes "range_response (Some v) header expected_hash expected_signature True = Bytes status a b sg"
    and "t \<in> set (iter_stream (b - a + 1) sg expected_hash turns)"
  shows "(expected_signature = Some (sig_list sg) \<or>
      (expected_hash \<noteq> None \<and> ov_hash v = expected_hash \<and> ov_signature v = sg \<and> ov_after v = Some sg)) \<and>
    (st_now t = sg \<or> (\<exists>u\<in>set turns. expected_hash = Some (st_digest u) \<and> st_after u = st_now u \<and> st_now t = st_now u)) \<and>
    (status = 206 \<longrightarrow> 0 \<le> a \<and> a \<le> b \<and> b < sig_size sg)"
  using assms(1) iter_stream_verified [OF assms(2)]
  by (auto simp: range_response_def identity_holds_def Let_def dest: parse_range_bounds
      split: option.splits if_splits prod.splits)

definition demo_signature :: signature where
  "demo_signature = \<lparr>sig_dev = 1, sig_ino = 2, sig_size = 10, sig_mtime = 3, sig_ctime = 4\<rparr>"

definition demo_turn :: stream_turn where
  "demo_turn = \<lparr>st_chunk = [1, 2, 3], st_now = demo_signature, st_digest = ''h'', st_after = demo_signature\<rparr>"

theorem audio_bytes_are_the_registered_content_witness:
  "range_response (Some \<lparr>ov_signature = demo_signature, ov_hash = Some ''h'', ov_after = Some demo_signature\<rparr>)
      (Some ''bytes=2-'') (Some ''h'') None True = Bytes 206 2 9 demo_signature \<and>
   st_now demo_turn = demo_signature \<and> (9::int) < sig_size demo_signature"
proof -
  let ?v = "\<lparr>ov_signature = demo_signature, ov_hash = Some ''h'', ov_after = Some demo_signature\<rparr>"
  have r: "range_response (Some ?v) (Some ''bytes=2-'') (Some ''h'') None True = Bytes 206 2 9 demo_signature"
    by code_simp
  have t: "demo_turn \<in> set (iter_stream (9 - 2 + 1) demo_signature (Some ''h'') [demo_turn])" by code_simp
  from audio_bytes_are_the_registered_content [OF r t] r show ?thesis by (auto simp: demo_turn_def)
qed

text \<open>A range header that names two decimal positions gives exactly the bytes between them,
  cut at the end of the file, and is refused when the first position is beyond the second or
  the file; no header whatever leads outside the file.\<close>

theorem parse_range_exact:
  "parse_range len (''bytes='' @ show_nat a @ ''-'' @ show_nat b) =
     (if a \<le> b \<and> int a < len then Some (int a, min (int b) (len - 1)) else None) \<and>
   (\<forall>header. case parse_range len header of None \<Rightarrow> True | Some (x, y) \<Rightarrow> 0 \<le> x \<and> x \<le> y \<and> y < len)"
  using parse_range_show parse_range_bounds by (auto split: option.splits)



end
