(* ===== verification/Recording_Routes.thy ===== *)
theory Recording_Routes
  imports Requests Audio_Files Enrichment
begin

text \<open>
  The routes of \<open>app.py\<close> that act on one recording, and \<open>serializers.py\<close>, which turns rows
  into answers. A body is what the schema validation of the framework hands over. The files
  are outside the program: \<open>files\<close> holds what the routes ask the file system.
\<close>

subsection \<open>Rows as answers\<close>

fun status_name :: "recording_status \<Rightarrow> string" where
  "status_name Pending = ''pending''"
| "status_name Transcribing = ''transcribing''"
| "status_name Diarizing = ''diarizing''"
| "status_name Enriching = ''enriching''"
| "status_name Summarizing = ''summarizing''"
| "status_name Done = ''done''"
| "status_name Error = ''error''"
| "status_name Missing = ''missing''"
| "status_name Duplicate = ''duplicate''"
| "status_name QuotaBlocked = ''quota_blocked''"

definition eta_sec :: "time \<Rightarrow> recording \<Rightarrow> rat option" where
  "eta_sec now r =
     (case (rec_progress r, rec_stage_started r) of
        (Some p, Some t) \<Rightarrow>
          if p = 0 \<or> 1 \<le> p then None
          else
            let elapsed = of_int (now - t) / 1000000
            in if elapsed \<le> 0 then None else Some (elapsed / p * (1 - p))
      | _ \<Rightarrow> None)"

type_synonym tag_out = "uuid \<times> string"

definition tag_out :: "tag \<Rightarrow> tag_out" where
  "tag_out t = (tag_public t, tag_name t)"

text \<open>The relationship \<open>Recording.tags\<close>.\<close>

definition tags_of :: "db \<Rightarrow> nat \<Rightarrow> tag list" where
  "tags_of d i = concat (map (\<lambda>x. select (\<lambda>t. tag_id t = rt_tag x) (tags d))
     (filter (\<lambda>x. rt_recording x = i) (recording_tags d)))"

record segment_out =
  so_idx :: nat
  so_start :: rat
  so_end :: rat
  so_speaker :: "string option"
  so_text :: string
  so_kind :: segment_kind

definition segment_out :: "segment \<Rightarrow> segment_out" where
  "segment_out s = \<lparr>so_idx = seg_idx s, so_start = seg_start s, so_end = seg_end s,
     so_speaker = seg_speaker s, so_text = seg_text s, so_kind = seg_kind s\<rparr>"

record summary_out =
  sm_id :: uuid
  sm_filename :: string
  sm_title :: "string option"
  sm_summary :: "string option"
  sm_recorded_at :: "time option"
  sm_duration :: "rat option"
  sm_source :: recording_source
  sm_size :: int
  sm_status :: recording_status
  sm_language :: "string option"
  sm_tags :: "tag_out list"
  sm_progress :: "rat option"
  sm_eta :: "rat option"

definition recording_summary :: "db \<Rightarrow> time \<Rightarrow> recording \<Rightarrow> summary_out" where
  "recording_summary d now r =
     \<lparr>sm_id = rec_public r, sm_filename = rec_filename r, sm_title = rec_title r,
      sm_summary = rec_summary r, sm_recorded_at = rec_recorded_at r, sm_duration = rec_duration r,
      sm_source = rec_source r, sm_size = rec_size r, sm_status = rec_status r,
      sm_language = rec_language r, sm_tags = map tag_out (tags_of d (rec_id r)),
      sm_progress = rec_progress r, sm_eta = eta_sec now r\<rparr>"

record detail_out = summary_out +
  dt_can_edit :: bool
  dt_can_manage :: bool
  dt_share_state :: "share_counts option"
  dt_error :: "recording_error option"
  dt_meta :: "stt_meta option"
  dt_speakers :: "(string \<times> string) list"
  dt_segments :: "segment_out list"

definition speaker_names_of :: "db \<Rightarrow> nat \<Rightarrow> (string \<times> string) list" where
  "speaker_names_of d i =
     map (\<lambda>n. (spk_key n, spk_name n)) (select (\<lambda>n. spk_recording n = i) (speakers d))"

subsection \<open>Reading\<close>

definition recording_detail ::
  "request \<Rightarrow> uuid \<Rightarrow> caller \<Rightarrow> db \<Rightarrow> (http_error, detail_out) result \<times> db" where
  "recording_detail rq pub c d = transaction d
     (and_then (recording_at VIEW c d pub) (\<lambda>r.
        let p = resolve_recording_perm d (ca_principal c) r
        in Inr (summary_out.extend (recording_summary d (rq_now rq) r)
             (detail_out.fields (EDIT \<le> p) (MANAGE \<le> p)
               (if MANAGE \<le> p then Some (share_counts_of d (rec_id r)) else None)
               (rec_error r) (meta_value (rec_stt_meta r)) (speaker_names_of d (rec_id r))
               (map segment_out (segments_of d (rec_id r)))), d)))"

record files =
  fi_resolve :: "string \<Rightarrow> string list"
  fi_is_file :: "string list \<Rightarrow> bool"
  fi_open :: "string list \<Rightarrow> open_view option"
  fi_unlink :: "string list \<Rightarrow> bool"

text \<open>The file of a row, as the two audio routes and the removal ask for it.\<close>

definition audio_path ::
  "files \<Rightarrow> settings \<Rightarrow> db \<Rightarrow> recording \<Rightarrow> (http_error, string list option) result" where
  "audio_path fi cfg d r =
     (case get_workspace_row d (rec_ws r) of
        None \<Rightarrow> Inl Unhandled
      | Some w \<Rightarrow>
          (case resolve_audio_path (fi_resolve fi) (fi_is_file fi) (rec_path r) (rec_source r) (ws_public w)
                 (cfg_upload_dir cfg) (cfg_audio_dirs cfg) (rec_path_current r) of
             Inl _ \<Rightarrow> Inr None
           | Inr p \<Rightarrow> Inr (Some p)))"

definition audio_bytes ::
  "files \<Rightarrow> settings \<Rightarrow> request \<Rightarrow> db \<Rightarrow> recording \<Rightarrow> (http_error, audio_reply) result" where
  "audio_bytes fi cfg rq d r =
     and_then (audio_path fi cfg d r) (\<lambda>path.
       case path of
         None \<Rightarrow> Inl (Http 404 (Media NoAudio))
       | Some p \<Rightarrow> Inr (range_response (fi_open fi p) (header rq ''range'') (rec_content_hash r) (rec_signature r) True))"

definition stream_audio ::
  "files \<Rightarrow> settings \<Rightarrow> request \<Rightarrow> uuid \<Rightarrow> caller \<Rightarrow> db \<Rightarrow> (http_error, audio_reply) result \<times> db" where
  "stream_audio fi cfg rq pub c d = transaction d
     (and_then (recording_at VIEW c d pub) (\<lambda>r.
      and_then (audio_bytes fi cfg rq d r) (\<lambda>a. Inr (a, d))))"

subsection \<open>Changing\<close>

definition update_title ::
  "request \<Rightarrow> uuid \<Rightarrow> string \<Rightarrow> caller \<Rightarrow> db \<Rightarrow> (http_error, summary_out) result \<times> db" where
  "update_title rq pub title c d = transaction d
     (and_then (recording_at EDIT c d pub) (\<lambda>r.
      and_then (require_csrf rq c) (\<lambda>_.
        let t = str_strip title;
            r' = r\<lparr>rec_title := (if t = [] then None else Some t)\<rparr>
        in Inr (recording_summary d (rq_now rq) r', put_recording (rq_now rq) r' d))))"

definition rename_speaker ::
  "request \<Rightarrow> uuid \<Rightarrow> string \<Rightarrow> string \<Rightarrow> caller \<Rightarrow> db \<Rightarrow> (http_error, string \<times> string) result \<times> db" where
  "rename_speaker rq pub key given c d = transaction d
     (and_then (recording_at EDIT c d pub) (\<lambda>r.
      and_then (require_csrf rq c) (\<lambda>_.
        let row = scalar (\<lambda>n. spk_recording n = rec_id r \<and> spk_key n = key) (speakers d);
            name = str_strip given
        in if name = [] then Inl (Http 422 (Media EmptySpeaker))
           else Inr ((key, name),
             case row of
               None \<Rightarrow> d\<lparr>speakers := insert_row set_spk_id
                   \<lparr>spk_id = 0, spk_recording = rec_id r, spk_key = key, spk_name = name\<rparr> (speakers d)\<rparr>
             | Some n \<Rightarrow> d\<lparr>speakers := update_where (\<lambda>x. spk_id x = spk_id n)
                   (\<lambda>x. x\<lparr>spk_name := name\<rparr>) (speakers d)\<rparr>))))"

text \<open>The duplicates of the row come back before it goes.\<close>

definition revive_duplicates :: "time \<Rightarrow> nat \<Rightarrow> db \<Rightarrow> db" where
  "revive_duplicates now i =
     update_recordings now (\<lambda>x. rec_duplicate_of x = Some i \<and> rec_status x = Duplicate)
       (\<lambda>x. x\<lparr>rec_status := Pending, rec_duplicate_of := None\<rparr>)"

text \<open>The answer is the file that was unlinked.\<close>

definition delete_recording ::
  "files \<Rightarrow> settings \<Rightarrow> request \<Rightarrow> uuid \<Rightarrow> caller \<Rightarrow> db \<Rightarrow> (http_error, string list option) result \<times> db" where
  "delete_recording fi cfg rq pub c d = transaction d
     (and_then (recording_at MANAGE c d pub) (\<lambda>r.
      and_then (require_csrf rq c) (\<lambda>_.
      and_then (if rec_source r = Upload then audio_path fi cfg d r else Inr None) (\<lambda>path.
        if (case path of None \<Rightarrow> False | Some p \<Rightarrow> \<not> fi_unlink fi p) then Inl Unhandled
        else Inr (path, delete_recording_row (rec_id r) (revive_duplicates (rq_now rq) (rec_id r) d))))))"

definition retry_recording ::
  "request \<Rightarrow> uuid \<Rightarrow> caller \<Rightarrow> db \<Rightarrow> (http_error, summary_out) result \<times> db" where
  "retry_recording rq pub c d = transaction d
     (and_then (recording_at MANAGE c d pub) (\<lambda>r.
      and_then (require_csrf rq c) (\<lambda>_.
        if rec_status r \<noteq> Error \<or> \<not> rec_path_current r then Inl (Http 422 (Media OnlyFailed))
        else
          let r' = r\<lparr>rec_status := resume_status d r, rec_error := None, rec_progress := None,
                     rec_stage_started := None\<rparr>
          in Inr (recording_summary d (rq_now rq) r', put_recording (rq_now rq) r' d))))"

definition add_tag ::
  "request \<Rightarrow> uuid \<Rightarrow> string \<Rightarrow> uuid \<Rightarrow> caller \<Rightarrow> db \<Rightarrow> (http_error, tag_out list) result \<times> db" where
  "add_tag rq pub given fresh c d = transaction d
     (and_then (recording_at EDIT c d pub) (\<lambda>r.
      and_then (require_csrf rq c) (\<lambda>_.
        let name = str_strip given
        in if name = [] then Inl (Http 422 (Media EmptyTag))
           else
             let d' = tag_recording (rec_id r) (rec_ws r) (name, fresh) d
             in Inr (map tag_out (tags_of d' (rec_id r)), d'))))"

definition untag :: "nat \<Rightarrow> uuid \<Rightarrow> db \<Rightarrow> db" where
  "untag i t d = d\<lparr>recording_tags :=
     filter (\<lambda>x. \<not> (rt_recording x = i \<and> (\<exists>g\<in>set (rows (tags d)). tag_id g = rt_tag x \<and> tag_public g = t)))
       (recording_tags d)\<rparr>"

definition remove_tag ::
  "request \<Rightarrow> uuid \<Rightarrow> uuid \<Rightarrow> caller \<Rightarrow> db \<Rightarrow> (http_error, tag_out list) result \<times> db" where
  "remove_tag rq pub t c d = transaction d
     (and_then (recording_at EDIT c d pub) (\<lambda>r.
      and_then (require_csrf rq c) (\<lambda>_.
        let d' = untag (rec_id r) t d
        in Inr (map tag_out (tags_of d' (rec_id r)), d'))))"

end
