(* ===== verification/Sharing_Routes.thy ===== *)
theory Sharing_Routes
  imports Recording_Routes
begin

text \<open>
  \<open>routes_sharing.py\<close>: the share panel of a recording, what is shared with an account, and
  the public surface of a link. A link viewer is authorised by the token in the path and,
  when the link has a password, by a cookie; a caller with access of their own passes the
  lock. \<open>H\<close> is sha256, \<open>verify\<close> and \<open>dummy\<close> are the password check of \<open>auth.py\<close>, \<open>pwhash\<close> is
  the hash of a new password. The creation times in the answers are not modelled.
\<close>

definition LINK_COOKIE :: string where "LINK_COOKIE = ''soriham_link''"

datatype public_status = PublicDone | Unavailable | Processing

fun PUBLIC_STATUS :: "recording_status \<Rightarrow> public_status" where
  "PUBLIC_STATUS Done = PublicDone"
| "PUBLIC_STATUS Error = Unavailable"
| "PUBLIC_STATUS Missing = Unavailable"
| "PUBLIC_STATUS Duplicate = Unavailable"
| "PUBLIC_STATUS QuotaBlocked = Unavailable"
| "PUBLIC_STATUS _ = Processing"

subsection \<open>The share panel\<close>

record share_out =
  sh_id :: uuid
  sh_email :: string
  sh_name :: "string option"
  sh_permission :: share_permission
  sh_pending :: bool

definition share_out :: "share \<Rightarrow> user option \<Rightarrow> nat set \<Rightarrow> share_out" where
  "share_out s u people =
     \<lparr>sh_id = shr_public s,
      sh_email = (case u of Some v \<Rightarrow> usr_email v
                  | None \<Rightarrow> (case shr_email s of Some e \<Rightarrow> e | None \<Rightarrow> [])),
      sh_name = (case u of Some v \<Rightarrow> if usr_id v \<in> people then Some (usr_display_name v) else None
                 | None \<Rightarrow> None),
      sh_permission = shr_permission s, sh_pending = (u = None)\<rparr>"

definition member_ids :: "db \<Rightarrow> nat \<Rightarrow> nat set" where
  "member_ids d w = set (map mem_user (select (\<lambda>m. mem_ws m = w) (members d)))"

record link_out =
  lo_id :: uuid
  lo_label :: "string option"
  lo_locked :: bool
  lo_audio :: bool
  lo_names :: bool
  lo_expires :: "time option"
  lo_views :: int
  lo_last_viewed :: "time option"

definition link_out :: "share_link \<Rightarrow> link_out" where
  "link_out l = \<lparr>lo_id = lnk_public l, lo_label = lnk_label l, lo_locked = (lnk_password l \<noteq> None),
     lo_audio = lnk_audio l, lo_names = lnk_names l, lo_expires = lnk_expires l,
     lo_views = lnk_views l, lo_last_viewed = lnk_last_viewed l\<rparr>"

definition share_panel ::
  "uuid \<Rightarrow> caller \<Rightarrow> db \<Rightarrow> (http_error, share_out list \<times> link_out list \<times> string) result \<times> db" where
  "share_panel pub c d = transaction d
     (and_then (recording_at MANAGE c d pub) (\<lambda>r.
        Inr ((map (\<lambda>(s, u). share_out s u (member_ids d (rec_ws r))) (list_shares d (rec_id r)),
              map link_out (list_links d (rec_id r)),
              case get_workspace_row d (rec_ws r) of Some w \<Rightarrow> ws_name w | None \<Rightarrow> []), d)))"

text \<open>\<open>except ShareInvalid as exc: raise HTTPException(422, ...)\<close>\<close>

definition refuse_share :: "(share_error, 'a) result \<Rightarrow> (http_error, 'a) result" where
  "refuse_share m =
     (case m of
        Inl (ShareInvalid e) \<Rightarrow> Inl (Http 422 (Opened (ShareRefused e)))
      | Inl LinkInvalid \<Rightarrow> Inl Unhandled
      | Inr x \<Rightarrow> Inr x)"

lemma refuse_share_Inr [simp]: "refuse_share m = Inr x \<longleftrightarrow> m = Inr x"
  by (auto simp: refuse_share_def split: sum.splits share_error.splits)

definition add_share ::
  "request \<Rightarrow> uuid \<Rightarrow> string \<Rightarrow> string \<Rightarrow> uuid \<Rightarrow> caller \<Rightarrow> db \<Rightarrow> (http_error, share_out) result \<times> db" where
  "add_share rq pub email permission fresh c d = transaction d
     (and_then (recording_at MANAGE c d pub) (\<lambda>r.
      and_then (require_active c) (\<lambda>u.
      and_then (require_csrf rq c) (\<lambda>_.
      and_then (refuse_share (share_with_email d r email permission (Some u) fresh)) (\<lambda>(s, d').
        let target = (case shr_user s of None \<Rightarrow> None | Some i \<Rightarrow> get_user d' i)
        in Inr (share_out s target (member_ids d' (rec_ws r)), d'))))))"

definition drop_share ::
  "request \<Rightarrow> uuid \<Rightarrow> uuid \<Rightarrow> caller \<Rightarrow> db \<Rightarrow> (http_error, unit) result \<times> db" where
  "drop_share rq pub share_id c d = transaction d
     (and_then (recording_at MANAGE c d pub) (\<lambda>r.
      and_then (require_csrf rq c) (\<lambda>_.
        let (found, d') = revoke_share d (rec_id r) share_id
        in if \<not> found then Inl (Http 404 (Opened NoShare)) else Inr ((), d'))))"

record link_in =
  li_label :: "string option"
  li_password :: "string option"
  li_audio :: bool
  li_names :: bool
  li_days :: "int option"

definition add_link ::
  "(string \<Rightarrow> string) \<Rightarrow> (string \<Rightarrow> string) \<Rightarrow> request \<Rightarrow> uuid \<Rightarrow> link_in \<Rightarrow> string \<Rightarrow> uuid \<Rightarrow> caller \<Rightarrow> db \<Rightarrow>
   (http_error, link_out \<times> string) result \<times> db" where
  "add_link H pwhash rq pub body token fresh c d = transaction d
     (and_then (recording_at MANAGE c d pub) (\<lambda>r.
      and_then (require_active c) (\<lambda>u.
      and_then (require_csrf rq c) (\<lambda>_.
        let password = (case li_password body of None \<Rightarrow> [] | Some p \<Rightarrow> p)
        in if password \<noteq> [] \<and> str_strip password = [] then Inl (Http 422 (Opened EmptyPassword))
           else if password \<noteq> [] \<and> length password < LINK_PASSWORD_MIN
           then Inl (Http 422 (Opened ShortLinkPassword))
           else
             and_then (refuse_share (create_link H token fresh (rec_id r) (li_label body)
                     (if password \<noteq> [] then Some (pwhash password) else None) (li_audio body)
                     (li_names body) (li_days body) (Some (usr_id u)) (rq_now rq) d))
               (\<lambda>(l, d'). Inr ((link_out l, token), d'))))))"

definition drop_link ::
  "request \<Rightarrow> uuid \<Rightarrow> uuid \<Rightarrow> caller \<Rightarrow> db \<Rightarrow> (http_error, unit) result \<times> db" where
  "drop_link rq pub link_id c d = transaction d
     (and_then (recording_at MANAGE c d pub) (\<lambda>r.
      and_then (require_csrf rq c) (\<lambda>_.
        let (found, d') = revoke_link d (rec_id r) link_id (rq_now rq)
        in if \<not> found then Inl (Http 404 (Opened NoLink)) else Inr ((), d'))))"

subsection \<open>Shared with me\<close>

text \<open>\<open>recorded_at DESC NULLS LAST, id DESC\<close> as three stable sorts.\<close>

definition newest_first :: "('a \<Rightarrow> recording) \<Rightarrow> 'a list \<Rightarrow> 'a list" where
  "newest_first f xs =
     sort_key (\<lambda>x. rec_recorded_at (f x) = None)
       (sort_key (\<lambda>x. - (case rec_recorded_at (f x) of None \<Rightarrow> 0 | Some t \<Rightarrow> t))
         (sort_key (\<lambda>x. - int (rec_id (f x))) xs))"

text \<open>\<open>LIMIT\<close> and \<open>OFFSET\<close>: the database refuses negative values.\<close>

definition page :: "int \<Rightarrow> int \<Rightarrow> 'a list \<Rightarrow> (http_error, 'a list) result" where
  "page limit offset xs =
     (if limit < 0 \<or> offset < 0 then Inl Unhandled else Inr (take (nat limit) (drop (nat offset) xs)))"

definition shared_rows :: "db \<Rightarrow> nat \<Rightarrow> (recording \<times> share) list" where
  "shared_rows d i =
     concat (map (\<lambda>s. map (\<lambda>r. (r, s)) (select (\<lambda>r. rec_id r = shr_recording s) (recordings d)))
       (select (\<lambda>s. shr_user s = Some i) (shares d)))"

definition sharer_name :: "db \<Rightarrow> share \<Rightarrow> string option" where
  "sharer_name d s =
     (case shr_created_by s of None \<Rightarrow> None | Some i \<Rightarrow> map_option usr_display_name (get_user d i))"

definition shared_with_me ::
  "request \<Rightarrow> int \<Rightarrow> int \<Rightarrow> caller \<Rightarrow> db \<Rightarrow>
   (http_error, (summary_out \<times> share_permission \<times> string option) list \<times> nat) result \<times> db" where
  "shared_with_me rq limit offset c d = transaction d
     (and_then (require_active c) (\<lambda>u.
      and_then (page limit offset (newest_first fst (shared_rows d (usr_id u)))) (\<lambda>rs.
        Inr ((map (\<lambda>(r, s). (recording_summary d (rq_now rq) r, shr_permission s, sharer_name d s)) rs,
              length (select (\<lambda>s. shr_user s = Some (usr_id u)) (shares d))), d))))"

subsection \<open>The public surface of a link\<close>

definition open_link ::
  "(string \<Rightarrow> string) \<Rightarrow> request \<Rightarrow> string \<Rightarrow> db \<Rightarrow> (http_error, share_link \<times> recording) result" where
  "open_link H rq token d =
     (case load_link H d token (rq_now rq) of
        Inl _ \<Rightarrow> Inl (Http 404 (Opened LinkGone))
      | Inr l \<Rightarrow>
          (case get_recording d (lnk_recording l) of
             None \<Rightarrow> Inl (Http 404 (Opened LinkGone))
           | Some r \<Rightarrow> Inr (l, r)))"

definition viewer :: "db \<Rightarrow> share_link \<Rightarrow> recording \<Rightarrow> principal \<Rightarrow> principal \<times> perm" where
  "viewer d l r p =
     (let v = p\<lparr>pr_link := Some (rec_id r), pr_link_audio := lnk_audio l, pr_link_names := lnk_names l\<rparr>
      in (v, resolve_own_perm d v r))"

definition require_unlocked ::
  "(string \<Rightarrow> string) \<Rightarrow> request \<Rightarrow> share_link \<Rightarrow> perm \<Rightarrow> (http_error, unit) result" where
  "require_unlocked H rq l own =
     (if VIEW \<le> own then Inr ()
      else if is_unlocked H l (cookie rq LINK_COOKIE) then Inr ()
      else Inl (Http 401 (Opened PasswordRequired)))"

text \<open>The answer is the value of the cookie, which is set for the path of this token only.\<close>

definition unlock ::
  "(string \<Rightarrow> string) \<Rightarrow> (string \<Rightarrow> string \<Rightarrow> bool) \<Rightarrow> string \<Rightarrow> settings \<Rightarrow> request \<Rightarrow> string \<Rightarrow> string \<Rightarrow> db \<Rightarrow>
   (http_error, string option) result \<times> db" where
  "unlock H verify dummy cfg rq token password d =
     (case require_known_origin cfg rq of
        Inl e \<Rightarrow> (Inl e, d)
      | Inr _ \<Rightarrow>
          let src = source_key ''unlock'' (rq_ip rq);
              pair = target_key H ''unlock'' (rq_ip rq) token;
              (ok, d1) = guard_attempts d [((src, PER_SOURCE), rq_now rq), ((pair, PER_TARGET), rq_now rq)]
          in if \<not> ok then (Inl (Http 429 (Access TooMany)), d1)
             else
               (case open_link H rq token d1 of
                  Inl e \<Rightarrow> (Inl e, d1)
                | Inr (l, r) \<Rightarrow>
                    if lnk_password l = None then (Inr None, d1)
                    else if \<not> verify_password verify dummy (lnk_password l) password
                    then (Inl (Http 403 (Opened BadLinkPassword)), d1)
                    else
                      let d2 = clear_attempts d1 [src, pair]
                      in case unlock_value H l of
                           Inl _ \<Rightarrow> (Inl Unhandled, d2)
                         | Inr v \<Rightarrow> (Inr (Some v), d2)))"

record shared_out =
  sd_title :: "string option"
  sd_summary :: "string option"
  sd_recorded_at :: "time option"
  sd_duration :: "rat option"
  sd_status :: public_status
  sd_language :: "string option"
  sd_tags :: "tag_out list"
  sd_progress :: "rat option"
  sd_eta :: "rat option"
  sd_audio :: bool
  sd_speakers :: "(string \<times> string) list"
  sd_segments :: "segment_out list"

definition shared_detail ::
  "(string \<Rightarrow> string) \<Rightarrow> request \<Rightarrow> string \<Rightarrow> caller \<Rightarrow> db \<Rightarrow> (http_error, shared_out) result \<times> db" where
  "shared_detail H rq token c d = transaction d
     (and_then (open_link H rq token d) (\<lambda>(l, r).
        let (v, own) = viewer d l r (ca_principal c)
        in and_then (require_unlocked H rq l own) (\<lambda>_.
             Inr (\<lparr>sd_title = rec_title r, sd_summary = rec_summary r, sd_recorded_at = rec_recorded_at r,
                   sd_duration = rec_duration r, sd_status = PUBLIC_STATUS (rec_status r),
                   sd_language = rec_language r, sd_tags = map tag_out (tags_of d (rec_id r)),
                   sd_progress = rec_progress r, sd_eta = eta_sec (rq_now rq) r,
                   sd_audio = can_play_audio v own,
                   sd_speakers = (if can_see_speaker_names v own then speaker_names_of d (rec_id r) else []),
                   sd_segments = map segment_out (segments_of d (rec_id r))\<rparr>,
                  record_view l (rq_now rq) d))))"

definition shared_audio ::
  "(string \<Rightarrow> string) \<Rightarrow> files \<Rightarrow> settings \<Rightarrow> request \<Rightarrow> string \<Rightarrow> caller \<Rightarrow> db \<Rightarrow>
   (http_error, audio_reply) result \<times> db" where
  "shared_audio H fi cfg rq token c d = transaction d
     (and_then (open_link H rq token d) (\<lambda>(l, r).
        let (v, own) = viewer d l r (ca_principal c)
        in and_then (require_unlocked H rq l own) (\<lambda>_.
             if \<not> can_play_audio v own then Inl (Http 403 (Opened AudioNotAllowed))
             else and_then (audio_bytes fi cfg rq d r) (\<lambda>a. Inr (a, d)))))"

end
