(* ===== verification/Access_Control.thy ===== *)
theory Access_Control
  imports Sharing_Routes
begin

text \<open>
  The routes that change one recording, under one roof: the routing table of \<open>app.py\<close> and
  \<open>routes_sharing.py\<close> for the paths below \<open>/api/recordings/{public_id}\<close> with their methods,
  and what they share. A change is committed only for the account of a live session, with
  the session's token in the header and the permission the route asks for, and it touches
  nothing but what hangs on the recording; a recording out of reach cannot be told from one
  that does not exist.
\<close>

text \<open>What the routes use beside the database: sha256, the password hasher with its check, its
  dummy hash and its \<open>check_needs_rehash\<close>, the files and the settings.\<close>

record server =
  sv_hash :: "string \<Rightarrow> string"
  sv_pwhash :: "string \<Rightarrow> string"
  sv_verify :: "string \<Rightarrow> string \<Rightarrow> bool"
  sv_dummy :: string
  sv_outdated :: "string \<Rightarrow> bool"
  sv_files :: files
  sv_cfg :: settings

datatype recording_change =
  SetTitle string | NameSpeaker string string | Remove | Retry | Tagging string uuid | Untagging uuid
  | Sharing string string uuid | Unsharing uuid | Linking link_in string uuid | Unlinking uuid

fun change_method :: "recording_change \<Rightarrow> string" where
  "change_method (SetTitle _) = ''PATCH''"
| "change_method (NameSpeaker _ _) = ''PUT''"
| "change_method Remove = ''DELETE''"
| "change_method Retry = ''POST''"
| "change_method (Tagging _ _) = ''POST''"
| "change_method (Untagging _) = ''DELETE''"
| "change_method (Sharing _ _ _) = ''POST''"
| "change_method (Unsharing _) = ''DELETE''"
| "change_method (Linking _ _ _) = ''POST''"
| "change_method (Unlinking _) = ''DELETE''"

definition no_body :: "('e, 'a) result \<times> db \<Rightarrow> ('e, unit) result \<times> db" where
  "no_body x = (map_sum id (\<lambda>_. ()) (fst x), snd x)"

fun change_recording ::
  "server \<Rightarrow> request \<Rightarrow> uuid \<Rightarrow> recording_change \<Rightarrow> caller \<Rightarrow> db \<Rightarrow> (http_error, unit) result \<times> db" where
  "change_recording sv rq pub (SetTitle t) c d = no_body (update_title rq pub t c d)"
| "change_recording sv rq pub (NameSpeaker k n) c d = no_body (rename_speaker rq pub k n c d)"
| "change_recording sv rq pub Remove c d = no_body (delete_recording (sv_files sv) (sv_cfg sv) rq pub c d)"
| "change_recording sv rq pub Retry c d = no_body (retry_recording rq pub c d)"
| "change_recording sv rq pub (Tagging n fresh) c d = no_body (add_tag rq pub n fresh c d)"
| "change_recording sv rq pub (Untagging t) c d = no_body (remove_tag rq pub t c d)"
| "change_recording sv rq pub (Sharing e p fresh) c d = no_body (add_share rq pub e p fresh c d)"
| "change_recording sv rq pub (Unsharing i) c d = no_body (drop_share rq pub i c d)"
| "change_recording sv rq pub (Linking b tk fresh) c d =
     no_body (add_link (sv_hash sv) (sv_pwhash sv) rq pub b tk fresh c d)"
| "change_recording sv rq pub (Unlinking i) c d = no_body (drop_link rq pub i c d)"

text \<open>A request: the principal is read, and its touch committed, before the route runs.\<close>

definition serve ::
  "server \<Rightarrow> request \<Rightarrow> (caller \<Rightarrow> db \<Rightarrow> (http_error, 'a) result \<times> db) \<Rightarrow> db \<Rightarrow>
   (http_error, 'a) result \<times> db" where
  "serve sv rq route d = (let (c, d1) = current_principal (sv_hash sv) (sv_cfg sv) rq d in route c d1)"

subsection \<open>What a change may touch\<close>

fun needed :: "recording_change \<Rightarrow> perm" where
  "needed (SetTitle _) = EDIT"
| "needed (NameSpeaker _ _) = EDIT"
| "needed (Tagging _ _) = EDIT"
| "needed (Untagging _) = EDIT"
| "needed _ = MANAGE"

definition others :: "('a \<Rightarrow> nat) \<Rightarrow> nat \<Rightarrow> 'a list \<Rightarrow> 'a list" where
  "others f i xs = filter (\<lambda>x. f x \<noteq> i) xs"

text \<open>Only rows of the recording, its duplicates' reference and new tags differ; the
  transcription ledger of the quota stays.\<close>

definition only_about :: "recording \<Rightarrow> db \<Rightarrow> db \<Rightarrow> bool" where
  "only_about r d d' \<longleftrightarrow>
     users d' = users d \<and> workspaces d' = workspaces d \<and> members d' = members d \<and>
     user_sessions d' = user_sessions d \<and> invites d' = invites d \<and> attempts d' = attempts d \<and>
     (\<exists>new. rows (tags d') = rows (tags d) @ new \<and> (\<forall>t\<in>set new. tag_ws t = rec_ws r)) \<and>
     (\<forall>x. rec_id x \<noteq> rec_id r \<longrightarrow>
        (\<forall>y\<in>set (rows (recordings d)). rec_id y = rec_id x \<longrightarrow> rec_duplicate_of y \<noteq> Some (rec_id r)) \<longrightarrow>
        (x \<in> set (rows (recordings d')) \<longleftrightarrow> x \<in> set (rows (recordings d)))) \<and>
     others seg_recording (rec_id r) (rows (segments d')) = others seg_recording (rec_id r) (rows (segments d)) \<and>
     others spk_recording (rec_id r) (rows (speakers d')) = others spk_recording (rec_id r) (rows (speakers d)) \<and>
     others rt_recording (rec_id r) (recording_tags d') = others rt_recording (rec_id r) (recording_tags d) \<and>
     others shr_recording (rec_id r) (rows (shares d')) = others shr_recording (rec_id r) (rows (shares d)) \<and>
     others lnk_recording (rec_id r) (rows (links d')) = others lnk_recording (rec_id r) (rows (links d)) \<and>
     map ledger_view (rows (job_logs d')) = map ledger_view (rows (job_logs d))"

lemma others_append: "f y = i \<Longrightarrow> others f i (xs @ [y]) = others f i xs"
  by (simp add: others_def)

lemma others_update:
  assumes "\<forall>x\<in>set xs. P x \<longrightarrow> f x = i" and keep: "\<And>x. f (g x) = f x"
  shows "others f i (map (\<lambda>x. if P x then g x else x) xs) = others f i xs"
  using assms(1) by (induction xs) (auto simp: others_def keep)

lemma others_delete:
  "\<forall>x\<in>set xs. P x \<longrightarrow> f x = i \<Longrightarrow> others f i (filter (\<lambda>x. \<not> P x) xs) = others f i xs"
  by (induction xs) (auto simp: others_def)

lemmas others_rules = others_append others_update others_delete

lemma only_aboutI:
  assumes "users d' = users d" "workspaces d' = workspaces d" "members d' = members d"
    and "user_sessions d' = user_sessions d" "invites d' = invites d" "attempts d' = attempts d"
    and "rows (tags d') = rows (tags d) @ new" "\<forall>t\<in>set new. tag_ws t = rec_ws r"
    and "\<And>x. rec_id x \<noteq> rec_id r \<Longrightarrow>
      \<forall>y\<in>set (rows (recordings d)). rec_id y = rec_id x \<longrightarrow> rec_duplicate_of y \<noteq> Some (rec_id r) \<Longrightarrow>
      x \<in> set (rows (recordings d')) \<longleftrightarrow> x \<in> set (rows (recordings d))"
    and "others seg_recording (rec_id r) (rows (segments d')) = others seg_recording (rec_id r) (rows (segments d))"
    and "others spk_recording (rec_id r) (rows (speakers d')) = others spk_recording (rec_id r) (rows (speakers d))"
    and "others rt_recording (rec_id r) (recording_tags d') = others rt_recording (rec_id r) (recording_tags d)"
    and "others shr_recording (rec_id r) (rows (shares d')) = others shr_recording (rec_id r) (rows (shares d))"
    and "others lnk_recording (rec_id r) (rows (links d')) = others lnk_recording (rec_id r) (rows (links d))"
    and "map ledger_view (rows (job_logs d')) = map ledger_view (rows (job_logs d))"
  shows "only_about r d d'"
  unfolding only_about_def using assms by blast

lemma only_about_put: "rec_id r' = rec_id r \<Longrightarrow> only_about r d (put_recording now r' d)"
  by (rule only_aboutI [where new = "[]"]) (auto simp: put_recording_def)

lemma only_about_speaker:
  assumes "table_ok spk_id (speakers d)" "n \<in> set (rows (speakers d))" "spk_recording n = rec_id r"
  shows "only_about r d (d\<lparr>speakers := update_where (\<lambda>x. spk_id x = spk_id n) (\<lambda>x. x\<lparr>spk_name := v\<rparr>) (speakers d)\<rparr>)"
  using spk_tbl.same_key [OF assms(1) _ assms(2)] assms(3)
  by (intro only_aboutI [where new = "[]"]) (auto intro!: others_update)

text \<open>A row after the recording it may have duplicated is gone.\<close>

definition orphaned :: "time \<Rightarrow> nat \<Rightarrow> recording \<Rightarrow> recording" where
  "orphaned now i x =
     (if rec_duplicate_of x \<noteq> Some i then x
      else if rec_status x = Duplicate
      then x\<lparr>rec_status := Pending, rec_duplicate_of := None, rec_updated_at := now\<rparr>
      else x\<lparr>rec_duplicate_of := None\<rparr>)"

lemma rec_id_orphaned [simp]: "rec_id (orphaned now i x) = rec_id x"
  by (simp add: orphaned_def)

lemma rows_deleted:
  "rows (recordings (delete_recording_row i (revive_duplicates now i d))) =
     map (orphaned now i) (filter (\<lambda>x. rec_id x \<noteq> i) (rows (recordings d)))"
proof -
  have "map (\<lambda>r. if rec_duplicate_of r = Some i then r\<lparr>rec_duplicate_of := None\<rparr> else r)
      (filter (\<lambda>r. \<not> rec_id r = i)
        (map (\<lambda>r. if rec_duplicate_of r = Some i \<and> rec_status r = Duplicate
           then r\<lparr>rec_status := Pending, rec_duplicate_of := None, rec_updated_at := now\<rparr> else r) xs)) =
    map (orphaned now i) (filter (\<lambda>x. rec_id x \<noteq> i) xs)" for xs
    by (induction xs) (simp_all add: orphaned_def)
  then show ?thesis
    by (simp add: delete_recording_row_def revive_duplicates_def update_recordings_def)
qed

lemma only_about_delete: "only_about r d (delete_recording_row (rec_id r) (revive_duplicates now (rec_id r) d))"
proof (rule only_aboutI [where new = "[]"])
  fix x :: recording
  assume x: "rec_id x \<noteq> rec_id r"
    "\<forall>y\<in>set (rows (recordings d)). rec_id y = rec_id x \<longrightarrow> rec_duplicate_of y \<noteq> Some (rec_id r)"
  have same: "x = orphaned now (rec_id r) y \<longleftrightarrow> x = y" if "y \<in> set (rows (recordings d))" for y
    using that x by (metis orphaned_def rec_id_orphaned)
  show "x \<in> set (rows (recordings (delete_recording_row (rec_id r) (revive_duplicates now (rec_id r) d)))) \<longleftrightarrow>
      x \<in> set (rows (recordings d))"
  proof
    assume "x \<in> set (rows (recordings (delete_recording_row (rec_id r) (revive_duplicates now (rec_id r) d))))"
    then obtain y where "y \<in> set (rows (recordings d))" "x = orphaned now (rec_id r) y"
      unfolding rows_deleted by auto
    with same show "x \<in> set (rows (recordings d))" by metis
  next
    assume m: "x \<in> set (rows (recordings d))"
    then have "x = orphaned now (rec_id r) x" by (simp add: same)
    with m x(1) show "x \<in> set (rows (recordings (delete_recording_row (rec_id r) (revive_duplicates now (rec_id r) d))))"
      unfolding rows_deleted by (metis (mono_tags, lifting) imageI mem_Collect_eq set_filter set_map)
  qed
qed (simp_all add: delete_recording_row_def revive_duplicates_def update_recordings_def ledger_view_def others_def)

lemma only_about_tag: "only_about r d (tag_recording (rec_id r) (rec_ws r) np d)"
proof (cases "scalar (\<lambda>t. tag_ws t = rec_ws r \<and> tag_name t = fst np) (tags d)")
  case None
  then show ?thesis
    by (intro only_aboutI [where new = "[\<lparr>tag_id = next_id (tags d), tag_public = snd np, tag_ws = rec_ws r,
          tag_name = fst np\<rparr>]"])
      (auto simp: tag_recording_def resolve_tag_def Let_def intro!: others_append)
next
  case (Some t)
  then show ?thesis
    by (intro only_aboutI [where new = "[]"])
      (auto simp: tag_recording_def resolve_tag_def Let_def intro!: others_append)
qed

lemma only_about_untag: "only_about r d (untag (rec_id r) t d)"
  by (intro only_aboutI [where new = "[]"]) (simp_all add: untag_def others_def, rule filter_cong, auto)

lemma only_about_share:
  assumes "shares_ok d" "share_with_email d r email permission author fresh = Inr (s, d')"
  shows "only_about r d d'"
proof -
  have t: "table_ok shr_id (shares d)" using assms(1) by (simp add: shares_ok_def)
  have upd: "only_about r d (set_permission (shr_id x) p d)"
    if "x \<in> set (rows (shares d))" "shr_recording x = rec_id r" for x p
    using shr_tbl.same_key [OF t _ that(1)] that(2)
    by (intro only_aboutI [where new = "[]"]) (auto simp: set_permission_def intro!: others_update)
  have ins: "only_about r d (d\<lparr>shares := insert_row set_shr_id x (shares d)\<rparr>)"
    if "shr_recording x = rec_id r" for x
    using that by (intro only_aboutI [where new = "[]"]) (auto intro!: others_append)
  show ?thesis
    using assms(2) unfolding share_with_email_def find_share_def Let_def
    by (auto split: sum.splits if_splits option.splits dest!: scalar_Some intro!: upd ins)
qed

lemma only_about_unshare:
  assumes "shares_ok d"
  shows "only_about r d (snd (revoke_share d (rec_id r) i))"
proof -
  have t: "table_ok shr_id (shares d)" using assms by (simp add: shares_ok_def)
  have del: "only_about r d (d\<lparr>shares := delete_where (\<lambda>y. shr_id y = shr_id x) (shares d)\<rparr>)"
    if "x \<in> set (rows (shares d))" "shr_recording x = rec_id r" for x
    using shr_tbl.same_key [OF t _ that(1)] that(2)
    by (intro only_aboutI [where new = "[]"]) (auto intro!: others_delete)
  have "only_about r d d" by (rule only_aboutI [where new = "[]"]) auto
  then show ?thesis
    by (auto simp: revoke_share_def split: option.splits dest!: scalar_Some intro!: del)
qed

lemma only_about_link:
  assumes "create_link H raw pub (rec_id r) label pw a n ds author now d = Inr (l, d')"
  shows "only_about r d d'"
  using assms unfolding create_link_def Let_def
  by (auto split: if_splits intro!: only_aboutI [where new = "[]"] others_append)

lemma only_about_unlink:
  assumes "links_ok d"
  shows "only_about r d (snd (revoke_link d (rec_id r) i now))"
proof -
  have t: "table_ok lnk_id (links d)" using assms by (simp add: links_ok_def)
  have upd: "only_about r d (d\<lparr>links := update_where (\<lambda>y. lnk_id y = lnk_id x) (\<lambda>y. y\<lparr>lnk_revoked := Some now\<rparr>) (links d)\<rparr>)"
    if "x \<in> set (rows (links d))" "lnk_recording x = rec_id r" for x
    using lnk_tbl.same_key [OF t _ that(1)] that(2)
    by (intro only_aboutI [where new = "[]"]) (auto intro!: others_update)
  have "only_about r d d" by (rule only_aboutI [where new = "[]"]) auto
  then show ?thesis
    by (auto simp: revoke_link_def split: option.splits dest!: scalar_Some intro!: upd)
qed

subsection \<open>Every change goes through the same guards\<close>

lemma guarded_change:
  assumes "no_body (transaction d (and_then (recording_at need c d pub) F)) = (ans, d')" "d' \<noteq> d"
  obtains r y where "recording_at need c d pub = Inr r" "F r = Inr (y, d')"
proof (cases "recording_at need c d pub")
  case (Inl e)
  with assms show thesis by (simp add: no_body_def)
next
  case (Inr r)
  with assms that show thesis by (cases "F r") (auto simp: no_body_def)
qed

lemma change_methods_unsafe: "change_method ch \<notin> set SAFE_METHODS"
  by (cases ch) (simp_all add: SAFE_METHODS_def)

text \<open>What a committed change shows of the guards.\<close>

definition passed :: "request \<Rightarrow> uuid \<Rightarrow> recording_change \<Rightarrow> caller \<Rightarrow> db \<Rightarrow> recording \<Rightarrow> bool" where
  "passed rq pub ch c d r \<longleftrightarrow> recording_at (needed ch) c d pub = Inr r \<and> is_ok (require_csrf rq c)"

lemmas change_defs = update_title_def rename_speaker_def delete_recording_def retry_recording_def
  add_tag_def remove_tag_def add_share_def drop_share_def add_link_def drop_link_def

lemma change_recording_passed:
  assumes "change_recording sv rq pub ch c d = (ans, d')" "d' \<noteq> d"
  shows "\<exists>r. passed rq pub ch c d r"
  using assms
  by (cases ch; simp only: change_recording.simps change_defs passed_def needed.simps)
    (elim guarded_change; auto simp: and_then_Inr is_ok_iff)+

lemma only_about_share_change:
  assumes "shares_ok d" "change_recording sv rq pub ch c d = (ans, d')" "d' \<noteq> d"
    "passed rq pub ch c d r" "ch \<in> {Sharing e p fresh, Unsharing i}"
  shows "only_about r d d'"
  using assms(5)
proof (elim insertE emptyE)
  assume ch: "ch = Sharing e p fresh"
  with assms(2-4) show ?thesis
    unfolding ch change_recording.simps add_share_def passed_def needed.simps
    by (elim guarded_change)
      (auto simp: and_then_Inr Let_def split: if_split_asm intro: only_about_share [OF assms(1)])
next
  assume ch: "ch = Unsharing i"
  with assms(2-4) show ?thesis
    unfolding ch change_recording.simps drop_share_def passed_def needed.simps
    by (elim guarded_change)
      (use only_about_unshare [OF assms(1), of r i] in \<open>auto simp: and_then_Inr split: prod.splits if_splits\<close>)
qed

lemma only_about_link_change:
  assumes "links_ok d" "change_recording sv rq pub ch c d = (ans, d')" "d' \<noteq> d"
    "passed rq pub ch c d r" "ch \<in> {Linking b k fresh, Unlinking i}"
  shows "only_about r d d'"
  using assms(5)
proof (elim insertE emptyE)
  assume ch: "ch = Linking b k fresh"
  with assms(2-4) show ?thesis
    unfolding ch change_recording.simps add_link_def passed_def needed.simps
    by (elim guarded_change)
      (auto simp: and_then_Inr Let_def split: if_split_asm intro: only_about_link)
next
  assume ch: "ch = Unlinking i"
  with assms(2-4) show ?thesis
    unfolding ch change_recording.simps drop_link_def passed_def needed.simps
    by (elim guarded_change)
      (use only_about_unlink [OF assms(1), of r i "rq_now rq"] in \<open>auto simp: and_then_Inr split: prod.splits if_splits\<close>)
qed

lemma only_about_edit_change:
  assumes "table_ok spk_id (speakers d)" "change_recording sv rq pub ch c d = (ans, d')" "d' \<noteq> d"
    "passed rq pub ch c d r" "needed ch = EDIT \<or> ch = Remove \<or> ch = Retry"
  shows "only_about r d d'"
proof (cases ch)
  case ch: (NameSpeaker k n)
  have ins: "only_about r d (d\<lparr>speakers := insert_row set_spk_id x (speakers d)\<rparr>)"
    if "spk_recording x = rec_id r" for x
    using that by (intro only_aboutI [where new = "[]"]) (auto intro!: others_append)
  from assms(2-4) show ?thesis
    unfolding ch change_recording.simps rename_speaker_def passed_def needed.simps
    by (elim guarded_change)
      (auto simp: and_then_Inr Let_def split: if_splits option.splits dest!: scalar_Some
        intro!: ins only_about_speaker assms(1))
next
  case ch: (SetTitle t)
  from assms(2-4) show ?thesis
    unfolding ch change_recording.simps update_title_def passed_def needed.simps
    by (elim guarded_change) (auto simp: and_then_Inr Let_def intro!: only_about_put)
next
  case ch: Remove
  from assms(2-4) show ?thesis
    unfolding ch change_recording.simps delete_recording_def passed_def needed.simps
    by (elim guarded_change) (auto simp: and_then_Inr split: if_splits intro!: only_about_delete)
next
  case ch: Retry
  from assms(2-4) show ?thesis
    unfolding ch change_recording.simps retry_recording_def passed_def needed.simps
    by (elim guarded_change) (auto simp: and_then_Inr Let_def split: if_splits intro!: only_about_put)
next
  case ch: (Tagging n t)
  from assms(2-4) show ?thesis
    unfolding ch change_recording.simps add_tag_def passed_def needed.simps
    by (elim guarded_change) (auto simp: and_then_Inr Let_def split: if_splits intro!: only_about_tag)
next
  case ch: (Untagging t)
  from assms(2-4) show ?thesis
    unfolding ch change_recording.simps remove_tag_def passed_def needed.simps
    by (elim guarded_change) (auto simp: and_then_Inr Let_def intro!: only_about_untag)
qed (use assms(5) in auto)

lemma change_only_about:
  assumes "shares_ok d" "links_ok d" "table_ok spk_id (speakers d)"
    and "change_recording sv rq pub ch c d = (ans, d')" "d' \<noteq> d" "passed rq pub ch c d r"
  shows "only_about r d d'"
proof -
  note E = only_about_edit_change [OF assms(3-6)]
    and S = only_about_share_change [OF assms(1,4-6)] and L = only_about_link_change [OF assms(2,4-6)]
  show ?thesis
    by (cases ch) (auto intro: E S L)
qed

lemma touched_ok:
  "shares_ok (snd (touch_session d s now)) = shares_ok d"
  "links_ok (snd (touch_session d s now)) = links_ok d"
  "speakers (snd (touch_session d s now)) = speakers d"
  by (simp_all add: touch_session_def shares_ok_def links_ok_def)

lemma admitted_active:
  assumes "called_by H cfg rq d u s"
    and "recording_admits \<lparr>ca_principal = for_user u, ca_user = Some u, ca_session = Some s\<rparr> (snd (touch_session d s now)) = None"
  shows "usr_status u = UActive"
proof -
  from assms(1) have u: "get_user d (ses_user s) = Some u" by (simp add: called_by_def)
  with user_tbl.by_id_SomeD [OF u] have "get_user d (usr_id u) = Some u" by simp
  with assms(2) show ?thesis
    by (auto simp: recording_admits_def blocked_status_def split: if_splits)
qed

subsection \<open>Properties\<close>

text \<open>C1. Whatever a request below \<open>/api/recordings/{id}\<close> changes, it was sent with the cookie
  of a live session of an active account, with that session's token in the CSRF header, and
  the account had the permission the route asks for on the recording of that id; and it
  changed nothing but what belongs to that recording.\<close>

theorem recording_changes_are_authorised:
  assumes "db_ok d" "rq_method rq = change_method ch"
    and "serve sv rq (change_recording sv rq pub ch) d = (ans, d')"
    and "d' \<noteq> snd (current_principal (sv_hash sv) (sv_cfg sv) rq d)"
  shows "\<exists>u s r. called_by (sv_hash sv) (sv_cfg sv) rq d u s \<and> usr_status u = UActive \<and>
     csrf_matches rq s \<and> find_rec_public d pub = Some r \<and>
     needed ch \<le> resolve_recording_perm d (for_user u) r \<and>
     only_about r (snd (current_principal (sv_hash sv) (sv_cfg sv) rq d)) d'"
proof (cases rule: current_principal_cases [of "sv_hash sv" "sv_cfg sv" rq d])
  case nobody
  with assms(3,4) have "change_recording sv rq pub ch nobody d = (ans, d')" "d' \<noteq> d"
    by (simp_all add: serve_def)
  from change_recording_passed [OF this] show ?thesis
    by (auto simp: passed_def recording_at_def)
next
  case (account u s)
  let ?c = "\<lparr>ca_principal = for_user u, ca_user = Some u, ca_session = Some s\<rparr>"
  let ?d = "snd (touch_session d s (rq_now rq))"
  from account assms(3,4) have ch: "change_recording sv rq pub ch ?c ?d = (ans, d')" "d' \<noteq> ?d"
    by (simp_all add: serve_def)
  from change_recording_passed [OF ch] obtain r where r: "passed rq pub ch ?c ?d r" by blast
  have ok: "shares_ok ?d" "links_ok ?d" "table_ok spk_id (speakers ?d)"
    using assms(1) by (simp_all add: touched_ok db_ok_def speakers_ok_def)
  have only: "only_about r ?d d'" by (rule change_only_about [OF ok ch r])
  from r have at: "recording_at (needed ch) ?c ?d pub = Inr r" and csrf: "is_ok (require_csrf rq ?c)"
    by (simp_all add: passed_def)
  from csrf have "csrf_matches rq s"
    using require_csrf_Inr [of rq ?c] change_methods_unsafe [of ch] assms(2) by (auto simp: is_ok_iff)
  moreover from at have "recording_admits ?c ?d = None" "find_rec_public ?d pub = Some r"
    "needed ch \<le> resolve_recording_perm d (for_user u) r"
    by (simp_all add: recording_at_Inr)
  ultimately show ?thesis
    using account only admitted_active [OF account(1)] by (auto simp: find_rec_public_def)
qed

definition demo_settings :: settings where
  "demo_settings = \<lparr>cfg_database_url = ''db'', cfg_audio_dirs = [''/tape''], cfg_runner_url = ''r'',
     cfg_runner_upload = False, cfg_stt_model = None, cfg_stt_language = None,
     cfg_cors_origins = [''http://localhost:5173''], cfg_upload_dir = Some ''/up'', cfg_default_workspace = None,
     cfg_cookie_name = ''sid'', cfg_cookie_secure = True, cfg_cookie_domain = None, cfg_auto_approve = False,
     cfg_console_dir = None, cfg_quota_minutes = Some 600, cfg_quota_bytes = None, cfg_expose_docs = False,
     cfg_max_upload = 100, cfg_enrich_backend = ''ollama'', cfg_ollama_url = ''o'', cfg_ollama_model = ''m''\<rparr>"

definition demo_files_of :: files where
  "demo_files_of = \<lparr>fi_resolve = path_parts, fi_is_file = (\<lambda>p. True), fi_open = (\<lambda>p. None), fi_unlink = (\<lambda>p. True)\<rparr>"

definition demo_server :: server where
  "demo_server = \<lparr>sv_hash = id, sv_pwhash = id, sv_verify = (=), sv_dummy = ''?'', sv_outdated = (\<lambda>_. False),
     sv_files = demo_files_of, sv_cfg = demo_settings\<rparr>"

definition demo_member :: user where
  "demo_member = demo_ann\<lparr>usr_status := UActive\<rparr>"

definition demo_login :: user_session where
  "demo_login = \<lparr>ses_id = 1, ses_user = 2, ses_token_hash = ''t'', ses_csrf = ''c'', ses_issued_at = 0,
     ses_last_seen = 0, ses_expires = days 14, ses_absolute = days 90, ses_revoked = None,
     ses_agent = None, ses_ip = None\<rparr>"

text \<open>An account with a session, a member of the workspace of recording 31.\<close>

definition demo_site :: db where
  "demo_site = empty_db\<lparr>users := \<lparr>rows = [demo_op, demo_member], next_id = 3\<rparr>,
     workspaces := \<lparr>rows = [demo_main, demo_home], next_id = 3\<rparr>,
     members := \<lparr>rows = [\<lparr>mem_id = 1, mem_ws = 1, mem_user = 1, mem_role = Owner\<rparr>,
        \<lparr>mem_id = 2, mem_ws = 2, mem_user = 2, mem_role = Owner\<rparr>,
        \<lparr>mem_id = 3, mem_ws = 1, mem_user = 2, mem_role = Member\<rparr>], next_id = 4\<rparr>,
     user_sessions := \<lparr>rows = [demo_login], next_id = 2\<rparr>,
     recordings := \<lparr>rows = [demo_recording], next_id = 2\<rparr>\<rparr>"

definition demo_request :: "string \<Rightarrow> request" where
  "demo_request m = \<lparr>rq_method = m, rq_cookies = [(''sid'', ''t'')], rq_headers = [(''x-csrf-token'', ''c'')],
     rq_self = ''https://h'', rq_ip = None, rq_now = 10\<rparr>"

definition demo_caller :: caller where
  "demo_caller = \<lparr>ca_principal = for_user demo_member, ca_user = Some demo_member, ca_session = Some demo_login\<rparr>"

lemma demo_site_ok: "db_ok demo_site"
proof -
  have low: "str_lower ''op@x.io'' = ''op@x.io''" "str_lower ''ann@x.io'' = ''ann@x.io''"
    "str_lower ''main'' = ''main''" "str_lower ''ann'' = ''ann''" by code_simp+
  show ?thesis
    unfolding db_ok_def
    by (intro conjI)
      (simp_all add: demo_site_def demo_op_def demo_member_def demo_ann_def demo_main_def demo_home_def demo_login_def
        demo_recording_def empty_db_def empty_table_def users_ok_def workspaces_ok_def members_ok_def sessions_ok_def
        invites_ok_def shares_ok_def links_ok_def attempts_ok_def recordings_ok_def segments_ok_def tags_ok_def
        speakers_ok_def table_ok_def is_owner_def low)
qed

theorem recording_changes_are_authorised_witness:
  "\<exists>u s r. called_by id demo_settings (demo_request ''PATCH'') demo_site u s \<and> usr_status u = UActive \<and>
     csrf_matches (demo_request ''PATCH'') s \<and> find_rec_public demo_site 31 = Some r \<and>
     EDIT \<le> resolve_recording_perm demo_site (for_user u) r \<and>
     only_about r demo_site (put_recording 10 (demo_recording\<lparr>rec_title := Some ''T''\<rparr>) demo_site)"
proof -
  let ?rq = "demo_request ''PATCH''"
  have m: "rq_method ?rq = change_method (SetTitle ''T'')" by (simp add: demo_request_def)
  have s: "serve demo_server ?rq (change_recording demo_server ?rq 31 (SetTitle ''T'')) demo_site =
      (Inr (), put_recording 10 (demo_recording\<lparr>rec_title := Some ''T''\<rparr>) demo_site)"
    by code_simp
  have p: "snd (current_principal (sv_hash demo_server) (sv_cfg demo_server) ?rq demo_site) = demo_site"
    by code_simp
  have "put_recording 10 (demo_recording\<lparr>rec_title := Some ''T''\<rparr>) demo_site \<noteq> demo_site"
  proof
    assume "put_recording 10 (demo_recording\<lparr>rec_title := Some ''T''\<rparr>) demo_site = demo_site"
    then have "map rec_title (rows (recordings (put_recording 10 (demo_recording\<lparr>rec_title := Some ''T''\<rparr>) demo_site))) =
      map rec_title (rows (recordings demo_site))" by simp
    moreover have "map rec_title (rows (recordings (put_recording 10 (demo_recording\<lparr>rec_title := Some ''T''\<rparr>) demo_site))) =
      [Some ''T'']" by code_simp
    moreover have "map rec_title (rows (recordings demo_site)) = [None]" by code_simp
    ultimately show False by simp
  qed
  with recording_changes_are_authorised [OF demo_site_ok m s, unfolded p]
  show ?thesis by (simp add: demo_server_def)
qed

text \<open>C7. A recording that the caller may not see cannot be told from one that does not exist:
  every route gives the same answer and leaves the same database for an id out of the
  caller's reach as for an id that nobody has.\<close>

theorem recording_existence_is_hidden:
  assumes "find_rec_public d missing = None"
    and "\<And>r. find_rec_public d pub = Some r \<Longrightarrow>
      resolve_recording_perm d (ca_principal (fst (current_principal (sv_hash sv) (sv_cfg sv) rq d))) r = NONE"
  shows "serve sv rq (change_recording sv rq pub ch) d = serve sv rq (change_recording sv rq missing ch) d \<and>
    serve sv rq (recording_detail rq pub) d = serve sv rq (recording_detail rq missing) d \<and>
    serve sv rq (stream_audio (sv_files sv) (sv_cfg sv) rq pub) d =
      serve sv rq (stream_audio (sv_files sv) (sv_cfg sv) rq missing) d \<and>
    serve sv rq (share_panel pub) d = serve sv rq (share_panel missing) d"
proof -
  obtain c d1 where cp: "current_principal (sv_hash sv) (sv_cfg sv) rq d = (c, d1)" by fastforce
  have same: "recordings d1 = recordings d" "members d1 = members d" "shares d1 = shares d"
    using cp by (cases rule: current_principal_cases [of "sv_hash sv" "sv_cfg sv" rq d]; auto)+
  have at: "recording_at need c d1 pub = recording_at need c d1 missing" if "need \<noteq> NONE" for need
  proof (rule rec_hidden.no_probe)
    show "find_rec_public d1 missing = None" using assms(1) same by (simp add: find_rec_public_def)
    show "\<not> rec_hidden.reachable_row need c d1 pub"
      using assms(2) that same perm_cong [of d1 d]
      by (auto simp: rec_hidden.reachable_row_def find_rec_public_def cp split: option.splits)
  qed
  have "change_recording sv rq pub ch c d1 = change_recording sv rq missing ch c d1"
    by (cases ch) (simp_all add: change_defs at)
  then show ?thesis
    by (simp add: serve_def cp recording_detail_def stream_audio_def share_panel_def at)
qed

theorem recording_existence_is_hidden_witness:
  "serve demo_server (demo_request ''DELETE'') (change_recording demo_server (demo_request ''DELETE'') 31 Remove)
      (demo_site\<lparr>members := empty_table\<rparr>) =
   serve demo_server (demo_request ''DELETE'') (change_recording demo_server (demo_request ''DELETE'') 99 Remove)
      (demo_site\<lparr>members := empty_table\<rparr>)"
proof -
  have a: "find_rec_public (demo_site\<lparr>members := empty_table\<rparr>) 99 = None" by code_simp
  have b: "resolve_recording_perm (demo_site\<lparr>members := empty_table\<rparr>) (ca_principal (fst (current_principal
      (sv_hash demo_server) (sv_cfg demo_server) (demo_request ''DELETE'') (demo_site\<lparr>members := empty_table\<rparr>)))) r = NONE"
    if "find_rec_public (demo_site\<lparr>members := empty_table\<rparr>) 31 = Some r" for r
  proof -
    have "find_rec_public (demo_site\<lparr>members := empty_table\<rparr>) 31 = Some demo_recording" by code_simp
    with that have r: "r = demo_recording" by simp
    show ?thesis unfolding r by code_simp
  qed
  show ?thesis using recording_existence_is_hidden [OF a b, of _ Remove] by blast
qed

end
