(* ===== verification/Link_Access.thy ===== *)
theory Link_Access
  imports Access_Control
begin

text \<open>
  What the public surface of a link promises: a locked link stays closed without its cookie,
  the password opens it, and whoever comes through a link alone sees what the link allows.
\<close>

subsection \<open>The viewer of a link\<close>

lemma viewer_eq:
  "viewer d l r p =
     (p\<lparr>pr_link := Some (rec_id r), pr_link_audio := lnk_audio l, pr_link_names := lnk_names l\<rparr>,
      resolve_own_perm d p r)"
  by (simp add: viewer_def Let_def resolve_own_perm_def resolve_recording_perm_def has_own_access_def)

lemma viewer_own: "resolve_own_perm d (fst (viewer d l r p)) r = resolve_own_perm d p r"
  using viewer_eq [of d l r p] by (simp add: viewer_def Let_def)

lemma link_flags:
  "can_play_audio (p\<lparr>pr_link := Some i, pr_link_audio := a, pr_link_names := n\<rparr>) own \<longleftrightarrow> VIEW \<le> own \<or> a"
  "can_see_speaker_names (p\<lparr>pr_link := Some i, pr_link_audio := a, pr_link_names := n\<rparr>) own \<longleftrightarrow> VIEW \<le> own \<or> n"
  by (simp_all add: can_play_audio_def can_see_speaker_names_def)

lemma shared_detail_eq:
  assumes "open_link H rq token d = Inr (l, r)"
  shows "shared_detail H rq token c d =
     (if resolve_own_perm d (ca_principal c) r = NONE \<and> \<not> is_unlocked H l (cookie rq LINK_COOKIE)
      then (Inl (Http 401 (Opened PasswordRequired)), d)
      else (Inr \<lparr>sd_title = rec_title r, sd_summary = rec_summary r, sd_recorded_at = rec_recorded_at r,
              sd_duration = rec_duration r, sd_status = PUBLIC_STATUS (rec_status r),
              sd_language = rec_language r, sd_tags = map tag_out (tags_of d (rec_id r)),
              sd_progress = rec_progress r, sd_eta = eta_sec (rq_now rq) r,
              sd_audio = (resolve_own_perm d (ca_principal c) r \<noteq> NONE \<or> lnk_audio l),
              sd_speakers = (if resolve_own_perm d (ca_principal c) r \<noteq> NONE \<or> lnk_names l
                 then speaker_names_of d (rec_id r) else []),
              sd_segments = map segment_out (segments_of d (rec_id r))\<rparr>,
            record_view l (rq_now rq) d))"
  using assms by (simp add: shared_detail_def viewer_eq link_flags require_unlocked_def)

lemma shared_audio_eq:
  assumes "open_link H rq token d = Inr (l, r)"
  shows "shared_audio H fi cfg rq token c d =
     (if resolve_own_perm d (ca_principal c) r = NONE \<and> \<not> is_unlocked H l (cookie rq LINK_COOKIE)
      then (Inl (Http 401 (Opened PasswordRequired)), d)
      else if resolve_own_perm d (ca_principal c) r = NONE \<and> \<not> lnk_audio l
      then (Inl (Http 403 (Opened AudioNotAllowed)), d)
      else transaction d (and_then (audio_bytes fi cfg rq d r) (\<lambda>a. Inr (a, d))))"
  using assms by (simp add: shared_audio_def viewer_eq link_flags require_unlocked_def)

lemma open_link_Inr:
  "open_link H rq token d = Inr (l, r) \<longleftrightarrow>
     load_link H d token (rq_now rq) = Inr l \<and> get_recording d (lnk_recording l) = Some r"
  by (auto simp: open_link_def split: sum.splits option.splits)

lemma guard_frame:
  "links (snd (guard d ks)) = links d \<and> recordings (snd (guard d ks)) = recordings d"
  by (induction d ks rule: guard.induct)
    (auto simp: hit_def Let_def split: prod.splits option.splits)

lemma clear_frame: "links (clear_attempts d ks) = links d \<and> recordings (clear_attempts d ks) = recordings d"
  unfolding clear_attempts_def by (induction ks arbitrary: d) (simp_all add: clear_def)

lemma guard_attempts_frame [simp]:
  "links (snd (guard_attempts d ks)) = links d" "recordings (snd (guard_attempts d ks)) = recordings d"
  using guard_frame [of d ks] by (auto simp: guard_attempts_def split: prod.splits)

subsection \<open>An example\<close>

definition demo_open_link :: share_link where
  "demo_open_link = \<lparr>lnk_id = 1, lnk_public = 50, lnk_recording = 1, lnk_token_hash = ''k'', lnk_label = None,
     lnk_password = Some ''pw'', lnk_audio = False, lnk_names = True, lnk_expires = None, lnk_revoked = None,
     lnk_views = 0, lnk_last_viewed = None, lnk_created_by = None\<rparr>"

definition demo_linked :: db where
  "demo_linked = demo_site\<lparr>links := \<lparr>rows = [demo_open_link], next_id = 2\<rparr>\<rparr>"

definition demo_guest :: "(string \<times> string) list \<Rightarrow> request" where
  "demo_guest cookies = (demo_request ''GET'')\<lparr>rq_cookies := cookies\<rparr>"

text \<open>A hash that is never empty.\<close>

definition demo_hash :: "string \<Rightarrow> string" where "demo_hash s = (if s = [] then ''0'' else s)"

lemma demo_open: "open_link demo_hash (demo_guest cs) ''k'' demo_linked = Inr (demo_open_link, demo_recording)"
  by code_simp

lemma demo_own: "resolve_own_perm demo_linked (ca_principal nobody) demo_recording = NONE"
  by code_simp

subsection \<open>Properties\<close>

text \<open>C3. A link with a password is closed to everyone who has no permission of their own on
  the recording and does not send the cookie derived from the password's hash: both the
  text and the audio are refused with 401, and no view is counted.\<close>

theorem locked_link_stays_closed:
  assumes "open_link H rq token d = Inr (l, r)" "lnk_password l = Some h"
    and "resolve_own_perm d (ca_principal c) r = NONE" "cookie rq LINK_COOKIE \<noteq> Some (H h)"
  shows "shared_detail H rq token c d = (Inl (Http 401 (Opened PasswordRequired)), d) \<and>
     shared_audio H fi cfg rq token c d = (Inl (Http 401 (Opened PasswordRequired)), d)"
  using assms(2-4) by (auto simp: shared_detail_eq [OF assms(1)] shared_audio_eq [OF assms(1)] is_unlocked_iff)

theorem locked_link_stays_closed_witness:
  "shared_detail demo_hash (demo_guest [(LINK_COOKIE, ''guess'')]) ''k'' nobody demo_linked =
     (Inl (Http 401 (Opened PasswordRequired)), demo_linked)"
proof -
  have p: "lnk_password demo_open_link = Some ''pw''" by (simp add: demo_open_link_def)
  have c: "cookie (demo_guest [(LINK_COOKIE, ''guess'')]) LINK_COOKIE \<noteq> Some (demo_hash ''pw'')"
    by (simp add: cookie_def demo_guest_def demo_hash_def)
  show ?thesis using locked_link_stays_closed [OF demo_open p demo_own c] by blast
qed

text \<open>C34. Unlocking and opening fit together: the password is checked before anything is given,
  and the value that a correct password yields opens the same link in a later request, for
  as long as the link lives.\<close>

theorem unlock_opens_the_link:
  assumes "unlock H verify dummy cfg rq token password d = (Inr (Some v), d')"
    and "\<And>x. H x \<noteq> []"
    and "cookie rq' LINK_COOKIE = Some v" "open_link H rq' token d' = Inr (l, r)"
  shows "(\<exists>h. lnk_password l = Some h \<and> verify h password \<and> v = H h) \<and>
     is_ok (fst (shared_detail H rq' token c d')) \<and>
     (lnk_audio l \<longrightarrow> shared_audio H fi cfg rq' token c d' =
        transaction d' (and_then (audio_bytes fi cfg rq' d' r) (\<lambda>a. Inr (a, d'))))"
proof -
  define ks where "ks = [((source_key ''unlock'' (rq_ip rq), PER_SOURCE), rq_now rq),
     ((target_key H ''unlock'' (rq_ip rq) token, PER_TARGET), rq_now rq)]"
  obtain ok d1 where g: "guard_attempts d ks = (ok, d1)" by fastforce
  with assms(1) obtain l0 r0 where o: "open_link H rq token d1 = Inr (l0, r0)"
    by (auto simp: unlock_def ks_def Let_def split: sum.splits if_splits prod.splits)
  with assms(1) g obtain h where h: "lnk_password l0 = Some h" "verify h password" "v = H h"
    and d': "d' = clear_attempts d1 [source_key ''unlock'' (rq_ip rq), target_key H ''unlock'' (rq_ip rq) token]"
    by (auto simp: unlock_def ks_def Let_def unlock_value_def verify_password_iff split: sum.splits if_splits option.splits)
  have same: "links d' = links d1" "recordings d' = recordings d1"
    using clear_frame by (simp_all add: d')
  have l: "l = l0"
    using assms(4) o same by (auto simp: open_link_Inr load_link_def split: option.splits if_splits)
  then have "is_unlocked H l (cookie rq' LINK_COOKIE)"
    using h assms(2,3) by (simp add: is_unlocked_iff)
  with h l show ?thesis
    by (simp add: shared_detail_eq [OF assms(4)] shared_audio_eq [OF assms(4)])
qed

theorem unlock_opens_the_link_witness:
  "is_ok (fst (shared_detail demo_hash (demo_guest [(LINK_COOKIE, ''pw'')]) ''k'' nobody
     (snd (unlock demo_hash (=) ''x'' demo_settings (demo_guest []) ''k'' ''pw'' demo_linked))))"
proof -
  let ?u = "unlock demo_hash (=) ''x'' demo_settings (demo_guest []) ''k'' ''pw'' demo_linked"
  have f: "fst ?u = Inr (Some ''pw'')" by code_simp
  then have u: "?u = (Inr (Some ''pw''), snd ?u)" by (metis prod.collapse)
  have h: "demo_hash x \<noteq> []" for x by (simp add: demo_hash_def)
  have c: "cookie (demo_guest [(LINK_COOKIE, ''pw'')]) LINK_COOKIE = Some ''pw''"
    by (simp add: cookie_def demo_guest_def)
  have o: "open_link demo_hash (demo_guest [(LINK_COOKIE, ''pw'')]) ''k'' (snd ?u) = Inr (demo_open_link, demo_recording)"
    by code_simp
  show ?thesis using unlock_opens_the_link [OF u h c o] by blast
qed

text \<open>C17. Through a link alone, without a permission of one's own, a person sees at most what the
  link allows: never more than VIEW, the audio only of a link that allows it, speaker names
  only of a link that shows them, and of the internal states only done, unavailable or
  processing.\<close>

theorem link_gives_what_it_allows:
  assumes "open_link H rq token d = Inr (l, r)" "resolve_own_perm d (ca_principal c) r = NONE"
    and "shared_detail H rq token c d = (Inr out, d')"
  shows "resolve_recording_perm d (fst (viewer d l r (ca_principal c))) r = VIEW \<and>
     sd_audio out = lnk_audio l \<and> (sd_speakers out \<noteq> [] \<longrightarrow> lnk_names l) \<and>
     (\<not> lnk_audio l \<longrightarrow> shared_audio H fi cfg rq token c d = (Inl (Http 403 (Opened AudioNotAllowed)), d)) \<and>
     d' = record_view l (rq_now rq) d \<and>
     (sd_status out = PublicDone \<longleftrightarrow> rec_status r = Done)"
proof -
  have unlocked: "is_unlocked H l (cookie rq LINK_COOKIE)"
    using assms(2,3) by (auto simp: shared_detail_eq [OF assms(1)] split: if_splits)
  let ?v = "fst (viewer d l r (ca_principal c))"
  have own: "resolve_recording_perm d (?v\<lparr>pr_link := None\<rparr>) r = NONE"
    using assms(2) viewer_own [of d l r "ca_principal c"] by (simp add: resolve_own_perm_def)
  have "link_grant_of ?v r = VIEW" by (simp add: viewer_def Let_def link_grant_of_def)
  then have "resolve_recording_perm d ?v r = VIEW"
    using rec_access.resolve_split [of ?v d r] rec_access.resolve_locked [of ?v d r] own
    by (cases "admin_access ?v") simp_all
  moreover have "PUBLIC_STATUS x = PublicDone \<longleftrightarrow> x = Done" for x by (cases x) simp_all
  moreover have "(Inr out, d') = shared_detail H rq token c d" by (rule assms(3) [symmetric])
  then have "d' = record_view l (rq_now rq) d" "sd_audio out = lnk_audio l"
    "sd_speakers out = (if lnk_names l then speaker_names_of d (rec_id r) else [])"
    "sd_status out = PUBLIC_STATUS (rec_status r)"
    unfolding shared_detail_eq [OF assms(1)] assms(2) using unlocked by simp_all
  moreover have "shared_audio H fi cfg rq token c d = (Inl (Http 403 (Opened AudioNotAllowed)), d)" if "\<not> lnk_audio l"
    unfolding shared_audio_eq [OF assms(1)] assms(2) using unlocked that by simp
  ultimately show ?thesis by (intro conjI impI) (simp_all split: if_splits)
qed

theorem link_gives_what_it_allows_witness:
  "shared_audio demo_hash demo_files_of demo_settings (demo_guest [(LINK_COOKIE, ''pw'')]) ''k'' nobody demo_linked =
     (Inl (Http 403 (Opened AudioNotAllowed)), demo_linked)"
proof -
  let ?rq = "demo_guest [(LINK_COOKIE, ''pw'')]"
  have "is_ok (fst (shared_detail demo_hash ?rq ''k'' nobody demo_linked))" by code_simp
  then obtain out d' where s: "shared_detail demo_hash ?rq ''k'' nobody demo_linked = (Inr out, d')"
    by (metis is_ok_iff prod.collapse)
  have "\<not> lnk_audio demo_open_link" by (simp add: demo_open_link_def)
  with link_gives_what_it_allows [OF demo_open demo_own s] show ?thesis by blast
qed

end
