(* ===== verification/Account_Routes.thy ===== *)
theory Account_Routes
  imports Access_Control
begin

text \<open>
  \<open>routes_auth.py\<close>: signing up, logging in and out, one's own account, the password, and
  the administration of accounts. The answer of a route that logs in holds the two cookie
  values. Tokens, random draws and the order of names are arguments.
\<close>

subsection \<open>What an account is told\<close>

type_synonym user_out = "uuid \<times> string \<times> string"

definition user_out :: "user \<Rightarrow> user_out" where
  "user_out u = (usr_public u, usr_email u, usr_display_name u)"

datatype capability = CapUpload | CapDelete | CapShare | CapInvite | CapStats | CapMembers

datatype account_capability = CapAdmin | CapCreateWorkspace

fun ROLE_CAPABILITIES :: "workspace_role \<Rightarrow> capability list" where
  "ROLE_CAPABILITIES Owner = [CapUpload, CapDelete, CapShare, CapInvite, CapStats, CapMembers]"
| "ROLE_CAPABILITIES Admin = [CapUpload, CapDelete, CapShare, CapInvite, CapStats, CapMembers]"
| "ROLE_CAPABILITIES Member = [CapUpload, CapDelete, CapShare]"
| "ROLE_CAPABILITIES Viewer = []"

definition account_capabilities :: "user \<Rightarrow> account_capability list" where
  "account_capabilities u =
     (if usr_status u \<noteq> UActive then []
      else if usr_service_admin u then [CapAdmin, CapCreateWorkspace]
      else [])"

record workspace_ref =
  wf_id :: uuid
  wf_name :: string
  wf_slug :: string
  wf_role :: workspace_role
  wf_capabilities :: "capability list"

definition workspace_ref :: "workspace \<Rightarrow> workspace_role \<Rightarrow> workspace_ref" where
  "workspace_ref w role = \<lparr>wf_id = ws_public w, wf_name = ws_name w, wf_slug = ws_slug w, wf_role = role,
     wf_capabilities = ROLE_CAPABILITIES role\<rparr>"

record me_out =
  me_user :: user_out
  me_status :: user_status
  me_workspaces :: "workspace_ref list"
  me_default :: "uuid option"
  me_capabilities :: "account_capability list"
  me_pending :: "nat option"

definition role_in :: "db \<Rightarrow> user \<Rightarrow> workspace \<Rightarrow> workspace_role" where
  "role_in d u w = (case find_member d (ws_id w) (usr_id u) of Some m \<Rightarrow> mem_role m | None \<Rightarrow> Member)"

definition me :: "(string \<Rightarrow> nat) \<Rightarrow> db \<Rightarrow> user \<Rightarrow> me_out" where
  "me collate d u =
     \<lparr>me_user = user_out u, me_status = usr_status u,
      me_workspaces = map (\<lambda>w. workspace_ref w (role_in d u w)) (user_workspaces collate d u),
      me_default = (case usr_default_ws u of None \<Rightarrow> None
                    | Some i \<Rightarrow> map_option ws_public (get_workspace_row d i)),
      me_capabilities = account_capabilities u,
      me_pending =
        (if usr_service_admin u \<and> usr_status u = UActive
         then Some (length (select (\<lambda>x. usr_status x = UPending) (users d))) else None)\<rparr>"

subsection \<open>Signing up and logging in\<close>

text \<open>The token and the CSRF token drawn for a new session.\<close>

record fresh_tokens =
  ft_token :: string
  ft_csrf :: string

definition issue ::
  "server \<Rightarrow> request \<Rightarrow> fresh_tokens \<Rightarrow> user \<Rightarrow> db \<Rightarrow> db" where
  "issue sv rq ft u d =
     snd (create_session (sv_hash sv) (ft_token ft) (ft_csrf ft) u (header rq ''user-agent'') (rq_ip rq) (rq_now rq) d)"

record signup_in =
  si_email :: string
  si_password :: string
  si_name :: string
  si_note :: "string option"

definition signup_route ::
  "server \<Rightarrow> (string \<Rightarrow> nat) \<Rightarrow> request \<Rightarrow> signup_in \<Rightarrow> draws \<Rightarrow> fresh_tokens \<Rightarrow> db \<Rightarrow>
   (http_error, me_out \<times> fresh_tokens) result \<times> db" where
  "signup_route sv collate rq body dr ft d =
     (case require_known_origin (sv_cfg sv) rq of
        Inl e \<Rightarrow> (Inl e, d)
      | Inr _ \<Rightarrow>
          if length (si_password body) < PASSWORD_MIN then (Inl (Http 422 (Account ShortPassword)), d)
          else if str_strip (si_name body) = [] then (Inl (Http 422 (Account EmptyName)), d)
          else
            let (ok, d1) = guard_attempts d [((source_key ''signup'' (rq_ip rq), PER_SOURCE), rq_now rq)]
            in if \<not> ok then (Inl (Http 429 (Access TooMany)), d1)
               else transaction d1
                 (case signup d1 (si_email body) (sv_pwhash sv (si_password body)) (str_strip (si_name body))
                         (si_note body) (cfg_auto_approve (sv_cfg sv)) (cfg_quota_minutes (sv_cfg sv))
                         (cfg_quota_bytes (sv_cfg sv)) dr (rq_now rq) of
                    Inl EmailTaken \<Rightarrow> Inl (Http 409 (Account EmailInUse))
                  | Inl Integrity \<Rightarrow> Inl (Http 409 (Account EmailInUse))
                  | Inl _ \<Rightarrow> Inl Unhandled
                  | Inr ((u, w), d2) \<Rightarrow>
                      let d3 = issue sv rq ft u d2 in Inr ((me collate d3 u, ft), d3)))"

definition login_route ::
  "server \<Rightarrow> (string \<Rightarrow> nat) \<Rightarrow> request \<Rightarrow> string \<Rightarrow> string \<Rightarrow> fresh_tokens \<Rightarrow> db \<Rightarrow>
   (http_error, me_out \<times> fresh_tokens) result \<times> db" where
  "login_route sv collate rq email password ft d =
     (case require_known_origin (sv_cfg sv) rq of
        Inl e \<Rightarrow> (Inl e, d)
      | Inr _ \<Rightarrow>
          let src = source_key ''login'' (rq_ip rq);
              pair = target_key (sv_hash sv) ''login'' (rq_ip rq) (str_lower (str_strip email));
              (ok, d1) = guard_attempts d [((src, PER_SOURCE), rq_now rq), ((pair, PER_TARGET), rq_now rq)]
          in if \<not> ok then (Inl (Http 429 (Access TooMany)), d1)
             else
               let found = find_user d1 email
               in if \<not> verify_password (sv_verify sv) (sv_dummy sv) (map_option usr_password_hash found) password
                  then (Inl (Http 401 (Account BadLogin)), d1)
                  else
                    (case found of
                       None \<Rightarrow> (Inl Unhandled, d1)
                     | Some u \<Rightarrow>
                         if usr_status u = URejected then (Inl (Http 403 (Access AccountRejected)), d1)
                         else if usr_status u = UDisabled then (Inl (Http 403 (Access AccountDisabled)), d1)
                         else
                           let d2 = clear_attempts d1 [src, pair];
                               u' = u\<lparr>usr_password_hash :=
                                        (if sv_outdated sv (usr_password_hash u) then sv_pwhash sv password
                                         else usr_password_hash u),
                                      usr_last_login := Some (rq_now rq)\<rparr>;
                               d3 = update_user (usr_id u) (\<lambda>_. u') d2;
                               d4 = issue sv rq ft u' d3
                           in (Inr (me collate d4 u', ft), d4)))"

subsection \<open>With a session\<close>

definition logout_route ::
  "server \<Rightarrow> request \<Rightarrow> caller \<Rightarrow> db \<Rightarrow> (http_error, unit) result \<times> db" where
  "logout_route sv rq c d = transaction d
     (and_then (require_csrf rq c) (\<lambda>_.
        case cookie rq (cfg_cookie_name (sv_cfg sv)) of
          None \<Rightarrow> Inr ((), d)
        | Some raw \<Rightarrow>
            if raw = [] then Inr ((), d)
            else case load_session (sv_hash sv) d raw (rq_now rq) of
                   None \<Rightarrow> Inr ((), d)
                 | Some s \<Rightarrow> Inr ((), revoke_session d s (rq_now rq))))"

definition me_route :: "(string \<Rightarrow> nat) \<Rightarrow> caller \<Rightarrow> db \<Rightarrow> (http_error, me_out) result \<times> db" where
  "me_route collate c d = transaction d (and_then (require_user c) (\<lambda>u. Inr (me collate d u, d)))"

definition change_password ::
  "server \<Rightarrow> request \<Rightarrow> string \<Rightarrow> string \<Rightarrow> caller \<Rightarrow> db \<Rightarrow> (http_error, unit) result \<times> db" where
  "change_password sv rq current new c d =
     (case and_then (require_user c) (\<lambda>u. and_then (require_csrf rq c) (\<lambda>_. Inr u)) of
        Inl e \<Rightarrow> (Inl e, d)
      | Inr u \<Rightarrow>
          let (ok, d1) = guard_attempts d [((source_key ''password'' (rq_ip rq), PER_SOURCE), rq_now rq)]
          in if \<not> ok then (Inl (Http 429 (Access TooMany)), d1)
             else if \<not> verify_password (sv_verify sv) (sv_dummy sv) (Some (usr_password_hash u)) current
             then (Inl (Http 403 (Account WrongPassword)), d1)
             else if length new < PASSWORD_MIN then (Inl (Http 422 (Account ShortPassword)), d1)
             else
               let d2 = update_user (usr_id u) (\<lambda>x. x\<lparr>usr_password_hash := sv_pwhash sv new\<rparr>) d1
               in (Inr (), snd (revoke_other_sessions d2 (usr_id u) (ca_session c) (rq_now rq))))"

subsection \<open>Administration of accounts\<close>

record pending_out =
  po_user :: user_out
  po_status :: user_status
  po_note :: "string option"
  po_requested :: time

definition list_accounts ::
  "string \<Rightarrow> caller \<Rightarrow> db \<Rightarrow> (http_error, pending_out list) result \<times> db" where
  "list_accounts status c d = transaction d
     (and_then (require_service_admin c) (\<lambda>_.
        case find (\<lambda>s. user_status_name s = status) (ASSIGNABLE_STATUSES @ [UPending]) of
          None \<Rightarrow> Inl (Http 422 (Account NoSuchStatus))
        | Some s \<Rightarrow>
            Inr (map (\<lambda>u. \<lparr>po_user = user_out u, po_status = usr_status u, po_note = usr_signup_note u,
                    po_requested = usr_created_at u\<rparr>) (list_users d (Some s) 100), d)))"

definition target_user :: "db \<Rightarrow> uuid \<Rightarrow> (http_error, user) result" where
  "target_user d pub =
     (case scalar (\<lambda>u. usr_public u = pub) (users d) of
        None \<Rightarrow> Inl (Http 404 (Account NoAccount)) | Some u \<Rightarrow> Inr u)"

definition change_account_status ::
  "server \<Rightarrow> (string \<Rightarrow> nat) \<Rightarrow> request \<Rightarrow> uuid \<Rightarrow> string \<Rightarrow> draws \<Rightarrow> caller \<Rightarrow> db \<Rightarrow>
   (http_error, me_out) result \<times> db" where
  "change_account_status sv collate rq pub status dr c d = transaction d
     (and_then (require_service_admin c) (\<lambda>admin.
      and_then (require_csrf rq c) (\<lambda>_.
      and_then (target_user d pub) (\<lambda>target.
        if usr_id target = usr_id admin then Inl (Http 422 (Account OwnAccount))
        else
          (case set_user_status target status (Some (usr_id admin)) (cfg_quota_minutes (sv_cfg sv))
                  (cfg_quota_bytes (sv_cfg sv)) dr (rq_now rq) d of
             Inl (MemberInvalid e) \<Rightarrow> Inl (Http 422 (Account (BadAccountStatus e)))
           | Inl _ \<Rightarrow> Inl Unhandled
           | Inr d' \<Rightarrow>
               let t = (case get_user d' (usr_id target) of Some x \<Rightarrow> x | None \<Rightarrow> target)
               in Inr (me collate d' t, d'))))))"

subsection \<open>Counting attempts touches nothing else\<close>

lemma guard_only_attempts: "snd (guard d ks) = d\<lparr>attempts := attempts (snd (guard d ks))\<rparr>"
proof (induction d ks rule: guard.induct)
  case (2 d key l now ks)
  obtain n d1 where h: "hit d key l now = (n, d1)" by fastforce
  then have "d1 = d\<lparr>attempts := attempts d1\<rparr>"
    by (auto simp: hit_def Let_def split: option.splits)
  moreover from 2 [OF h [symmetric]] have "snd (guard d1 ks) = d1\<lparr>attempts := attempts (snd (guard d1 ks))\<rparr>" by simp
  ultimately have "snd (guard d1 ks) = d\<lparr>attempts := attempts (snd (guard d1 ks))\<rparr>"
    by (metis db.surjective db.update_convs(8))
  then show ?case by (simp add: h split_beta)
qed simp

lemma clear_only_attempts: "clear_attempts d ks = d\<lparr>attempts := attempts (clear_attempts d ks)\<rparr>"
proof -
  have "fold (\<lambda>k d. clear d k) ks d = d\<lparr>attempts := attempts (fold (\<lambda>k d. clear d k) ks d)\<rparr>"
  proof (induction ks arbitrary: d)
    case (Cons k ks)
    have "fold (\<lambda>k d. clear d k) ks (clear d k) =
        (clear d k)\<lparr>attempts := attempts (fold (\<lambda>k d. clear d k) ks (clear d k))\<rparr>" by (rule Cons)
    also have "\<dots> = d\<lparr>attempts := attempts (fold (\<lambda>k d. clear d k) ks (clear d k))\<rparr>" by (simp add: clear_def)
    finally show ?case by simp
  qed simp
  then show ?thesis by (simp add: clear_attempts_def)
qed

lemma guard_attempts_only: "snd (guard_attempts d ks) = d\<lparr>attempts := attempts (snd (guard_attempts d ks))\<rparr>"
  using guard_only_attempts [of d ks] by (auto simp: guard_attempts_def split: prod.splits)

text \<open>What a database looks like after counting.\<close>

definition counted_as :: "db \<Rightarrow> db \<Rightarrow> bool" where
  "counted_as d d' \<longleftrightarrow> d' = d\<lparr>attempts := attempts d'\<rparr>"

lemma counted_as_refl [simp]: "counted_as d d"
  by (simp add: counted_as_def)

lemma counted_as_guard: "guard_attempts d ks = (ok, d') \<Longrightarrow> counted_as d d'"
  using guard_attempts_only [of d ks] by (simp add: counted_as_def)

lemma counted_as_tables:
  assumes "counted_as d d'"
  shows "users d' = users d" "user_sessions d' = user_sessions d" "workspaces d' = workspaces d" "members d' = members d"
    "invites d' = invites d"
  using arg_cong [OF assms [unfolded counted_as_def], of users]
    arg_cong [OF assms [unfolded counted_as_def], of user_sessions]
    arg_cong [OF assms [unfolded counted_as_def], of workspaces]
    arg_cong [OF assms [unfolded counted_as_def], of members]
    arg_cong [OF assms [unfolded counted_as_def], of invites] by simp_all

lemma load_session_cong: "user_sessions d' = user_sessions d \<Longrightarrow> load_session H d' raw t = load_session H d raw t"
  by (simp add: load_session_def)

lemma clear_tables [simp]:
  "users (clear_attempts d ks) = users d" "user_sessions (clear_attempts d ks) = user_sessions d"
  by (subst clear_only_attempts, simp)+

subsection \<open>A new session\<close>

text \<open>The row that \<open>create_session\<close> adds.\<close>

definition fresh_session :: "server \<Rightarrow> request \<Rightarrow> fresh_tokens \<Rightarrow> user \<Rightarrow> db \<Rightarrow> user_session" where
  "fresh_session sv rq ft u d =
     fst (create_session (sv_hash sv) (ft_token ft) (ft_csrf ft) u (header rq ''user-agent'') (rq_ip rq) (rq_now rq) d)"

lemma fresh_session_simps [simp]:
  "ses_user (fresh_session sv rq ft u d) = usr_id u" "ses_csrf (fresh_session sv rq ft u d) = ft_csrf ft"
  "ses_token_hash (fresh_session sv rq ft u d) = sv_hash sv (ft_token ft)"
  "ses_revoked (fresh_session sv rq ft u d) = None"
  by (simp_all add: fresh_session_def create_session_def Let_def)

lemma rows_issue: "rows (user_sessions (issue sv rq ft u d)) = rows (user_sessions d) @ [fresh_session sv rq ft u d]"
  by (simp add: issue_def fresh_session_def create_session_def Let_def)

lemma issue_frame [simp]:
  "users (issue sv rq ft u d) = users d" "attempts (issue sv rq ft u d) = attempts d"
  by (simp_all add: issue_def create_session_def Let_def)

lemma fresh_session_live: "session_live (rq_now rq) (fresh_session sv rq ft u d)"
  by (simp add: session_live_def fresh_session_def create_session_def Let_def session_consts time_defs)

lemma issued_loads:
  assumes "\<forall>s\<in>set (rows (user_sessions d)). ses_token_hash s \<noteq> sv_hash sv (ft_token ft)"
  shows "load_session (sv_hash sv) (issue sv rq ft u d) (ft_token ft) (rq_now rq) = Some (fresh_session sv rq ft u d)"
proof -
  have "find (\<lambda>s. ses_token_hash s = sv_hash sv (ft_token ft)) (rows (user_sessions d)) = None"
    using assms by (auto simp: find_None_iff)
  then have "scalar (\<lambda>s. ses_token_hash s = sv_hash sv (ft_token ft)) (user_sessions (issue sv rq ft u d)) =
      Some (fresh_session sv rq ft u d)"
    by (simp add: scalar_def rows_issue find_append)
  moreover have "\<not> (ses_expires (fresh_session sv rq ft u d) \<le> rq_now rq \<or> ses_absolute (fresh_session sv rq ft u d) \<le> rq_now rq)"
    using fresh_session_live [of rq sv ft u d] by (auto simp: session_live_def)
  ultimately show ?thesis by (simp add: load_session_def)
qed

subsection \<open>Logging in, branch by branch\<close>

definition login_ks :: "server \<Rightarrow> request \<Rightarrow> string \<Rightarrow> axis list" where
  "login_ks sv rq email = [((source_key ''login'' (rq_ip rq), PER_SOURCE), rq_now rq),
     ((target_key (sv_hash sv) ''login'' (rq_ip rq) (str_lower (str_strip email)), PER_TARGET), rq_now rq)]"

definition may_log_in :: "server \<Rightarrow> db \<Rightarrow> string \<Rightarrow> string \<Rightarrow> user \<Rightarrow> bool" where
  "may_log_in sv d email password u \<longleftrightarrow> find_user d email = Some u \<and>
     sv_verify sv (usr_password_hash u) password \<and> usr_status u \<noteq> URejected \<and> usr_status u \<noteq> UDisabled"

lemma login_cases:
  assumes "login_route sv collate rq email password ft d = (ans, d')"
  obtains (refused) e where "ans = Inl e" "counted_as d d'"
      "e \<in> {Http 403 (Access OriginRefused), Http 429 (Access TooMany), Http 401 (Account BadLogin)} \<or>
       (\<exists>u. find_user d email = Some u \<and> sv_verify sv (usr_password_hash u) password \<and>
          usr_status u \<noteq> UPending \<and> usr_status u \<noteq> UActive)"
  | (accepted) u d2 u' where "may_log_in sv d email password u" "counted_as d d2" "usr_id u' = usr_id u"
      "ans = Inr (me collate d' u', ft)" "d' = issue sv rq ft u' (update_user (usr_id u) (\<lambda>_. u') d2)"
      "\<forall>k. \<forall>l. k \<in> fst ` fst ` set (login_ks sv rq email) \<longrightarrow> count_of d' k l (rq_now rq) = 0"
proof -
  let ?ks = "login_ks sv rq email"
  obtain ok d1 where g: "guard_attempts d ?ks = (ok, d1)" by fastforce
  note c1 = counted_as_guard [OF g]
  have find: "find_user d1 email = find_user d email"
    by (simp add: find_user_def counted_as_tables [OF c1])
  define src where "src = source_key ''login'' (rq_ip rq)"
  define pair where "pair = target_key (sv_hash sv) ''login'' (rq_ip rq) (str_lower (str_strip email))"
  have ks: "?ks = [((src, PER_SOURCE), rq_now rq), ((pair, PER_TARGET), rq_now rq)]"
    by (simp add: login_ks_def src_def pair_def)
  have route: "login_route sv collate rq email password ft d =
      (if \<not> ok then (Inl (Http 429 (Access TooMany)), d1)
       else if \<not> verify_password (sv_verify sv) (sv_dummy sv) (map_option usr_password_hash (find_user d email)) password
       then (Inl (Http 401 (Account BadLogin)), d1)
       else (case find_user d email of None \<Rightarrow> (Inl Unhandled, d1)
         | Some u \<Rightarrow>
             if usr_status u = URejected then (Inl (Http 403 (Access AccountRejected)), d1)
             else if usr_status u = UDisabled then (Inl (Http 403 (Access AccountDisabled)), d1)
             else let u' = u\<lparr>usr_password_hash := (if sv_outdated sv (usr_password_hash u) then sv_pwhash sv password
                            else usr_password_hash u), usr_last_login := Some (rq_now rq)\<rparr>;
                      d4 = issue sv rq ft u' (update_user (usr_id u) (\<lambda>_. u') (clear_attempts d1 [src, pair]))
                  in (Inr (me collate d4 u', ft), d4)))"
    if o: "require_known_origin (sv_cfg sv) rq = Inr ()"
    using g [unfolded ks] unfolding login_route_def Let_def src_def [symmetric] pair_def [symmetric] o sum.case
    by (simp add: find)
  show thesis
  proof (cases "\<exists>x. require_known_origin (sv_cfg sv) rq = Inr x")
    case False
    then obtain e where e: "require_known_origin (sv_cfg sv) rq = Inl e" by (cases "require_known_origin (sv_cfg sv) rq") auto
    then have "e = Http 403 (Access OriginRefused)"
      by (auto simp: require_known_origin_def split: option.splits if_splits)
    with assms e show thesis by (intro refused [of e]) (auto simp: login_route_def)
  next
    case True
    then have o: "require_known_origin (sv_cfg sv) rq = Inr ()" by auto
    show thesis
    proof (cases "\<exists>u. may_log_in sv d email password u \<and> ok")
      case True
      then obtain u where u: "may_log_in sv d email password u" and ok by blast
      define u' where "u' = u\<lparr>usr_password_hash := (if sv_outdated sv (usr_password_hash u) then sv_pwhash sv password
          else usr_password_hash u), usr_last_login := Some (rq_now rq)\<rparr>"
      define d2 where "d2 = clear_attempts d1 [src, pair]"
      have "login_route sv collate rq email password ft d =
          (Inr (me collate (issue sv rq ft u' (update_user (usr_id u) (\<lambda>_. u') d2)) u', ft),
           issue sv rq ft u' (update_user (usr_id u) (\<lambda>_. u') d2))"
        using u \<open>ok\<close> o by (simp add: route [OF o] may_log_in_def verify_password_iff u'_def d2_def Let_def)
      with assms have r: "ans = Inr (me collate d' u', ft)" "d' = issue sv rq ft u' (update_user (usr_id u) (\<lambda>_. u') d2)"
        by auto
      have "counted_as d d2"
        using c1 clear_only_attempts [of d1 "[src, pair]"] unfolding counted_as_def d2_def
        by (metis db.update_convs(8) db.surjective)
      moreover have "count_of d' k l (rq_now rq) = 0" if "k \<in> {src, pair}" for k l
      proof -
        have "attempts d' = attempts d2" by (simp add: r(2) update_user_def)
        moreover have "scalar (attempt_at k w) (attempts d2) = None" for w
          using that by (auto simp: scalar_None d2_def clear_attempts_rows attempt_at_def)
        ultimately show ?thesis by (simp add: count_of_def)
      qed
      ultimately show thesis
        using accepted [OF u _ _ r] by (simp add: u'_def ks)
    next
      case False
      have "\<exists>e. login_route sv collate rq email password ft d = (Inl e, d1) \<and>
          (e \<in> {Http 429 (Access TooMany), Http 401 (Account BadLogin)} \<or>
           (\<exists>u. find_user d email = Some u \<and> sv_verify sv (usr_password_hash u) password \<and>
              usr_status u \<noteq> UPending \<and> usr_status u \<noteq> UActive))"
      proof (cases "ok \<and> verify_password (sv_verify sv) (sv_dummy sv) (map_option usr_password_hash (find_user d email)) password")
        case True
        then obtain u where "find_user d email = Some u" "sv_verify sv (usr_password_hash u) password"
          by (auto simp: verify_password_iff)
        with True False o show ?thesis by (cases "usr_status u") (auto simp: route [OF o] may_log_in_def)
      qed (auto simp: route [OF o])
      with assms c1 refused show thesis by (metis Pair_inject insert_iff)
    qed
  qed
qed

subsection \<open>Properties\<close>

text \<open>C4. Nobody gets a session without the password. A login that is answered with an error
  changes nothing but the attempt counters, and tells a wrong password from a missing account
  to no one: only the right password brings an account's status to light. A login that succeeds
  was made with the password of a pending or active account; it adds one session, which its
  token opens, and clears the counters of both axes.\<close>

theorem login_needs_the_password:
  assumes "login_route sv collate rq email password ft d = (ans, d')"
    and "\<forall>s\<in>set (rows (user_sessions d)). ses_token_hash s \<noteq> sv_hash sv (ft_token ft)"
  shows "case ans of
      Inl e \<Rightarrow> counted_as d d' \<and>
        (e \<in> {Http 403 (Access OriginRefused), Http 429 (Access TooMany), Http 401 (Account BadLogin)} \<or>
         (\<exists>u. find_user d email = Some u \<and> sv_verify sv (usr_password_hash u) password \<and>
            usr_status u \<noteq> UPending \<and> usr_status u \<noteq> UActive))
    | Inr _ \<Rightarrow> (\<exists>u s. may_log_in sv d email password u \<and>
        rows (user_sessions d') = rows (user_sessions d) @ [s] \<and> ses_user s = usr_id u \<and> ses_csrf s = ft_csrf ft \<and>
        load_session (sv_hash sv) d' (ft_token ft) (rq_now rq) = Some s \<and>
        (\<forall>x\<in>set (login_ks sv rq email). count_of d' (fst (fst x)) (snd (fst x)) (rq_now rq) = 0))"
  using assms(1)
proof (cases rule: login_cases)
  case (refused e)
  then show ?thesis by auto
next
  case (accepted u d2 u')
  let ?d3 = "update_user (usr_id u) (\<lambda>_. u') d2"
  have same: "user_sessions ?d3 = user_sessions d"
    using counted_as_tables [OF accepted(2)] by (simp add: update_user_def)
  have "load_session (sv_hash sv) d' (ft_token ft) (rq_now rq) = Some (fresh_session sv rq ft u' ?d3)"
    unfolding accepted(5) by (rule issued_loads) (use assms(2) same in simp)
  moreover have "rows (user_sessions d') = rows (user_sessions d) @ [fresh_session sv rq ft u' ?d3]"
    unfolding accepted(5) rows_issue same ..
  moreover have "\<forall>x\<in>set (login_ks sv rq email). count_of d' (fst (fst x)) (snd (fst x)) (rq_now rq) = 0"
    using accepted(6) by auto
  ultimately show ?thesis
    using accepted(1,3) unfolding accepted(4) sum.case
    by (intro exI [of _ u] exI [of _ "fresh_session sv rq ft u' ?d3"]) simp
qed

text \<open>C21. Changing the password takes the old one, a live session and its CSRF token; afterwards
  the account has the new hash, every other session of the account is dead at every moment, the
  session the change was made from lives on, and nobody else's session is affected. A refused
  change leaves accounts and sessions as they were.\<close>

theorem password_change_ends_other_sessions:
  assumes "serve sv rq (change_password sv rq current new) d = (ans, d')" "rq_method rq = ''POST''"
  shows "case ans of
      Inl e \<Rightarrow> counted_as (snd (current_principal (sv_hash sv) (sv_cfg sv) rq d)) d'
    | Inr _ \<Rightarrow> (\<exists>u s. called_by (sv_hash sv) (sv_cfg sv) rq d u s \<and> csrf_matches rq s \<and>
        sv_verify sv (usr_password_hash u) current \<and> PASSWORD_MIN \<le> length new \<and>
        get_user d' (usr_id u) = Some (u\<lparr>usr_password_hash := sv_pwhash sv new\<rparr>) \<and>
        (\<forall>raw t. load_session (sv_hash sv) d' raw t =
           (case load_session (sv_hash sv) (snd (touch_session d s (rq_now rq))) raw t of
              None \<Rightarrow> None
            | Some x \<Rightarrow> if ses_user x = usr_id u \<and> ses_id x \<noteq> ses_id s then None else Some x)))"
proof (cases rule: current_principal_cases [of "sv_hash sv" "sv_cfg sv" rq d])
  case nobody
  with assms(1) show ?thesis by (auto simp: serve_def change_password_def require_user_def)
next
  case (account u s)
  let ?c = "\<lparr>ca_principal = for_user u, ca_user = Some u, ca_session = Some s\<rparr>"
  let ?d = "snd (touch_session d s (rq_now rq))"
  let ?ks = "[((source_key ''password'' (rq_ip rq), PER_SOURCE), rq_now rq)]"
  obtain ok d1 where g: "guard_attempts ?d ?ks = (ok, d1)" by fastforce
  note c1 = counted_as_guard [OF g]
  have user: "require_user ?c = Inr u" by (simp add: require_user_def)
  let ?d2 = "update_user (usr_id u) (\<lambda>x. x\<lparr>usr_password_hash := sv_pwhash sv new\<rparr>) d1"
  show ?thesis
  proof (cases "csrf_matches rq s")
    case False
    then have "require_csrf rq ?c = Inl (Http 403 (Access RequestExpired))"
      using assms(2) by (auto simp: require_csrf_def user SAFE_METHODS_def csrf_matches_def absent_def Let_def)
    then have "(ans, d') = (Inl (Http 403 (Access RequestExpired)), ?d)"
      using assms(1) account(2) by (simp add: serve_def change_password_def user)
    then show ?thesis by (simp add: account(2))
  next
    case True
    then have csrf: "require_csrf rq ?c = Inr ()"
      using require_csrf_Inr [of rq ?c "()"] assms(2) user by (simp add: SAFE_METHODS_def)
    have "(ans, d') = change_password sv rq current new ?c ?d"
      using assms(1) account(2) by (simp add: serve_def)
    also have "\<dots> = (if \<not> ok then (Inl (Http 429 (Access TooMany)), d1)
        else if \<not> sv_verify sv (usr_password_hash u) current then (Inl (Http 403 (Account WrongPassword)), d1)
        else if length new < PASSWORD_MIN then (Inl (Http 422 (Account ShortPassword)), d1)
        else (Inr (), snd (revoke_other_sessions ?d2 (usr_id u) (Some s) (rq_now rq))))"
      unfolding change_password_def user csrf and_then.simps sum.case g Let_def prod.case
      by (simp add: verify_password_iff)
    finally have route: "(ans, d') = (if \<not> ok then (Inl (Http 429 (Access TooMany)), d1)
        else if \<not> sv_verify sv (usr_password_hash u) current then (Inl (Http 403 (Account WrongPassword)), d1)
        else if length new < PASSWORD_MIN then (Inl (Http 422 (Account ShortPassword)), d1)
        else (Inr (), snd (revoke_other_sessions ?d2 (usr_id u) (Some s) (rq_now rq))))" .
    show ?thesis
    proof (cases "ok \<and> sv_verify sv (usr_password_hash u) current \<and> PASSWORD_MIN \<le> length new")
      case True
      then have ans: "ans = Inr ()" and d': "d' = snd (revoke_other_sessions ?d2 (usr_id u) (Some s) (rq_now rq))"
        using route by simp_all
      have "get_user d (ses_user s) = Some u" using account(1) by (simp add: called_by_def)
      with user_tbl.by_id_SomeD [OF this] have "get_user d (usr_id u) = Some u" by simp
      then have "get_user d1 (usr_id u) = Some u" using counted_as_tables [OF c1] by simp
      then have "get_user ?d2 (usr_id u) = Some (u\<lparr>usr_password_hash := sv_pwhash sv new\<rparr>)"
        by (simp add: update_user_def user_tbl.by_id_update)
      then have "get_user d' (usr_id u) = Some (u\<lparr>usr_password_hash := sv_pwhash sv new\<rparr>)"
        by (simp add: d' revoke_other_sessions_def)
      moreover have "load_session (sv_hash sv) ?d2 raw t = load_session (sv_hash sv) ?d raw t" for raw t
        using counted_as_tables [OF c1] by (intro load_session_cong) (simp add: update_user_def)
      then have "load_session (sv_hash sv) d' raw t =
         (case load_session (sv_hash sv) ?d raw t of None \<Rightarrow> None
          | Some x \<Rightarrow> if ses_user x = usr_id u \<and> ses_id x \<noteq> ses_id s then None else Some x)" for raw t
        unfolding d' load_revoke_others by (auto split: option.splits)
      ultimately show ?thesis
        using account(1) \<open>csrf_matches rq s\<close> True unfolding ans sum.case by blast
    next
      case False
      with route c1 show ?thesis by (auto simp: account(2) not_le split: if_splits)
    qed
  qed
qed

definition demo_door :: db where
  "demo_door = demo_site\<lparr>users := \<lparr>rows = [demo_op, demo_member\<lparr>usr_password_hash := ''secret12''\<rparr>], next_id = 3\<rparr>\<rparr>"

definition demo_tokens :: fresh_tokens where
  "demo_tokens = \<lparr>ft_token = ''new'', ft_csrf = ''nc''\<rparr>"

theorem login_needs_the_password_witness:
  "\<exists>s. load_session id (snd (login_route demo_server (\<lambda>_. 0) (demo_request ''POST'') '' Ann@x.io'' ''secret12''
      demo_tokens demo_door)) ''new'' 10 = Some s \<and> ses_user s = 2"
proof -
  let ?l = "login_route demo_server (\<lambda>_. 0) (demo_request ''POST'') '' Ann@x.io'' ''secret12'' demo_tokens demo_door"
  have ok: "is_ok (fst ?l)" by code_simp
  obtain ans d' where l: "?l = (ans, d')" by fastforce
  have f: "\<forall>s\<in>set (rows (user_sessions demo_door)). ses_token_hash s \<noteq> sv_hash demo_server (ft_token demo_tokens)"
    by code_simp
  from ok l obtain x where "ans = Inr x" by (auto simp: is_ok_iff)
  with login_needs_the_password [OF l f] obtain u s where us: "may_log_in demo_server demo_door '' Ann@x.io'' ''secret12'' u"
      "load_session id d' ''new'' 10 = Some s" "ses_user s = usr_id u"
    by (auto simp: demo_server_def demo_tokens_def demo_request_def)
  have "map_option usr_id (find_user demo_door '' Ann@x.io'') = Some 2" by code_simp
  with us(1) have "usr_id u = 2" by (simp add: may_log_in_def)
  with us l show ?thesis by simp
qed

theorem password_change_ends_other_sessions_witness:
  "map_option usr_password_hash (get_user (snd (serve demo_server (demo_request ''POST'') (change_password demo_server
      (demo_request ''POST'') ''secret12'' ''longer-secret'') demo_door)) 2) = Some ''longer-secret''"
proof -
  let ?p = "serve demo_server (demo_request ''POST'') (change_password demo_server (demo_request ''POST'') ''secret12'' ''longer-secret'') demo_door"
  have ok: "fst ?p = Inr ()" by code_simp
  then have p: "?p = (Inr (), snd ?p)" by (metis prod.collapse)
  have m: "rq_method (demo_request ''POST'') = ''POST''" by (simp add: demo_request_def)
  from password_change_ends_other_sessions [OF p m]
  obtain u s where u: "called_by (sv_hash demo_server) (sv_cfg demo_server) (demo_request ''POST'') demo_door u s"
      "get_user (snd ?p) (usr_id u) = Some (u\<lparr>usr_password_hash := sv_pwhash demo_server ''longer-secret''\<rparr>)"
    by auto
  have "fst (current_principal (sv_hash demo_server) (sv_cfg demo_server) (demo_request ''POST'') demo_door) =
      \<lparr>ca_principal = for_user (demo_member\<lparr>usr_password_hash := ''secret12''\<rparr>),
       ca_user = Some (demo_member\<lparr>usr_password_hash := ''secret12''\<rparr>), ca_session = Some demo_login\<rparr>"
    by code_simp
  moreover have "ca_user (fst (current_principal (sv_hash demo_server) (sv_cfg demo_server) (demo_request ''POST'') demo_door)) = Some u"
    using u(1) by (auto simp: called_by_def current_principal_def)
  ultimately have "usr_id u = 2" by (auto simp: demo_member_def demo_ann_def)
  with u(2) show ?thesis by (simp add: demo_server_def)
qed

text \<open>A finding: \<open>signup\<close> refuses a malformed address with \<open>MemberInvalid\<close>, which the route does
  not catch, so the request ends in an unhandled exception instead of a 422.\<close>

lemma malformed_address_is_unhandled:
  assumes "require_known_origin (sv_cfg sv) rq = Inr ()" "PASSWORD_MIN \<le> length (si_password body)"
    and "str_strip (si_name body) \<noteq> []" "valid_email (si_email body) = Inl (MemberInvalid BadEmail)"
    and "fst (guard_attempts d [((source_key ''signup'' (rq_ip rq), PER_SOURCE), rq_now rq)])"
  shows "fst (signup_route sv collate rq body dr ft d) = Inl Unhandled"
  using assms by (simp add: signup_route_def signup_def split_beta Let_def)

end
