(* ===== verification/Workspace_Routes.thy ===== *)
theory Workspace_Routes
  imports Account_Routes
begin

text \<open>
  \<open>routes_workspaces.py\<close>: members, invites and new workspaces. The last section puts the
  routes that administer accounts and workspaces under one roof and shows whose requests
  may change anything.
\<close>

definition require_admin :: "workspace \<times> perm \<Rightarrow> (http_error, workspace) result" where
  "require_admin ctx = (if snd ctx < ADMIN then Inl (Http 403 (Teams AdminsOnly)) else Inr (fst ctx))"

definition member_target :: "db \<Rightarrow> uuid \<Rightarrow> (http_error, user) result" where
  "member_target d pub =
     (case scalar (\<lambda>u. usr_public u = pub) (users d) of
        None \<Rightarrow> Inl (Http 404 (Teams NoMember)) | Some u \<Rightarrow> Inr u)"

text \<open>\<open>except MemberInvalid as exc: raise HTTPException(422, ...)\<close>; issuing an invite also
  catches \<open>ValueError\<close>, which nothing it calls raises otherwise.\<close>

definition refuse_member :: "(tenancy_error, 'a) result \<Rightarrow> (http_error, 'a) result" where
  "refuse_member m =
     (case m of
        Inl (MemberInvalid e) \<Rightarrow> Inl (Http 422 (Teams (BadMember e)))
      | Inl _ \<Rightarrow> Inl Unhandled
      | Inr x \<Rightarrow> Inr x)"

lemma refuse_member_Inr [simp]: "refuse_member m = Inr x \<longleftrightarrow> m = Inr x"
  by (auto simp: refuse_member_def split: sum.splits tenancy_error.splits)

subsection \<open>Members\<close>

record member_out =
  mo_user :: user_out
  mo_role :: workspace_role
  mo_status :: user_status

definition member_out :: "member \<Rightarrow> user \<Rightarrow> member_out" where
  "member_out m u = \<lparr>mo_user = user_out u, mo_role = mem_role m, mo_status = usr_status u\<rparr>"

definition workspace_members :: "uuid \<Rightarrow> caller \<Rightarrow> db \<Rightarrow> (http_error, member_out list) result \<times> db" where
  "workspace_members wid c d = transaction d
     (and_then (workspace_ctx c d wid) (\<lambda>ctx.
        Inr (map (\<lambda>(m, u). member_out m u) (list_members d (ws_id (fst ctx))), d)))"

definition change_role ::
  "request \<Rightarrow> uuid \<Rightarrow> uuid \<Rightarrow> string \<Rightarrow> caller \<Rightarrow> db \<Rightarrow> (http_error, member_out) result \<times> db" where
  "change_role rq wid pub role c d = transaction d
     (and_then (workspace_ctx c d wid) (\<lambda>ctx.
      and_then (require_csrf rq c) (\<lambda>_.
      and_then (require_admin ctx) (\<lambda>w.
      and_then (member_target d pub) (\<lambda>target.
      and_then (refuse_member (set_member_role d (ws_id w) (usr_id target) role)) (\<lambda>(m, d').
        Inr (member_out m target, d')))))))"

definition drop_member ::
  "request \<Rightarrow> uuid \<Rightarrow> uuid \<Rightarrow> caller \<Rightarrow> db \<Rightarrow> (http_error, unit) result \<times> db" where
  "drop_member rq wid pub c d = transaction d
     (and_then (workspace_ctx c d wid) (\<lambda>ctx.
      and_then (require_csrf rq c) (\<lambda>_.
      and_then (require_admin ctx) (\<lambda>w.
      and_then (member_target d pub) (\<lambda>target.
      and_then (refuse_member (remove_member d (ws_id w) target (rq_now rq))) (\<lambda>d'. Inr ((), d')))))))"

subsection \<open>Invites\<close>

record invite_out =
  io_id :: uuid
  io_email :: "string option"
  io_role :: workspace_role
  io_expires :: "time option"
  io_max_uses :: int
  io_uses :: int

definition invite_out :: "invite \<Rightarrow> invite_out" where
  "invite_out i = \<lparr>io_id = inv_public i, io_email = inv_email i, io_role = inv_role i,
     io_expires = inv_expires i, io_max_uses = inv_max_uses i, io_uses = inv_uses i\<rparr>"

definition workspace_invites ::
  "request \<Rightarrow> uuid \<Rightarrow> caller \<Rightarrow> db \<Rightarrow> (http_error, invite_out list) result \<times> db" where
  "workspace_invites rq wid c d = transaction d
     (and_then (workspace_ctx c d wid) (\<lambda>ctx.
      and_then (require_admin ctx) (\<lambda>w.
        Inr (map invite_out (list_invites d (ws_id w) (rq_now rq)), d))))"

record invite_in =
  ii_role :: string
  ii_email :: "string option"
  ii_days :: "int option"
  ii_max_uses :: int

definition issue_invite ::
  "server \<Rightarrow> request \<Rightarrow> uuid \<Rightarrow> invite_in \<Rightarrow> string \<Rightarrow> uuid \<Rightarrow> caller \<Rightarrow> db \<Rightarrow>
   (http_error, invite_out \<times> string) result \<times> db" where
  "issue_invite sv rq wid body token fresh c d = transaction d
     (and_then (workspace_ctx c d wid) (\<lambda>ctx.
      and_then (require_active c) (\<lambda>u.
      and_then (require_csrf rq c) (\<lambda>_.
      and_then (require_admin ctx) (\<lambda>w.
      and_then (refuse_member (create_invite (sv_hash sv) token fresh (ws_id w) (ii_role body) (ii_email body)
          (Some (usr_id u)) (ii_days body) (ii_max_uses body) (rq_now rq) d)) (\<lambda>(i, d').
        Inr ((invite_out i, token), d')))))))"

definition drop_invite ::
  "request \<Rightarrow> uuid \<Rightarrow> uuid \<Rightarrow> caller \<Rightarrow> db \<Rightarrow> (http_error, unit) result \<times> db" where
  "drop_invite rq wid invite_id c d = transaction d
     (and_then (workspace_ctx c d wid) (\<lambda>ctx.
      and_then (require_csrf rq c) (\<lambda>_.
      and_then (require_admin ctx) (\<lambda>w.
        let (found, d') = revoke_invite d (ws_id w) invite_id (rq_now rq)
        in if \<not> found then Inl (Http 404 (Teams NoInvite)) else Inr ((), d')))))"

definition invite_preview ::
  "server \<Rightarrow> request \<Rightarrow> string \<Rightarrow> caller \<Rightarrow> db \<Rightarrow> (http_error, string \<times> workspace_role) result \<times> db" where
  "invite_preview sv rq token c d = transaction d
     (and_then (require_active c) (\<lambda>u.
        case peek_invite (sv_hash sv) d token u (rq_now rq) of
          Inl _ \<Rightarrow> Inl (Http 404 (Teams BadInviteToken))
        | Inr i \<Rightarrow>
            (case get_workspace_row d (inv_ws i) of
               None \<Rightarrow> Inl (Http 404 (Teams BadInviteToken))
             | Some w \<Rightarrow> Inr ((ws_name w, inv_role i), d))))"

definition take_invite ::
  "server \<Rightarrow> request \<Rightarrow> string \<Rightarrow> caller \<Rightarrow> db \<Rightarrow> (http_error, workspace_ref) result \<times> db" where
  "take_invite sv rq token c d = transaction d
     (and_then (require_active c) (\<lambda>u.
      and_then (require_csrf rq c) (\<lambda>_.
        case accept_invite (sv_hash sv) d token u (rq_now rq) of
          Inl _ \<Rightarrow> Inl (Http 404 (Teams BadInviteToken))
        | Inr (w, d1) \<Rightarrow>
            let d2 = default_if_unset u w d1
            in Inr (workspace_ref w (role_in d2 u w), d2))))"

subsection \<open>Workspaces\<close>

definition new_workspace ::
  "server \<Rightarrow> request \<Rightarrow> string \<Rightarrow> string \<Rightarrow> uuid \<Rightarrow> caller \<Rightarrow> db \<Rightarrow> (http_error, workspace_ref) result \<times> db" where
  "new_workspace sv rq name raw_slug fresh c d = transaction d
     (and_then (require_service_admin c) (\<lambda>admin.
      and_then (require_csrf rq c) (\<lambda>_.
        case validate_slug raw_slug of
          Inl _ \<Rightarrow> Inl (Http 422 (Teams SlugRefused))
        | Inr slug \<Rightarrow>
            if find_workspace d slug \<noteq> None then Inl (Http 409 (Teams SlugTaken))
            else if str_strip name = [] then Inl (Http 422 (Teams EmptyTeamName))
            else
              (case create_workspace d slug (str_strip name) Team (cfg_quota_minutes (sv_cfg sv))
                      (cfg_quota_bytes (sv_cfg sv)) fresh of
                 Inl _ \<Rightarrow> Inl Unhandled
               | Inr (w, d1) \<Rightarrow>
                   (case add_member d1 (ws_id w) (usr_id admin) Owner of
                      Inl _ \<Rightarrow> Inl Unhandled
                    | Inr d2 \<Rightarrow> Inr (workspace_ref w Owner, d2))))))"

subsection \<open>Who administers\<close>

datatype admin_change =
  ChangeRole uuid uuid string | DropMember uuid uuid | IssueInvite uuid invite_in string uuid
  | DropInvite uuid uuid | AccountStatus uuid string draws | NewWorkspace string string uuid

fun admin_method :: "admin_change \<Rightarrow> string" where
  "admin_method (ChangeRole _ _ _) = ''PUT''"
| "admin_method (DropMember _ _) = ''DELETE''"
| "admin_method (IssueInvite _ _ _ _) = ''POST''"
| "admin_method (DropInvite _ _) = ''DELETE''"
| "admin_method (AccountStatus _ _ _) = ''PUT''"
| "admin_method (NewWorkspace _ _ _) = ''POST''"

fun administer ::
  "server \<Rightarrow> (string \<Rightarrow> nat) \<Rightarrow> request \<Rightarrow> admin_change \<Rightarrow> caller \<Rightarrow> db \<Rightarrow> (http_error, unit) result \<times> db" where
  "administer sv collate rq (ChangeRole wid pub role) c d = no_body (change_role rq wid pub role c d)"
| "administer sv collate rq (DropMember wid pub) c d = no_body (drop_member rq wid pub c d)"
| "administer sv collate rq (IssueInvite wid body token fresh) c d =
     no_body (issue_invite sv rq wid body token fresh c d)"
| "administer sv collate rq (DropInvite wid i) c d = no_body (drop_invite rq wid i c d)"
| "administer sv collate rq (AccountStatus pub status dr) c d =
     no_body (change_account_status sv collate rq pub status dr c d)"
| "administer sv collate rq (NewWorkspace name slug fresh) c d =
     no_body (new_workspace sv rq name slug fresh c d)"

text \<open>Administrators of the workspace of the path, or administrators of the service; nobody
  changes the status of their own account.\<close>

definition runs_workspace :: "db \<Rightarrow> uuid \<Rightarrow> user \<Rightarrow> bool" where
  "runs_workspace d wid u \<longleftrightarrow>
     (case find_ws_public d wid of
        None \<Rightarrow> False | Some w \<Rightarrow> resolve_workspace_perm d (for_user u) (ws_id w) = ADMIN)"

fun authority :: "db \<Rightarrow> admin_change \<Rightarrow> user \<Rightarrow> bool" where
  "authority d (ChangeRole wid _ _) u \<longleftrightarrow> runs_workspace d wid u"
| "authority d (DropMember wid _) u \<longleftrightarrow> runs_workspace d wid u"
| "authority d (IssueInvite wid _ _ _) u \<longleftrightarrow> runs_workspace d wid u"
| "authority d (DropInvite wid _) u \<longleftrightarrow> runs_workspace d wid u"
| "authority d (AccountStatus pub _ _) u \<longleftrightarrow> usr_service_admin u \<and>
     (case scalar (\<lambda>x. usr_public x = pub) (users d) of None \<Rightarrow> False | Some t \<Rightarrow> usr_id t \<noteq> usr_id u)"
| "authority d (NewWorkspace _ _ _) u \<longleftrightarrow> usr_service_admin u"

lemma committed:
  assumes "no_body (transaction d m) = (ans, d')" "d' \<noteq> d"
  obtains y where "m = Inr (y, d')"
  using assms by (cases m) (auto simp: no_body_def)

definition entitled :: "request \<Rightarrow> admin_change \<Rightarrow> caller \<Rightarrow> db \<Rightarrow> user \<Rightarrow> bool" where
  "entitled rq ch c d u \<longleftrightarrow> require_active c = Inr u \<and> is_ok (require_csrf rq c) \<and>
     (ca_principal c = for_user u \<longrightarrow> authority d ch u)"

lemmas admin_defs = change_role_def drop_member_def issue_invite_def drop_invite_def
  change_account_status_def new_workspace_def

lemma require_admin_Inr: "require_admin ctx = Inr w \<longleftrightarrow> snd ctx = ADMIN \<and> w = fst ctx"
  by (auto simp: require_admin_def)

lemma administer_entitled:
  assumes "administer sv collate rq ch c d = (ans, d')" "d' \<noteq> d"
  shows "\<exists>u. entitled rq ch c d u"
  using assms
  by (cases ch; simp only: administer.simps admin_defs)
    (elim committed;
     auto simp: and_then_Inr require_admin_Inr workspace_ctx_Inr require_service_admin_Inr entitled_def is_ok_iff
       runs_workspace_def target_user_def split: option.splits if_splits)+

subsection \<open>Properties\<close>



end
