(* ===== verification/Upload_Route.thy ===== *)
theory Upload_Route
  imports Access_Control
begin

text \<open>
  \<open>upload_recording\<close> of \<open>app.py\<close>: staging the bytes, the quota checks, the search for the same
  content, placing the file and registering it, under one lock. What is read of the staged and
  the placed file, the clock's month for a name without a date and the random names are the
  fields of \<open>upload_env\<close>. The result holds the database and the disk that are left.
\<close>

record upload_env =
  ue_staged :: string
  ue_month :: string
  ue_fuel :: nat
  ue_duration :: "rat option"
  ue_digest :: string
  ue_full :: string
  ue_original_fs :: "string \<Rightarrow> file_view"
  ue_reading :: "string \<Rightarrow> reading"
  ue_resolved :: "string \<Rightarrow> string"
  ue_public :: uuid

definition registered :: "upload_env \<Rightarrow> db \<Rightarrow> string \<Rightarrow> bool" where
  "registered ue d p \<longleftrightarrow> scalar (\<lambda>r. rec_path r = ue_resolved ue p) (recordings d) \<noteq> None"

definition unlink :: "string \<Rightarrow> disk \<Rightarrow> disk" where
  "unlink p disk = disk(p := None)"

definition file_size :: "string option \<Rightarrow> int" where
  "file_size content = (case content of None \<Rightarrow> 0 | Some c \<Rightarrow> int (length c))"

definition in_quota :: "usage \<Rightarrow> int \<Rightarrow> rat option \<Rightarrow> bool" where
  "in_quota u bytes dur \<longleftrightarrow> is_ok (check_storage u bytes) \<and> is_ok (check_minutes u dur)"

text \<open>Inside the lock, up to \<open>finalize\<close>.\<close>

definition upload_refusal ::
  "upload_env \<Rightarrow> workspace \<Rightarrow> int \<Rightarrow> time \<Rightarrow> db \<Rightarrow> http_error option" where
  "upload_refusal ue w bytes now d =
     (if \<not> in_quota (measure_usage d w now) bytes (ue_duration ue) then Some (Http 413 (Media OverQuota))
      else case find_original (ue_original_fs ue) d (ws_id w) (ue_full ue) (ue_digest ue) of
             Some r \<Rightarrow> Some (Http 409 (Media (AlreadyRegistered (rec_filename r) (rec_public r))))
           | None \<Rightarrow> None)"

text \<open>The whole locked section: an exception rolls back and unlinks what was placed.\<close>

definition upload_locked ::
  "upload_env \<Rightarrow> string \<Rightarrow> workspace \<Rightarrow> user \<Rightarrow> string \<Rightarrow> time \<Rightarrow> db \<Rightarrow> disk \<Rightarrow>
   (http_error, summary_out option) result \<times> db \<times> disk" where
  "upload_locked ue up w u name now d disk =
     (case upload_refusal ue w (file_size (disk (ue_staged ue))) now d of
        Some e \<Rightarrow> (Inl e, d, unlink (ue_staged ue) disk)
      | None \<Rightarrow>
          (case finalize (ue_fuel ue) (ue_staged ue) (workspace_upload_dir up (ws_public w)) (ue_month ue) name
                  (registered ue d) disk of
             None \<Rightarrow> (Inl Unhandled, d, unlink (ue_staged ue) disk)
           | Some (dest, disk1) \<Rightarrow>
               let undone = unlink dest (unlink (ue_staged ue) disk1)
               in case ingest_file (ue_reading ue dest) (ws_id w) Upload (Some (usr_id u)) False (ue_public ue) d d of
                    Inl _ \<Rightarrow> (Inl Unhandled, d, undone)
                  | Inr ((i, out), d1) \<Rightarrow>
                      if out = Existing then (Inl (Http 500 (Media NoUploadPath)), d, undone)
                      else (Inr (map_option (recording_summary d1 now) (get_recording d1 i)), d1, disk1)))"

definition upload_recording ::
  "upload_env \<Rightarrow> settings \<Rightarrow> request \<Rightarrow> uuid \<Rightarrow> string option \<Rightarrow> string list \<Rightarrow> caller \<Rightarrow> db \<Rightarrow> disk \<Rightarrow>
   (http_error, summary_out option) result \<times> db \<times> disk" where
  "upload_recording ue cfg rq wid filename parts c d disk =
     (case and_then (workspace_ctx c d wid) (\<lambda>ctx.
           and_then (require_active c) (\<lambda>u.
           and_then (require_csrf rq c) (\<lambda>_. Inr (ctx, u)))) of
        Inl e \<Rightarrow> (Inl e, d, disk)
      | Inr ((w, p), u) \<Rightarrow>
          (case cfg_upload_dir cfg of
             None \<Rightarrow> (Inl (Http 503 (Media NoUploads)), d, disk)
           | Some up \<Rightarrow>
               if p < MANAGE then (Inl (Http 403 (Media UploadForbidden)), d, disk)
               else
                 (case safe_filename filename of
                    None \<Rightarrow> (Inl (Http 422 (Media NoFileName)), d, disk)
                  | Some name \<Rightarrow>
                      let suffix = str_lower (path_suffix name)
                      in if suffix \<notin> set AUDIO_EXTENSIONS then (Inl (Http 415 (Media (BadFormat suffix))), d, disk)
                         else
                           (case stage_upload (cfg_max_upload cfg) parts (ue_staged ue) disk of
                              (Inl UploadTooLarge, disk1) \<Rightarrow>
                                (Inl (Http 413 (Media (FileTooLarge (cfg_max_upload cfg div (1024 * 1024))))), d, disk1)
                            | (Inl UploadEmpty, disk1) \<Rightarrow> (Inl (Http 422 (Media EmptyFile)), d, disk1)
                            | (Inr _, disk1) \<Rightarrow>
                                upload_locked ue up w u name (rq_now rq) d disk1))))"

subsection \<open>Nothing is left behind\<close>

lemma receive_bounded:
  "receive max_bytes written parts = Inr content \<Longrightarrow> 0 \<le> written \<Longrightarrow> written \<le> max_bytes \<Longrightarrow>
     written + int (length content) \<le> max_bytes \<and> 0 < written + int (length content)"
proof (induction max_bytes written parts arbitrary: content rule: receive.induct)
  case (2 max_bytes written c cs)
  show ?case
  proof (cases "c = []")
    case False
    with "2.prems" obtain rest where r: "receive max_bytes (written + int (length c)) cs = Inr rest"
      "content = c @ rest" "written + int (length c) \<le> max_bytes"
      by (auto simp: Let_def split: if_splits sum.splits)
    from "2.IH" [OF False refl] r "2.prems"(2) show ?thesis by auto
  qed (use "2.prems" in \<open>auto split: if_splits\<close>)
qed (auto split: if_splits)

lemma stage_upload_cases:
  assumes "disk dest = None"
  obtains e where "stage_upload n parts dest disk = (Inl e, disk)"
  | content where "receive n 0 parts = Inr content" "stage_upload n parts dest disk = (Inr (), disk(dest \<mapsto> content))"
proof (cases "receive n 0 parts")
  case (Inl e)
  have "disk(dest := None) = disk" using assms by auto
  with Inl that(1) show thesis by (simp add: stage_upload_def)
next
  case (Inr content)
  with that(2) show thesis by (simp add: stage_upload_def)
qed

lemma finalize_places:
  assumes "finalize fuel staged base month name taken disk = Some (dest, disk1)"
  shows "disk dest = None" "disk1 = disk(staged := None, dest := disk staged)" "\<not> taken dest"
proof -
  from assms have "unique_path fuel (\<lambda>p. disk p \<noteq> None \<or> taken p) (base @ ''/'' @ month) name = Some dest"
    and d: "disk1 = disk(staged := None, dest := disk staged)"
    unfolding finalize_def by (simp_all only: split: option.splits) auto
  from unique_path_Some(1) [OF this(1)] d
  show "disk dest = None" "disk1 = disk(staged := None, dest := disk staged)" "\<not> taken dest" by simp_all
qed

text \<open>What a registration that is kept went through.\<close>

definition accepted_upload :: "upload_env \<Rightarrow> workspace \<Rightarrow> user \<Rightarrow> int \<Rightarrow> time \<Rightarrow> db \<Rightarrow> string \<Rightarrow> db \<Rightarrow> bool" where
  "accepted_upload ue w u bytes now d dest d' \<longleftrightarrow>
     in_quota (measure_usage d w now) bytes (ue_duration ue) \<and>
     find_original (ue_original_fs ue) d (ws_id w) (ue_full ue) (ue_digest ue) = None \<and>
     \<not> registered ue d dest \<and>
     (\<exists>i out. ingest_file (ue_reading ue dest) (ws_id w) Upload (Some (usr_id u)) False (ue_public ue) d d =
        Inr ((i, out), d') \<and> out \<noteq> Existing)"

lemma upload_locked_cases:
  assumes "upload_locked ue up w u name now d (disk(ue_staged ue \<mapsto> content)) = (ans, d', disk')"
    and "disk (ue_staged ue) = None"
  shows "case ans of Inl _ \<Rightarrow> d' = d \<and> disk' = disk
    | Inr _ \<Rightarrow> (\<exists>dest. disk dest = None \<and> disk' = disk(dest \<mapsto> content) \<and>
        accepted_upload ue w u (int (length content)) now d dest d')"
proof -
  let ?s = "ue_staged ue"
  let ?d1 = "disk(?s \<mapsto> content)"
  have clean: "unlink ?s ?d1 = disk" using assms(2) by (auto simp: unlink_def)
  show ?thesis
  proof (cases "upload_refusal ue w (int (length content)) now d")
    case (Some e)
    with assms(1) clean show ?thesis by (auto simp: upload_locked_def file_size_def)
  next
    case None
    show ?thesis
    proof (cases "finalize (ue_fuel ue) ?s (workspace_upload_dir up (ws_public w)) (ue_month ue) name (registered ue d) ?d1")
      case f: None
      with assms(1) None clean show ?thesis by (auto simp: upload_locked_def file_size_def)
    next
      case f: (Some x)
      obtain dest disk1 where x: "x = (dest, disk1)" by fastforce
      note F = finalize_places [OF f [unfolded x]]
      have dest: "dest \<noteq> ?s" "disk dest = None" using F(1) by (auto split: if_splits)
      have disk1: "disk1 = disk(dest \<mapsto> content)" using F(2) assms(2) dest by auto
      have undone: "unlink dest (unlink ?s disk1) = disk" using disk1 dest assms(2) by (auto simp: unlink_def)
      have ok: "in_quota (measure_usage d w now) (int (length content)) (ue_duration ue)"
        "find_original (ue_original_fs ue) d (ws_id w) (ue_full ue) (ue_digest ue) = None"
        using None by (auto simp: upload_refusal_def split: if_splits option.splits)
      show ?thesis
      proof (cases "ingest_file (ue_reading ue dest) (ws_id w) Upload (Some (usr_id u)) False (ue_public ue) d d")
        case (Inl e)
        with assms(1) None f x undone show ?thesis by (auto simp: upload_locked_def file_size_def Let_def)
      next
        case (Inr y)
        obtain i out d1 where y: "y = ((i, out), d1)" by (metis prod.collapse)
        show ?thesis
        proof (cases "out = Existing")
          case True
          with assms(1) None f x undone Inr y show ?thesis by (auto simp: upload_locked_def file_size_def Let_def)
        next
          case False
          then have r: "ans = Inr (map_option (recording_summary d1 now) (get_recording d1 i))" "d' = d1" "disk' = disk1"
            using assms(1) None f x Inr y by (auto simp: upload_locked_def file_size_def Let_def)
          have "accepted_upload ue w u (int (length content)) now d dest d'"
            using ok Inr y False F(3) by (auto simp: accepted_upload_def r)
          with dest disk1 show ?thesis unfolding r sum.case by blast
        qed
      qed
    qed
  qed
qed

subsection \<open>Property\<close>

text \<open>C9. An upload is all or nothing. Whatever goes wrong on the way, from a missing permission to
  a file that changes while it is registered, the database and every file on disk are what they
  were. An upload that is kept was sent with the CSRF token by an active account that may manage
  the workspace, has at most the allowed size, fits the quota and is not registered there yet;
  its bytes are in one new file at a path nothing was registered for, and every other file is
  untouched.\<close>

theorem upload_all_or_nothing:
  assumes "upload_recording ue cfg rq wid filename parts c d disk = (ans, d', disk')"
    and "disk (ue_staged ue) = None" "0 \<le> cfg_max_upload cfg"
  shows "case ans of Inl _ \<Rightarrow> d' = d \<and> disk' = disk
    | Inr _ \<Rightarrow> (\<exists>w p u content dest. workspace_ctx c d wid = Inr (w, p) \<and> MANAGE \<le> p \<and> require_active c = Inr u \<and>
        is_ok (require_csrf rq c) \<and> receive (cfg_max_upload cfg) 0 parts = Inr content \<and>
        0 < length content \<and> int (length content) \<le> cfg_max_upload cfg \<and>
        disk dest = None \<and> disk' = disk(dest \<mapsto> content) \<and>
        accepted_upload ue w u (int (length content)) (rq_now rq) d dest d')"
proof (cases "\<exists>w p u x up name. workspace_ctx c d wid = Inr (w, p) \<and> require_active c = Inr u \<and> require_csrf rq c = Inr x \<and>
    cfg_upload_dir cfg = Some up \<and> MANAGE \<le> p \<and> safe_filename filename = Some name \<and>
    str_lower (path_suffix name) \<in> set AUDIO_EXTENSIONS")
  case False
  then have "\<exists>e. upload_recording ue cfg rq wid filename parts c d disk = (Inl e, d, disk)"
    unfolding upload_recording_def Let_def
    by (cases "workspace_ctx c d wid"; cases "require_active c"; cases "require_csrf rq c"; cases "cfg_upload_dir cfg";
        cases "safe_filename filename") (auto simp: not_less split: prod.splits)
  with assms(1) show ?thesis by auto
next
  case True
  then obtain w p u x up name where g: "workspace_ctx c d wid = Inr (w, p)" "require_active c = Inr u"
    "require_csrf rq c = Inr x" "cfg_upload_dir cfg = Some up" "MANAGE \<le> p" "safe_filename filename = Some name"
    "str_lower (path_suffix name) \<in> set AUDIO_EXTENSIONS" by blast
  from g(5) have "\<not> p < MANAGE" by (simp add: not_less)
  moreover from g(7) have "\<not> str_lower (path_suffix name) \<notin> set AUDIO_EXTENSIONS" by simp
  ultimately have route: "upload_recording ue cfg rq wid filename parts c d disk =
      (case stage_upload (cfg_max_upload cfg) parts (ue_staged ue) disk of
         (Inl UploadTooLarge, disk1) \<Rightarrow> (Inl (Http 413 (Media (FileTooLarge (cfg_max_upload cfg div (1024 * 1024))))), d, disk1)
       | (Inl UploadEmpty, disk1) \<Rightarrow> (Inl (Http 422 (Media EmptyFile)), d, disk1)
       | (Inr _, disk1) \<Rightarrow> upload_locked ue up w u name (rq_now rq) d disk1)"
    unfolding upload_recording_def Let_def g(1-4,6) and_then.simps sum.case prod.case option.case
    by (simp only: if_False)
  from assms(2) show ?thesis
  proof (cases rule: stage_upload_cases [where n = "cfg_max_upload cfg" and parts = parts])
    case (1 e)
    with assms(1) show ?thesis unfolding route by (cases e) auto
  next
    case (2 content)
    have len: "0 < length content" "int (length content) \<le> cfg_max_upload cfg"
      using receive_bounded [OF 2(1)] assms(3) by simp_all
    from assms(1) have "upload_locked ue up w u name (rq_now rq) d (disk(ue_staged ue \<mapsto> content)) = (ans, d', disk')"
      unfolding route 2(2) by simp
    from upload_locked_cases [OF this assms(2)] show ?thesis
      using g 2(1) len by (cases ans) (auto simp: is_ok_iff)
  qed
qed

definition demo_print :: signature where
  "demo_print = \<lparr>sig_dev = 1, sig_ino = 2, sig_size = 3, sig_mtime = 4, sig_ctime = 5\<rparr>"

definition demo_disk_view :: "string \<Rightarrow> file_view" where
  "demo_disk_view p = \<lparr>fv_before = Some demo_print, fv_content = Some ''c'', fv_after = Some demo_print\<rparr>"

text \<open>An upload with the content of the registered recording 31.\<close>

definition demo_upload :: upload_env where
  "demo_upload = \<lparr>ue_staged = ''/s'', ue_month = ''2026-01'', ue_fuel = 3, ue_duration = Some 60, ue_digest = ''pd'',
     ue_full = ''c'', ue_original_fs = demo_disk_view,
     ue_reading = (\<lambda>p. \<lparr>rd_path = p, rd_first = Some demo_print, rd_digest = Some ''pd'', rd_full = Some ''c'',
        rd_duration = Some 60, rd_second = Some demo_print, rd_third = Some demo_print, rd_moved_fs = demo_disk_view,
        rd_original_fs = demo_disk_view, rd_offset = 0, rd_year = 2026, rd_now = 10\<rparr>),
     ue_resolved = id, ue_public = 90\<rparr>"

theorem upload_all_or_nothing_witness:
  "upload_recording demo_upload demo_settings (demo_request ''POST'') 8 (Some ''talk.m4a'') [''abc''] demo_caller
     demo_site (\<lambda>_. None) =
   (Inl (Http 409 (Media (AlreadyRegistered ''a.wav'' 31))), demo_site, \<lambda>_. None)"
proof -
  let ?r = "upload_recording demo_upload demo_settings (demo_request ''POST'') 8 (Some ''talk.m4a'') [''abc''] demo_caller
     demo_site (\<lambda>_. None)"
  have f: "fst ?r = Inl (Http 409 (Media (AlreadyRegistered ''a.wav'' 31)))" by code_simp
  obtain d' disk' where r: "?r = (Inl (Http 409 (Media (AlreadyRegistered ''a.wav'' 31))), d', disk')"
    using f by (metis prod.collapse)
  have c: "0 \<le> cfg_max_upload demo_settings" by (simp add: demo_settings_def)
  from upload_all_or_nothing [OF r refl c] r show ?thesis by simp
qed

end
