(* ===== verification/Queries.thy ===== *)
theory Queries
  imports Access_Control "HOL-Library.Sublist"
begin

text \<open>
  The routes of \<open>app.py\<close> that read a workspace: the list with its filters, the search, the
  tags, the usage and the statistics. A WHERE clause is a predicate, NULL makes a comparison
  fail. The order in which GROUP BY returns the statuses is the database's choice; here it is
  the order of the declaration.
\<close>

subsection \<open>Patterns\<close>

definition replace_char :: "char \<Rightarrow> string \<Rightarrow> string \<Rightarrow> string" where
  "replace_char c new s = concat (map (\<lambda>x. if x = c then new else [x]) s)"

abbreviation escape :: char where "escape \<equiv> CHR 0x5C"

definition like_pattern :: "string \<Rightarrow> string" where
  "like_pattern q =
     (let escaped = replace_char (CHR ''_'') [escape, CHR ''_'']
            (replace_char (CHR ''%'') [escape, CHR ''%''] (replace_char escape [escape, escape] q))
      in CHR ''%'' # escaped @ [CHR ''%''])"

text \<open>LIKE of the database: percent matches any text, underscore one character, and a
  backslash takes the next character literally.\<close>

function like :: "string \<Rightarrow> string \<Rightarrow> bool" where
  "like [] s = (s = [])"
| "like (c # p) s =
     (if c = CHR ''%'' then like p s \<or> (case s of [] \<Rightarrow> False | _ # t \<Rightarrow> like (c # p) t)
      else if c = escape then
        (case p of [] \<Rightarrow> False | e # q \<Rightarrow> (case s of [] \<Rightarrow> False | x # t \<Rightarrow> x = e \<and> like q t))
      else (case s of [] \<Rightarrow> False | x # t \<Rightarrow> (c = CHR ''_'' \<or> x = c) \<and> like p t))"
  by pat_completeness auto
termination by (relation "measure (\<lambda>(p, s). length p + length s)") auto

definition ilike :: "string option \<Rightarrow> string \<Rightarrow> bool" where
  "ilike column pattern =
     (case column of None \<Rightarrow> False | Some s \<Rightarrow> like (str_lower pattern) (str_lower s))"

subsection \<open>Filters\<close>

definition text_matches :: "recording \<Rightarrow> string \<Rightarrow> bool" where
  "text_matches r pattern \<longleftrightarrow> ilike (Some (rec_filename r)) pattern \<or> ilike (rec_title r) pattern \<or>
     ilike (rec_summary r) pattern"

definition segment_matches :: "string \<Rightarrow> segment \<Rightarrow> bool" where
  "segment_matches pattern s \<longleftrightarrow> ilike (Some (seg_text s)) pattern"

record query =
  qy_text :: "string option"
  qy_status :: "string option"
  qy_tag :: "uuid option"

definition passes_filters :: "db \<Rightarrow> query \<Rightarrow> nat \<Rightarrow> recording \<Rightarrow> bool" where
  "passes_filters d q w r \<longleftrightarrow>
     rec_ws r = w \<and>
     (absent (qy_status q) \<or> Some (status_name (rec_status r)) = qy_status q) \<and>
     (case qy_tag q of None \<Rightarrow> True | Some t \<Rightarrow> \<exists>g\<in>set (tags_of d (rec_id r)). tag_public g = t) \<and>
     (absent (qy_text q) \<or>
      (let pattern = like_pattern (the (qy_text q))
       in text_matches r pattern \<or>
          (\<exists>s\<in>set (rows (segments d)). seg_recording s = rec_id r \<and> segment_matches pattern s)))"

definition matching :: "db \<Rightarrow> query \<Rightarrow> nat \<Rightarrow> recording list" where
  "matching d q w = newest_first id (select (passes_filters d q w) (recordings d))"

definition list_recordings ::
  "request \<Rightarrow> uuid \<Rightarrow> query \<Rightarrow> int \<Rightarrow> int \<Rightarrow> caller \<Rightarrow> db \<Rightarrow> (http_error, summary_out list \<times> nat) result \<times> db" where
  "list_recordings rq wid q limit offset c d = transaction d
     (and_then (workspace_ctx c d wid) (\<lambda>ctx.
        let w = ws_id (fst ctx)
        in and_then (page limit offset (matching d q w)) (\<lambda>rs.
             Inr ((map (recording_summary d (rq_now rq)) rs, length (select (passes_filters d q w) (recordings d))), d))))"

text \<open>The order of names is the database's collation.\<close>

definition list_tags ::
  "(string \<Rightarrow> nat) \<Rightarrow> uuid \<Rightarrow> caller \<Rightarrow> db \<Rightarrow> (http_error, tag_out list) result \<times> db" where
  "list_tags collate wid c d = transaction d
     (and_then (workspace_ctx c d wid) (\<lambda>ctx.
        Inr (map tag_out (sort_key (\<lambda>t. collate (tag_name t))
          (select (\<lambda>t. tag_ws t = ws_id (fst ctx)) (tags d))), d)))"

subsection \<open>Search\<close>

definition meta_rows :: "db \<Rightarrow> string \<Rightarrow> nat \<Rightarrow> recording list" where
  "meta_rows d pattern w =
     newest_first id (select (\<lambda>r. rec_ws r = w \<and> text_matches r pattern) (recordings d))"

definition seg_rows :: "db \<Rightarrow> string \<Rightarrow> nat \<Rightarrow> (segment \<times> recording) list" where
  "seg_rows d pattern w =
     newest_first snd (sort_key (\<lambda>x. seg_idx (fst x))
       (concat (map (\<lambda>s. map (Pair s) (select (\<lambda>r. rec_id r = seg_recording s \<and> rec_ws r = w) (recordings d)))
         (select (segment_matches pattern) (segments d)))))"

definition search_route ::
  "request \<Rightarrow> uuid \<Rightarrow> string \<Rightarrow> int \<Rightarrow> caller \<Rightarrow> db \<Rightarrow>
   (http_error, (summary_out \<times> segment_out option) list) result \<times> db" where
  "search_route rq wid q limit c d = transaction d
     (and_then (workspace_ctx c d wid) (\<lambda>ctx.
        let w = ws_id (fst ctx); pattern = like_pattern q
        in and_then (page limit 0 (meta_rows d pattern w)) (\<lambda>rs.
           and_then (page limit 0 (seg_rows d pattern w)) (\<lambda>ss.
             Inr (take (nat limit)
                (map (\<lambda>r. (recording_summary d (rq_now rq) r, None)) rs @
                 map (\<lambda>(s, r). (recording_summary d (rq_now rq) r, Some (segment_out s))) ss), d)))))"

subsection \<open>Usage and statistics\<close>

definition round_half_even :: "rat \<Rightarrow> int" where
  "round_half_even x =
     (let n = \<lfloor>x\<rfloor>; f = x - of_int n
      in if f < 1 / 2 then n else if 1 / 2 < f then n + 1 else if even n then n else n + 1)"

record usage_out =
  uo_minutes :: rat
  uo_quota_minutes :: "int option"
  uo_bytes :: int
  uo_quota_bytes :: "int option"
  uo_window :: int

definition workspace_usage :: "request \<Rightarrow> uuid \<Rightarrow> caller \<Rightarrow> db \<Rightarrow> (http_error, usage_out) result \<times> db" where
  "workspace_usage rq wid c d = transaction d
     (and_then (workspace_ctx c d wid) (\<lambda>ctx.
        let u = measure_usage d (fst ctx) (rq_now rq)
        in Inr (\<lparr>uo_minutes = of_int (round_half_even (used_minutes u * 10)) / 10,
                 uo_quota_minutes = quota_minutes u, uo_bytes = used_bytes u,
                 uo_quota_bytes = quota_bytes u, uo_window = WINDOW_DAYS\<rparr>, d)))"

definition RECORDING_STATUSES :: "recording_status list" where
  "RECORDING_STATUSES = [Pending, Transcribing, Diarizing, Enriching, Summarizing, Done, Error, Missing,
     Duplicate, QuotaBlocked]"

record status_count =
  sc_status :: recording_status
  sc_count :: nat
  sc_audio :: rat

definition length_of :: "recording \<Rightarrow> rat" where
  "length_of r = (case rec_duration r of None \<Rightarrow> 0 | Some x \<Rightarrow> x)"

definition by_status :: "db \<Rightarrow> nat \<Rightarrow> status_count list" where
  "by_status d w =
     concat (map (\<lambda>s. let rs = select (\<lambda>r. rec_ws r = w \<and> rec_status r = s) (recordings d)
        in if rs = [] then []
           else [\<lparr>sc_status = s, sc_count = length rs, sc_audio = sum_list (map length_of rs)\<rparr>])
       RECORDING_STATUSES)"

definition audio_in :: "recording_status set \<Rightarrow> status_count list \<Rightarrow> rat" where
  "audio_in S xs = sum_list (map sc_audio (filter (\<lambda>x. sc_status x \<in> S) xs))"

text \<open>The measured speed over the last twenty transcriptions of all workspaces.\<close>

definition recent_runs :: "db \<Rightarrow> (rat \<times> rat) list" where
  "recent_runs d =
     take 20 (map (\<lambda>j. (the (job_audio j), the (job_elapsed j)))
       (sort_key (\<lambda>j. - int (job_id j))
         (select (\<lambda>j. job_stage j = StageTranscribe \<and> job_status j = JobDone \<and> job_audio j \<noteq> None \<and>
            job_elapsed j \<noteq> None) (job_logs d))))"

definition speed_ratio :: "db \<Rightarrow> rat option" where
  "speed_ratio d =
     (let valid = filter (\<lambda>(a, e). a \<noteq> 0) (recent_runs d);
          audio = sum_list (map fst valid)
      in if 0 < audio then Some (sum_list (map snd valid) / audio) else None)"

record stats_out =
  st_by_status :: "status_count list"
  st_done_ratio :: rat
  st_speed :: "rat option"
  st_eta :: "rat option"
  st_errors :: "summary_out list"

definition stats_of :: "db \<Rightarrow> nat \<Rightarrow> time \<Rightarrow> stats_out" where
  "stats_of d w now =
     (let xs = by_status d w;
          total = audio_in (- {Duplicate, QuotaBlocked}) xs;
          waiting = audio_in {Pending, Transcribing} xs
      in \<lparr>st_by_status = xs,
          st_done_ratio = (if total \<noteq> 0 then audio_in {Done} xs / total else 0),
          st_speed = speed_ratio d,
          st_eta = map_option ((*) waiting) (speed_ratio d),
          st_errors = map (recording_summary d now)
            (take 10 (sort_key (\<lambda>r. - rec_updated_at r)
              (select (\<lambda>r. rec_ws r = w \<and> rec_status r = Error) (recordings d))))\<rparr>)"

definition stats :: "request \<Rightarrow> uuid \<Rightarrow> caller \<Rightarrow> db \<Rightarrow> (http_error, stats_out) result \<times> db" where
  "stats rq wid c d = transaction d
     (and_then (workspace_ctx c d wid) (\<lambda>ctx.
        if snd ctx < ADMIN then Inl (Http 403 (Media StatsForbidden))
        else Inr (stats_of d (ws_id (fst ctx)) (rq_now rq), d)))"

subsection \<open>Patterns are literal\<close>

definition escaped_char :: "char \<Rightarrow> string" where
  "escaped_char c = (if c \<in> {escape, CHR ''%'', CHR ''_''} then [escape, c] else [c])"

lemma replace_char_simps [simp]:
  "replace_char c new [] = []"
  "replace_char c new (x # s) = (if x = c then new else [x]) @ replace_char c new s"
  "replace_char c new (s @ t) = replace_char c new s @ replace_char c new t"
  by (simp_all add: replace_char_def)

lemma like_pattern_eq: "like_pattern q = CHR ''%'' # concat (map escaped_char q) @ [CHR ''%'']"
proof -
  have "replace_char (CHR ''_'') [escape, CHR ''_''] (replace_char (CHR ''%'') [escape, CHR ''%'']
      (replace_char escape [escape, escape] q)) = concat (map escaped_char q)"
    by (induction q) (simp_all add: escaped_char_def)
  then show ?thesis by (simp add: like_pattern_def Let_def)
qed

lemma like_percent: "like (CHR ''%'' # p) s \<longleftrightarrow> (\<exists>a b. s = a @ b \<and> like p b)"
proof (induction s)
  case (Cons x s)
  have "like (CHR ''%'' # p) (x # s) \<longleftrightarrow> like p (x # s) \<or> like (CHR ''%'' # p) s" by simp
  also have "\<dots> \<longleftrightarrow> (\<exists>a b. x # s = a @ b \<and> like p b)"
    unfolding Cons by (metis append_Cons append_Nil append_eq_Cons_conv)
  finally show ?case .
qed simp

lemma like_escaped: "like (escaped_char c @ p) s \<longleftrightarrow> (\<exists>t. s = c # t \<and> like p t)"
  by (cases s) (auto simp: escaped_char_def)

lemma like_literal: "like (concat (map escaped_char q) @ p) s \<longleftrightarrow> (\<exists>t. s = q @ t \<and> like p t)"
proof (induction q arbitrary: s)
  case (Cons c q)
  have "like (concat (map escaped_char (c # q)) @ p) s \<longleftrightarrow>
      like (escaped_char c @ (concat (map escaped_char q) @ p)) s" by simp
  also have "\<dots> \<longleftrightarrow> (\<exists>t. s = (c # q) @ t \<and> like p t)"
    unfolding like_escaped by (auto simp: Cons)
  finally show ?case .
qed simp

lemma lower_special:
  assumes "c \<in> {escape, CHR ''%'', CHR ''_''}"
  shows "lower_char x = c \<longleftrightarrow> x = c"
proof -
  have eq: "y = z \<longleftrightarrow> code y = code z" for y z :: char
    by (simp add: code_def)
  have "code escape = 92" "code (CHR ''%'') = 37" "code (CHR ''_'') = 95"
    by (simp_all add: code_def)
  with assms show ?thesis
    unfolding eq [of "lower_char x"] eq [of x] code_lower_char py_upper_def Let_def
    by (elim insertE emptyE) simp_all
qed

lemma lower_pattern: "str_lower (like_pattern q) = like_pattern (str_lower q)"
proof -
  have "map lower_char (escaped_char c) = escaped_char (lower_char c)" for c
    by (auto simp: escaped_char_def lower_special)
  then have "map lower_char (concat (map escaped_char q)) = concat (map escaped_char (map lower_char q))"
    by (induction q) simp_all
  then show ?thesis by (simp add: like_pattern_eq str_lower_def lower_special)
qed

subsection \<open>Properties\<close>

text \<open>What a person types into the search is looked for literally: percent signs, underscores
  and backslashes mean themselves, and a column matches exactly when it contains the term,
  letter case aside.\<close>

theorem search_terms_are_literal:
  "ilike column (like_pattern q) \<longleftrightarrow> (\<exists>s. column = Some s \<and> sublist (str_lower q) (str_lower s))"
proof (cases column)
  case (Some s)
  have "like (like_pattern q') t \<longleftrightarrow> sublist q' t" for q' t
    unfolding like_pattern_eq like_percent like_literal sublist_def like.simps(1) by auto
  with Some show ?thesis by (simp add: ilike_def lower_pattern)
qed (simp add: ilike_def)

definition lex_by :: "('a \<Rightarrow> 'b::linorder) \<Rightarrow> ('a \<Rightarrow> 'a \<Rightarrow> bool) \<Rightarrow> 'a \<Rightarrow> 'a \<Rightarrow> bool" where
  "lex_by f Q x y \<longleftrightarrow> f x < f y \<or> (f x = f y \<and> Q x y)"

lemma sorted_wrt_insort_key:
  "sorted_wrt (lex_by f Q) ys \<Longrightarrow> \<forall>y\<in>set ys. Q x y \<Longrightarrow> sorted_wrt (lex_by f Q) (insort_key f x ys)"
proof (induction ys)
  case (Cons y ys)
  show ?case
  proof (cases "f x \<le> f y")
    case True
    have "lex_by f Q x z" if "z \<in> set (y # ys)" for z
    proof -
      have "f y \<le> f z" using Cons.prems(1) that by (auto simp: lex_by_def)
      with True Cons.prems(2) that show ?thesis by (auto simp: lex_by_def)
    qed
    with True Cons.prems(1) show ?thesis by simp
  next
    case False
    with Cons show ?thesis by (auto simp: set_insort_key lex_by_def)
  qed
qed simp

text \<open>A stable sort refines the order it starts from.\<close>

lemma sorted_wrt_sort_key: "sorted_wrt Q xs \<Longrightarrow> sorted_wrt (lex_by f Q) (sort_key f xs)"
  by (induction xs) (auto intro: sorted_wrt_insort_key)

text \<open>Newest first, rows without a date last, the later row first among equals.\<close>

definition comes_before :: "recording \<Rightarrow> recording \<Rightarrow> bool" where
  "comes_before x y \<longleftrightarrow>
     (case (rec_recorded_at x, rec_recorded_at y) of
        (Some s, Some t) \<Rightarrow> t < s \<or> (s = t \<and> rec_id y \<le> rec_id x)
      | (Some _, None) \<Rightarrow> True
      | (None, Some _) \<Rightarrow> False
      | (None, None) \<Rightarrow> rec_id y \<le> rec_id x)"

lemma newest_first_sorted: "sorted_wrt (\<lambda>x y. comes_before (f x) (f y)) (newest_first f xs)"
proof -
  have "sorted_wrt (\<lambda>_ _. True) xs" by (induction xs) simp_all
  from sorted_wrt_sort_key [OF sorted_wrt_sort_key [OF sorted_wrt_sort_key [OF this]]]
  have "sorted_wrt (lex_by (\<lambda>x. rec_recorded_at (f x) = None)
      (lex_by (\<lambda>x. - (case rec_recorded_at (f x) of None \<Rightarrow> 0 | Some t \<Rightarrow> t))
        (lex_by (\<lambda>x. - int (rec_id (f x))) (\<lambda>_ _. True)))) (newest_first f xs)"
    unfolding newest_first_def .
  then show ?thesis
    by (rule sorted_wrt_mono_rel [rotated]) (auto simp: lex_by_def comes_before_def split: option.splits)
qed

lemma newest_first_same [simp]:
  "set (newest_first f xs) = set xs" "length (newest_first f xs) = length xs"
  "distinct (newest_first f xs) = distinct xs"
  by (simp_all add: newest_first_def)

lemma pages_concat: "concat (map (\<lambda>k. take n (drop (k * n) xs)) [0..<m]) = take (m * n) xs"
proof (induction m)
  case (Suc m)
  have "take (m * n + n) xs = take (m * n) xs @ take n (drop (m * n) xs)" by (rule take_add)
  with Suc show ?case by (simp add: add.commute)
qed simp

text \<open>C38. Paging through the list of a workspace shows every recording of that workspace that
  passes the filters exactly once, newest first, and the total is their number.\<close>

theorem pages_show_every_match_once:
  assumes "workspace_ctx c d wid = Inr (w, p)" "table_ok rec_id (recordings d)" "0 < limit"
    and "length (matching d q (ws_id w)) \<le> m * limit"
  shows "concat (map (\<lambda>k. case fst (list_recordings rq wid q (int limit) (int (k * limit)) c d) of
        Inl _ \<Rightarrow> [] | Inr (items, _) \<Rightarrow> items) [0..<m]) = map (recording_summary d (rq_now rq)) (matching d q (ws_id w)) \<and>
    set (matching d q (ws_id w)) = {r \<in> set (rows (recordings d)). passes_filters d q (ws_id w) r} \<and>
    distinct (map rec_id (matching d q (ws_id w))) \<and> sorted_wrt comes_before (matching d q (ws_id w)) \<and>
    fst (list_recordings rq wid q (int limit) 0 c d) =
      Inr (map (recording_summary d (rq_now rq)) (take limit (matching d q (ws_id w))), length (matching d q (ws_id w)))"
proof -
  let ?xs = "matching d q (ws_id w)"
  let ?f = "recording_summary d (rq_now rq)"
  have at: "fst (list_recordings rq wid q (int limit) (int o') c d) =
      Inr (map ?f (take limit (drop o' ?xs)), length ?xs)" for o'
    by (simp add: list_recordings_def assms(1) page_def matching_def Let_def)
  have "concat (map (\<lambda>k. map ?f (take limit (drop (k * limit) ?xs))) [0..<m]) =
      map ?f (concat (map (\<lambda>k. take limit (drop (k * limit) ?xs)) [0..<m]))"
    by (simp add: map_concat comp_def)
  also have "\<dots> = map ?f ?xs" unfolding pages_concat using assms(4) by simp
  finally have pages: "concat (map (\<lambda>k. case fst (list_recordings rq wid q (int limit) (int (k * limit)) c d) of
        Inl _ \<Rightarrow> [] | Inr (items, _) \<Rightarrow> items) [0..<m]) = map ?f ?xs"
    by (simp only: at sum.case prod.case)
  have "inj_on rec_id (set (rows (recordings d)))" "distinct (rows (recordings d))"
    using assms(2) by (auto simp: table_ok_def distinct_map)
  then have "distinct (map rec_id ?xs)"
    by (auto simp: distinct_map matching_def select_def intro: inj_on_subset)
  moreover have "sorted_wrt comes_before ?xs"
    using newest_first_sorted [of id "select (passes_filters d q (ws_id w)) (recordings d)"] by (simp add: matching_def)
  ultimately show ?thesis
    using pages at [of 0] by (auto simp: matching_def select_def)
qed

subsection \<open>Counting by status\<close>

lemma divide_le_one: "0 \<le> (n :: rat) \<Longrightarrow> n \<le> t \<Longrightarrow> n / t \<le> 1"
  by (cases "t = 0") (simp_all add: divide_le_eq_1)

definition rows_in :: "db \<Rightarrow> nat \<Rightarrow> recording_status \<Rightarrow> recording list" where
  "rows_in d w s = select (\<lambda>r. rec_ws r = w \<and> rec_status r = s) (recordings d)"

lemma all_statuses: "s \<in> set RECORDING_STATUSES"
  by (cases s) (simp_all add: RECORDING_STATUSES_def)

lemma by_status_sum:
  assumes "\<And>s. g \<lparr>sc_status = s, sc_count = 0, sc_audio = 0\<rparr> = (0 :: 'a :: comm_monoid_add)"
  shows "sum_list (map g (by_status d w)) =
    sum_list (map (\<lambda>s. g \<lparr>sc_status = s, sc_count = length (rows_in d w s), sc_audio = sum_list (map length_of (rows_in d w s))\<rparr>)
      RECORDING_STATUSES)"
proof -
  have "sum_list (map g (concat (map (\<lambda>s. let rs = rows_in d w s
        in if rs = [] then [] else [\<lparr>sc_status = s, sc_count = length rs, sc_audio = sum_list (map length_of rs)\<rparr>]) ss))) =
    sum_list (map (\<lambda>s. g \<lparr>sc_status = s, sc_count = length (rows_in d w s), sc_audio = sum_list (map length_of (rows_in d w s))\<rparr>) ss)"
    for ss by (induction ss) (simp_all add: Let_def assms)
  then show ?thesis by (simp add: by_status_def rows_in_def)
qed

lemma count_partition:
  "sum_list (map (\<lambda>s. length (filter (\<lambda>r. P r \<and> rec_status r = s) xs)) RECORDING_STATUSES) = length (filter P xs)"
proof (induction xs)
  case (Cons x xs)
  show ?case
  proof (cases "P x")
    case True
    then show ?thesis
      using Cons by (cases "rec_status x") (simp_all add: RECORDING_STATUSES_def)
  next
    case False
    with Cons show ?thesis by simp
  qed
qed (simp add: RECORDING_STATUSES_def)

lemma audio_in_eq:
  "audio_in S (by_status d w) =
     sum_list (map (\<lambda>s. if s \<in> S then sum_list (map length_of (rows_in d w s)) else 0) RECORDING_STATUSES)"
proof -
  have "audio_in S xs = sum_list (map (\<lambda>x. if sc_status x \<in> S then sc_audio x else 0) xs)" for xs
    by (induction xs) (simp_all add: audio_in_def)
  then show ?thesis using by_status_sum [of "\<lambda>x. if sc_status x \<in> S then sc_audio x else 0" d w] by (simp cong: if_cong)
qed

text \<open>The statistics add up: the counts are the recordings of the workspace, the share of
  finished audio lies between 0 and 1, and the remaining time is known exactly when a speed
  was measured.\<close>

theorem stats_add_up:
  assumes "\<And>r x. r \<in> set (rows (recordings d)) \<Longrightarrow> rec_duration r = Some x \<Longrightarrow> 0 \<le> x"
  shows "sum_list (map sc_count (st_by_status (stats_of d w now))) = length (select (\<lambda>r. rec_ws r = w) (recordings d)) \<and>
    0 \<le> st_done_ratio (stats_of d w now) \<and> st_done_ratio (stats_of d w now) \<le> 1 \<and>
    (st_eta (stats_of d w now) = None \<longleftrightarrow> st_speed (stats_of d w now) = None)"
proof -
  let ?A = "\<lambda>s. sum_list (map length_of (rows_in d w s))"
  have A: "0 \<le> ?A s" for s
    using assms by (intro sum_list_nonneg) (auto simp: rows_in_def select_def length_of_def split: option.splits)
  have mono: "audio_in S (by_status d w) \<le> audio_in T (by_status d w)" if "S \<subseteq> T" for S T
    unfolding audio_in_eq using that A by (intro sum_list_mono) auto
  let ?n = "audio_in {Done} (by_status d w)"
  let ?t = "audio_in (- {Duplicate, QuotaBlocked}) (by_status d w)"
  have n: "0 \<le> ?n" "?n \<le> ?t" using mono [of "{}" "{Done}"] by (auto simp: audio_in_def [of "{}"] intro: mono)
  then have "0 \<le> ?t" by simp
  have "0 \<le> ?n / ?t" by (rule divide_nonneg_nonneg) fact+
  moreover have "?n / ?t \<le> 1" by (rule divide_le_one) fact+
  ultimately have ratio: "0 \<le> st_done_ratio (stats_of d w now)" "st_done_ratio (stats_of d w now) \<le> 1"
    by (simp_all add: stats_of_def Let_def)
  have "sum_list (map sc_count (by_status d w)) = length (select (\<lambda>r. rec_ws r = w) (recordings d))"
    using by_status_sum [of sc_count d w] count_partition [of "\<lambda>r. rec_ws r = w" "rows (recordings d)"]
    by (simp add: rows_in_def select_def)
  with ratio show ?thesis by (simp add: stats_of_def Let_def)
qed

theorem stats_add_up_witness:
  "st_done_ratio (stats_of (demo_site\<lparr>recordings := \<lparr>rows = [demo_recording, demo_recording\<lparr>rec_id := 2, rec_status := Done\<rparr>],
     next_id = 3\<rparr>\<rparr>) 1 10) \<le> 1"
proof -
  let ?d = "demo_site\<lparr>recordings := \<lparr>rows = [demo_recording, demo_recording\<lparr>rec_id := 2, rec_status := Done\<rparr>], next_id = 3\<rparr>\<rparr>"
  have nonneg: "0 \<le> x" if "r \<in> set (rows (recordings ?d))" "rec_duration r = Some x" for r x
    using that by (auto simp: demo_recording_def)
  show ?thesis using stats_add_up [of ?d 1 10] nonneg by blast
qed

definition demo_query :: query where
  "demo_query = \<lparr>qy_text = Some ''A.W'', qy_status = None, qy_tag = None\<rparr>"

theorem pages_show_every_match_once_witness:
  "map sm_id (concat (map (\<lambda>k. case fst (list_recordings (demo_request ''GET'') 8 demo_query (int 1) (int (k * 1)) demo_caller demo_site) of
      Inl _ \<Rightarrow> [] | Inr (items, _) \<Rightarrow> items) [0..<2])) = [31]"
proof -
  have w: "workspace_ctx demo_caller demo_site 8 = Inr (demo_main, MANAGE)" by code_simp
  have t: "table_ok rec_id (recordings demo_site)"
    by (simp add: table_ok_def demo_site_def demo_recording_def)
  have m: "matching demo_site demo_query 1 = [demo_recording]" by code_simp
  have id: "ws_id demo_main = 1" by (simp add: demo_main_def)
  have l: "(0::nat) < 1" "length (matching demo_site demo_query (ws_id demo_main)) \<le> 2 * 1"
    unfolding id m by simp_all
  from pages_show_every_match_once [OF w t l, of "demo_request ''GET''", THEN conjunct1]
  show ?thesis by (simp only: id m) (simp add: recording_summary_def demo_recording_def)
qed

end
