(* ===== verification/Deletion.thy ===== *)
theory Deletion
  imports Access_Control
begin

text \<open>
  What \<open>app.delete_recording\<close> leaves behind: the rows that hang on the recording go with it, the
  ledger of transcribed time stays, and the rows that were its duplicates become recordings of
  their own.
\<close>

lemma delete_recording_Inr:
  assumes "delete_recording fi cfg rq pub c d = (Inr path, d')"
  obtains r where "recording_at MANAGE c d pub = Inr r" "require_csrf rq c = Inr ()"
    "path \<noteq> None \<Longrightarrow> rec_source r = Upload" "\<And>p. path = Some p \<Longrightarrow> audio_path fi cfg d r = Inr (Some p) \<and> fi_unlink fi p"
    "d' = delete_recording_row (rec_id r) (revive_duplicates (rq_now rq) (rec_id r) d)"
  using assms unfolding delete_recording_def
  by (auto simp: transaction_def and_then_Inr split: sum.splits if_splits option.splits)

lemma used_seconds_deleted:
  "used_seconds (delete_recording_row i (revive_duplicates now i d)) w t = used_seconds d w t"
proof -
  have "sum_list (map audio_of (filter (counted w t)
        (map (\<lambda>j. if job_recording j = Some i then j\<lparr>job_recording := None\<rparr> else j) js))) =
      sum_list (map audio_of (filter (counted w t) js))" for js
    by (induction js) (auto simp: counted_def audio_of_def)
  then show ?thesis
    by (simp add: used_seconds_def select_def delete_recording_row_def revive_duplicates_def update_recordings_def)
qed

definition hangs_on :: "db \<Rightarrow> nat \<Rightarrow> bool" where
  "hangs_on d i \<longleftrightarrow>
     (\<exists>s\<in>set (rows (segments d)). seg_recording s = i) \<or> (\<exists>s\<in>set (rows (speakers d)). spk_recording s = i) \<or>
     (\<exists>t\<in>set (recording_tags d). rt_recording t = i) \<or> (\<exists>s\<in>set (rows (shares d)). shr_recording s = i) \<or>
     (\<exists>l\<in>set (rows (links d)). lnk_recording l = i) \<or> (\<exists>j\<in>set (rows (job_logs d)). job_recording j = Some i) \<or>
     (\<exists>r\<in>set (rows (recordings d)). rec_id r = i \<or> rec_duplicate_of r = Some i)"

lemma nothing_hangs_on_deleted: "\<not> hangs_on (delete_recording_row i (revive_duplicates now i d)) i"
  unfolding hangs_on_def rows_deleted
  by (auto simp: delete_recording_row_def revive_duplicates_def update_recordings_def orphaned_def split: if_splits)


text \<open>All the duplicates of a deleted recording become recordings of their own at once, each
  waiting for transcription. Where there were two, the workspace holds the same content twice
  as an original, and both are transcribed and charged.\<close>

theorem deletion_revives_every_duplicate:
  assumes "delete_recording fi cfg rq pub c d = (Inr path, d')" "recording_at MANAGE c d pub = Inr r"
    and "x \<in> set (rows (recordings d))" "y \<in> set (rows (recordings d))"
    and "rec_duplicate_of x = Some (rec_id r)" "rec_duplicate_of y = Some (rec_id r)"
    and "rec_status x = Duplicate" "rec_status y = Duplicate" "rec_id x \<noteq> rec_id r" "rec_id y \<noteq> rec_id r"
    and "rec_content_hash x = Some full" "rec_content_hash y = Some full"
  shows "\<exists>x' y'. x' \<in> set (rows (recordings d')) \<and> y' \<in> set (rows (recordings d')) \<and>
    rec_id x' = rec_id x \<and> rec_id y' = rec_id y \<and> rec_status x' = Pending \<and> rec_status y' = Pending \<and>
    rec_duplicate_of x' = None \<and> rec_duplicate_of y' = None \<and>
    rec_content_hash x' = Some full \<and> rec_content_hash y' = Some full"
proof -
  let ?o = "orphaned (rq_now rq) (rec_id r)"
  have d': "d' = delete_recording_row (rec_id r) (revive_duplicates (rq_now rq) (rec_id r) d)"
    using assms(1) by (cases rule: delete_recording_Inr) (use assms(2) in auto)
  have "?o z \<in> set (rows (recordings d'))" if "z \<in> set (rows (recordings d))" "rec_id z \<noteq> rec_id r" for z
    using that unfolding d' rows_deleted by auto
  then have "?o x \<in> set (rows (recordings d'))" "?o y \<in> set (rows (recordings d'))" using assms(3,4,9,10) by blast+
  then show ?thesis using assms(5-8,11,12) by (intro exI [of _ "?o x"] exI [of _ "?o y"]) (simp add: orphaned_def)
qed

text \<open>A site with a recording and two duplicates of it, and its manager.\<close>

definition demo_copy :: "nat \<Rightarrow> recording" where
  "demo_copy i = demo_recording\<lparr>rec_id := i, rec_public := 30 + i, rec_path := (if i = 2 then ''/u/b.wav'' else ''/u/c.wav''),
     rec_status := Duplicate, rec_duplicate_of := Some 1\<rparr>"

definition demo_copies :: db where
  "demo_copies = demo_site\<lparr>recordings := \<lparr>rows = [demo_recording, demo_copy 2, demo_copy 3], next_id = 4\<rparr>\<rparr>"

definition demo_boss :: caller where
  "demo_boss = \<lparr>ca_principal = for_user demo_op, ca_user = Some demo_op, ca_session = Some demo_login\<rparr>"

lemma demo_deleted:
  "\<exists>path d'. delete_recording demo_files_of (demo_settings\<lparr>cfg_upload_dir := None\<rparr>) (demo_request ''DELETE'') 31
     demo_boss demo_copies = (Inr path, d')"
proof -
  have "is_ok (fst (delete_recording demo_files_of (demo_settings\<lparr>cfg_upload_dir := None\<rparr>) (demo_request ''DELETE'')
      31 demo_boss demo_copies))" by code_simp
  then show ?thesis by (auto simp: is_ok_iff) (metis prod.collapse)
qed


theorem deletion_revives_every_duplicate_witness:
  "\<exists>path d' x' y'. delete_recording demo_files_of (demo_settings\<lparr>cfg_upload_dir := None\<rparr>) (demo_request ''DELETE'') 31
     demo_boss demo_copies = (Inr path, d') \<and> x' \<in> set (rows (recordings d')) \<and> y' \<in> set (rows (recordings d')) \<and>
     rec_id x' \<noteq> rec_id y' \<and> rec_status x' = Pending \<and> rec_status y' = Pending \<and>
     rec_content_hash x' = rec_content_hash y'"
proof -
  obtain path d' where d: "delete_recording demo_files_of (demo_settings\<lparr>cfg_upload_dir := None\<rparr>)
      (demo_request ''DELETE'') 31 demo_boss demo_copies = (Inr path, d')" using demo_deleted by blast
  have at: "recording_at MANAGE demo_boss demo_copies 31 = Inr demo_recording" by code_simp
  note R = deletion_revives_every_duplicate [OF d at, of "demo_copy 2" "demo_copy 3" "''c''"]
  have ids: "rec_id (demo_copy i) = i" "rec_duplicate_of (demo_copy i) = Some (rec_id demo_recording)"
    "rec_status (demo_copy i) = Duplicate" "rec_content_hash (demo_copy i) = Some ''c''" for i
    by (simp_all add: demo_copy_def demo_recording_def)
  from R obtain x' y' where "x' \<in> set (rows (recordings d'))" "y' \<in> set (rows (recordings d'))"
      "rec_id x' = 2" "rec_id y' = 3" "rec_status x' = Pending" "rec_status y' = Pending"
      "rec_content_hash x' = Some ''c''" "rec_content_hash y' = Some ''c''"
    by (auto simp: ids demo_copies_def demo_recording_def)
  with d show ?thesis by (intro exI [of _ path] exI [of _ d'] exI [of _ x'] exI [of _ y']) simp
qed

end
