(* ===== verification/Stt_Client.thy ===== *)
theory Stt_Client
  imports Worker_Stages Audio_Files
begin

text \<open>
  The HTTP client of the speech-to-text runner, \<open>stt_client.py\<close>, and what the worker makes of
  its answers. The other side is a \<open>world\<close>: the replies, as a function of everything that was
  exchanged so far and of the request, and the time that passes outside the client's own
  pauses. A conversation is the history of requests, replies, pauses and progress reports with
  the state of the progress hook. \<open>wait\<close> may run for ever when it has no deadline, so it is
  a partial function: its value is \<open>None\<close> when it does not return.
\<close>

subsection \<open>Requests and replies\<close>

text \<open>The fields of a JSON answer; a reply whose body is no JSON has none.\<close>

record reply_body =
  rb_job_id :: "string option"
  rb_status :: "string option"
  rb_result :: "stt_result option"
  rb_error :: "string option"
  rb_stage :: "string option"
  rb_progress :: "rat option"
  rb_detail :: "string option"

datatype runner_reply = Unreached string | Reply nat "reply_body option" string

record job_form =
  jf_diarize :: bool
  jf_model :: "string option"
  jf_language :: "string option"
  jf_request_id :: "uuid option"
  jf_timeout :: "rat option"
  jf_path :: "string option"
  jf_file :: "string option"

datatype runner_call = PostJob job_form | GetJob string

datatype exchange =
    Sent runner_call rat runner_reply
  | Slept rat
  | Told "string option" "rat option"

text \<open>The exceptions of the module, and \<open>Unexpected\<close> for what it lets through: a body that is
  no JSON or lacks a field, a file that cannot be opened, an exception of the hook.\<close>

datatype refusal = Refused nat string | NoRequestReuse | JobError string | NoReason
datatype outage = NotReached string | ServerFault nat | NoAnswers
datatype runner_exc =
    RunnerUnavailable outage | RunnerJobLost | RunnerJobFailed refusal | RunnerJobTimedOut
  | Unexpected string

record runner_client =
  rc_upload :: bool
  rc_poll :: rat
  rc_timeout :: rat

record world =
  wo_elapsed :: "nat \<Rightarrow> rat"
  wo_reply :: "exchange list \<Rightarrow> runner_call \<Rightarrow> runner_reply"
  wo_opens :: "string \<Rightarrow> bool"

record 's conversation =
  cv_readings :: nat
  cv_slept :: rat
  cv_log :: "exchange list"
  cv_hook :: 's

definition monotonic :: "world \<Rightarrow> 's conversation \<Rightarrow> rat \<times> 's conversation" where
  "monotonic w s = (wo_elapsed w (cv_readings s) + cv_slept s, s\<lparr>cv_readings := Suc (cv_readings s)\<rparr>)"

definition send :: "world \<Rightarrow> runner_call \<Rightarrow> rat \<Rightarrow> 's conversation \<Rightarrow> runner_reply \<times> 's conversation" where
  "send w call timeout s =
     (let r = wo_reply w (cv_log s) call in (r, s\<lparr>cv_log := cv_log s @ [Sent call timeout r]\<rparr>))"

definition pause :: "rat \<Rightarrow> 's conversation \<Rightarrow> 's conversation" where
  "pause x s = s\<lparr>cv_slept := cv_slept s + x, cv_log := cv_log s @ [Slept x]\<rparr>"

definition is_success :: "nat \<Rightarrow> bool" where
  "is_success status \<longleftrightarrow> 200 \<le> status \<and> status < 300"

definition is_runner_fault :: "nat \<Rightarrow> bool" where
  "is_runner_fault status \<longleftrightarrow> 500 \<le> status \<or> status = 429"

definition or_text :: "string option \<Rightarrow> string \<Rightarrow> string" where
  "or_text t alt = (case t of None \<Rightarrow> alt | Some x \<Rightarrow> if x = [] then alt else x)"

definition refusal_detail :: "nat \<Rightarrow> reply_body option \<Rightarrow> string \<Rightarrow> refusal" where
  "refusal_detail status body reason =
     Refused status (or_text (case body of None \<Rightarrow> None | Some b \<Rightarrow> rb_detail b) reason)"

subsection \<open>Submitting a job\<close>

datatype http_problem = Transport string | HttpStatus nat "reply_body option" string | Raised string

definition submit_request ::
  "world \<Rightarrow> runner_client \<Rightarrow> job_form \<Rightarrow> string \<Rightarrow> rat option \<Rightarrow> 's conversation \<Rightarrow>
   (http_problem, string) result \<times> 's conversation" where
  "submit_request w c form path remaining s =
     (let timeout = (case remaining of None \<Rightarrow> rc_timeout c | Some x \<Rightarrow> min (rc_timeout c) x)
      in if rc_upload c \<and> \<not> wo_opens w path then (Inl (Raised path), s)
         else
           let (r, s1) = send w (PostJob (if rc_upload c then form\<lparr>jf_file := Some path\<rparr>
                                          else form\<lparr>jf_path := Some path\<rparr>)) timeout s
           in (case r of
                 Unreached t \<Rightarrow> (Inl (Transport t), s1)
               | Reply status body reason \<Rightarrow>
                   if \<not> is_success status then (Inl (HttpStatus status body reason), s1)
                   else (case body of
                           None \<Rightarrow> (Inl (Raised reason), s1)
                         | Some b \<Rightarrow>
                             (case rb_job_id b of
                                None \<Rightarrow> (Inl (Raised ''job_id''), s1)
                              | Some j \<Rightarrow> (Inr j, s1)))))"

definition non_empty :: "string option \<Rightarrow> string option" where
  "non_empty t = (case t of None \<Rightarrow> None | Some x \<Rightarrow> if x = [] then None else Some x)"

record job_order =
  jo_path :: string
  jo_model :: "string option"
  jo_language :: "string option"
  jo_diarize :: bool
  jo_request_id :: "uuid option"

definition order_form :: "job_order \<Rightarrow> rat option \<Rightarrow> job_form" where
  "order_form jo timeout =
     \<lparr>jf_diarize = jo_diarize jo, jf_model = non_empty (jo_model jo),
      jf_language = non_empty (jo_language jo), jf_request_id = jo_request_id jo,
      jf_timeout = timeout, jf_path = None, jf_file = None\<rparr>"

definition submit ::
  "world \<Rightarrow> runner_client \<Rightarrow> job_order \<Rightarrow> rat option \<Rightarrow> 's conversation \<Rightarrow>
   (runner_exc, string) result \<times> 's conversation" where
  "submit w c jo timeout s =
     (case submit_request w c (order_form jo timeout) (jo_path jo) timeout s of
        (Inr j, s1) \<Rightarrow>
          (case jo_request_id jo of
             None \<Rightarrow> (Inr j, s1)
           | Some q \<Rightarrow>
               if j \<noteq> uuid_hex q then (Inl (RunnerJobFailed NoRequestReuse), s1) else (Inr j, s1))
      | (Inl (Transport t), s1) \<Rightarrow> (Inl (RunnerUnavailable (NotReached t)), s1)
      | (Inl (HttpStatus status body reason), s1) \<Rightarrow>
          if is_runner_fault status then (Inl (RunnerUnavailable (ServerFault status)), s1)
          else (Inl (RunnerJobFailed (refusal_detail status body reason)), s1)
      | (Inl (Raised t), s1) \<Rightarrow> (Inl (Unexpected t), s1))"

subsection \<open>Waiting for a job\<close>

type_synonym run_end = "(runner_exc, stt_result) result"
type_synonym 's hook = "exchange list \<Rightarrow> string option \<times> rat option \<Rightarrow> 's \<Rightarrow> 's option"

text \<open>One turn of the polling loop ends the wait or goes on with a number of errors in a row.\<close>

datatype turn = Ended run_end | Again nat

definition failed_poll :: "runner_client \<Rightarrow> nat \<Rightarrow> 's conversation \<Rightarrow> turn \<times> 's conversation" where
  "failed_poll c errors s =
     (if Suc errors > 5 then (Ended (Inl (RunnerUnavailable NoAnswers)), s)
      else (Again (Suc errors), pause (rc_poll c) s))"

definition overdue :: "world \<Rightarrow> rat option \<Rightarrow> 's conversation \<Rightarrow> bool \<times> 's conversation" where
  "overdue w deadline s =
     (case deadline of None \<Rightarrow> (False, s) | Some x \<Rightarrow> let (t, s1) = monotonic w s in (x < t, s1))"

definition poll_timeout ::
  "world \<Rightarrow> runner_client \<Rightarrow> rat option \<Rightarrow> 's conversation \<Rightarrow> rat \<times> 's conversation" where
  "poll_timeout w c deadline s =
     (case deadline of
        None \<Rightarrow> (rc_timeout c, s)
      | Some x \<Rightarrow> let (t, s1) = monotonic w s in (min (rc_timeout c) (max (1 / 1000) (x - t)), s1))"

definition read_body ::
  "runner_client \<Rightarrow> 's hook \<Rightarrow> reply_body \<Rightarrow> 's conversation \<Rightarrow> turn \<times> 's conversation" where
  "read_body c hook b s =
     (case rb_status b of
        None \<Rightarrow> (Ended (Inl (Unexpected ''status'')), s)
      | Some st \<Rightarrow>
          if st = ''done''
          then (Ended (case rb_result b of None \<Rightarrow> Inl (Unexpected ''result'') | Some x \<Rightarrow> Inr x), s)
          else if st = ''error''
          then (Ended (Inl (RunnerJobFailed
                  (case non_empty (rb_error b) of None \<Rightarrow> NoReason | Some t \<Rightarrow> JobError t))), s)
          else (case hook (cv_log s) (rb_stage b, rb_progress b) (cv_hook s) of
                  None \<Rightarrow> (Ended (Inl (Unexpected ''on_progress'')), s)
                | Some h \<Rightarrow>
                    (Again 0, pause (rc_poll c)
                       (s\<lparr>cv_hook := h, cv_log := cv_log s @ [Told (rb_stage b) (rb_progress b)]\<rparr>))))"

definition poll_once ::
  "world \<Rightarrow> runner_client \<Rightarrow> 's hook \<Rightarrow> string \<Rightarrow> rat option \<Rightarrow> nat \<Rightarrow> 's conversation \<Rightarrow> turn \<times> 's conversation" where
  "poll_once w c hook job deadline errors s =
     (let (late, s1) = overdue w deadline s
      in if late then (Ended (Inl RunnerJobTimedOut), s1)
         else
           let (timeout, s2) = poll_timeout w c deadline s1;
               (r, s3) = send w (GetJob job) timeout s2
           in (case r of
                 Unreached t \<Rightarrow> failed_poll c errors s3
               | Reply status body reason \<Rightarrow>
                   if status = 404 then (Ended (Inl RunnerJobLost), s3)
                   else if \<not> is_success status
                   then if is_runner_fault status then failed_poll c errors s3
                        else (Ended (Inl (RunnerJobFailed (refusal_detail status body reason))), s3)
                   else (case body of
                           None \<Rightarrow> (Ended (Inl (Unexpected reason)), s3)
                         | Some b \<Rightarrow> read_body c hook b s3)))"

partial_function (option) poll_loop ::
  "(nat \<Rightarrow> 's conversation \<Rightarrow> turn \<times> 's conversation) \<Rightarrow> nat \<Rightarrow> 's conversation \<Rightarrow> (run_end \<times> 's conversation) option" where
  "poll_loop step errors s =
     (case step errors s of
        (Ended r, s1) \<Rightarrow> Some (r, s1)
      | (Again e, s1) \<Rightarrow> poll_loop step e s1)"

definition wait ::
  "world \<Rightarrow> runner_client \<Rightarrow> 's hook \<Rightarrow> string \<Rightarrow> rat option \<Rightarrow> 's conversation \<Rightarrow> (run_end \<times> 's conversation) option" where
  "wait w c hook job deadline s = poll_loop (poll_once w c hook job deadline) 0 s"

subsection \<open>From submission to result\<close>

definition time_left :: "world \<Rightarrow> rat option \<Rightarrow> 's conversation \<Rightarrow> rat option \<times> 's conversation" where
  "time_left w deadline s =
     (case deadline of None \<Rightarrow> (None, s) | Some x \<Rightarrow> let (t, s1) = monotonic w s in (Some (x - t), s1))"

definition used_up :: "rat option \<Rightarrow> bool" where
  "used_up remaining = (case remaining of None \<Rightarrow> False | Some x \<Rightarrow> x \<le> 0)"

fun attempts ::
  "world \<Rightarrow> runner_client \<Rightarrow> 's hook \<Rightarrow> job_order \<Rightarrow> rat option \<Rightarrow> nat \<Rightarrow> 's conversation \<Rightarrow>
   (run_end \<times> 's conversation) option" where
  "attempts w c hook jo deadline 0 s = Some (Inl (Unexpected ''unreachable''), s)"
| "attempts w c hook jo deadline (Suc n) s =
     (let (remaining, s1) = time_left w deadline s
      in if used_up remaining then Some (Inl RunnerJobTimedOut, s1)
         else (case submit w c jo remaining s1 of
                 (Inl e, s2) \<Rightarrow> Some (Inl e, s2)
               | (Inr job, s2) \<Rightarrow>
                   (case wait w c hook job deadline s2 of
                      None \<Rightarrow> None
                    | Some (r, s3) \<Rightarrow>
                        if r = Inl RunnerJobLost \<and> n \<noteq> 0 then attempts w c hook jo deadline n s3
                        else Some (r, s3))))"

definition transcribe ::
  "world \<Rightarrow> runner_client \<Rightarrow> 's hook \<Rightarrow> job_order \<Rightarrow> nat \<Rightarrow> rat option \<Rightarrow> 's conversation \<Rightarrow>
   (run_end \<times> 's conversation) option" where
  "transcribe w c hook jo max_resubmits timeout s =
     (case timeout of
        None \<Rightarrow> attempts w c hook jo None (Suc max_resubmits) s
      | Some x \<Rightarrow>
          let (t, s1) = monotonic w s in attempts w c hook jo (Some (t + x)) (Suc max_resubmits) s1)"

subsection \<open>What is in a log\<close>

definition posts :: "exchange list \<Rightarrow> job_form list" where
  "posts xs = concat (map (\<lambda>x. case x of Sent (PostJob f) _ _ \<Rightarrow> [f] | _ \<Rightarrow> []) xs)"

definition polls :: "exchange list \<Rightarrow> runner_reply list" where
  "polls xs = concat (map (\<lambda>x. case x of Sent (GetJob _) _ r \<Rightarrow> [r] | _ \<Rightarrow> []) xs)"

definition pauses :: "exchange list \<Rightarrow> rat list" where
  "pauses xs = concat (map (\<lambda>x. case x of Slept t \<Rightarrow> [t] | _ \<Rightarrow> []) xs)"

definition timeouts :: "exchange list \<Rightarrow> rat list" where
  "timeouts xs = concat (map (\<lambda>x. case x of Sent _ t _ \<Rightarrow> [t] | _ \<Rightarrow> []) xs)"

lemmas log_defs = posts_def polls_def pauses_def timeouts_def

lemma logs_append [simp]:
  "posts (a @ b) = posts a @ posts b" "polls (a @ b) = polls a @ polls b"
  "pauses (a @ b) = pauses a @ pauses b" "timeouts (a @ b) = timeouts a @ timeouts b"
  by (simp_all add: log_defs)

lemma logs_Cons [simp]:
  "posts [] = []" "polls [] = []" "pauses [] = []" "timeouts [] = []"
  "posts (Sent (PostJob f) t r # xs) = f # posts xs" "posts (Sent (GetJob j) t r # xs) = posts xs"
  "posts (Slept x # xs) = posts xs" "posts (Told st p # xs) = posts xs"
  "polls (Sent (PostJob f) t r # xs) = polls xs" "polls (Sent (GetJob j) t r # xs) = r # polls xs"
  "polls (Slept x # xs) = polls xs" "polls (Told st p # xs) = polls xs"
  "pauses (Sent call t r # xs) = pauses xs" "pauses (Slept x # xs) = x # pauses xs"
  "pauses (Told st p # xs) = pauses xs"
  "timeouts (Sent call t r # xs) = t # timeouts xs" "timeouts (Slept x # xs) = timeouts xs"
  "timeouts (Told st p # xs) = timeouts xs"
  by (simp_all add: log_defs)

definition faulty :: "runner_reply \<Rightarrow> bool" where
  "faulty r = (case r of Unreached _ \<Rightarrow> True | Reply status _ _ \<Rightarrow> is_runner_fault status)"

lemma overdue_fields [simp]:
  "cv_slept (snd (overdue w dl s)) = cv_slept s" "cv_log (snd (overdue w dl s)) = cv_log s"
  "cv_readings s \<le> cv_readings (snd (overdue w dl s))" "cv_hook (snd (overdue w dl s)) = cv_hook s"
  by (simp_all add: overdue_def monotonic_def split: option.splits)

lemma poll_timeout_fields [simp]:
  "cv_slept (snd (poll_timeout w c dl s)) = cv_slept s" "cv_log (snd (poll_timeout w c dl s)) = cv_log s"
  "cv_readings s \<le> cv_readings (snd (poll_timeout w c dl s))"
  "cv_hook (snd (poll_timeout w c dl s)) = cv_hook s"
  "fst (poll_timeout w c dl s) \<le> rc_timeout c"
  by (simp_all add: poll_timeout_def monotonic_def split: option.splits)

lemma fst_overdue: "fst (overdue w (Some x) s) \<longleftrightarrow> x < wo_elapsed w (cv_readings s) + cv_slept s"
  by (simp add: overdue_def monotonic_def)

text \<open>What a turn of the polling loop does: it finds itself late, or it sends one poll and
  ends, or it sends one poll, perhaps tells the hook, and pauses.\<close>

lemma poll_once_late:
  "fst (overdue w dl s) \<Longrightarrow> poll_once w c hook job dl e s = (Ended (Inl RunnerJobTimedOut), snd (overdue w dl s))"
  by (simp add: poll_once_def split_beta)

definition after_poll ::
  "world \<Rightarrow> runner_client \<Rightarrow> string \<Rightarrow> rat option \<Rightarrow> 's conversation \<Rightarrow> runner_reply \<Rightarrow> 's conversation" where
  "after_poll w c job dl s r =
     (let p = poll_timeout w c dl (snd (overdue w dl s))
      in (snd p)\<lparr>cv_log := cv_log s @ [Sent (GetJob job) (fst p) r]\<rparr>)"

definition poll_reply :: "world \<Rightarrow> string \<Rightarrow> 's conversation \<Rightarrow> runner_reply" where
  "poll_reply w job s = wo_reply w (cv_log s) (GetJob job)"

lemma after_poll_fields [simp]:
  "cv_slept (after_poll w c job dl s r) = cv_slept s"
  "cv_readings s \<le> cv_readings (after_poll w c job dl s r)"
  "posts (cv_log (after_poll w c job dl s r)) = posts (cv_log s)"
  "polls (cv_log (after_poll w c job dl s r)) = polls (cv_log s) @ [r]"
  "pauses (cv_log (after_poll w c job dl s r)) = pauses (cv_log s)"
  "cv_hook (after_poll w c job dl s r) = cv_hook s"
proof -
  have "cv_readings s \<le> cv_readings (snd (overdue w dl s))" by simp
  also have "\<dots> \<le> cv_readings (snd (poll_timeout w c dl (snd (overdue w dl s))))"
    by (rule poll_timeout_fields)
  finally show "cv_readings s \<le> cv_readings (after_poll w c job dl s r)"
    by (simp add: after_poll_def Let_def)
qed (simp_all add: after_poll_def Let_def)

lemma timeouts_after_poll:
  "set (timeouts (cv_log (after_poll w c job dl s r))) \<subseteq> insert (fst (poll_timeout w c dl (snd (overdue w dl s)))) (set (timeouts (cv_log s)))"
  by (simp add: after_poll_def Let_def)

lemma poll_once_sends:
  assumes "\<not> fst (overdue w dl s)"
  shows "poll_once w c hook job dl e s =
    (let r = poll_reply w job s; s3 = after_poll w c job dl s r
     in case r of
          Unreached t \<Rightarrow> failed_poll c e s3
        | Reply status body reason \<Rightarrow>
            if status = 404 then (Ended (Inl RunnerJobLost), s3)
            else if \<not> is_success status
            then if is_runner_fault status then failed_poll c e s3
                 else (Ended (Inl (RunnerJobFailed (refusal_detail status body reason))), s3)
            else (case body of None \<Rightarrow> (Ended (Inl (Unexpected reason)), s3) | Some b \<Rightarrow> read_body c hook b s3))"
proof -
  let ?p = "poll_timeout w c dl (snd (overdue w dl s))" and ?r = "poll_reply w job s"
  have "send w (GetJob job) (fst ?p) (snd ?p) = (?r, after_poll w c job dl s ?r)"
    by (simp add: send_def Let_def after_poll_def poll_reply_def)
  with assms show ?thesis
    by (simp only: poll_once_def Let_def split_beta fst_conv snd_conv if_False)
qed

text \<open>The two ways a turn goes on.\<close>

lemma failed_poll_cases:
  assumes "failed_poll c e s = (t, s1)"
  obtains (gives_up) "5 \<le> e" "t = Ended (Inl (RunnerUnavailable NoAnswers))" "s1 = s"
  | (again) "e < 5" "t = Again (Suc e)" "s1 = pause (rc_poll c) s"
  using assms by (auto simp: failed_poll_def split: if_splits)

lemma read_body_cases:
  assumes "read_body c hook b s = (t, s1)"
  obtains (ends) r where "t = Ended r" "s1 = s" "\<And>x. r \<noteq> Inl (RunnerUnavailable x)" "r \<noteq> Inl RunnerJobTimedOut"
      "r \<noteq> Inl RunnerJobLost" "\<And>n x. r \<noteq> Inl (RunnerJobFailed (Refused n x))"
  | (again) h where "t = Again 0"
      "hook (cv_log s) (rb_stage b, rb_progress b) (cv_hook s) = Some h"
      "s1 = pause (rc_poll c) (s\<lparr>cv_hook := h, cv_log := cv_log s @ [Told (rb_stage b) (rb_progress b)]\<rparr>)"
proof (cases "rb_status b")
  case None
  with assms show ?thesis by (intro ends [of "Inl (Unexpected ''status'')"]) (auto simp: read_body_def)
next
  case (Some st)
  consider "st = ''done''" | "st = ''error''" | "st \<noteq> ''done''" "st \<noteq> ''error''" by blast
  then show ?thesis
  proof cases
    case 1
    with Some assms show ?thesis
      by (intro ends [of "case rb_result b of None \<Rightarrow> Inl (Unexpected ''result'') | Some x \<Rightarrow> Inr x"])
        (auto simp: read_body_def split: option.splits)
  next
    case 2
    with Some assms show ?thesis
      by (intro ends [of "Inl (RunnerJobFailed
          (case non_empty (rb_error b) of None \<Rightarrow> NoReason | Some t \<Rightarrow> JobError t))"])
        (auto simp: read_body_def split: option.splits)
  next
    case 3
    show ?thesis
    proof (cases "hook (cv_log s) (rb_stage b, rb_progress b) (cv_hook s)")
      case None
      with Some 3 assms show ?thesis
        by (intro ends [of "Inl (Unexpected ''on_progress'')"]) (auto simp: read_body_def)
    next
      case (Some h)
      with \<open>rb_status b = _\<close> 3 assms show ?thesis by (intro again [of h]) (auto simp: read_body_def)
    qed
  qed
qed

lemma pause_fields [simp]:
  "cv_readings (pause x s) = cv_readings s" "cv_slept (pause x s) = cv_slept s + x"
  "cv_log (pause x s) = cv_log s @ [Slept x]" "cv_hook (pause x s) = cv_hook s"
  by (simp_all add: pause_def)

lemma poll_once_cases:
  assumes "poll_once w c hook job dl e s = (t, s1)"
  obtains (late) "fst (overdue w dl s)" "t = Ended (Inl RunnerJobTimedOut)" "s1 = snd (overdue w dl s)"
  | (ends) r where "\<not> fst (overdue w dl s)" "t = Ended r" "s1 = after_poll w c job dl s (poll_reply w job s)"
      "r \<noteq> Inl RunnerJobTimedOut"
      "\<And>x. r = Inl (RunnerUnavailable x) \<Longrightarrow> x = NoAnswers \<and> 5 \<le> e \<and> faulty (poll_reply w job s)"
  | (fault) "\<not> fst (overdue w dl s)" "e < 5" "t = Again (Suc e)" "faulty (poll_reply w job s)"
      "s1 = pause (rc_poll c) (after_poll w c job dl s (poll_reply w job s))"
  | (told) st p h where "\<not> fst (overdue w dl s)" "t = Again 0"
      "s1 = pause (rc_poll c) ((after_poll w c job dl s (poll_reply w job s))\<lparr>cv_hook := h,
         cv_log := cv_log (after_poll w c job dl s (poll_reply w job s)) @ [Told st p]\<rparr>)"
proof (cases "fst (overdue w dl s)")
  case True
  with assms show ?thesis by (intro late) (simp_all add: poll_once_late)
next
  case False
  let ?r = "poll_reply w job s" and ?s = "after_poll w c job dl s (poll_reply w job s)"
  have fails: ?thesis if "failed_poll c e ?s = (t, s1)" "faulty ?r"
    using that(1)
  proof (cases rule: failed_poll_cases)
    case gives_up
    with False that(2) show ?thesis by (intro ends [of "Inl (RunnerUnavailable NoAnswers)"]) auto
  next
    case again
    with False that(2) show ?thesis by (intro fault) auto
  qed
  show ?thesis
  proof (cases ?r)
    case (Unreached x)
    with assms False fails show ?thesis by (simp add: poll_once_sends Let_def faulty_def)
  next
    case (Reply status body reason)
    consider "status = 404" | "status \<noteq> 404" "\<not> is_success status" "is_runner_fault status"
      | "status \<noteq> 404" "\<not> is_success status" "\<not> is_runner_fault status"
      | "status \<noteq> 404" "is_success status" "body = None"
      | b where "status \<noteq> 404" "is_success status" "body = Some b" by (cases body) auto
    then show ?thesis
    proof cases
      case 1
      with Reply assms False show ?thesis
        by (intro ends [of "Inl RunnerJobLost"]) (auto simp: poll_once_sends Let_def)
    next
      case 2
      with Reply assms False fails show ?thesis by (simp add: poll_once_sends Let_def faulty_def)
    next
      case 3
      with Reply assms False show ?thesis
        by (intro ends [of "Inl (RunnerJobFailed (refusal_detail status body reason))"])
          (auto simp: poll_once_sends Let_def)
    next
      case 4
      with Reply assms False show ?thesis
        by (intro ends [of "Inl (Unexpected reason)"]) (auto simp: poll_once_sends Let_def)
    next
      case 5
      with Reply assms False have "read_body c hook b ?s = (t, s1)" by (simp add: poll_once_sends Let_def)
      then show ?thesis
      proof (cases rule: read_body_cases)
        case (ends r)
        with False show ?thesis by (intro that(2) [of r]) auto
      next
        case (again h)
        with False show ?thesis by (intro told [of "rb_stage b" "rb_progress b" h]) simp_all
      qed
    qed
  qed
qed

text \<open>The rules of the polling loop: a measure that every further turn lowers makes it
  return, and an invariant of its turns holds where it returns.\<close>

lemma poll_loop_returns:
  fixes m :: "'s conversation \<Rightarrow> nat"
  assumes "I e s"
    and step: "\<And>e s t s1. I e s \<Longrightarrow> step e s = (t, s1) \<Longrightarrow>
        (case t of Ended r \<Rightarrow> Q r s1 | Again e1 \<Rightarrow> I e1 s1 \<and> m s1 < m s)"
  shows "\<exists>r s1. poll_loop step e s = Some (r, s1) \<and> Q r s1"
  using assms(1)
proof (induction "m s" arbitrary: e s rule: less_induct)
  case less
  obtain t s1 where turn: "step e s = (t, s1)" by fastforce
  with step [OF less.prems] have t: "case t of Ended r \<Rightarrow> Q r s1 | Again e1 \<Rightarrow> I e1 s1 \<and> m s1 < m s" by blast
  show ?case
  proof (cases t)
    case (Ended r)
    with turn t show ?thesis by (simp add: poll_loop.simps)
  next
    case (Again e1)
    with t less.hyps have "\<exists>r s2. poll_loop step e1 s1 = Some (r, s2) \<and> Q r s2" by simp
    with turn Again show ?thesis by (simp add: poll_loop.simps [of step e])
  qed
qed

lemma poll_loop_invariant:
  assumes "poll_loop step e s = Some (r, s1)" "I e s"
    and step: "\<And>e s t s1. I e s \<Longrightarrow> step e s = (t, s1) \<Longrightarrow>
        (case t of Ended r \<Rightarrow> Q r s1 | Again e1 \<Rightarrow> I e1 s1)"
  shows "Q r s1"
proof -
  have "I e s \<longrightarrow> (case p of (r, s1) \<Rightarrow> Q r s1)"
    if "poll_loop st e s = Some p" "st = step" for st e s p
    using that(2)
  proof (induction st e s p rule: poll_loop.raw_induct)
    case (1 poll_loop st e s p)
    obtain t s2 where turn: "step e s = (t, s2)" by fastforce
    with step [of e s] have t: "I e s \<Longrightarrow> (case t of Ended r \<Rightarrow> Q r s2 | Again e1 \<Rightarrow> I e1 s2)" by blast
    show ?case
    proof (cases t)
      case (Ended r)
      with 1 turn t show ?thesis by auto
    next
      case (Again e1)
      with 1 turn Again have "I e1 s2 \<longrightarrow> (case p of (r, s1) \<Rightarrow> Q r s1)" by simp
      with t Again show ?thesis by auto
    qed
  qed (rule that(1))
  with assms(1,2) show ?thesis by fastforce
qed

subsection \<open>A run within its time\<close>

text \<open>The invariant of a run with a time limit \<open>T\<close> that started at clock reading \<open>r0\<close> after
  \<open>p0\<close> of pauses: every pause was followed by a look at the clock, so the pauses exceed the
  limit by one at most.\<close>

definition run_within ::
  "runner_client \<Rightarrow> job_order \<Rightarrow> rat \<Rightarrow> nat \<Rightarrow> rat \<Rightarrow> 's conversation \<Rightarrow> bool" where
  "run_within c jo T r0 p0 s \<longleftrightarrow>
     r0 \<le> cv_readings s \<and> cv_slept s = p0 + rc_poll c * of_nat (length (pauses (cv_log s))) \<and>
     rc_poll c * of_nat (length (pauses (cv_log s))) \<le> max 0 T + rc_poll c \<and>
     (\<forall>f\<in>set (posts (cv_log s)). jf_request_id f = jo_request_id jo \<and>
        (\<exists>x. jf_timeout f = Some x \<and> 0 < x \<and> x \<le> T)) \<and>
     (\<forall>t\<in>set (timeouts (cv_log s)). t \<le> rc_timeout c)"

lemma run_within_cong:
  assumes "run_within c jo T r0 p0 s" "cv_readings s \<le> cv_readings s1" "cv_slept s1 = cv_slept s"
    and "pauses (cv_log s1) = pauses (cv_log s)"
    and "\<And>f. f \<in> set (posts (cv_log s1)) \<Longrightarrow> f \<in> set (posts (cv_log s)) \<or>
      jf_request_id f = jo_request_id jo \<and> (\<exists>x. jf_timeout f = Some x \<and> 0 < x \<and> x \<le> T)"
    and "\<And>t. t \<in> set (timeouts (cv_log s1)) \<Longrightarrow> t \<in> set (timeouts (cv_log s)) \<or> t \<le> rc_timeout c"
  shows "run_within c jo T r0 p0 s1"
  using assms unfolding run_within_def by (metis le_trans)

lemma run_within_after_poll:
  assumes "run_within c jo T r0 p0 s"
  shows "run_within c jo T r0 p0 (after_poll w c job dl s r)"
  using assms
  by (rule run_within_cong)
    (use timeouts_after_poll [of w c job dl s r] poll_timeout_fields(5) [of w c dl "snd (overdue w dl s)"] in auto)

lemma run_within_overdue:
  assumes "run_within c jo T r0 p0 s"
  shows "run_within c jo T r0 p0 (snd (overdue w dl s))"
  using assms by (rule run_within_cong) simp_all

lemma run_within_pause:
  assumes "run_within c jo T r0 p0 s" "rc_poll c * of_nat (length (pauses (cv_log s))) \<le> T"
  shows "run_within c jo T r0 p0 (pause (rc_poll c) s)"
  using assms by (auto simp: run_within_def algebra_simps)

lemma not_overdue:
  assumes "run_within c jo T r0 p0 s" "mono (wo_elapsed w)"
    and "\<not> fst (overdue w (Some (wo_elapsed w r0 + p0 + T)) s)"
  shows "rc_poll c * of_nat (length (pauses (cv_log s))) \<le> T"
proof -
  have "wo_elapsed w r0 \<le> wo_elapsed w (cv_readings s)"
    using assms(1,2) by (simp add: run_within_def monoD)
  with assms(1,3) show ?thesis by (simp add: run_within_def fst_overdue)
qed

lemma pauses_bounded:
  assumes "0 < p" "p * rat_of_nat n \<le> max 0 T + p"
  shows "n \<le> nat \<lceil>max 0 T / p\<rceil> + 1"
proof -
  have "rat_of_nat n \<le> max 0 T / p + 1" using assms by (simp add: field_simps)
  then have "int n \<le> \<lceil>max 0 T / p\<rceil> + 1" by linarith
  then show ?thesis by linarith
qed

text \<open>A wait with a deadline returns; it keeps the invariant and adds at most one poll more
  than pauses.\<close>

lemma wait_returns:
  fixes s :: "'s conversation"
  assumes "mono (wo_elapsed w)" "0 < rc_poll c" "run_within c jo T r0 p0 s"
    and dl: "dl = Some (wo_elapsed w r0 + p0 + T)"
  shows "\<exists>r s1. wait w c hook job dl s = Some (r, s1) \<and> run_within c jo T r0 p0 s1 \<and>
    posts (cv_log s1) = posts (cv_log s) \<and>
    length (polls (cv_log s1)) + length (pauses (cv_log s)) \<le>
      length (polls (cv_log s)) + length (pauses (cv_log s1)) + 1"
proof -
  define I where "I e u \<longleftrightarrow> run_within c jo T r0 p0 u \<and> posts (cv_log u) = posts (cv_log s) \<and>
    length (polls (cv_log u)) + length (pauses (cv_log s)) \<le>
      length (polls (cv_log s)) + length (pauses (cv_log u))" for e :: nat and u :: "'s conversation"
  define Q where "Q r u \<longleftrightarrow> run_within c jo T r0 p0 u \<and> posts (cv_log u) = posts (cv_log s) \<and>
    length (polls (cv_log u)) + length (pauses (cv_log s)) \<le>
      length (polls (cv_log s)) + length (pauses (cv_log u)) + 1" for r :: run_end and u :: "'s conversation"
  define B where "B = nat \<lceil>max 0 T / rc_poll c\<rceil> + 1"
  have "\<exists>r s1. poll_loop (poll_once w c hook job dl) 0 s = Some (r, s1) \<and> Q r s1"
  proof (rule poll_loop_returns [where I = I and m = "\<lambda>u. Suc B - length (pauses (cv_log u))"])
    show "I 0 s" using assms(3) by (simp add: I_def)
  next
    fix e u t u1 assume u: "I e u" and turn: "poll_once w c hook job dl e u = (t, u1)"
    let ?p = "after_poll w c job dl u (poll_reply w job u)"
    have k: "run_within c jo T r0 p0 ?p" using u by (simp add: I_def run_within_after_poll)
    have on: "I e1 (pause (rc_poll c) v) \<and>
        Suc B - length (pauses (cv_log (pause (rc_poll c) v))) < Suc B - length (pauses (cv_log u))"
      if "\<not> fst (overdue w dl u)" and v: "run_within c jo T r0 p0 v"
        "pauses (cv_log v) = pauses (cv_log u)" "posts (cv_log v) = posts (cv_log u)"
        "polls (cv_log v) = polls (cv_log u) @ [r]" for e1 v r
    proof -
      have "rc_poll c * of_nat (length (pauses (cv_log u))) \<le> T"
        using u that(1) unfolding I_def dl by (intro not_overdue [OF _ assms(1)]) auto
      then have "rc_poll c * of_nat (length (pauses (cv_log v))) \<le> T" by (simp add: v(2))
      then have "run_within c jo T r0 p0 (pause (rc_poll c) v)" using v(1) by (rule run_within_pause [rotated])
      then have k1: "run_within c jo T r0 p0 (pause (rc_poll c) v)" .
      then have "length (pauses (cv_log (pause (rc_poll c) v))) \<le> B"
        unfolding B_def by (intro pauses_bounded [OF assms(2)]) (auto simp: run_within_def)
      then have "Suc (length (pauses (cv_log u))) \<le> B" by (simp add: v(2))
      then have "Suc B - length (pauses (cv_log (pause (rc_poll c) v))) < Suc B - length (pauses (cv_log u))"
        by (simp add: v(2))
      moreover have "I e1 (pause (rc_poll c) v)" using u k1 by (simp add: I_def v)
      ultimately show ?thesis by blast
    qed
    from turn show "case t of Ended r \<Rightarrow> Q r u1 | Again e1 \<Rightarrow>
        I e1 u1 \<and> Suc B - length (pauses (cv_log u1)) < Suc B - length (pauses (cv_log u))"
    proof (cases rule: poll_once_cases)
      case late
      have "run_within c jo T r0 p0 u" using u by (simp only: I_def)
      then have "run_within c jo T r0 p0 (snd (overdue w dl u))" by (rule run_within_overdue)
      with late u show ?thesis by (simp add: I_def Q_def)
    next
      case (ends r)
      with u k show ?thesis by (simp add: I_def Q_def)
    next
      case fault
      with on [OF _ k] show ?thesis by simp
    next
      case (told st p h)
      have "run_within c jo T r0 p0 (?p\<lparr>cv_hook := h, cv_log := cv_log ?p @ [Told st p]\<rparr>)"
        using k by (rule run_within_cong) auto
      with on [OF told(1) this] told(2,3) show ?thesis by simp
    qed
  qed
  then show ?thesis by (simp add: wait_def Q_def)
qed


lemma submit_cases:
  assumes "submit w c jo remaining s = (r, s1)"
  obtains (not_sent) t where "r = Inl (Unexpected t)" "s1 = s"
  | (sent) f rep where "jf_request_id f = jo_request_id jo" "jf_timeout f = remaining"
      "s1 = s\<lparr>cv_log := cv_log s @ [Sent (PostJob f)
         (case remaining of None \<Rightarrow> rc_timeout c | Some x \<Rightarrow> min (rc_timeout c) x) rep]\<rparr>"
      "rep = wo_reply w (cv_log s) (PostJob f)"
      "\<And>x. r = Inl (RunnerUnavailable x) \<Longrightarrow> faulty rep"
      "\<And>j q. r = Inr j \<Longrightarrow> jo_request_id jo = Some q \<Longrightarrow> j = uuid_hex q"
      "r \<noteq> Inl RunnerJobTimedOut" "r \<noteq> Inl RunnerJobLost"
      "\<And>n b x. rep = Reply n b x \<Longrightarrow> \<not> is_success n \<Longrightarrow> \<not> is_runner_fault n \<Longrightarrow>
         r = Inl (RunnerJobFailed (refusal_detail n b x))"
proof (cases "rc_upload c \<and> \<not> wo_opens w (jo_path jo)")
  case True
  with assms show ?thesis
    by (intro not_sent [of "jo_path jo"]) (simp_all add: submit_def submit_request_def Let_def)
next
  case False
  let ?f = "if rc_upload c then (order_form jo remaining)\<lparr>jf_file := Some (jo_path jo)\<rparr>
            else (order_form jo remaining)\<lparr>jf_path := Some (jo_path jo)\<rparr>"
  let ?rep = "wo_reply w (cv_log s) (PostJob ?f)"
  show ?thesis
    using False assms
    by (intro sent [of ?f ?rep])
      (auto simp: submit_def submit_request_def send_def Let_def order_form_def faulty_def is_success_def
        split: runner_reply.splits option.splits if_splits)
qed

lemma submit_within:
  assumes "submit w c jo (Some x) s = (r, s1)" "run_within c jo T r0 p0 s" "0 < x" "x \<le> T"
  shows "run_within c jo T r0 p0 s1" "length (posts (cv_log s1)) \<le> Suc (length (posts (cv_log s)))"
    "polls (cv_log s1) = polls (cv_log s)" "pauses (cv_log s1) = pauses (cv_log s)"
    "posts (cv_log s1) = posts (cv_log s) \<Longrightarrow> \<exists>t. r = Inl (Unexpected t)"
    "\<exists>more. posts (cv_log s1) = posts (cv_log s) @ more"
proof -
  have "run_within c jo T r0 p0 s1 \<and> length (posts (cv_log s1)) \<le> Suc (length (posts (cv_log s))) \<and>
    polls (cv_log s1) = polls (cv_log s) \<and> pauses (cv_log s1) = pauses (cv_log s) \<and>
    (posts (cv_log s1) = posts (cv_log s) \<longrightarrow> (\<exists>t. r = Inl (Unexpected t))) \<and>
    (\<exists>more. posts (cv_log s1) = posts (cv_log s) @ more)"
    using assms(1)
  proof (cases rule: submit_cases)
    case (not_sent t)
    with assms(2) show ?thesis by auto
  next
    case (sent f rep)
    have "run_within c jo T r0 p0 s1"
      using assms(2) by (rule run_within_cong) (use sent assms(3,4) in auto)
    with sent show ?thesis by auto
  qed
  then show "run_within c jo T r0 p0 s1" "length (posts (cv_log s1)) \<le> Suc (length (posts (cv_log s)))"
    "polls (cv_log s1) = polls (cv_log s)" "pauses (cv_log s1) = pauses (cv_log s)"
    "posts (cv_log s1) = posts (cv_log s) \<Longrightarrow> \<exists>t. r = Inl (Unexpected t)"
    "\<exists>more. posts (cv_log s1) = posts (cv_log s) @ more" by blast+
qed

text \<open>All attempts together: one submission each, and at most one poll more than pauses for
  each submission.\<close>

lemma attempts_return:
  fixes s :: "'s conversation"
  assumes "mono (wo_elapsed w)" "0 < rc_poll c" "dl = Some (wo_elapsed w r0 + p0 + T)"
    and "run_within c jo T r0 p0 s"
    and "length (polls (cv_log s)) \<le> length (pauses (cv_log s)) + length (posts (cv_log s))"
  shows "\<exists>r s1. attempts w c hook jo dl n s = Some (r, s1) \<and> run_within c jo T r0 p0 s1 \<and>
    length (posts (cv_log s1)) \<le> length (posts (cv_log s)) + n \<and>
    length (polls (cv_log s1)) \<le> length (pauses (cv_log s1)) + length (posts (cv_log s1))"
  using assms(4,5)
proof (induction n arbitrary: s)
  case 0
  then show ?case by simp
next
  case (Suc n)
  define t where "t = wo_elapsed w (cv_readings s) + cv_slept s"
  define s1 where "s1 = s\<lparr>cv_readings := Suc (cv_readings s)\<rparr>"
  define x where "x = wo_elapsed w r0 + p0 + T - t"
  have left: "time_left w dl s = (Some x, s1)"
    by (simp add: time_left_def assms(3) monotonic_def s1_def x_def t_def)
  have k1: "run_within c jo T r0 p0 s1" using Suc.prems(1) by (rule run_within_cong) (simp_all add: s1_def)
  have "wo_elapsed w r0 \<le> wo_elapsed w (cv_readings s)"
    using Suc.prems(1) assms(1) by (simp add: run_within_def monoD)
  moreover have "p0 \<le> cv_slept s" using Suc.prems(1) assms(2) by (simp add: run_within_def)
  ultimately have xT: "x \<le> T" by (simp add: x_def t_def)
  show ?case
  proof (cases "x \<le> 0")
    case True
    with left have "attempts w c hook jo dl (Suc n) s = Some (Inl RunnerJobTimedOut, s1)" by (simp add: used_up_def)
    with k1 Suc.prems show ?thesis by (simp add: s1_def)
  next
    case False
    obtain r s2 where sub: "submit w c jo (Some x) s1 = (r, s2)" by fastforce
    note within = submit_within [OF sub k1 _ xT]
    have pos: "0 < x" using False by simp
    show ?thesis
    proof (cases r)
      case (Inl e)
      with left False sub have "attempts w c hook jo dl (Suc n) s = Some (Inl e, s2)" by (simp add: used_up_def)
      moreover obtain more where "posts (cv_log s2) = posts (cv_log s1) @ more" using within(6) pos by blast
      ultimately show ?thesis using within(1-4) pos Suc.prems by (simp add: s1_def)
    next
      case (Inr job)
      then have "posts (cv_log s2) \<noteq> posts (cv_log s1)" using within(5) pos by auto
      moreover obtain more where more: "posts (cv_log s2) = posts (cv_log s1) @ more" using within(6) pos by blast
      ultimately have one: "length (posts (cv_log s2)) = Suc (length (posts (cv_log s)))"
        using within(2) pos by (cases more) (simp_all add: s1_def)
      obtain r' s3 where w: "wait w c hook job dl s2 = Some (r', s3)" "run_within c jo T r0 p0 s3"
          "posts (cv_log s3) = posts (cv_log s2)"
          "length (polls (cv_log s3)) + length (pauses (cv_log s2)) \<le>
             length (polls (cv_log s2)) + length (pauses (cv_log s3)) + 1"
        using wait_returns [OF assms(1,2) within(1) [OF pos] assms(3), of hook job] by blast
      then have p3: "length (polls (cv_log s3)) \<le> length (pauses (cv_log s3)) + length (posts (cv_log s3))"
        using within(3,4) [OF pos] Suc.prems(2) one by (simp add: s1_def)
      have eq: "attempts w c hook jo dl (Suc n) s =
          (if r' = Inl RunnerJobLost \<and> n \<noteq> 0 then attempts w c hook jo dl n s3 else Some (r', s3))"
        using left False sub Inr w(1) by (simp add: used_up_def)
      show ?thesis
      proof (cases "r' = Inl RunnerJobLost \<and> n \<noteq> 0")
        case True
        with eq have "attempts w c hook jo dl (Suc n) s = attempts w c hook jo dl n s3" by simp
        with Suc.IH [OF w(2) p3] w(3) one show ?thesis by auto
      next
        case False
        with eq have "attempts w c hook jo dl (Suc n) s = Some (r', s3)" by simp
        with w(2,3) p3 one show ?thesis by simp
      qed
    qed
  qed
qed

definition fresh_conversation :: "'s \<Rightarrow> 's conversation" where
  "fresh_conversation h = \<lparr>cv_readings = 0, cv_slept = 0, cv_log = [], cv_hook = h\<rparr>"

text \<open>C12. With a time limit a transcription always comes back to the worker, whatever the runner
  answers, loses or withholds: after at most as many submissions as attempts were allowed, at
  most one pause more than fit into the limit, and one poll per pause and submission. Every
  submission carries the same request id and a positive rest of the limit, and no request is
  given more than the client's own timeout.\<close>

theorem transcription_comes_back:
  assumes "mono (wo_elapsed w)" "0 < rc_poll c"
  shows "\<exists>r s. transcribe w c hook jo k (Some T) (fresh_conversation h) = Some (r, s) \<and>
    length (posts (cv_log s)) \<le> Suc k \<and>
    rc_poll c * of_nat (length (pauses (cv_log s))) \<le> max 0 T + rc_poll c \<and>
    length (polls (cv_log s)) \<le> length (pauses (cv_log s)) + length (posts (cv_log s)) \<and>
    (\<forall>f\<in>set (posts (cv_log s)). jf_request_id f = jo_request_id jo \<and>
       (\<exists>x. jf_timeout f = Some x \<and> 0 < x \<and> x \<le> T)) \<and>
    (\<forall>t\<in>set (timeouts (cv_log s)). t \<le> rc_timeout c)"
proof -
  let ?s = "(fresh_conversation h)\<lparr>cv_readings := 1\<rparr>"
  have start: "monotonic w (fresh_conversation h) = (wo_elapsed w 0, ?s)"
    by (simp add: monotonic_def fresh_conversation_def)
  have "run_within c jo T 0 0 ?s" using assms(2) by (simp add: run_within_def fresh_conversation_def)
  then obtain r s where "attempts w c hook jo (Some (wo_elapsed w 0 + 0 + T)) (Suc k) ?s = Some (r, s)"
      "run_within c jo T 0 0 s" "length (posts (cv_log s)) \<le> length (posts (cv_log ?s)) + Suc k"
      "length (polls (cv_log s)) \<le> length (pauses (cv_log s)) + length (posts (cv_log s))"
    using attempts_return [OF assms refl, of jo T 0 0 ?s hook "Suc k"]
    by (auto simp: fresh_conversation_def)
  with start show ?thesis
    by (auto simp: transcribe_def run_within_def fresh_conversation_def)
qed

subsection \<open>What the worker makes of it\<close>

text \<open>The \<open>except\<close> clauses of \<open>worker.transcribe_stage\<close>; \<open>say\<close> is the text of an exception.\<close>

definition run_outcome_of :: "(runner_exc \<Rightarrow> string) \<Rightarrow> run_end \<Rightarrow> run_outcome" where
  "run_outcome_of say r =
     (case r of
        Inr x \<Rightarrow> Ran x
      | Inl e \<Rightarrow> (case e of
            RunnerUnavailable _ \<Rightarrow> RunUnavailable (say e)
          | RunnerJobTimedOut \<Rightarrow> RunTimedOut (say e)
          | _ \<Rightarrow> RunFailed (say e)))"

text \<open>A conversation that ends in an outage: the last request got no answer or a server fault,
  and if it was a poll, so did the five polls before it.\<close>

definition ends_in_outage :: "exchange list \<Rightarrow> bool" where
  "ends_in_outage xs \<longleftrightarrow> (\<exists>past call t rep. xs = past @ [Sent call t rep] \<and> faulty rep \<and>
     (\<forall>j. call = GetJob j \<longrightarrow> 6 \<le> length (polls xs) \<and> list_all faulty (take 6 (rev (polls xs)))))"

lemma wait_unavailable:
  fixes s :: "'s conversation"
  assumes "wait w c hook job dl s = Some (Inl (RunnerUnavailable x), s1)"
  shows "ends_in_outage (cv_log s1)"
proof -
  let ?I = "\<lambda>e (u :: 's conversation). e \<le> 5 \<and> e \<le> length (polls (cv_log u)) \<and>
    list_all faulty (take e (rev (polls (cv_log u))))"
  let ?Q = "\<lambda>(r :: run_end) (u :: 's conversation). (\<exists>x. r = Inl (RunnerUnavailable x)) \<longrightarrow> ends_in_outage (cv_log u)"
  have "?Q (Inl (RunnerUnavailable x)) s1"
  proof (rule poll_loop_invariant [where I = ?I and Q = ?Q])
    show "poll_loop (poll_once w c hook job dl) 0 s = Some (Inl (RunnerUnavailable x), s1)"
      using assms by (simp add: wait_def)
  next
    fix e u t u1 assume u: "?I e u" and turn: "poll_once w c hook job dl e u = (t, u1)"
    let ?r = "poll_reply w job u"
    from turn show "case t of Ended r \<Rightarrow> ?Q r u1 | Again e1 \<Rightarrow> ?I e1 u1"
    proof (cases rule: poll_once_cases)
      case late
      then show ?thesis by simp
    next
      case (ends r)
      have "ends_in_outage (cv_log u1)" if "r = Inl (RunnerUnavailable y)" for y
      proof -
        from ends(5) [OF that] u have five: "e = 5" "faulty ?r" by auto
        have "cv_log u1 = cv_log u @ [Sent (GetJob job) (fst (poll_timeout w c dl (snd (overdue w dl u)))) ?r]"
          by (simp add: ends(3) after_poll_def Let_def)
        moreover have "6 \<le> length (polls (cv_log u1)) \<and> list_all faulty (take 6 (rev (polls (cv_log u1))))"
          using u five by (simp add: ends(3) numeral_eq_Suc)
        ultimately show ?thesis using five(2) unfolding ends_in_outage_def by blast
      qed
      with ends(2) show ?thesis by auto
    next
      case fault
      with u show ?thesis by simp
    next
      case (told st p h)
      then show ?thesis by simp
    qed
  qed simp
  then show ?thesis by blast
qed

lemma attempts_unavailable:
  "attempts w c hook jo dl n s = Some (Inl (RunnerUnavailable x), s1) \<Longrightarrow> ends_in_outage (cv_log s1)"
proof (induction w c hook jo dl n s rule: attempts.induct)
  case (2 w c hook jo dl n s)
  obtain remaining s2 where left: "time_left w dl s = (remaining, s2)" by fastforce
  with "2.prems" have go: "\<not> used_up remaining" by auto
  obtain r s3 where sub: "submit w c jo remaining s2 = (r, s3)" by fastforce
  show ?case
  proof (cases r)
    case (Inl e)
    with left go sub "2.prems" have e: "r = Inl (RunnerUnavailable x)" "s1 = s3" by auto
    from sub show ?thesis
    proof (cases rule: submit_cases)
      case (not_sent t)
      with e show ?thesis by simp
    next
      case (sent f rep)
      with e show ?thesis unfolding ends_in_outage_def by fastforce
    qed
  next
    case (Inr job)
    show ?thesis
    proof (cases "wait w c hook job dl s3")
      case None
      with left go sub Inr "2.prems" show ?thesis by simp
    next
      case (Some p)
      obtain r' s4 where p: "p = (r', s4)" by fastforce
      show ?thesis
      proof (cases "r' = Inl RunnerJobLost \<and> n \<noteq> 0")
        case True
        with left go sub Inr Some p "2.prems"
        have "attempts w c hook jo dl n s4 = Some (Inl (RunnerUnavailable x), s1)" by simp
        with "2.IH" [OF refl left [symmetric] go sub [symmetric] Inr Some p [symmetric] True] show ?thesis by simp
      next
        case False
        with left go sub Inr Some p "2.prems"
        have "wait w c hook job dl s3 = Some (Inl (RunnerUnavailable x), s1)" by (auto split: if_splits)
        then show ?thesis by (rule wait_unavailable)
      qed
    qed
  qed
qed simp

lemma transcribe_unavailable:
  assumes "transcribe w c hook jo k T s = Some (Inl (RunnerUnavailable x), s1)"
  shows "ends_in_outage (cv_log s1)"
proof -
  obtain dl s0 where "attempts w c hook jo dl (Suc k) s0 = Some (Inl (RunnerUnavailable x), s1)"
    using assms unfolding transcribe_def by (auto split: option.splits simp: Let_def split_beta simp del: attempts.simps)
  then show ?thesis by (rule attempts_unavailable)
qed

lemma requeued_unreached:
  assumes t: "table_ok rec_id (recordings d)" and r: "lock_current_request d (rec_id m) q = Some r"
    and takes: "\<And>ss. accepts ss"
    and out: "settle_transcription accepts m q started now out d = (e, d')"
    and r': "get_recording d' (rec_id m) = Some r'" "rec_status r' = Pending"
  shows "\<exists>t. out = Inl (EUnavailable t)"
proof -
  from lock_current_request_Some [OF r] have rm: "r \<in> set (rows (recordings d))" "rec_id r = rec_id m" by auto
  have never: False if "recordings d' = recordings (put_recording now x d)" "rec_id x = rec_id r"
      "rec_status x \<noteq> Pending" for x
  proof -
    have "stored_as now r x = r'" using get_put [OF t rm(1) that(2), of now] that(1) r'(1) rm(2) by simp
    with r'(2) that(3) show False by auto
  qed
  have failure: "\<exists>t. ex = EUnavailable t" if "settle_failure (rec_id m) q started now ex d = (e, d')" for ex
    using r
  proof (cases rule: settle_failure_cases [where e = ex and started = started and now = now])
    case (failed x)
    with never [of "failed_row x r"] that show ?thesis by simp
  qed auto
  show ?thesis
  proof (cases out)
    case (Inl ex)
    with failure [of ex] assms(4) show ?thesis by (simp add: settle_transcription_def)
  next
    case (Inr res)
    show ?thesis
    proof (cases "res_segments res")
      case (Inl t)
      with Inr r failure [of "EOther t"] assms(4) show ?thesis
        by (auto simp: settle_transcription_def settle_result_def)
    next
      case (Inr ss)
      have "recordings d' = recordings (put_recording now (transcribed_row now res ss r) d)"
        using assms(4) \<open>out = Inr res\<close> Inr r takes
        by (auto simp: settle_transcription_def settle_result_def Let_def)
      with never [of "transcribed_row now res ss r"] show ?thesis by simp
    qed
  qed
qed

lemma check_never_unreached:
  "check_before oserr r v = Some e \<Longrightarrow> e \<noteq> EUnavailable t"
  "check_after oserr r sg v = Some e \<Longrightarrow> e \<noteq> EUnavailable t"
  by (auto simp: check_before_def check_after_def split: if_splits option.splits)

text \<open>C13. Only an outage of the runner puts a recording back into the queue: when a transcription
  that was still current ends with the recording pending, its last request was answered by
  nothing, a server fault or \<open>429\<close>, six polls in a row if it was a poll, and the recording
  keeps its request, so that the next submission carries the same id. A runner that refuses the
  file never makes the worker take the recording again by itself.\<close>

theorem only_an_outage_requeues:
  assumes "table_ok rec_id (recordings d)" "lock_current_request d (rec_id m) q = Some r"
    and "\<And>ss. accepts ss"
    and run: "transcribe w c hook jo k T s = Some (res, s1)"
    and out: "settle_transcription accepts m q started now
      (run_transcription oserr m before (run_outcome_of say res) after) d = (e, d')"
  shows "\<exists>r'. get_recording d' (rec_id m) = Some r' \<and> rec_status r' \<in> {Pending, Summarizing, Error} \<and>
    (rec_status r' = Pending \<longrightarrow> rec_request r' = Some q \<and> ends_in_outage (cv_log s1))"
proof -
  let ?o = "run_transcription oserr m before (run_outcome_of say res) after"
  obtain r' where r': "get_recording d' (rec_id m) = Some r'"
      "(e, rec_status r', rec_request r') \<in> {(Returned, Summarizing, None), (RaisedUnavailable, Pending, Some q),
         (RaisedUnavailable, Error, None), (RaisedOther, Error, None)}"
    using settlement_leaves_no_limbo [where accepts = accepts, OF assms(1-3), where started = started and now = now and out = ?o] unfolding out by auto
  have "ends_in_outage (cv_log s1)" if pending: "rec_status r' = Pending"
  proof -
    obtain t where "?o = Inl (EUnavailable t)"
      using requeued_unreached [OF assms(1-3) out r'(1) pending] by blast
    then obtain x where "res = Inl (RunnerUnavailable x)"
      by (auto simp: run_transcription_def run_outcome_of_def dest!: check_never_unreached
        split: option.splits sum.splits runner_exc.splits)
    with run show ?thesis by (auto intro: transcribe_unavailable)
  qed
  with r' show ?thesis by auto
qed


text \<open>A runner that never finishes its job, one that is down, and a job as the worker orders it.\<close>

definition demo_body :: reply_body where
  "demo_body = \<lparr>rb_job_id = Some (uuid_hex 77), rb_status = Some ''running'', rb_result = None,
     rb_error = None, rb_stage = Some ''transcribe'', rb_progress = None, rb_detail = None\<rparr>"

definition demo_stuck :: world where
  "demo_stuck = \<lparr>wo_elapsed = of_nat, wo_reply = (\<lambda>_ _. Reply 200 (Some demo_body) ''OK''), wo_opens = (\<lambda>_. True)\<rparr>"

definition demo_down :: world where
  "demo_down = \<lparr>wo_elapsed = of_nat, wo_reply = (\<lambda>_ _. Unreached ''refused''), wo_opens = (\<lambda>_. True)\<rparr>"

definition demo_runner_client :: runner_client where
  "demo_runner_client = \<lparr>rc_upload = False, rc_poll = 3, rc_timeout = 30\<rparr>"

definition demo_order :: job_order where
  "demo_order = \<lparr>jo_path = ''/a.m4a'', jo_model = None, jo_language = Some ''ko'', jo_diarize = True,
     jo_request_id = Some 77\<rparr>"

definition demo_hook :: "unit hook" where
  "demo_hook = (\<lambda>_ _ u. Some u)"

theorem transcription_comes_back_witness:
  "\<exists>r s. transcribe demo_stuck demo_runner_client demo_hook demo_order 2 (Some 10) (fresh_conversation ()) = Some (r, s) \<and>
     length (posts (cv_log s)) \<le> 3"
proof -
  have "mono (wo_elapsed demo_stuck)" by (simp add: demo_stuck_def mono_def)
  moreover have "0 < rc_poll demo_runner_client" by (simp add: demo_runner_client_def)
  ultimately obtain r s where
      "transcribe demo_stuck demo_runner_client demo_hook demo_order 2 (Some 10) (fresh_conversation ()) = Some (r, s)"
      "length (posts (cv_log s)) \<le> Suc 2"
    using transcription_comes_back [of demo_stuck demo_runner_client demo_hook demo_order 2 10 "()"] by blast
  then show ?thesis by auto
qed


lemma demo_outage:
  "\<exists>s. transcribe demo_down demo_runner_client demo_hook demo_order 2 None (fresh_conversation ()) =
     Some (Inl (RunnerUnavailable (NotReached ''refused'')), s)"
  by (simp add: transcribe_def numeral_eq_Suc time_left_def used_up_def submit_def submit_request_def send_def
      Let_def demo_down_def demo_runner_client_def demo_order_def)

theorem only_an_outage_requeues_witness:
  "\<exists>s d' r'. transcribe demo_down demo_runner_client demo_hook demo_order 2 None (fresh_conversation ()) =
       Some (Inl (RunnerUnavailable (NotReached ''refused'')), s) \<and>
     get_recording d' 1 = Some r' \<and> rec_status r' = Pending \<and> rec_request r' = Some 77 \<and>
     ends_in_outage (cv_log s)"
proof -
  define view where "view = \<lparr>fv_before = None, fv_content = None, fv_after = None\<rparr>"
  define say where "say = (\<lambda>_ :: runner_exc. ''outage'')"
  have i: "rec_id demo_running = 1" "rec_source demo_running = Upload"
    by (simp_all add: demo_running_def demo_recording_def)
  obtain s where s: "transcribe demo_down demo_runner_client demo_hook demo_order 2 None (fresh_conversation ()) =
      Some (Inl (RunnerUnavailable (NotReached ''refused'')), s)" using demo_outage by blast
  let ?out = "run_transcription [] demo_running view (run_outcome_of say (Inl (RunnerUnavailable (NotReached ''refused'')))) view"
  have out: "?out = Inl (EUnavailable ''outage'')"
    by (simp add: run_transcription_def check_before_def i run_outcome_of_def say_def)
  have settled: "settle_transcription (\<lambda>_. True) demo_running 77 5 6 ?out demo_running_db =
      (RaisedUnavailable, put_recording 6 (unreached_row demo_running) demo_running_db)"
    using demo_running_lock by (simp only: out settle_transcription_def settle_failure_def sum.case stage_exc.case option.case)
  obtain r' where r': "get_recording (put_recording 6 (unreached_row demo_running) demo_running_db) (rec_id demo_running) = Some r'"
      "rec_status r' = Pending \<longrightarrow> rec_request r' = Some 77 \<and> ends_in_outage (cv_log s)"
    using only_an_outage_requeues [OF demo_running_ok demo_running_lock _ s settled] by blast
  have "rec_status r' = Pending"
    using r'(1) get_put [OF demo_running_ok, of demo_running "unreached_row demo_running" 6]
    by (auto simp: demo_running_db_def unreached_row_def)
  with s r' i show ?thesis by auto
qed

end
