(* ===== verification/Command_Line.thy ===== *)
theory Command_Line
  imports Membership Settings_Env Service_Runs
begin

text \<open>
  The command line, \<open>cli.main\<close>: what an administrator does on the server, without a session
  and without a request. A command works in one database session that is committed at its end;
  every other way out leaves the database alone: \<open>parser.error\<close> and \<open>SystemExit\<close> close the
  session, and so does an exception that is not caught. What is typed at the password prompt,
  the random draws, the clock and the file system are the fields of a \<open>console\<close>.
\<close>

subsection \<open>Commands and how they end\<close>

text \<open>The subcommands with their parsed arguments.\<close>

datatype command =
    ScanDirs
  | WatchDirs
  | RunWorker
  | ServeApi
  | CreateWorkspace string string workspace_kind
  | Bootstrap string string string string
  | Approve string bool
  | ListPending int
  | RetryFailed "string option"
  | ResetPassword string
  | SetQuota string "string option" "string option"
  | BackfillHashes "string option" "int option"

datatype usage_problem =
    NoAudioDirs | NoDefaultWorkspace | NoSuchAccount string | NoSuchWorkspace string
  | NotANumber string | NegativeQuota | BootstrapRefused tenancy_error

datatype password_problem = TooShort | TwoDifferent

datatype crash = BadConfig config_error | Uncaught tenancy_error | DatabaseRefuses

datatype said =
    Bootstrapped string string
  | AlreadyThere string
  | PendingAccounts "user list"
  | RejectedAccount string
  | ApprovedAccount string
  | QueuedAgain nat
  | PasswordSet string nat
  | QuotaIs string "int option" "int option"
  | WorkspaceMade string uuid
  | HashesFilled "nat \<times> nat \<times> nat"
  | ScanDone scan_stats

text \<open>The three commands that go on for ever are other components.\<close>

datatype long_run = Watching nat "string list" | Working | Serving

datatype command_end =
    Finished said
  | Usage usage_problem
  | Stopped password_problem
  | Crashed crash
  | Running long_run

record console =
  co_settings :: "(config_error, settings) result"
  co_typed :: string
  co_retyped :: string
  co_pwhash :: "string \<Rightarrow> string"
  co_draws :: draws
  co_now :: time
  co_stat :: "string list \<Rightarrow> dir_stat"
  co_walks :: "walked_root list"
  co_content :: "string \<Rightarrow> string option"

subsection \<open>Helpers of the commands\<close>

definition read_password :: "console \<Rightarrow> (password_problem, string) result" where
  "read_password co =
     (if length (co_typed co) < PASSWORD_MIN then Inl TooShort
      else if co_typed co \<noteq> co_retyped co then Inl TwoDifferent
      else Inr (co_typed co))"

definition quota_value :: "string \<Rightarrow> (usage_problem, int option) result" where
  "quota_value raw =
     (if str_lower raw \<in> {''unlimited'', ''none'', []} then Inr None
      else (case py_int raw of
              None \<Rightarrow> Inl (NotANumber raw)
            | Some v \<Rightarrow> if v < 0 then Inl NegativeQuota else Inr (Some v)))"

text \<open>A limit that was not given stays as it is.\<close>

definition new_limit :: "string option \<Rightarrow> int option \<Rightarrow> (usage_problem, int option) result" where
  "new_limit arg old = (case arg of None \<Rightarrow> Inr old | Some raw \<Rightarrow> quota_value raw)"

definition new_bytes :: "string option \<Rightarrow> int option \<Rightarrow> (usage_problem, int option) result" where
  "new_bytes arg old =
     (case arg of
        None \<Rightarrow> Inr old
      | Some raw \<Rightarrow> map_sum id (map_option (\<lambda>gb. gb * 1024 * 1024 * 1024)) (quota_value raw))"

text \<open>The columns are \<open>INTEGER\<close> and \<open>BIGINT\<close>: a larger number is refused at the commit.\<close>

definition fits :: "nat \<Rightarrow> int option \<Rightarrow> bool" where
  "fits bits v = (case v of None \<Rightarrow> True | Some x \<Rightarrow> x < 2 ^ bits)"

definition set_quota :: "nat \<Rightarrow> int option \<Rightarrow> int option \<Rightarrow> db \<Rightarrow> db" where
  "set_quota w qm qb d = d\<lparr>workspaces := update_where (\<lambda>x. ws_id x = w)
     (\<lambda>x. x\<lparr>ws_quota_minutes := qm, ws_quota_bytes := qb\<rparr>) (workspaces d)\<rparr>"

text \<open>\<open>--workspace\<close>: absent and empty mean all of them.\<close>

definition chosen_workspace :: "db \<Rightarrow> string option \<Rightarrow> (usage_problem, nat option) result" where
  "chosen_workspace d arg =
     (case arg of
        None \<Rightarrow> Inr None
      | Some slug \<Rightarrow>
          if slug = [] then Inr None
          else (case get_workspace d slug of
                  Inl _ \<Rightarrow> Inl (NoSuchWorkspace slug)
                | Inr w \<Rightarrow> Inr (Some (ws_id w))))"

definition default_workspace_id :: "settings \<Rightarrow> db \<Rightarrow> (usage_problem, nat) result" where
  "default_workspace_id cfg d =
     (let slug = (case cfg_default_workspace cfg of None \<Rightarrow> [] | Some s \<Rightarrow> s)
      in case get_workspace d slug of
           Inl _ \<Rightarrow> Inl (NoSuchWorkspace slug)
         | Inr w \<Rightarrow> Inr (ws_id w))"

text \<open>\<open>LIMIT\<close> with a negative number is an error of the database.\<close>

definition sql_limit :: "int option \<Rightarrow> nat option option" where
  "sql_limit arg =
     (case arg of None \<Rightarrow> Some None | Some n \<Rightarrow> if n < 0 then None else Some (Some (nat n)))"

subsection \<open>The commands\<close>

definition email_of :: "db \<Rightarrow> nat \<Rightarrow> string" where
  "email_of d u = (case get_user d u of None \<Rightarrow> [] | Some x \<Rightarrow> usr_email x)"

definition slug_of :: "db \<Rightarrow> nat \<Rightarrow> string" where
  "slug_of d w = (case get_workspace_row d w of None \<Rightarrow> [] | Some x \<Rightarrow> ws_slug x)"

definition cli_bootstrap ::
  "console \<Rightarrow> string \<Rightarrow> string \<Rightarrow> string \<Rightarrow> string \<Rightarrow> db \<Rightarrow> command_end \<times> db" where
  "cli_bootstrap co email name slug wname d =
     (case read_password co of
        Inl p \<Rightarrow> (Stopped p, d)
      | Inr pw \<Rightarrow>
          (case bootstrap d email (co_pwhash co pw) name slug wname (co_draws co) (co_now co) of
             Inl e \<Rightarrow> (if e \<in> {BadSlug, WorkspaceMissing} then Usage (BootstrapRefused e) else Crashed (Uncaught e), d)
           | Inr ((u, w, created), d1) \<Rightarrow>
               (Finished (if created then Bootstrapped (email_of d1 u) (slug_of d1 w)
                          else AlreadyThere (email_of d1 u)), d1)))"

definition cli_approve :: "console \<Rightarrow> settings \<Rightarrow> string \<Rightarrow> bool \<Rightarrow> db \<Rightarrow> command_end \<times> db" where
  "cli_approve co cfg email rejected d =
     (case find_user d email of
        None \<Rightarrow> (Usage (NoSuchAccount email), d)
      | Some u \<Rightarrow>
          if rejected then (Finished (RejectedAccount (usr_email u)), reject u None (co_now co) d)
          else (case approve u None (cfg_quota_minutes cfg) (cfg_quota_bytes cfg) (co_draws co) (co_now co) d of
                  Inl e \<Rightarrow> (Crashed (Uncaught e), d)
                | Inr d1 \<Rightarrow> (Finished (ApprovedAccount (usr_email u)), d1)))"

definition cli_reset_password :: "console \<Rightarrow> string \<Rightarrow> db \<Rightarrow> command_end \<times> db" where
  "cli_reset_password co email d =
     (case find_user d email of
        None \<Rightarrow> (Usage (NoSuchAccount email), d)
      | Some u \<Rightarrow>
          (case read_password co of
             Inl p \<Rightarrow> (Stopped p, d)
           | Inr pw \<Rightarrow>
               let (n, d1) = revoke_other_sessions
                     (update_user (usr_id u) (\<lambda>x. x\<lparr>usr_password_hash := co_pwhash co pw\<rparr>) d)
                     (usr_id u) None (co_now co)
               in (Finished (PasswordSet (usr_email u) n), d1)))"

definition cli_quota :: "string \<Rightarrow> string option \<Rightarrow> string option \<Rightarrow> db \<Rightarrow> command_end \<times> db" where
  "cli_quota slug mins gb d =
     (case get_workspace d slug of
        Inl _ \<Rightarrow> (Usage (NoSuchWorkspace slug), d)
      | Inr w \<Rightarrow>
          (case new_limit mins (ws_quota_minutes w) of
             Inl e \<Rightarrow> (Usage e, d)
           | Inr qm \<Rightarrow>
               (case new_bytes gb (ws_quota_bytes w) of
                  Inl e \<Rightarrow> (Usage e, d)
                | Inr qb \<Rightarrow>
                    if \<not> fits 31 qm \<or> \<not> fits 63 qb then (Crashed DatabaseRefuses, d)
                    else (Finished (QuotaIs (ws_slug w) qm qb), set_quota (ws_id w) qm qb d))))"

definition cli_create_workspace ::
  "console \<Rightarrow> settings \<Rightarrow> string \<Rightarrow> string \<Rightarrow> workspace_kind \<Rightarrow> db \<Rightarrow> command_end \<times> db" where
  "cli_create_workspace co cfg slug name kind d =
     (if find_workspace d slug \<noteq> None then (Finished (AlreadyThere slug), d)
      else (case create_workspace d slug name kind (cfg_quota_minutes cfg) (cfg_quota_bytes cfg)
                   (dr_ws (co_draws co)) of
              Inl e \<Rightarrow> (Crashed (Uncaught e), d)
            | Inr (w, d1) \<Rightarrow> (Finished (WorkspaceMade (ws_slug w) (ws_public w)), d1)))"

definition cli_backfill :: "console \<Rightarrow> string option \<Rightarrow> int option \<Rightarrow> db \<Rightarrow> command_end \<times> db" where
  "cli_backfill co arg limit d =
     (case chosen_workspace d arg of
        Inl e \<Rightarrow> (Usage e, d)
      | Inr w \<Rightarrow>
          (case sql_limit limit of
             None \<Rightarrow> (Crashed DatabaseRefuses, d)
           | Some cap \<Rightarrow>
               let (st, d1) = backfill_content_hashes (co_content co) w cap (co_now co) d
               in (Finished (HashesFilled st), d1)))"

definition run_command :: "console \<Rightarrow> command \<Rightarrow> db \<Rightarrow> command_end \<times> db" where
  "run_command co c d =
     (case co_settings co of
        Inl e \<Rightarrow> (Crashed (BadConfig e), d)
      | Inr cfg \<Rightarrow>
          if c \<in> {ScanDirs, WatchDirs} \<and> cfg_audio_dirs cfg = [] then (Usage NoAudioDirs, d)
          else if c \<in> {ScanDirs, WatchDirs} \<and> cfg_default_workspace cfg = None then (Usage NoDefaultWorkspace, d)
          else (case c of
              Bootstrap email name slug wname \<Rightarrow> cli_bootstrap co email name slug wname d
            | ListPending n \<Rightarrow>
                if n < 0 then (Crashed DatabaseRefuses, d)
                else (Finished (PendingAccounts (list_users d (Some UPending) (nat n))), d)
            | Approve email rejected \<Rightarrow> cli_approve co cfg email rejected d
            | RetryFailed arg \<Rightarrow>
                (case chosen_workspace d arg of
                   Inl e \<Rightarrow> (Usage e, d)
                 | Inr w \<Rightarrow> let (n, d1) = retry_failed w (co_now co) d in (Finished (QueuedAgain n), d1))
            | ResetPassword email \<Rightarrow> cli_reset_password co email d
            | SetQuota slug mins gb \<Rightarrow> cli_quota slug mins gb d
            | CreateWorkspace slug name kind \<Rightarrow> cli_create_workspace co cfg slug name kind d
            | BackfillHashes arg limit \<Rightarrow> cli_backfill co arg limit d
            | ScanDirs \<Rightarrow>
                (case default_workspace_id cfg d of
                   Inl e \<Rightarrow> (Usage e, d)
                 | Inr w \<Rightarrow>
                     let (st, d1) = scan (co_stat co) (co_walks co) w (co_now co) d
                     in (Finished (ScanDone st), d1))
            | WatchDirs \<Rightarrow>
                (case default_workspace_id cfg d of
                   Inl e \<Rightarrow> (Usage e, d)
                 | Inr w \<Rightarrow> (Running (Watching w (cfg_audio_dirs cfg)), d))
            | RunWorker \<Rightarrow> (Running Working, d)
            | ServeApi \<Rightarrow> (Running Serving, d)))"

subsection \<open>What the commands touch\<close>

text \<open>The commands around the registry change nothing but recordings.\<close>

definition only_recordings :: "db \<Rightarrow> db \<Rightarrow> bool" where
  "only_recordings d d' \<longleftrightarrow> d' = d\<lparr>recordings := recordings d'\<rparr>"

lemma only_recordings_refl [simp]: "only_recordings d d"
  by (simp add: only_recordings_def)

lemma only_recordings_set [simp]: "only_recordings d (d\<lparr>recordings := t\<rparr>)"
  by (simp add: only_recordings_def)

lemma only_recordings_trans: "only_recordings d d' \<Longrightarrow> only_recordings d' d'' \<Longrightarrow> only_recordings d d''"
  unfolding only_recordings_def by (cases d; cases d'; cases d'') simp

lemma only_recordings_put [simp]: "only_recordings d (put_recording now r d)"
  by (simp add: put_recording_def)

lemma only_recordings_update [simp]: "only_recordings d (update_recordings now P f d)"
  by (simp add: update_recordings_def)

lemma only_recordings_fold:
  "(\<And>x d. x \<in> set xs \<Longrightarrow> only_recordings d (f x d)) \<Longrightarrow> only_recordings d (fold f xs d)"
proof (induction xs arbitrary: d)
  case (Cons x xs)
  have "only_recordings (f x d) (fold f xs (f x d))" using Cons.prems by (intro Cons.IH) auto
  moreover have "only_recordings d (f x d)" using Cons.prems by simp
  ultimately show ?case using only_recordings_trans by simp
qed simp

lemma only_recordings_content:
  "only_recordings d (snd (register_content rd sg full digest w src cb pub d))"
  by (simp add: register_content_def Let_def split: option.splits)

lemma only_recordings_locked:
  assumes "register_locked rd sg full digest w src cb pub d = Inr (x, d')"
  shows "only_recordings d d'"
proof -
  have new: "only_recordings d d'" if "register_content rd sg full digest w src cb pub e = (x, d')"
    "only_recordings d e" for e
    using only_recordings_content [of e rd sg full digest w src cb pub] that only_recordings_trans by simp
  show ?thesis
    using assms new by (auto simp: register_locked_def split: option.splits if_splits prod.splits)
qed

lemma only_recordings_ingest:
  "ingest_file rd w src cb verify pub d d = Inr (x, d') \<Longrightarrow> only_recordings d d'"
  by (auto simp: ingest_file_def Let_def split: option.splits if_splits dest: only_recordings_locked)

lemma only_recordings_scan: "only_recordings d (snd (scan stat walks w now d))"
proof -
  have one: "only_recordings (sc_db st) (sc_db (scan_file w b f st))" for b f st
    by (auto simp: scan_file_def Let_def split: sum.splits prod.splits dest: only_recordings_ingest)
  have files: "only_recordings (sc_db st) (sc_db (fold (scan_file w b) fs st))" for b fs st
    by (induction fs arbitrary: st) (auto intro: only_recordings_trans one)
  have roots: "only_recordings (sc_db st) (sc_db (scan_root w r st))" for r st
    using files by (simp add: scan_root_def Let_def)
  have walk: "only_recordings (sc_db st) (sc_db (fold (scan_root w) ws st))" for ws st
    by (induction ws arbitrary: st) (auto intro: only_recordings_trans roots)
  have walked: "only_recordings d (sc_db (walk_all walks w d))"
    unfolding walk_all_def using walk [of "\<lparr>sc_seen = [], sc_stats = no_stats, sc_complete = [], sc_db = d\<rparr>"] by simp
  have sweep: "only_recordings e (fold (sweep_root now) xs e)" for xs e
    by (intro only_recordings_fold) (simp add: sweep_root_def mark_missing_def only_recordings_fold)
  show ?thesis
    unfolding scan_def Let_def snd_conv by (rule only_recordings_trans [OF walked sweep])
qed

lemma only_recordings_backfill: "only_recordings d (snd (backfill_content_hashes f w cap now d))"
  by (simp add: backfill_content_hashes_def Let_def only_recordings_fold)

lemma only_recordings_retry: "only_recordings d (snd (retry_failed w now d))"
  by (simp add: retry_failed_def)

lemma only_recordings_step: "only_recordings d d' \<Longrightarrow> tenancy_step H d d'"
  unfolding only_recordings_def by (rule tenancy_step.elsewhere) (cases d; cases d'; simp)+

subsection \<open>Every command is a step of the accounts and of the registry\<close>

definition command_effect :: "(string \<Rightarrow> string) \<Rightarrow> command_end \<Rightarrow> db \<Rightarrow> db \<Rightarrow> bool" where
  "command_effect H e d d' \<longleftrightarrow>
     (tenancy_reachable H d \<longrightarrow> tenancy_reachable H d') \<and> (registry_ok d \<longrightarrow> registry_ok d') \<and>
     ((\<exists>s. e = Finished s) \<or> d' = d)"

lemma command_effect_same [simp]: "command_effect H e d d"
  by (simp add: command_effect_def)

lemma command_effect_step:
  "tenancy_step H d d' \<Longrightarrow> recordings d' = recordings d \<Longrightarrow> command_effect H (Finished s) d d'"
  using registry_ok_cong [of d' d] tenancy_reachable.step [of H d d'] unfolding command_effect_def by blast

lemma command_effect_recordings:
  "only_recordings d d' \<Longrightarrow> (registry_ok d \<Longrightarrow> registry_ok d') \<Longrightarrow> command_effect H (Finished s) d d'"
  using only_recordings_step [of d d' H] tenancy_reachable.step [of H d d'] unfolding command_effect_def by blast

lemma command_effect_trans:
  "command_effect H (Finished s) d d' \<Longrightarrow> command_effect H (Finished s') d' d'' \<Longrightarrow>
     command_effect H (Finished s'') d d''"
  by (simp add: command_effect_def)

lemma find_user_member: "find_user d email = Some u \<Longrightarrow> u \<in> set (rows (users d))"
  unfolding find_user_def by (drule scalar_Some) simp

lemma bootstrap_recordings:
  "bootstrap d email pw name slug wname dr now = Inr (r, d') \<Longrightarrow> recordings d' = recordings d"
  by (auto simp: bootstrap_def create_user_def add_member_def update_user_def Let_def
      split: option.splits sum.splits if_splits dest!: create_workspace_records)

lemma bootstrap_effect:
  "cli_bootstrap co email name slug wname d = (e, d') \<Longrightarrow> command_effect H e d d'"
  unfolding cli_bootstrap_def
  by (auto split: sum.splits prod.splits intro!: command_effect_step tenancy_step.bootstrapped
      dest: bootstrap_recordings)

lemma approve_effect: "cli_approve co cfg email rejected d = (e, d') \<Longrightarrow> command_effect H e d d'"
  unfolding cli_approve_def
  by (auto split: option.splits if_splits sum.splits simp: approve_records
      intro!: command_effect_step intro: tenancy_step.cli_approved tenancy_step.cli_rejected
      dest: find_user_member)

lemma reset_password_effect: "cli_reset_password co email d = (e, d') \<Longrightarrow> command_effect H e d d'"
proof -
  have set: "command_effect H (Finished s) d (update_user i (\<lambda>x. x\<lparr>usr_password_hash := pw\<rparr>) d)" for s i pw
    by (rule command_effect_step [OF tenancy_step.password_set]) (simp add: update_user_def)
  have revoke: "command_effect H (Finished s) d1 (snd (revoke_other_sessions d1 i None now))" for s d1 i now
    by (rule command_effect_step [OF tenancy_step.elsewhere]) (simp_all add: revoke_other_sessions_def)
  assume "cli_reset_password co email d = (e, d')"
  then show ?thesis
    unfolding cli_reset_password_def
    by (auto simp: Let_def split: option.splits sum.splits prod.splits
        intro!: command_effect_trans [OF set revoke, unfolded revoke_other_sessions_def snd_conv, simplified]
        simp: revoke_other_sessions_def)
qed

lemma quota_effect: "cli_quota slug mins gb d = (e, d') \<Longrightarrow> command_effect H e d d'"
  unfolding cli_quota_def set_quota_def
  by (auto split: sum.splits if_splits intro!: command_effect_step tenancy_step.workspace_set)

lemma create_workspace_effect:
  "cli_create_workspace co cfg slug name kind d = (e, d') \<Longrightarrow> command_effect H e d d'"
  unfolding cli_create_workspace_def
  by (auto split: sum.splits if_splits intro!: command_effect_step intro: tenancy_step.cli_workspace
      dest: create_workspace_records)

lemma backfill_effect: "cli_backfill co arg limit d = (e, d') \<Longrightarrow> command_effect H e d d'"
  using only_recordings_backfill backfill_ok
  unfolding cli_backfill_def
  by (fastforce simp: split_beta split: sum.splits option.splits intro!: command_effect_recordings)

lemma run_command_effect:
  assumes "run_command co c d = (e, d')"
  shows "command_effect H e d d'"
proof (cases "co_settings co")
  case (Inl x)
  with assms show ?thesis by (simp add: run_command_def)
next
  case (Inr cfg)
  have scanned: "command_effect H (Finished s) d (snd (scan stat walks w now d))" for s stat walks w now
    using only_recordings_scan scan_ok by (rule command_effect_recordings)
  have retried: "command_effect H (Finished s) d (snd (retry_failed w now d))" for s w now
    using only_recordings_retry requeue_ok(2) by (rule command_effect_recordings)
  show ?thesis
  proof (cases c)
    case (Bootstrap email name slug wname)
    with Inr assms bootstrap_effect show ?thesis by (auto simp: run_command_def)
  next
    case (Approve email rejected)
    with Inr assms approve_effect show ?thesis by (auto simp: run_command_def)
  next
    case (ResetPassword email)
    with Inr assms reset_password_effect show ?thesis by (auto simp: run_command_def)
  next
    case (SetQuota slug mins gb)
    with Inr assms quota_effect show ?thesis by (auto simp: run_command_def)
  next
    case (CreateWorkspace slug name kind)
    with Inr assms create_workspace_effect show ?thesis by (auto simp: run_command_def)
  next
    case (BackfillHashes arg limit)
    with Inr assms backfill_effect show ?thesis by (auto simp: run_command_def)
  next
    case ScanDirs
    with Inr assms scanned show ?thesis
      by (auto simp: run_command_def split_beta split: sum.splits if_splits)
  next
    case (RetryFailed arg)
    with Inr assms retried show ?thesis
      by (auto simp: run_command_def split_beta split: sum.splits)
  qed (use Inr assms in \<open>auto simp: run_command_def split: sum.splits if_splits\<close>)
qed


text \<open>Resetting a password from the command line takes a password of the required length
  typed twice; afterwards the account has its hash, no session of the account can be loaded by
  any token, and every other account and every other session is what it was.\<close>

theorem reset_password_locks_everyone_out:
  assumes "users_ok d" "run_command co (ResetPassword email) d = (Finished s, d')"
  shows "\<exists>u. find_user d email = Some u \<and> PASSWORD_MIN \<le> length (co_typed co) \<and> co_typed co = co_retyped co \<and>
    get_user d' (usr_id u) = Some (u\<lparr>usr_password_hash := co_pwhash co (co_typed co)\<rparr>) \<and>
    (\<forall>i. i \<noteq> usr_id u \<longrightarrow> get_user d' i = get_user d i) \<and>
    (\<forall>raw t x. load_session G d' raw t = Some x \<longrightarrow> ses_user x \<noteq> usr_id u \<and> x \<in> set (rows (user_sessions d)))"
proof -
  obtain cfg where "co_settings co = Inr cfg"
    using assms(2) by (cases "co_settings co") (auto simp: run_command_def)
  with assms(2) have run: "cli_reset_password co email d = (Finished s, d')" by (simp add: run_command_def)
  obtain u pw where u: "find_user d email = Some u" "read_password co = Inr pw"
    using run by (auto simp: cli_reset_password_def split: option.splits sum.splits)
  have pw: "pw = co_typed co" "PASSWORD_MIN \<le> length (co_typed co)" "co_typed co = co_retyped co"
    using u(2) by (auto simp: read_password_def split: if_splits)
  let ?d = "update_user (usr_id u) (\<lambda>x. x\<lparr>usr_password_hash := co_pwhash co pw\<rparr>) d"
  have d': "d' = snd (revoke_other_sessions ?d (usr_id u) None (co_now co))"
    using run u by (auto simp: cli_reset_password_def split_beta Let_def)
  have users: "get_user d' i = get_user ?d i" for i by (simp add: d' revoke_other_sessions_def)
  have "get_user d (usr_id u) = Some u"
    using find_user_member [OF u(1)] assms(1) by (simp add: users_ok_def user_tbl.by_id_member)
  then have "get_user d' (usr_id u) = Some (u\<lparr>usr_password_hash := co_pwhash co (co_typed co)\<rparr>)"
    by (simp add: users get_user_update pw(1))
  moreover have "get_user d' i = get_user d i" if "i \<noteq> usr_id u" for i
  proof (cases "get_user d i")
    case (Some x)
    with that show ?thesis using user_tbl.by_id_SomeD [OF Some] by (simp add: users get_user_update)
  qed (simp add: users get_user_update)
  moreover have "ses_user x \<noteq> usr_id u \<and> x \<in> set (rows (user_sessions d))"
    if "load_session G d' raw t = Some x" for raw t x
  proof
    show "ses_user x \<noteq> usr_id u" using that unfolding d' by (rule revoke_all_unloadable)
    have "x \<in> set (rows (user_sessions d'))" "ses_revoked x = None"
      using load_session_Some [OF that] by (auto simp: session_live_def)
    then show "x \<in> set (rows (user_sessions d))"
      by (auto simp: d' revoke_other_sessions_def update_user_def)
  qed
  ultimately show ?thesis using u(1) pw(2,3) by blast
qed


lemma ensure_home_sessions:
  assumes "ensure_home_workspace u qm qb dr d = Inr d'"
  shows "user_sessions d' = user_sessions d"
  using assms by (auto simp: ensure_home_workspace_def update_user_def split: if_splits sum.splits
      dest: make_home_records)

lemma approve_sessions:
  assumes "approve u rv qm qb dr now d = Inr d'"
  shows "user_sessions d' = user_sessions d"
  using assms by (auto simp: approve_def review_def update_user_def split: sum.splits
      dest!: ensure_home_sessions)

text \<open>The command \<open>approve --reject\<close> calls \<open>reject\<close> and not \<open>set_user_status\<close>, through which all
  changes of a status are meant to go: it leaves the sessions of the account as they are, so a
  browser that was signed in before a rejection is signed in again after the next approval.\<close>

theorem command_rejection_keeps_sessions:
  assumes "find_user d email = Some u" "users_ok d"
    and "run_command co (Approve email True) d = (Finished s, d1)"
    and "run_command co' (Approve email False) d1 = (Finished s', d2)"
    and "load_session H d raw t = Some x"
  shows "map_option usr_status (get_user d1 (usr_id u)) = Some URejected \<and>
    load_session H d1 raw t = Some x \<and> load_session H d2 raw t = Some x"
proof -
  have d1: "d1 = reject u None (co_now co) d"
    using assms(1,3) by (auto simp: run_command_def cli_approve_def split: sum.splits)
  obtain v qm qb dr now where "approve v None qm qb dr now d1 = Inr d2"
    using assms(4) by (auto simp: run_command_def cli_approve_def split: sum.splits option.splits)
  then have "user_sessions d2 = user_sessions d1" by (rule approve_sessions)
  moreover have "user_sessions d1 = user_sessions d" by (simp add: d1)
  moreover have "map_option usr_status (get_user d1 (usr_id u)) = Some URejected"
    by (simp add: d1 reject_def drop_empty_personal_workspaces_def drop_all_status
        review_status [OF find_user_member [OF assms(1)] assms(2)])
  ultimately show ?thesis using assms(5) by (simp add: load_session_def)
qed

subsection \<open>A terminal for the examples\<close>

definition demo_console :: console where
  "demo_console = \<lparr>co_settings = load_settings path_parts id None [(''DATABASE_URL'', ''db'')],
     co_typed = ''correct horse'', co_retyped = ''correct horse'', co_pwhash = (\<lambda>p. ''h:'' @ p),
     co_draws = demo_draws, co_now = 9, co_stat = (\<lambda>_. DirNotFound), co_walks = [], co_content = (\<lambda>_. None)\<rparr>"


theorem reset_password_locks_everyone_out_witness:
  "\<exists>s d' u. run_command demo_console (ResetPassword (usr_email demo_ann))
       (snd (create_session id ''t'' ''c'' demo_ann None None 6 demo_office)) = (Finished s, d') \<and>
     get_user d' (usr_id demo_ann) = Some (u\<lparr>usr_password_hash := ''h:correct horse''\<rparr>) \<and>
     load_session id d' ''t'' 7 = None"
proof -
  let ?d = "snd (create_session id ''t'' ''c'' demo_ann None None 6 demo_office)"
  let ?r = "run_command demo_console (ResetPassword (usr_email demo_ann)) ?d"
  have "(case fst ?r of Finished _ \<Rightarrow> True | _ \<Rightarrow> False)" by code_simp
  then obtain s where s: "fst ?r = Finished s" by (auto split: command_end.splits)
  then have r: "?r = (Finished s, snd ?r)" by (metis prod.collapse)
  have "users_ok demo_office"
    using tenancy_okD(1) [OF tenancy_reachable_ok [OF demo_reachable(2) [of id]]] .
  then have ok: "users_ok ?d" by (simp add: users_ok_def create_session_def Let_def)
  have f: "map_option usr_id (find_user ?d (usr_email demo_ann)) = Some (usr_id demo_ann)" by code_simp
  from reset_password_locks_everyone_out [OF ok r, of id] f
  have "\<exists>u. get_user (snd ?r) (usr_id demo_ann) = Some (u\<lparr>usr_password_hash := ''h:correct horse''\<rparr>)"
    by (auto simp: demo_console_def)
  moreover have "load_session id (snd ?r) ''t'' 7 = None" by code_simp
  ultimately show ?thesis using r by blast
qed


theorem command_rejection_keeps_sessions_witness:
  "\<exists>s s' d1 d2 x. run_command demo_console (Approve (usr_email demo_ann) True)
       (snd (create_session id ''t'' ''c'' demo_ann None None 6 demo_office)) = (Finished s, d1) \<and>
     run_command demo_console (Approve (usr_email demo_ann) False) d1 = (Finished s', d2) \<and>
     map_option usr_status (get_user d1 2) = Some URejected \<and> load_session id d2 ''t'' 20 = Some x"
proof -
  let ?d = "snd (create_session id ''t'' ''c'' demo_ann None None 6 demo_office)"
  let ?r = "run_command demo_console (Approve (usr_email demo_ann) True) ?d"
  let ?q = "run_command demo_console (Approve (usr_email demo_ann) False) (snd ?r)"
  have "(case fst ?r of Finished _ \<Rightarrow> True | _ \<Rightarrow> False)" "(case fst ?q of Finished _ \<Rightarrow> True | _ \<Rightarrow> False)"
    by code_simp+
  then obtain s s' where s: "fst ?r = Finished s" "fst ?q = Finished s'" by (auto split: command_end.splits)
  then have r: "?r = (Finished s, snd ?r)" "?q = (Finished s', snd ?q)" by (metis prod.collapse)+
  have "users_ok demo_office"
    using tenancy_okD(1) [OF tenancy_reachable_ok [OF demo_reachable(2) [of id]]] .
  then have ok: "users_ok ?d" by (simp add: users_ok_def create_session_def Let_def)
  have "map_option usr_id (find_user ?d (usr_email demo_ann)) = Some 2" by code_simp
  then obtain u where u: "find_user ?d (usr_email demo_ann) = Some u" "usr_id u = 2" by auto
  have "load_session id ?d ''t'' 20 \<noteq> None" by code_simp
  then obtain x where x: "load_session id ?d ''t'' 20 = Some x" by blast
  note R = command_rejection_keeps_sessions [OF u(1) ok r x, unfolded u(2)]
  show ?thesis
    by (intro exI conjI) (rule r(1), rule r(2), rule conjunct1 [OF R], rule conjunct2 [OF conjunct2 [OF R]])
qed

end
