(* ===== verification/Watch.thy ===== *)
theory Watch
  imports Registry "HOL-Library.AList" "HOL-Library.List_Lexorder"
begin

text \<open>
  The folder watcher, \<open>watch.py\<close>: events of the file system put files on a list, and a file
  is registered once its signature has stayed the same for five seconds. Two threads work on
  the handler: the observer delivers events, the main loop works through the files that are
  ready; each block under the lock is one operation of the model, and the step relation
  interleaves events between the operations of a pass. The two dictionaries are an association
  list in insertion order and a map; \<open>is\<close> on the entries of the first is equality of the
  number an entry got when its tuple was made.
\<close>

definition STABLE_QUIET_SEC :: rat where "STABLE_QUIET_SEC = 5"

record item =
  it_sig :: signature
  it_ready :: rat
  it_object :: nat

record handler =
  ha_pending :: "(string \<times> item) list"
  ha_registered :: "string \<Rightarrow> signature option"
  ha_objects :: nat

text \<open>\<open>ev_dest\<close> is empty for the events that have no destination.\<close>

datatype event_kind = FileCreated | FileMoved | FileModified | FileClosed | FileDeleted

record event =
  ev_kind :: event_kind
  ev_directory :: bool
  ev_src :: string
  ev_dest :: string

definition new_item :: "string \<Rightarrow> signature \<Rightarrow> rat \<Rightarrow> handler \<Rightarrow> handler" where
  "new_item path sg now h = h\<lparr>
     ha_pending := AList.update path \<lparr>it_sig = sg, it_ready = now + STABLE_QUIET_SEC, it_object = ha_objects h\<rparr>
       (ha_pending h),
     ha_objects := Suc (ha_objects h)\<rparr>"

definition forget_pending :: "string \<Rightarrow> handler \<Rightarrow> handler" where
  "forget_pending path h = h\<lparr>ha_pending := AList.delete path (ha_pending h)\<rparr>"

definition forget :: "string \<Rightarrow> handler \<Rightarrow> handler" where
  "forget path h = (forget_pending path h)\<lparr>ha_registered := (ha_registered h)(path := None)\<rparr>"

definition is_pending :: "string \<Rightarrow> item \<Rightarrow> handler \<Rightarrow> bool" where
  "is_pending path x h \<longleftrightarrow>
     (case map_of (ha_pending h) path of None \<Rightarrow> False | Some y \<Rightarrow> it_object y = it_object x)"

subsection \<open>Events\<close>

text \<open>\<open>stat\<close> is the look at the file, \<open>None\<close> for an \<open>OSError\<close>.\<close>

definition maybe_ingest :: "event \<Rightarrow> signature option \<Rightarrow> rat \<Rightarrow> handler \<Rightarrow> handler" where
  "maybe_ingest ev stat now h =
     (if ev_directory ev then h
      else
        let path = (if ev_dest ev \<noteq> [] then ev_dest ev else ev_src ev)
        in if \<not> is_audio path then h
           else (case stat of
                   None \<Rightarrow> h
                 | Some sg \<Rightarrow>
                     if ha_registered h path = Some sg then h
                     else (case map_of (ha_pending h) path of
                             None \<Rightarrow> new_item path sg now h
                           | Some old \<Rightarrow> if it_sig old \<noteq> sg then new_item path sg now h else h)))"

definition on_modified :: "event \<Rightarrow> signature option \<Rightarrow> rat \<Rightarrow> handler \<Rightarrow> handler" where
  "on_modified ev stat now h =
     maybe_ingest ev stat now (if ev_directory ev then h else forget (ev_src ev) h)"

definition on_event :: "event \<Rightarrow> signature option \<Rightarrow> rat \<Rightarrow> handler \<Rightarrow> handler" where
  "on_event ev stat now h =
     (case ev_kind ev of
        FileModified \<Rightarrow> on_modified ev stat now h
      | FileDeleted \<Rightarrow> forget (ev_src ev) h
      | _ \<Rightarrow> maybe_ingest ev stat now h)"

subsection \<open>One pass over the files that are ready\<close>

definition ready_items :: "rat \<Rightarrow> handler \<Rightarrow> (string \<times> item) list" where
  "ready_items now h = filter (\<lambda>(path, x). it_ready x \<le> now) (ha_pending h)"

definition retry_item :: "string \<Rightarrow> item \<Rightarrow> signature \<Rightarrow> rat \<Rightarrow> handler \<Rightarrow> handler" where
  "retry_item path x sg now h = (if is_pending path x h then new_item path sg now h else h)"

definition drop_item :: "string \<Rightarrow> item \<Rightarrow> handler \<Rightarrow> handler" where
  "drop_item path x h = (if is_pending path x h then forget_pending path h else h)"

text \<open>What a system call on the file gives: a signature, \<open>FileNotFoundError\<close>, or another
  exception.\<close>

datatype look = Seen signature | Gone | Failed

datatype next_step = Leave handler | TakeIn signature

definition look_at :: "string \<Rightarrow> item \<Rightarrow> look \<Rightarrow> rat \<Rightarrow> handler \<Rightarrow> next_step" where
  "look_at path x l now h =
     (case l of
        Gone \<Rightarrow> Leave (drop_item path x h)
      | Failed \<Rightarrow> Leave (retry_item path x (it_sig x) now h)
      | Seen sg \<Rightarrow>
          if sg \<noteq> it_sig x \<or> sig_size sg = 0 then Leave (retry_item path x sg now h) else TakeIn sg)"

text \<open>The registration, in a session of its own that is committed; \<open>gone\<close> says that the
  reading failed because the file is no longer there. The result is the signature of the row.\<close>

definition take_in ::
  "reading \<Rightarrow> bool \<Rightarrow> nat \<Rightarrow> uuid \<Rightarrow> db \<Rightarrow> (look, int list option) result \<times> db" where
  "take_in rd gone w pub d =
     (case ingest_file rd w Scan None True pub d d of
        Inl e \<Rightarrow> (Inl (if e = ReadFailed \<and> gone then Gone else Failed), d)
      | Inr ((i, out), d1) \<Rightarrow>
          (Inr (case get_recording d1 i of None \<Rightarrow> None | Some r \<Rightarrow> rec_signature r), d1))"

definition settle_item ::
  "string \<Rightarrow> item \<Rightarrow> signature \<Rightarrow> (look, int list option) result \<Rightarrow> rat \<Rightarrow> handler \<Rightarrow> handler" where
  "settle_item path x sg res now h =
     (case res of
        Inl l \<Rightarrow> if l = Gone then drop_item path x h else retry_item path x (it_sig x) now h
      | Inr saved \<Rightarrow>
          let h1 = drop_item path x h
          in if saved = Some (sig_list sg) then h1\<lparr>ha_registered := (ha_registered h1)(path \<mapsto> sg)\<rparr> else h1)"

subsection \<open>Starting and watching over the observer\<close>

datatype watch_problem = NoFolders | ThreadStopped | FolderGone | FolderReplaced

text \<open>\<open>stat\<close> gives device and inode of a directory. The roots are the sorted set of the
  resolved directories; those that are no directories are left out.\<close>

definition watch_roots ::
  "(string \<Rightarrow> string) \<Rightarrow> (string \<Rightarrow> (int \<times> int) option) \<Rightarrow> string list \<Rightarrow>
   (watch_problem, (string \<times> int \<times> int) list) result" where
  "watch_roots resolve stat dirs =
     (let identities = concat (map (\<lambda>p. case stat p of None \<Rightarrow> [] | Some i \<Rightarrow> [(p, i)])
            (sort_key (\<lambda>p. map (map code) (path_parts p)) (remdups (map resolve dirs))))
      in if identities = [] then Inl NoFolders else Inr identities)"

fun folders_problem ::
  "(string \<Rightarrow> (int \<times> int) option) \<Rightarrow> (string \<times> int \<times> int) list \<Rightarrow> watch_problem option" where
  "folders_problem stat [] = None"
| "folders_problem stat ((p, i) # rest) =
     (case stat p of
        None \<Rightarrow> Some FolderGone
      | Some j \<Rightarrow> if i \<noteq> j then Some FolderReplaced else folders_problem stat rest)"

definition watch_check ::
  "bool \<Rightarrow> bool list \<Rightarrow> (string \<Rightarrow> (int \<times> int) option) \<Rightarrow> (string \<times> int \<times> int) list \<Rightarrow> watch_problem option" where
  "watch_check observer_alive emitters stat identities =
     (if \<not> observer_alive \<or> length emitters < length identities \<or> \<not> list_all id emitters
      then Some ThreadStopped else folders_problem stat identities)"

subsection \<open>The watcher at work\<close>

text \<open>The state of the watcher between two critical sections: what is left of the current pass
  and the file in hand, the database, and the time of the last step. \<open>wt_seen\<close> and
  \<open>wt_saved\<close> record every look at a file with its time and every committed registration.\<close>

datatype in_hand =
    Free
  | Checked string item signature
  | Taken string item signature "(look, int list option) result"

record watching =
  wt_handler :: handler
  wt_todo :: "(string \<times> item) list"
  wt_hand :: in_hand
  wt_db :: db
  wt_clock :: rat
  wt_seen :: "(string \<times> signature \<times> rat) list"
  wt_saved :: "(string \<times> signature) list"

definition event_path :: "event \<Rightarrow> string" where
  "event_path ev = (if ev_dest ev \<noteq> [] then ev_dest ev else ev_src ev)"

definition seen_by :: "string \<Rightarrow> signature option \<Rightarrow> rat \<Rightarrow> (string \<times> signature \<times> rat) list" where
  "seen_by path stat t = (case stat of None \<Rightarrow> [] | Some sg \<Rightarrow> [(path, sg, t)])"

definition look_stat :: "look \<Rightarrow> signature option" where
  "look_stat l = (case l of Seen sg \<Rightarrow> Some sg | _ \<Rightarrow> None)"

inductive watch_step :: "nat \<Rightarrow> watching \<Rightarrow> watching \<Rightarrow> bool" for w where
  delivered: "wt_clock s \<le> t \<Longrightarrow> t \<le> now \<Longrightarrow>
    watch_step w s (s\<lparr>wt_handler := on_event ev stat now (wt_handler s), wt_clock := now,
      wt_seen := seen_by (event_path ev) stat t @ wt_seen s\<rparr>)"
| pass: "wt_hand s = Free \<Longrightarrow> wt_todo s = [] \<Longrightarrow> wt_clock s \<le> now \<Longrightarrow>
    watch_step w s (s\<lparr>wt_todo := ready_items now (wt_handler s), wt_clock := now\<rparr>)"
| left_alone: "wt_hand s = Free \<Longrightarrow> wt_todo s = (path, x) # rest \<Longrightarrow> wt_clock s \<le> t \<Longrightarrow> t \<le> now \<Longrightarrow>
    look_at path x l now (wt_handler s) = Leave h \<Longrightarrow>
    watch_step w s (s\<lparr>wt_handler := h, wt_todo := rest, wt_clock := now,
      wt_seen := seen_by path (look_stat l) t @ wt_seen s\<rparr>)"
| checked: "wt_hand s = Free \<Longrightarrow> wt_todo s = (path, x) # rest \<Longrightarrow> wt_clock s \<le> t \<Longrightarrow> t \<le> now \<Longrightarrow>
    look_at path x l now (wt_handler s) = TakeIn sg \<Longrightarrow>
    watch_step w s (s\<lparr>wt_hand := Checked path x sg, wt_todo := rest, wt_clock := now,
      wt_seen := seen_by path (look_stat l) t @ wt_seen s\<rparr>)"
| taken: "wt_hand s = Checked path x sg \<Longrightarrow> rd_path rd = path \<Longrightarrow>
    take_in rd gone w pub (wt_db s) = (res, d) \<Longrightarrow>
    watch_step w s (s\<lparr>wt_hand := Taken path x sg res, wt_db := d,
      wt_saved := (if res = Inr (Some (sig_list sg)) then [(path, sg)] else []) @ wt_saved s\<rparr>)"
| settled: "wt_hand s = Taken path x sg res \<Longrightarrow> wt_clock s \<le> now \<Longrightarrow>
    watch_step w s (s\<lparr>wt_handler := settle_item path x sg res now (wt_handler s), wt_hand := Free,
      wt_clock := now\<rparr>)"

definition watch_start :: "db \<Rightarrow> watching" where
  "watch_start d = \<lparr>wt_handler = \<lparr>ha_pending = [], ha_registered = Map.empty, ha_objects = 0\<rparr>, wt_todo = [],
     wt_hand = Free, wt_db = d, wt_clock = 0, wt_seen = [], wt_saved = []\<rparr>"

inductive watch_reachable :: "nat \<Rightarrow> db \<Rightarrow> watching \<Rightarrow> bool" for w d where
  start: "watch_reachable w d (watch_start d)"
| step: "watch_reachable w d s \<Longrightarrow> watch_step w s s' \<Longrightarrow> watch_reachable w d s'"

subsection \<open>Entries have been seen\<close>

type_synonym sightings = "(string \<times> signature \<times> rat) list"

definition item_ok :: "sightings \<Rightarrow> nat \<Rightarrow> string \<times> item \<Rightarrow> bool" where
  "item_ok seen n e \<longleftrightarrow> (case e of (path, x) \<Rightarrow> it_object x < n \<and>
     (\<exists>t. (path, it_sig x, t) \<in> set seen \<and> t + STABLE_QUIET_SEC \<le> it_ready x))"

definition handler_ok :: "sightings \<Rightarrow> (string \<times> signature) list \<Rightarrow> handler \<Rightarrow> bool" where
  "handler_ok seen saved h \<longleftrightarrow> distinct (map fst (ha_pending h)) \<and>
     (\<forall>e\<in>set (ha_pending h). item_ok seen (ha_objects h) e) \<and>
     (\<forall>path sg. ha_registered h path = Some sg \<longrightarrow> (path, sg) \<in> set saved)"

lemma item_ok_mono:
  "item_ok seen n e \<Longrightarrow> set seen \<subseteq> set seen' \<Longrightarrow> n \<le> n' \<Longrightarrow> item_ok seen' n' e"
  unfolding item_ok_def by (fastforce split: prod.splits)

lemma set_update: "set (AList.update k v al) \<subseteq> insert (k, v) (set al)"
  by (induction al) auto

lemma set_delete: "set (AList.delete k al) \<subseteq> set al"
  by (auto simp: AList.delete_eq)

lemma new_item_ok:
  assumes "handler_ok seen saved h" "(path, sg, t) \<in> set seen" "t \<le> now"
  shows "handler_ok seen saved (new_item path sg now h)"
proof -
  let ?x = "\<lparr>it_sig = sg, it_ready = now + STABLE_QUIET_SEC, it_object = ha_objects h\<rparr>"
  have "item_ok seen (Suc (ha_objects h)) (path, ?x)" using assms(2,3) by (auto simp: item_ok_def)
  moreover have "item_ok seen (Suc (ha_objects h)) e" if "e \<in> set (ha_pending h)" for e
    using assms(1) that item_ok_mono [of seen "ha_objects h" e seen] by (auto simp: handler_ok_def)
  ultimately show ?thesis
    using assms(1) set_update [of path ?x "ha_pending h"]
    by (auto simp: handler_ok_def new_item_def distinct_update)
qed

lemma forget_pending_ok: "handler_ok seen saved h \<Longrightarrow> handler_ok seen saved (forget_pending path h)"
  using set_delete [of path "ha_pending h"]
  by (auto simp: handler_ok_def forget_pending_def distinct_delete)

lemma drop_item_ok: "handler_ok seen saved h \<Longrightarrow> handler_ok seen saved (drop_item path x h)"
  by (simp add: drop_item_def forget_pending_ok)

lemma forget_ok: "handler_ok seen saved h \<Longrightarrow> handler_ok seen saved (forget path h)"
  using forget_pending_ok [of seen saved h path]
  by (auto simp: handler_ok_def forget_def forget_pending_def)

lemma retry_item_ok:
  assumes "handler_ok seen saved h" "(path, sg, t) \<in> set seen" "t \<le> now"
  shows "handler_ok seen saved (retry_item path x sg now h)"
  using new_item_ok [OF assms] assms(1) by (simp add: retry_item_def)

lemma maybe_ingest_ok:
  assumes "handler_ok seen saved h" "t \<le> now"
    and "\<And>sg. stat = Some sg \<Longrightarrow> (event_path ev, sg, t) \<in> set seen"
  shows "handler_ok seen saved (maybe_ingest ev stat now h)"
proof (cases stat)
  case (Some sg)
  with assms have "handler_ok seen saved (new_item (event_path ev) sg now h)" by (intro new_item_ok) auto
  with assms(1) Some show ?thesis
    by (auto simp: maybe_ingest_def Let_def event_path_def [symmetric] split: option.splits)
qed (use assms(1) in \<open>simp add: maybe_ingest_def Let_def\<close>)

lemma on_event_ok:
  assumes "handler_ok seen saved h" "t \<le> now"
    and "\<And>sg. stat = Some sg \<Longrightarrow> (event_path ev, sg, t) \<in> set seen"
  shows "handler_ok seen saved (on_event ev stat now h)"
  using maybe_ingest_ok [OF assms] maybe_ingest_ok [OF forget_ok [OF assms(1)] assms(2,3)] forget_ok [OF assms(1)]
  by (auto simp: on_event_def on_modified_def split: event_kind.splits)

text \<open>An entry of the pass or in hand has been seen, and the entry's time has come.\<close>

definition due :: "watching \<Rightarrow> string \<times> item \<Rightarrow> bool" where
  "due s e \<longleftrightarrow> item_ok (wt_seen s) (ha_objects (wt_handler s)) e \<and> it_ready (snd e) \<le> wt_clock s"

definition quiet :: "watching \<Rightarrow> string \<Rightarrow> item \<Rightarrow> signature \<Rightarrow> bool" where
  "quiet s path x sg \<longleftrightarrow> due s (path, x) \<and> it_sig x = sg \<and> sig_size sg \<noteq> 0 \<and>
     (\<exists>t t'. (path, sg, t) \<in> set (wt_seen s) \<and> (path, sg, t') \<in> set (wt_seen s) \<and> t + STABLE_QUIET_SEC \<le> t')"

definition hand_ok :: "watching \<Rightarrow> bool" where
  "hand_ok s \<longleftrightarrow> (case wt_hand s of
     Free \<Rightarrow> True
   | Checked path x sg \<Rightarrow> quiet s path x sg
   | Taken path x sg res \<Rightarrow> quiet s path x sg \<and>
       (res = Inr (Some (sig_list sg)) \<longrightarrow> (path, sg) \<in> set (wt_saved s)))"

definition watch_ok :: "watching \<Rightarrow> bool" where
  "watch_ok s \<longleftrightarrow> handler_ok (wt_seen s) (wt_saved s) (wt_handler s) \<and> (\<forall>e\<in>set (wt_todo s). due s e) \<and> hand_ok s"

lemma due_mono:
  "due s e \<Longrightarrow> set (wt_seen s) \<subseteq> set (wt_seen s') \<Longrightarrow> ha_objects (wt_handler s) \<le> ha_objects (wt_handler s') \<Longrightarrow>
     wt_clock s \<le> wt_clock s' \<Longrightarrow> due s' e"
  unfolding due_def using item_ok_mono by (meson order_trans)

lemma quiet_mono:
  assumes "quiet s path x sg" "set (wt_seen s) \<subseteq> set (wt_seen s')"
    "ha_objects (wt_handler s) \<le> ha_objects (wt_handler s')" "wt_clock s \<le> wt_clock s'"
  shows "quiet s' path x sg"
  using assms due_mono [of s "(path, x)" s'] unfolding quiet_def by blast

lemma handler_ok_mono:
  "handler_ok seen saved h \<Longrightarrow> set seen \<subseteq> set seen' \<Longrightarrow> set saved \<subseteq> set saved' \<Longrightarrow> handler_ok seen' saved' h"
  unfolding handler_ok_def using item_ok_mono [of seen "ha_objects h" _ seen' "ha_objects h"] by blast

lemma objects_grow [simp]:
  "ha_objects h \<le> ha_objects (maybe_ingest ev stat now h)" "ha_objects (forget path h) = ha_objects h"
  "ha_objects (forget_pending path h) = ha_objects h" "ha_objects (new_item path sg now h) = Suc (ha_objects h)"
  "ha_objects h \<le> ha_objects (retry_item path x sg now h)" "ha_objects (drop_item path x h) = ha_objects h"
  by (auto simp: maybe_ingest_def forget_def forget_pending_def new_item_def retry_item_def drop_item_def Let_def
      split: option.splits)

lemma on_event_grows: "ha_objects h \<le> ha_objects (on_event ev stat now h)"
proof -
  have "ha_objects (forget p h) \<le> ha_objects (maybe_ingest ev stat now (forget p h))" for p
    by (rule objects_grow)
  then show ?thesis by (simp add: on_event_def on_modified_def split: event_kind.splits)
qed

lemma settle_grows: "ha_objects h \<le> ha_objects (settle_item path x sg res now h)"
  by (simp add: settle_item_def Let_def split: sum.splits)

lemma due_seen:
  assumes "due s (path, x)"
  obtains t where "(path, it_sig x, t) \<in> set (wt_seen s)" "t + STABLE_QUIET_SEC \<le> it_ready x" "t \<le> wt_clock s"
proof -
  obtain t where "(path, it_sig x, t) \<in> set (wt_seen s)" "t + STABLE_QUIET_SEC \<le> it_ready x"
    using assms by (auto simp: due_def item_ok_def)
  moreover from this assms have "t \<le> wt_clock s" by (simp add: due_def STABLE_QUIET_SEC_def)
  ultimately show ?thesis by (rule that)
qed

lemma watch_ok_frame:
  assumes "watch_ok s" "handler_ok (wt_seen s') (wt_saved s') (wt_handler s')"
    and "set (wt_seen s) \<subseteq> set (wt_seen s')" "set (wt_saved s) \<subseteq> set (wt_saved s')"
    and "ha_objects (wt_handler s) \<le> ha_objects (wt_handler s')" "wt_clock s \<le> wt_clock s'"
    and "set (wt_todo s') \<subseteq> set (wt_todo s)" "wt_hand s' = wt_hand s \<or> hand_ok s'"
  shows "watch_ok s'"
proof -
  have "hand_ok s'" if "wt_hand s' = wt_hand s"
    using assms(1) that quiet_mono [OF _ assms(3,5,6)] assms(4)
    by (auto simp: watch_ok_def hand_ok_def split: in_hand.splits)
  with assms show ?thesis using due_mono [OF _ assms(3,5,6)] unfolding watch_ok_def by blast
qed

lemma look_at_ok:
  assumes "watch_ok s" "due s (path, x)" "wt_clock s \<le> t" "t \<le> now"
    and "look_at path x l now (wt_handler s) = Leave h"
  shows "handler_ok (seen_by path (look_stat l) t @ wt_seen s) (wt_saved s) h"
    and "ha_objects (wt_handler s) \<le> ha_objects h"
proof -
  let ?seen = "seen_by path (look_stat l) t @ wt_seen s"
  have H: "handler_ok ?seen (wt_saved s) (wt_handler s)"
    using assms(1) by (auto simp: watch_ok_def intro: handler_ok_mono)
  obtain u where u: "(path, it_sig x, u) \<in> set (wt_seen s)" "u \<le> wt_clock s" using due_seen [OF assms(2)] by blast
  then have again: "handler_ok ?seen (wt_saved s) (retry_item path x (it_sig x) now (wt_handler s))"
    using assms(3,4) by (intro retry_item_ok [OF H, of _ _ u]) auto
  have seen: "handler_ok ?seen (wt_saved s) (retry_item path x sg now (wt_handler s))" if "l = Seen sg" for sg
    using assms(4) that by (intro retry_item_ok [OF H, of _ _ t]) (auto simp: seen_by_def look_stat_def)
  show "handler_ok ?seen (wt_saved s) h"
    using assms(5) H again seen drop_item_ok [OF H] by (auto simp: look_at_def split: look.splits if_splits)
  show "ha_objects (wt_handler s) \<le> ha_objects h"
    using assms(5) by (auto simp: look_at_def split: look.splits if_splits)
qed

lemma settle_item_ok:
  assumes "handler_ok seen saved h" "(path, it_sig x, u) \<in> set seen" "u \<le> now"
    and "res = Inr (Some (sig_list sg)) \<Longrightarrow> (path, sg) \<in> set saved"
  shows "handler_ok seen saved (settle_item path x sg res now h)"
proof -
  have d: "handler_ok seen saved (drop_item path x h)" using assms(1) by (rule drop_item_ok)
  then have "handler_ok seen saved ((drop_item path x h)\<lparr>ha_registered := (ha_registered (drop_item path x h))(path \<mapsto> sg)\<rparr>)"
    if "res = Inr (Some (sig_list sg))" using assms(4) [OF that] by (auto simp: handler_ok_def)
  with d retry_item_ok [OF assms(1-3)] show ?thesis
    by (auto simp: settle_item_def Let_def split: sum.splits)
qed

lemma watch_step_ok: "watch_step w s s' \<Longrightarrow> watch_ok s \<Longrightarrow> watch_ok s'"
proof (induction rule: watch_step.induct)
  case (delivered s t now ev stat)
  let ?s' = "s\<lparr>wt_handler := on_event ev stat now (wt_handler s), wt_clock := now,
      wt_seen := seen_by (event_path ev) stat t @ wt_seen s\<rparr>"
  have "handler_ok (wt_seen ?s') (wt_saved s) (wt_handler s)"
    using delivered.prems by (auto simp: watch_ok_def intro: handler_ok_mono)
  then have "handler_ok (wt_seen ?s') (wt_saved ?s') (wt_handler ?s')"
    using delivered.hyps(2) by (simp, intro on_event_ok) (auto simp: seen_by_def)
  then show ?case
    using delivered by (intro watch_ok_frame [OF delivered.prems]) (simp_all add: on_event_grows)
next
  case (pass s now)
  let ?s' = "s\<lparr>wt_todo := ready_items now (wt_handler s), wt_clock := now\<rparr>"
  have h: "handler_ok (wt_seen s) (wt_saved s) (wt_handler s)" using pass.prems by (simp add: watch_ok_def)
  then have "\<forall>e\<in>set (wt_todo ?s'). due ?s' e" by (auto simp: ready_items_def handler_ok_def due_def)
  with h pass.hyps(1) show ?case by (simp add: watch_ok_def hand_ok_def)
next
  case (left_alone s path x rest t now l h)
  have d: "due s (path, x)" using left_alone.prems left_alone.hyps(2) by (simp add: watch_ok_def)
  note L = look_at_ok [OF left_alone.prems d left_alone.hyps(3-5)]
  show ?case
    using L left_alone.hyps by (intro watch_ok_frame [OF left_alone.prems]) auto
next
  case (checked s path x rest t now l sg)
  let ?s' = "s\<lparr>wt_hand := Checked path x sg, wt_todo := rest, wt_clock := now,
      wt_seen := seen_by path (look_stat l) t @ wt_seen s\<rparr>"
  have d: "due s (path, x)" using checked.prems checked.hyps(2) by (simp add: watch_ok_def)
  have l: "l = Seen sg" "sg = it_sig x" "sig_size sg \<noteq> 0"
    using checked.hyps(5) by (auto simp: look_at_def split: look.splits if_splits)
  obtain u where u: "(path, it_sig x, u) \<in> set (wt_seen s)" "u + STABLE_QUIET_SEC \<le> it_ready x"
    using due_seen [OF d] by blast
  moreover have "it_ready x \<le> t" using d checked.hyps(3) by (simp add: due_def)
  ultimately have twice: "(path, sg, u) \<in> set (wt_seen ?s')" "(path, sg, t) \<in> set (wt_seen ?s')" "u + STABLE_QUIET_SEC \<le> t"
    using l by (auto simp: seen_by_def look_stat_def)
  have "due ?s' (path, x)" by (rule due_mono [OF d]) (use checked.hyps(3,4) in auto)
  with twice l have "hand_ok ?s'" unfolding hand_ok_def quiet_def by auto
  moreover have "handler_ok (wt_seen ?s') (wt_saved ?s') (wt_handler ?s')"
    using checked.prems by (auto simp: watch_ok_def intro: handler_ok_mono)
  ultimately show ?case using checked.hyps by (intro watch_ok_frame [OF checked.prems]) auto
next
  case (taken s path x sg rd gone pub res d)
  let ?s' = "s\<lparr>wt_hand := Taken path x sg res, wt_db := d,
      wt_saved := (if res = Inr (Some (sig_list sg)) then [(path, sg)] else []) @ wt_saved s\<rparr>"
  have "quiet s path x sg" using taken.prems taken.hyps(1) by (simp add: watch_ok_def hand_ok_def)
  then have "quiet ?s' path x sg" by (rule quiet_mono) auto
  then have "hand_ok ?s'" by (simp add: hand_ok_def)
  moreover have "handler_ok (wt_seen ?s') (wt_saved ?s') (wt_handler ?s')"
    using taken.prems by (auto simp: watch_ok_def intro: handler_ok_mono)
  ultimately show ?case by (intro watch_ok_frame [OF taken.prems]) auto
next
  case (settled s path x sg res now)
  let ?s' = "s\<lparr>wt_handler := settle_item path x sg res now (wt_handler s), wt_hand := Free, wt_clock := now\<rparr>"
  have q: "due s (path, x)" "res = Inr (Some (sig_list sg)) \<longrightarrow> (path, sg) \<in> set (wt_saved s)"
    using settled.prems settled.hyps(1) by (auto simp: watch_ok_def hand_ok_def quiet_def)
  obtain u where u: "(path, it_sig x, u) \<in> set (wt_seen s)" "u \<le> wt_clock s" using due_seen [OF q(1)] by blast
  have "handler_ok (wt_seen s) (wt_saved s) (wt_handler ?s')"
    using settled.prems q(2) u settled.hyps(2)
    by (simp, intro settle_item_ok [of _ _ _ _ _ u]) (auto simp: watch_ok_def)
  then show ?case
    using settled.hyps(2) by (intro watch_ok_frame [OF settled.prems]) (simp_all add: settle_grows hand_ok_def)
qed

subsection \<open>Properties\<close>

lemma watch_reachable_ok: "watch_reachable w d s \<Longrightarrow> watch_ok s"
proof (induction rule: watch_reachable.induct)
  case start
  show ?case by (simp add: watch_ok_def watch_start_def handler_ok_def hand_ok_def)
next
  case (step s s')
  then show ?case by (blast intro: watch_step_ok)
qed

lemma take_in_ok: "take_in rd gone w pub d = (res, d') \<Longrightarrow> registry_ok d \<Longrightarrow> registry_ok d'"
  by (auto simp: take_in_def split: sum.splits prod.splits intro: ingest_file_ok)

lemma watch_reachable_registry: "watch_reachable w d s \<Longrightarrow> registry_ok d \<Longrightarrow> registry_ok (wt_db s)"
proof (induction rule: watch_reachable.induct)
  case (step s s')
  from step.hyps(2) show ?case
    using step.IH [OF step.prems] by cases (auto intro: take_in_ok)
qed (simp add: watch_start_def)

text \<open>C20. The watcher takes in a file only after it has been quiet: however events and passes
  interleave, a file that is handed to the registration is not empty and was seen twice with
  the very same signature, at least five seconds apart. Events are ignored only for a signature
  whose registration was committed, and the registry stays consistent throughout.\<close>

theorem watched_files_were_quiet:
  assumes "watch_reachable w d s"
  shows "(\<forall>path x sg. wt_hand s = Checked path x sg \<longrightarrow> sig_size sg \<noteq> 0 \<and>
      (\<exists>t t'. (path, sg, t) \<in> set (wt_seen s) \<and> (path, sg, t') \<in> set (wt_seen s) \<and> t + STABLE_QUIET_SEC \<le> t')) \<and>
    (\<forall>path sg. ha_registered (wt_handler s) path = Some sg \<longrightarrow> (path, sg) \<in> set (wt_saved s)) \<and>
    (registry_ok d \<longrightarrow> registry_ok (wt_db s))"
proof -
  have ok: "watch_ok s" using assms by (rule watch_reachable_ok)
  then have "sig_size sg \<noteq> 0 \<and> (\<exists>t t'. (path, sg, t) \<in> set (wt_seen s) \<and> (path, sg, t') \<in> set (wt_seen s) \<and> t + STABLE_QUIET_SEC \<le> t')"
    if "wt_hand s = Checked path x sg" for path x sg
    using that by (simp add: watch_ok_def hand_ok_def quiet_def)
  moreover have "(path, sg) \<in> set (wt_saved s)" if "ha_registered (wt_handler s) path = Some sg" for path sg
    using ok that by (simp add: watch_ok_def handler_ok_def)
  ultimately show ?thesis using watch_reachable_registry [OF assms] by blast
qed

lemma modified_is_new:
  assumes "ev_kind ev = FileModified" "\<not> ev_directory ev" "ev_src ev = path" "ev_dest ev = []" "is_audio path"
  shows "on_event ev (Some sg) now h = new_item path sg now (forget path h)"
  using assms by (simp add: on_event_def on_modified_def maybe_ingest_def forget_def forget_pending_def delete_conv')

lemma settle_leaves_newer:
  assumes "map_of (ha_pending h) path = Some y" "it_object y \<noteq> it_object x"
  shows "map_of (ha_pending (settle_item path x sg res now h)) path = Some y"
  using assms by (auto simp: settle_item_def drop_item_def retry_item_def is_pending_def Let_def split: sum.splits)

text \<open>A change that arrives while the file is being hashed and registered is not lost: with
  whatever result the registration of the older state ends, the changed file stays on the list,
  and every pass that comes five seconds after the change or later takes it up again.\<close>

theorem change_during_registration_is_kept:
  assumes "watch_reachable w d s"
    and "wt_hand s = Checked path x sg \<or> wt_hand s = Taken path x sg res"
    and "ev_kind ev = FileModified" "\<not> ev_directory ev" "ev_src ev = path" "ev_dest ev = []" "is_audio path"
    and "now + STABLE_QUIET_SEC \<le> later"
  shows "\<exists>y. (path, y) \<in> set (ready_items later
      (settle_item path x sg result settled_at (on_event ev (Some sg2) now (wt_handler s)))) \<and> it_sig y = sg2"
proof -
  let ?h = "on_event ev (Some sg2) now (wt_handler s)"
  have old: "it_object x < ha_objects (wt_handler s)"
    using watch_reachable_ok [OF assms(1)] assms(2)
    by (auto simp: watch_ok_def hand_ok_def quiet_def due_def item_ok_def)
  let ?y = "\<lparr>it_sig = sg2, it_ready = now + STABLE_QUIET_SEC, it_object = ha_objects (wt_handler s)\<rparr>"
  have "map_of (ha_pending ?h) path = Some ?y"
    unfolding modified_is_new [OF assms(3-7)] by (simp add: new_item_def update_conv')
  then have "map_of (ha_pending (settle_item path x sg result settled_at ?h)) path = Some ?y"
    by (rule settle_leaves_newer) (use old in simp)
  then have "(path, ?y) \<in> set (ready_items later (settle_item path x sg result settled_at ?h))"
    using assms(8) by (simp add: ready_items_def map_of_SomeD)
  then show ?thesis by (intro exI [of _ ?y]) simp
qed

text \<open>A file that appears at time 0 and is in hand at time 6.\<close>

definition demo_file_sig :: signature where
  "demo_file_sig = \<lparr>sig_dev = 1, sig_ino = 2, sig_size = 9, sig_mtime = 3, sig_ctime = 3\<rparr>"

definition demo_event :: "event_kind \<Rightarrow> event" where
  "demo_event k = \<lparr>ev_kind = k, ev_directory = False, ev_src = ''/r/a.wav'', ev_dest = []\<rparr>"

lemma demo_audio: "is_audio ''/r/a.wav''" by code_simp

lemma demo_in_hand:
  "\<exists>s x. watch_reachable 1 empty_db s \<and> wt_hand s = Checked ''/r/a.wav'' x demo_file_sig"
proof -
  let ?s0 = "watch_start empty_db"
  let ?h = "new_item ''/r/a.wav'' demo_file_sig 0 (wt_handler ?s0)"
  have ev: "on_event (demo_event FileCreated) (Some demo_file_sig) 0 (wt_handler ?s0) = ?h"
    using demo_audio by (simp add: on_event_def maybe_ingest_def demo_event_def watch_start_def)
  have s1: "watch_step 1 ?s0 (?s0\<lparr>wt_handler := ?h, wt_clock := 0,
      wt_seen := seen_by (event_path (demo_event FileCreated)) (Some demo_file_sig) 0 @ wt_seen ?s0\<rparr>)" (is "watch_step 1 _ ?s1")
    using delivered [of ?s0 0 0 1 "demo_event FileCreated" "Some demo_file_sig"] ev by (simp add: watch_start_def)
  let ?x = "\<lparr>it_sig = demo_file_sig, it_ready = 5, it_object = 0\<rparr>"
  have s2: "watch_step 1 ?s1 (?s1\<lparr>wt_todo := ready_items 6 (wt_handler ?s1), wt_clock := 6\<rparr>)" (is "watch_step 1 _ ?s2")
    by (rule pass) (simp_all add: watch_start_def)
  have "watch_step 1 ?s2 (?s2\<lparr>wt_hand := Checked ''/r/a.wav'' ?x demo_file_sig, wt_todo := [], wt_clock := 6,
      wt_seen := seen_by ''/r/a.wav'' (look_stat (Seen demo_file_sig)) 6 @ wt_seen ?s2\<rparr>)" (is "watch_step 1 _ ?s3")
    by (rule checked) (simp_all add: watch_start_def ready_items_def new_item_def STABLE_QUIET_SEC_def look_at_def demo_file_sig_def)
  then have "watch_reachable 1 empty_db ?s3"
    using s1 s2 by (blast intro: watch_reachable.intros)
  moreover have "wt_hand ?s3 = Checked ''/r/a.wav'' ?x demo_file_sig" by simp
  ultimately show ?thesis by blast
qed

theorem watched_files_were_quiet_witness:
  "\<exists>s t t'. watch_reachable 1 empty_db s \<and> (''/r/a.wav'', demo_file_sig, t) \<in> set (wt_seen s) \<and>
     (''/r/a.wav'', demo_file_sig, t') \<in> set (wt_seen s) \<and> t + STABLE_QUIET_SEC \<le> t'"
  using demo_in_hand watched_files_were_quiet by blast

theorem change_during_registration_is_kept_witness:
  "\<exists>s x y. watch_reachable 1 empty_db s \<and> wt_hand s = Checked ''/r/a.wav'' x demo_file_sig \<and>
     (''/r/a.wav'', y) \<in> set (ready_items 12 (settle_item ''/r/a.wav'' x demo_file_sig (Inl Failed) 8
       (on_event (demo_event FileModified) (Some (demo_file_sig\<lparr>sig_size := 10\<rparr>)) 7 (wt_handler s)))) \<and>
     sig_size (it_sig y) = 10"
proof -
  obtain s x where s: "watch_reachable 1 empty_db s" "wt_hand s = Checked ''/r/a.wav'' x demo_file_sig"
    using demo_in_hand by blast
  have "\<exists>y. (''/r/a.wav'', y) \<in> set (ready_items 12 (settle_item ''/r/a.wav'' x demo_file_sig (Inl Failed) 8
       (on_event (demo_event FileModified) (Some (demo_file_sig\<lparr>sig_size := 10\<rparr>)) 7 (wt_handler s)))) \<and>
     it_sig y = demo_file_sig\<lparr>sig_size := 10\<rparr>"
    using s(2) by (intro change_during_registration_is_kept [OF s(1)])
      (simp_all add: demo_event_def demo_audio STABLE_QUIET_SEC_def)
  with s show ?thesis by fastforce
qed

end
