(* ===== verification/Ddl.thy ===== *)
theory Ddl
  imports Py_Strings
begin

text \<open>
  What the schema migrations in \<open>src/alembic\<close> ask of PostgreSQL: the schema as data, the
  statements of \<open>alembic.op\<close> with the errors of the server, and their effect on the rows. A
  statement names tables, columns, constraints and indexes, and fails when it names one that
  is not there or makes one that is. A database keeps its constraints: a statement after
  which a row would violate one fails. An unnamed constraint gets the name that PostgreSQL
  documents for it (table, columns, kind). A migration runs in one transaction.
\<close>

subsection \<open>Schemas\<close>

datatype sql_type = BigInteger | Integer | Text | Boolean | DateTime | Double | Uuid | Jsonb

text \<open>A string given as default is a quoted literal; \<open>text(\<dots>)\<close> is an expression of the server, of
  which the truth values are told apart.\<close>

datatype server_default = Quoted string | Truth bool | Computed string

record column =
  col_name :: string
  col_type :: sql_type
  col_nullable :: bool
  col_default :: "server_default option"
  col_identity :: bool

datatype check_rule =
  In_values string "string list"
| Is_lower string
| Null_or_lower string
| Exactly_one string string
| At_most string string

datatype on_delete = Cascade | Set_null

text \<open>A foreign key of the program is one column that refers to the \<open>id\<close> of a table.\<close>

datatype constraint =
  Primary_key "string list"
| Unique "string list"
| Foreign_key string string on_delete
| Check check_rule

datatype index_key = Column_key string | Expression_key string

datatype index_where = Where_true string | Where_set string | Where_is string string

record index_info =
  ix_name :: string
  ix_keys :: "index_key list"
  ix_unique :: bool
  ix_where :: "index_where option"
  ix_trigram :: bool

record table_info =
  tb_columns :: "column list"
  tb_constraints :: "(string \<times> constraint) list"
  tb_indexes :: "index_info list"

record schema =
  sc_extensions :: "string list"
  sc_tables :: "(string \<times> table_info) list"

abbreviation (input) NULLABLE :: bool where "NULLABLE \<equiv> True"
abbreviation (input) REQUIRED :: bool where "REQUIRED \<equiv> False"
abbreviation (input) UNIQUE :: bool where "UNIQUE \<equiv> True"
abbreviation (input) PLAIN :: bool where "PLAIN \<equiv> False"

definition col :: "string \<Rightarrow> sql_type \<Rightarrow> bool \<Rightarrow> server_default option \<Rightarrow> column" where
  "col n ty nullable dflt = \<lparr>col_name = n, col_type = ty, col_nullable = nullable,
     col_default = dflt, col_identity = False\<rparr>"

definition identity_col :: "string \<Rightarrow> sql_type \<Rightarrow> column" where
  "identity_col n ty = \<lparr>col_name = n, col_type = ty, col_nullable = False, col_default = None,
     col_identity = True\<rparr>"

definition index_def ::
  "string \<Rightarrow> index_key list \<Rightarrow> bool \<Rightarrow> index_where option \<Rightarrow> bool \<Rightarrow> index_info" where
  "index_def n ks uniq wh trgm = \<lparr>ix_name = n, ix_keys = ks, ix_unique = uniq, ix_where = wh,
     ix_trigram = trgm\<rparr>"

definition empty_schema :: schema where
  "empty_schema = \<lparr>sc_extensions = [], sc_tables = []\<rparr>"

subsection \<open>Statements and their effect on the schema\<close>

datatype statement =
  Create_extension string
| Create_table string "column list" "(string option \<times> constraint) list"
| Drop_table string
| Add_column string column
| Drop_column string string
| Alter_nullable string string bool
| Create_index string index_info
| Drop_index string
| Drop_index_if_exists string
| Create_constraint string "string option \<times> constraint"
| Drop_constraint string string
| Raise_if_rows "string list"
| Raise_if_repeated string string
| Update_value string string string string

datatype sql_error =
  No_table string
| No_column string string
| Column_exists string string
| No_index string
| Relation_exists string
| No_constraint string string
| Constraint_exists string string
| No_extension string
| Still_referenced string
| Rows_remain string
| Repeated_values string string
| Constraint_violated

fun check_columns :: "check_rule \<Rightarrow> string list" where
  "check_columns (In_values c vs) = [c]"
| "check_columns (Is_lower c) = [c]"
| "check_columns (Null_or_lower c) = [c]"
| "check_columns (Exactly_one a b) = [a, b]"
| "check_columns (At_most a b) = [a, b]"

fun constraint_columns :: "constraint \<Rightarrow> string list" where
  "constraint_columns (Primary_key cs) = cs"
| "constraint_columns (Unique cs) = cs"
| "constraint_columns (Foreign_key c t od) = [c]"
| "constraint_columns (Check ck) = check_columns ck"

fun where_column :: "index_where \<Rightarrow> string" where
  "where_column (Where_true c) = c"
| "where_column (Where_set c) = c"
| "where_column (Where_is c v) = c"

fun key_columns :: "index_key list \<Rightarrow> string list" where
  "key_columns [] = []"
| "key_columns (Column_key c # ks) = c # key_columns ks"
| "key_columns (Expression_key e # ks) = key_columns ks"

definition index_columns :: "index_info \<Rightarrow> string list" where
  "index_columns ix = key_columns (ix_keys ix) @
     (case ix_where ix of Some w \<Rightarrow> [where_column w] | None \<Rightarrow> [])"

fun underscored :: "string list \<Rightarrow> string" where
  "underscored [] = []"
| "underscored (c # cs) = ''_'' @ c @ underscored cs"

fun default_name :: "string \<Rightarrow> constraint \<Rightarrow> string" where
  "default_name t (Primary_key cs) = t @ ''_pkey''"
| "default_name t (Unique cs) = t @ underscored cs @ ''_key''"
| "default_name t (Foreign_key c r od) = t @ underscored [c] @ ''_fkey''"
| "default_name t (Check ck) = t @ underscored (check_columns ck) @ ''_check''"

definition constraint_name :: "string \<Rightarrow> string option \<times> constraint \<Rightarrow> string" where
  "constraint_name t nc = (case fst nc of Some n \<Rightarrow> n | None \<Rightarrow> default_name t (snd nc))"

definition table_of :: "schema \<Rightarrow> string \<Rightarrow> table_info option" where
  "table_of s t = map_of (sc_tables s) t"

definition put_table :: "string \<Rightarrow> table_info \<Rightarrow> schema \<Rightarrow> schema" where
  "put_table t tb s = s\<lparr>sc_tables := map (\<lambda>(n, b). (n, if n = t then tb else b)) (sc_tables s)\<rparr>"

definition on_table ::
  "string \<Rightarrow> schema \<Rightarrow> (table_info \<Rightarrow> (sql_error, table_info) result) \<Rightarrow> (sql_error, schema) result" where
  "on_table t s f = (case table_of s t of
       None \<Rightarrow> Inl (No_table t)
     | Some tb \<Rightarrow> (case f tb of Inl e \<Rightarrow> Inl e | Inr tb' \<Rightarrow> Inr (put_table t tb' s)))"

definition has_column :: "table_info \<Rightarrow> string \<Rightarrow> bool" where
  "has_column tb c = list_ex (\<lambda>x. col_name x = c) (tb_columns tb)"

definition require_columns ::
  "string \<Rightarrow> table_info \<Rightarrow> string list \<Rightarrow> table_info \<Rightarrow> (sql_error, table_info) result" where
  "require_columns t tb cs ok = (case find (\<lambda>c. \<not> has_column tb c) cs of
       Some c \<Rightarrow> Inl (No_column t c) | None \<Rightarrow> Inr ok)"

definition index_exists :: "schema \<Rightarrow> string \<Rightarrow> bool" where
  "index_exists s n = list_ex (\<lambda>(t, tb). list_ex (\<lambda>ix. ix_name ix = n) (tb_indexes tb)) (sc_tables s)"

text \<open>Tables, indexes and the indexes behind keys share their names.\<close>

fun is_key :: "constraint \<Rightarrow> bool" where
  "is_key (Primary_key cs) = True"
| "is_key (Unique cs) = True"
| "is_key _ = False"

definition relation_exists :: "schema \<Rightarrow> string \<Rightarrow> bool" where
  "relation_exists s n \<longleftrightarrow> index_exists s n \<or>
     list_ex (\<lambda>(t, tb). t = n \<or> list_ex (\<lambda>(m, b). is_key b \<and> m = n) (tb_constraints tb)) (sc_tables s)"

definition drop_index :: "string \<Rightarrow> schema \<Rightarrow> schema" where
  "drop_index n s = s\<lparr>sc_tables := map (\<lambda>(t, tb).
     (t, tb\<lparr>tb_indexes := filter (\<lambda>ix. ix_name ix \<noteq> n) (tb_indexes tb)\<rparr>)) (sc_tables s)\<rparr>"

definition reference_found :: "schema \<Rightarrow> constraint \<Rightarrow> (sql_error, unit) result" where
  "reference_found s b = (case b of
       Foreign_key c r od \<Rightarrow> (if table_of s r = None then Inl (No_table r) else Inr ())
     | _ \<Rightarrow> Inr ())"

definition add_constraint ::
  "string \<Rightarrow> string option \<times> constraint \<Rightarrow> schema \<Rightarrow> (sql_error, schema) result" where
  "add_constraint t nc s = and_then (reference_found s (snd nc)) (\<lambda>_. on_table t s (\<lambda>tb.
     let n = constraint_name t nc
     in if list_ex (\<lambda>(m, b). m = n) (tb_constraints tb) then Inl (Constraint_exists t n)
        else if is_key (snd nc) \<and> relation_exists s n then Inl (Relation_exists n)
        else require_columns t tb (constraint_columns (snd nc))
          (tb\<lparr>tb_constraints := tb_constraints tb @ [(n, snd nc)]\<rparr>)))"

fun add_constraints ::
  "string \<Rightarrow> (string option \<times> constraint) list \<Rightarrow> schema \<Rightarrow> (sql_error, schema) result" where
  "add_constraints t [] s = Inr s"
| "add_constraints t (nc # ncs) s = and_then (add_constraint t nc s) (add_constraints t ncs)"

fun refers_to :: "string \<Rightarrow> constraint \<Rightarrow> bool" where
  "refers_to t (Foreign_key c r od) = (r = t)"
| "refers_to t _ = False"

definition referenced :: "schema \<Rightarrow> string \<Rightarrow> bool" where
  "referenced s t = list_ex (\<lambda>(n, tb). n \<noteq> t \<and> list_ex (\<lambda>(m, b). refers_to t b) (tb_constraints tb))
     (sc_tables s)"

definition without_column :: "string \<Rightarrow> table_info \<Rightarrow> table_info" where
  "without_column c tb =
     \<lparr>tb_columns = filter (\<lambda>x. col_name x \<noteq> c) (tb_columns tb),
      tb_constraints = filter (\<lambda>(n, b). c \<notin> set (constraint_columns b)) (tb_constraints tb),
      tb_indexes = filter (\<lambda>ix. c \<notin> set (index_columns ix)) (tb_indexes tb)\<rparr>"

fun ddl :: "statement \<Rightarrow> schema \<Rightarrow> (sql_error, schema) result" where
  "ddl (Create_extension e) s =
     Inr (if e \<in> set (sc_extensions s) then s else s\<lparr>sc_extensions := sc_extensions s @ [e]\<rparr>)"
| "ddl (Create_table t cols ncs) s =
     (if relation_exists s t then Inl (Relation_exists t)
      else add_constraints t ncs (s\<lparr>sc_tables := sc_tables s @
        [(t, \<lparr>tb_columns = cols, tb_constraints = [], tb_indexes = []\<rparr>)]\<rparr>))"
| "ddl (Drop_table t) s =
     (if table_of s t = None then Inl (No_table t)
      else if referenced s t then Inl (Still_referenced t)
      else Inr (s\<lparr>sc_tables := filter (\<lambda>(n, tb). n \<noteq> t) (sc_tables s)\<rparr>))"
| "ddl (Add_column t c) s = on_table t s (\<lambda>tb.
     if has_column tb (col_name c) then Inl (Column_exists t (col_name c))
     else Inr (tb\<lparr>tb_columns := tb_columns tb @ [c]\<rparr>))"
| "ddl (Drop_column t c) s = on_table t s (\<lambda>tb. require_columns t tb [c] (without_column c tb))"
| "ddl (Alter_nullable t c nullable) s = on_table t s (\<lambda>tb. require_columns t tb [c]
     (tb\<lparr>tb_columns := map (\<lambda>x. if col_name x = c then x\<lparr>col_nullable := nullable\<rparr> else x)
        (tb_columns tb)\<rparr>))"
| "ddl (Create_index t ix) s =
     (if relation_exists s (ix_name ix) then Inl (Relation_exists (ix_name ix))
      else if ix_trigram ix \<and> ''pg_trgm'' \<notin> set (sc_extensions s) then Inl (No_extension ''pg_trgm'')
      else on_table t s (\<lambda>tb. require_columns t tb (index_columns ix)
        (tb\<lparr>tb_indexes := tb_indexes tb @ [ix]\<rparr>)))"
| "ddl (Drop_index n) s = (if index_exists s n then Inr (drop_index n s) else Inl (No_index n))"
| "ddl (Drop_index_if_exists n) s = Inr (drop_index n s)"
| "ddl (Create_constraint t nc) s = add_constraint t nc s"
| "ddl (Drop_constraint t n) s = on_table t s (\<lambda>tb.
     if list_ex (\<lambda>(m, b). m = n) (tb_constraints tb)
     then Inr (tb\<lparr>tb_constraints := filter (\<lambda>(m, b). m \<noteq> n) (tb_constraints tb)\<rparr>)
     else Inl (No_constraint t n))"
| "ddl (Raise_if_rows ts) s =
     (case find (\<lambda>t. table_of s t = None) ts of Some t \<Rightarrow> Inl (No_table t) | None \<Rightarrow> Inr s)"
| "ddl (Raise_if_repeated t c) s =
     and_then (on_table t s (\<lambda>tb. require_columns t tb [c] tb)) (\<lambda>_. Inr s)"
| "ddl (Update_value t c v w) s =
     and_then (on_table t s (\<lambda>tb. require_columns t tb [c] tb)) (\<lambda>_. Inr s)"

fun run_ddl :: "statement list \<Rightarrow> schema \<Rightarrow> (sql_error, schema) result" where
  "run_ddl [] s = Inr s"
| "run_ddl (x # xs) s = and_then (ddl x s) (run_ddl xs)"

text \<open>Two schemas are the same up to the order in which things were added, and the order of
  the values a check allows.\<close>

definition covered :: "('a \<Rightarrow> 'b \<Rightarrow> bool) \<Rightarrow> 'a list \<Rightarrow> 'b list \<Rightarrow> bool" where
  "covered R xs ys = list_all (\<lambda>x. list_ex (R x) ys) xs"

definition same_items :: "('a \<Rightarrow> 'a \<Rightarrow> bool) \<Rightarrow> 'a list \<Rightarrow> 'a list \<Rightarrow> bool" where
  "same_items R xs ys \<longleftrightarrow> length xs = length ys \<and> covered R xs ys \<and> covered R ys xs"

fun same_constraint :: "constraint \<Rightarrow> constraint \<Rightarrow> bool" where
  "same_constraint (Check (In_values c vs)) (Check (In_values c' vs')) =
     (c = c' \<and> list_all (\<lambda>v. v \<in> set vs') vs \<and> list_all (\<lambda>v. v \<in> set vs) vs')"
| "same_constraint b b' = (b = b')"

definition same_table :: "table_info \<Rightarrow> table_info \<Rightarrow> bool" where
  "same_table x y \<longleftrightarrow> same_items (=) (tb_columns x) (tb_columns y) \<and>
     same_items (\<lambda>(n, b) (n', b'). n = n' \<and> same_constraint b b') (tb_constraints x) (tb_constraints y) \<and>
     same_items (=) (tb_indexes x) (tb_indexes y)"

definition same_tables :: "schema \<Rightarrow> schema \<Rightarrow> bool" where
  "same_tables s s' \<longleftrightarrow>
     same_items (\<lambda>(n, x) (n', y). n = n' \<and> same_table x y) (sc_tables s) (sc_tables s')"

lemma same_items_refl: "(\<And>x. x \<in> set xs \<Longrightarrow> R x x) \<Longrightarrow> same_items R xs xs"
  by (auto simp: same_items_def covered_def list_all_iff list_ex_iff)

lemma same_constraint_refl: "same_constraint b b"
  by (cases "(b, b)" rule: same_constraint.cases) (auto simp: list_all_iff)

lemma same_table_refl [simp]: "same_table x x"
  by (auto simp: same_table_def same_constraint_refl intro!: same_items_refl)

lemma same_items_sym: "same_items R xs ys \<longleftrightarrow> same_items R ys xs"
  by (auto simp: same_items_def)

lemma same_table_sym: "same_table x y \<longleftrightarrow> same_table y x"
  by (simp add: same_table_def same_items_sym [of _ "tb_columns x"]
      same_items_sym [of _ "tb_constraints x"] same_items_sym [of _ "tb_indexes x"])

lemma same_tables_refl [simp]: "same_tables s s"
  by (auto simp: same_tables_def intro!: same_items_refl)

subsection \<open>Rows\<close>

datatype sql_value = Null | VText string | VInt int | VBool bool | VOther string

type_synonym row = "string \<Rightarrow> sql_value"
type_synonym data = "string \<Rightarrow> row list"

fun check_holds :: "check_rule \<Rightarrow> row \<Rightarrow> bool" where
  "check_holds (In_values c vs) r = (case r c of Null \<Rightarrow> True | VText v \<Rightarrow> v \<in> set vs | _ \<Rightarrow> False)"
| "check_holds (Is_lower c) r = (case r c of VText v \<Rightarrow> str_lower v = v | _ \<Rightarrow> True)"
| "check_holds (Null_or_lower c) r = (case r c of VText v \<Rightarrow> str_lower v = v | _ \<Rightarrow> True)"
| "check_holds (Exactly_one a b) r = ((r a = Null) \<noteq> (r b = Null))"
| "check_holds (At_most a b) r = (case (r a, r b) of (VInt x, VInt y) \<Rightarrow> x \<le> y | _ \<Rightarrow> True)"

fun where_holds :: "index_where \<Rightarrow> row \<Rightarrow> bool" where
  "where_holds (Where_true c) r = (r c = VBool True)"
| "where_holds (Where_set c) r = (r c \<noteq> Null)"
| "where_holds (Where_is c v) r = (r c = VText v)"

text \<open>Two rows collide when they agree on all the columns and none of the values is NULL.\<close>

definition distinct_on :: "string list \<Rightarrow> row list \<Rightarrow> bool" where
  "distinct_on cs rs = distinct (filter (\<lambda>k. Null \<notin> set k) (map (\<lambda>r. map r cs) rs))"

fun constraint_holds :: "data \<Rightarrow> constraint \<Rightarrow> row list \<Rightarrow> bool" where
  "constraint_holds d (Primary_key cs) rs =
     (list_all (\<lambda>r. list_all (\<lambda>c. r c \<noteq> Null) cs) rs \<and> distinct_on cs rs)"
| "constraint_holds d (Unique cs) rs = distinct_on cs rs"
| "constraint_holds d (Foreign_key c t od) rs =
     list_all (\<lambda>r. r c = Null \<or> list_ex (\<lambda>r'. r' ''id'' = r c) (d t)) rs"
| "constraint_holds d (Check ck) rs = list_all (check_holds ck) rs"

definition index_holds :: "index_info \<Rightarrow> row list \<Rightarrow> bool" where
  "index_holds ix rs \<longleftrightarrow> \<not> ix_unique ix \<or>
     distinct_on (key_columns (ix_keys ix))
       (case ix_where ix of Some w \<Rightarrow> filter (where_holds w) rs | None \<Rightarrow> rs)"

definition table_holds :: "data \<Rightarrow> table_info \<Rightarrow> row list \<Rightarrow> bool" where
  "table_holds d tb rs \<longleftrightarrow>
     list_all (\<lambda>c. col_nullable c \<or> list_all (\<lambda>r. r (col_name c) \<noteq> Null) rs) (tb_columns tb) \<and>
     list_all (\<lambda>(n, b). constraint_holds d b rs) (tb_constraints tb) \<and>
     list_all (\<lambda>ix. index_holds ix rs) (tb_indexes tb)"

definition conforms :: "schema \<Rightarrow> data \<Rightarrow> bool" where
  "conforms s d = list_all (\<lambda>(t, tb). table_holds d tb (d t)) (sc_tables s)"

fun default_value :: "(string \<Rightarrow> sql_value) \<Rightarrow> server_default option \<Rightarrow> sql_value" where
  "default_value server None = Null"
| "default_value server (Some (Quoted v)) = VText v"
| "default_value server (Some (Truth b)) = VBool b"
| "default_value server (Some (Computed e)) = server e"

fun rows_after :: "(string \<Rightarrow> sql_value) \<Rightarrow> statement \<Rightarrow> data \<Rightarrow> data" where
  "rows_after server (Create_table t cols ncs) d = d(t := [])"
| "rows_after server (Drop_table t) d = d(t := [])"
| "rows_after server (Add_column t c) d =
     d(t := map (\<lambda>r. r(col_name c := default_value server (col_default c))) (d t))"
| "rows_after server (Drop_column t c) d = d(t := map (\<lambda>r. r(c := Null)) (d t))"
| "rows_after server (Update_value t c v w) d =
     d(t := map (\<lambda>r. if r c = VText v then r(c := VText w) else r) (d t))"
| "rows_after server _ d = d"

text \<open>The two statements that look at the rows and raise.\<close>

fun raised_by :: "statement \<Rightarrow> data \<Rightarrow> sql_error option" where
  "raised_by (Raise_if_rows ts) d = map_option Rows_remain (find (\<lambda>t. d t \<noteq> []) ts)"
| "raised_by (Raise_if_repeated t c) d =
     (if distinct (map (\<lambda>r. r c) (d t)) then None else Some (Repeated_values t c))"
| "raised_by _ d = None"

type_synonym database = "schema \<times> data"

definition execute ::
  "(string \<Rightarrow> sql_value) \<Rightarrow> statement \<Rightarrow> database \<Rightarrow> (sql_error, database) result" where
  "execute server x sd = and_then (ddl x (fst sd)) (\<lambda>s'.
     case raised_by x (snd sd) of
       Some e \<Rightarrow> Inl e
     | None \<Rightarrow> let d' = rows_after server x (snd sd)
               in if conforms s' d' then Inr (s', d') else Inl Constraint_violated)"

fun run_statements ::
  "(string \<Rightarrow> sql_value) \<Rightarrow> statement list \<Rightarrow> database \<Rightarrow> (sql_error, database) result" where
  "run_statements server [] sd = Inr sd"
| "run_statements server (x # xs) sd = and_then (execute server x sd) (run_statements server xs)"

subsection \<open>Runs\<close>

lemma run_ddl_append: "run_ddl (xs @ ys) s = and_then (run_ddl xs s) (run_ddl ys)"
proof (induction xs arbitrary: s)
  case (Cons x xs)
  then show ?case by (cases "ddl x s") simp_all
qed simp

lemma run_ddl_via: "run_ddl xs s = Inr s1 \<Longrightarrow> run_ddl (xs @ ys) s = run_ddl ys s1"
  by (simp add: run_ddl_append)

lemma run_statements_append:
  "run_statements server (xs @ ys) sd = and_then (run_statements server xs sd) (run_statements server ys)"
proof (induction xs arbitrary: sd)
  case (Cons x xs)
  then show ?case by (cases "execute server x sd") simp_all
qed simp

lemma run_ddl_ConsD:
  "run_ddl (x # xs) s = Inr s' \<Longrightarrow> \<exists>s1. ddl x s = Inr s1 \<and> run_ddl xs s1 = Inr s'"
  by (simp add: and_then_Inr)

text \<open>The rows never matter to the schema.\<close>

lemma run_statements_ddl:
  "run_statements server xs (s, d) = Inr (s', d') \<Longrightarrow> run_ddl xs s = Inr s'"
proof (induction xs arbitrary: s d)
  case (Cons x xs)
  then show ?case
    by (auto simp: and_then_Inr execute_def Let_def split: option.splits if_splits)
qed simp

subsection \<open>Where statements reach\<close>

definition table_names :: "schema \<Rightarrow> string list" where
  "table_names s = map fst (sc_tables s)"

lemma table_of_None: "table_of s t = None \<longleftrightarrow> t \<notin> set (table_names s)"
  by (simp add: table_of_def table_names_def map_of_eq_None_iff image_iff)

lemma table_names_put [simp]: "table_names (put_table t tb s) = table_names s"
  by (simp add: put_table_def table_names_def case_prod_beta comp_def)

lemma on_table_Inr:
  "on_table t s f = Inr s' \<longleftrightarrow> (\<exists>tb tb'. table_of s t = Some tb \<and> f tb = Inr tb' \<and> s' = put_table t tb' s)"
  by (auto simp: on_table_def split: option.splits sum.splits)

lemma on_table_names: "on_table t s f = Inr s' \<Longrightarrow> table_names s' = table_names s \<and> t \<in> set (table_names s)"
  using table_of_None [of s t] by (auto simp: on_table_Inr)

lemma add_constraint_names: "add_constraint t nc s = Inr s' \<Longrightarrow> table_names s' = table_names s"
  by (auto simp: add_constraint_def and_then_Inr dest: on_table_names)

lemma add_constraints_names: "add_constraints t ncs s = Inr s' \<Longrightarrow> table_names s' = table_names s"
proof (induction ncs arbitrary: s)
  case (Cons nc ncs)
  then show ?case by (auto simp: and_then_Inr dest!: add_constraint_names)
qed simp

lemma drop_index_names [simp]: "table_names (drop_index n s) = table_names s"
  by (simp add: drop_index_def table_names_def case_prod_beta comp_def)

lemma dropped_names [simp]:
  "table_names (s\<lparr>sc_tables := filter (\<lambda>(n, tb). n \<noteq> t) (sc_tables s)\<rparr>) =
     filter (\<lambda>n. n \<noteq> t) (table_names s)"
  by (simp add: table_names_def filter_map comp_def case_prod_unfold)

lemma extended_names [simp]: "table_names (s\<lparr>sc_extensions := es\<rparr>) = table_names s"
  by (simp add: table_names_def)

lemma ddl_names:
  assumes "ddl x s = Inr s'" and "t \<in> set (table_names s')"
  shows "t \<in> set (table_names s) \<or> (\<exists>cols ncs. x = Create_table t cols ncs)"
  using assms
proof (cases x)
  case (Create_table u cols ncs)
  then have "table_names s' = table_names s @ [u]"
    using assms(1) by (auto split: if_splits dest!: add_constraints_names simp: table_names_def)
  then show ?thesis using assms(2) Create_table by auto
qed (auto split: if_splits option.splits dest!: on_table_names add_constraint_names simp: and_then_Inr)

subsection \<open>A database without rows\<close>

definition no_rows :: "schema \<Rightarrow> data \<Rightarrow> bool" where
  "no_rows s d \<longleftrightarrow> (\<forall>t\<in>set (table_names s). d t = [])"

lemma table_holds_Nil [simp]: "table_holds d tb []"
proof -
  have "constraint_holds d b []" for b by (cases b) (simp_all add: distinct_on_def)
  moreover have "index_holds ix []" for ix
    by (simp add: index_holds_def distinct_on_def split: option.splits)
  ultimately show ?thesis by (simp add: table_holds_def list_all_iff)
qed

lemma no_rows_conforms: "no_rows s d \<Longrightarrow> conforms s d"
  by (force simp: no_rows_def conforms_def list_all_iff table_names_def)

lemma no_rows_step:
  assumes "no_rows s d" and "ddl x s = Inr s'"
  shows "raised_by x d = None" and "no_rows s' (rows_after server x d)"
proof -
  have raise: "find (\<lambda>t. d t \<noteq> []) ts = None" if "find (\<lambda>t. table_of s t = None) ts = None" for ts
    using that assms(1) by (auto simp: find_None_iff no_rows_def table_of_None)
  show "raised_by x d = None"
    using assms raise by (cases x)
      (auto split: option.splits simp: and_then_Inr no_rows_def dest!: on_table_names)
  show "no_rows s' (rows_after server x d)"
    using assms(1) ddl_names [OF assms(2)] by (cases x) (auto simp: no_rows_def)
qed

lemma run_without_rows:
  assumes "no_rows s d" and "run_ddl xs s = Inr s'"
  shows "\<exists>d'. run_statements server xs (s, d) = Inr (s', d') \<and> no_rows s' d'"
  using assms
proof (induction xs arbitrary: s d)
  case (Cons x xs)
  then obtain s1 where s1: "ddl x s = Inr s1" "run_ddl xs s1 = Inr s'" by (auto simp: and_then_Inr)
  note step = no_rows_step [OF Cons.prems(1) s1(1)]
  have "execute server x (s, d) = Inr (s1, rows_after server x d)"
    using s1(1) step(1) no_rows_conforms [OF step(2)] by (simp add: execute_def)
  then show ?case using Cons.IH [OF step(2) s1(2)] by simp
qed simp

subsection \<open>Statements that keep the rows\<close>

text \<open>A schema built by statements mentions only columns that its tables have.\<close>

definition table_well_named :: "table_info \<Rightarrow> bool" where
  "table_well_named tb \<longleftrightarrow>
     list_all (\<lambda>(n, b). list_all (has_column tb) (constraint_columns b)) (tb_constraints tb) \<and>
     list_all (\<lambda>ix. list_all (has_column tb) (index_columns ix)) (tb_indexes tb)"

definition well_named :: "schema \<Rightarrow> bool" where
  "well_named s = list_all (\<lambda>(t, tb). table_well_named tb) (sc_tables s)"

lemma table_ofD: "table_of s t = Some tb \<Longrightarrow> (t, tb) \<in> set (sc_tables s)"
  by (simp add: table_of_def map_of_SomeD)

lemma put_table_cases:
  "(u, b) \<in> set (sc_tables (put_table t tb s)) \<Longrightarrow>
     (u = t \<and> b = tb) \<or> (u \<noteq> t \<and> (u, b) \<in> set (sc_tables s))"
  by (auto simp: put_table_def split: if_splits)

lemma put_table_conforms:
  assumes "conforms s d" and "table_holds d tb (d t)"
  shows "conforms (put_table t tb s) d"
  using assms by (auto simp: conforms_def list_all_iff dest!: put_table_cases)

lemma put_table_well_named:
  "well_named s \<Longrightarrow> table_well_named tb \<Longrightarrow> well_named (put_table t tb s)"
  by (auto simp: well_named_def list_all_iff dest!: put_table_cases)

lemma require_columns_Inr:
  "require_columns t tb cs ok = Inr x \<longleftrightarrow> list_all (has_column tb) cs \<and> x = ok"
  by (auto simp: require_columns_def list_all_iff find_None_iff split: option.splits
      dest: find_SomeD)

lemma conforms_table: "conforms s d \<Longrightarrow> table_of s t = Some tb \<Longrightarrow> table_holds d tb (d t)"
  by (drule table_ofD) (force simp: conforms_def list_all_iff)

lemma well_named_table: "well_named s \<Longrightarrow> table_of s t = Some tb \<Longrightarrow> table_well_named tb"
  by (drule table_ofD) (force simp: well_named_def list_all_iff)

lemma drop_constraint_keeps:
  assumes "conforms s d" "well_named s" "ddl (Drop_constraint t n) s = Inr s'"
  shows "execute server (Drop_constraint t n) (s, d) = Inr (s', d)" "conforms s' d" "well_named s'"
proof -
  obtain tb where tb: "table_of s t = Some tb"
    and s': "s' = put_table t (tb\<lparr>tb_constraints := filter (\<lambda>(m, b). m \<noteq> n) (tb_constraints tb)\<rparr>) s"
    using assms(3) by (auto simp: on_table_Inr split: if_splits)
  show c: "conforms s' d" unfolding s'
    using conforms_table [OF assms(1) tb]
    by (intro put_table_conforms [OF assms(1)]) (auto simp: table_holds_def list_all_iff)
  show "well_named s'" unfolding s'
    using well_named_table [OF assms(2) tb]
    by (intro put_table_well_named [OF assms(2)]) (auto simp: table_well_named_def list_all_iff has_column_def)
  show "execute server (Drop_constraint t n) (s, d) = Inr (s', d)"
    using assms(3) c by (simp add: execute_def)
qed

lemma create_constraint_keeps:
  assumes "conforms s d" "well_named s" "ddl (Create_constraint t nc) s = Inr s'"
    and "constraint_holds d (snd nc) (d t)"
  shows "execute server (Create_constraint t nc) (s, d) = Inr (s', d)" "conforms s' d" "well_named s'"
proof -
  obtain tb n where tb: "table_of s t = Some tb" "list_all (has_column tb) (constraint_columns (snd nc))"
    and s': "s' = put_table t (tb\<lparr>tb_constraints := tb_constraints tb @ [(n, snd nc)]\<rparr>) s"
    using assms(3)
    by (auto simp: add_constraint_def and_then_Inr on_table_Inr Let_def require_columns_Inr split: if_splits)
  show c: "conforms s' d" unfolding s'
    using conforms_table [OF assms(1) tb(1)] assms(4)
    by (intro put_table_conforms [OF assms(1)]) (auto simp: table_holds_def)
  show "well_named s'" unfolding s'
    using well_named_table [OF assms(2) tb(1)] tb(2)
    by (intro put_table_well_named [OF assms(2)]) (auto simp: table_well_named_def list_all_iff has_column_def)
  show "execute server (Create_constraint t nc) (s, d) = Inr (s', d)"
    using assms(3) c by (simp add: execute_def)
qed

lemma create_index_keeps:
  assumes "conforms s d" "well_named s" "ddl (Create_index t ix) s = Inr s'"
    and "index_holds ix (d t)"
  shows "execute server (Create_index t ix) (s, d) = Inr (s', d)" "conforms s' d" "well_named s'"
proof -
  obtain tb where tb: "table_of s t = Some tb" "list_all (has_column tb) (index_columns ix)"
    and s': "s' = put_table t (tb\<lparr>tb_indexes := tb_indexes tb @ [ix]\<rparr>) s"
    using assms(3) by (auto simp: on_table_Inr require_columns_Inr split: if_splits)
  show c: "conforms s' d" unfolding s'
    using conforms_table [OF assms(1) tb(1)] assms(4)
    by (intro put_table_conforms [OF assms(1)]) (auto simp: table_holds_def)
  show "well_named s'" unfolding s'
    using well_named_table [OF assms(2) tb(1)] tb(2)
    by (intro put_table_well_named [OF assms(2)]) (auto simp: table_well_named_def list_all_iff has_column_def)
  show "execute server (Create_index t ix) (s, d) = Inr (s', d)"
    using assms(3) c by (simp add: execute_def)
qed

text \<open>A column that no constraint mentions can be set without breaking one.\<close>

definition set_column :: "string \<Rightarrow> sql_value \<Rightarrow> row list \<Rightarrow> row list" where
  "set_column n v rs = map (\<lambda>r. r(n := v)) rs"

lemma check_holds_upd: "n \<notin> set (check_columns ck) \<Longrightarrow> check_holds ck (r(n := v)) = check_holds ck r"
  by (cases ck) auto

lemma distinct_on_set: "n \<notin> set cs \<Longrightarrow> distinct_on cs (set_column n v rs) = distinct_on cs rs"
proof -
  assume "n \<notin> set cs"
  then have "map (\<lambda>r. map r cs) (set_column n v rs) = map (\<lambda>r. map r cs) rs"
    by (auto simp: set_column_def)
  then show ?thesis by (simp add: distinct_on_def)
qed

lemma constraint_holds_set:
  assumes "n \<notin> set (constraint_columns b)"
  shows "constraint_holds d b (set_column n v rs) = constraint_holds d b rs"
proof (cases b)
  case (Primary_key cs)
  then show ?thesis using assms distinct_on_set [of n cs v rs]
    by (auto simp: list_all_iff set_column_def)
next
  case (Unique cs)
  then show ?thesis using assms distinct_on_set [of n cs v rs] by simp
next
  case (Foreign_key c t od)
  then show ?thesis using assms by (auto simp: list_all_iff set_column_def)
next
  case (Check ck)
  then show ?thesis using assms by (auto simp: list_all_iff set_column_def check_holds_upd)
qed

lemma where_holds_upd: "n \<noteq> where_column w \<Longrightarrow> where_holds w (r(n := v)) = where_holds w r"
  by (cases w) auto

lemma index_holds_set:
  assumes "n \<notin> set (index_columns ix)"
  shows "index_holds ix (set_column n v rs) = index_holds ix rs"
proof (cases "ix_where ix")
  case None
  then show ?thesis
    using assms distinct_on_set [of n "key_columns (ix_keys ix)" v rs]
    by (simp add: index_holds_def index_columns_def)
next
  case (Some w)
  then have w: "n \<noteq> where_column w" "n \<notin> set (key_columns (ix_keys ix))"
    using assms by (auto simp: index_columns_def)
  have "filter (where_holds w) (set_column n v rs) = set_column n v (filter (where_holds w) rs)"
    using w(1) by (simp add: set_column_def filter_map comp_def where_holds_upd)
  then show ?thesis using Some distinct_on_set [OF w(2)] by (simp add: index_holds_def)
qed

lemma constraint_holds_ids:
  assumes "\<And>t. map (\<lambda>r. r ''id'') (d' t) = map (\<lambda>r. r ''id'') (d t)"
  shows "constraint_holds d' b rs = constraint_holds d b rs"
proof (cases b)
  case (Foreign_key c t od)
  have "list_ex (\<lambda>r'. r' ''id'' = x) (d' t) \<longleftrightarrow> x \<in> set (map (\<lambda>r. r ''id'') (d' t))" for x
    by (auto simp: list_ex_iff)
  moreover have "list_ex (\<lambda>r'. r' ''id'' = x) (d t) \<longleftrightarrow> x \<in> set (map (\<lambda>r. r ''id'') (d t))" for x
    by (auto simp: list_ex_iff)
  ultimately show ?thesis using Foreign_key assms by simp
qed simp_all

lemma table_holds_ids:
  assumes "\<And>t. map (\<lambda>r. r ''id'') (d' t) = map (\<lambda>r. r ''id'') (d t)"
  shows "table_holds d' tb rs = table_holds d tb rs"
  by (simp add: table_holds_def constraint_holds_ids [of d' d, OF assms])

lemma table_holds_new_column:
  assumes "table_holds d tb rs" "table_well_named tb" "\<not> has_column tb (col_name c)"
    and "col_nullable c \<or> v \<noteq> Null"
  shows "table_holds d (tb\<lparr>tb_columns := tb_columns tb @ [c]\<rparr>) (set_column (col_name c) v rs)"
proof -
  have "col_name c \<notin> set (constraint_columns b)" if "(n, b) \<in> set (tb_constraints tb)" for n b
    using that assms(2,3) by (auto simp: table_well_named_def list_all_iff)
  moreover have "col_name c \<notin> set (index_columns ix)" if "ix \<in> set (tb_indexes tb)" for ix
    using that assms(2,3) by (auto simp: table_well_named_def list_all_iff)
  moreover have "col_name x \<noteq> col_name c" if "x \<in> set (tb_columns tb)" for x
    using that assms(3) by (auto simp: has_column_def list_ex_iff)
  ultimately show ?thesis
    using assms(1,4) by (auto simp: table_holds_def list_all_iff constraint_holds_set index_holds_set)
      (auto simp: set_column_def)
qed

lemma add_column_keeps:
  assumes "conforms s d" "well_named s" "ddl (Add_column t c) s = Inr s'"
    and "col_nullable c \<or> default_value server (col_default c) \<noteq> Null" "col_name c \<noteq> ''id''"
  defines "d' \<equiv> d(t := set_column (col_name c) (default_value server (col_default c)) (d t))"
  shows "execute server (Add_column t c) (s, d) = Inr (s', d')" "conforms s' d'" "well_named s'"
proof -
  obtain tb where tb: "table_of s t = Some tb" "\<not> has_column tb (col_name c)"
    and s': "s' = put_table t (tb\<lparr>tb_columns := tb_columns tb @ [c]\<rparr>) s"
    using assms(3) by (auto simp: on_table_Inr split: if_splits)
  have "map (\<lambda>r. r ''id'') (d' u) = map (\<lambda>r. r ''id'') (d u)" for u
    using assms(5) by (simp add: d'_def set_column_def)
  note ids = table_holds_ids [of d' d, OF this]
  show c: "conforms s' d'"
  proof -
    have "table_holds d' b (d' u)" if "(u, b) \<in> set (sc_tables s')" for u b
    proof (cases "u = t")
      case True
      then show ?thesis
        using put_table_cases [OF that [unfolded s']] well_named_table [OF assms(2) tb(1)]
          table_holds_new_column [OF conforms_table [OF assms(1) tb(1)] _ tb(2) assms(4)]
        by (simp add: ids) (simp add: d'_def)
    next
      case False
      then have "table_holds d b (d u)"
        using put_table_cases [OF that [unfolded s']] assms(1) by (force simp: conforms_def list_all_iff)
      then show ?thesis using False by (simp add: ids) (simp add: d'_def)
    qed
    then show ?thesis by (auto simp: conforms_def list_all_iff)
  qed
  show "well_named s'" unfolding s'
    using well_named_table [OF assms(2) tb(1)]
    by (intro put_table_well_named [OF assms(2)]) (auto simp: table_well_named_def list_all_iff has_column_def)
  show "execute server (Add_column t c) (s, d) = Inr (s', d')"
    using assms(3) c by (simp add: execute_def d'_def set_column_def Let_def)
qed

lemma distinct_on_filter: "distinct_on cs rs \<Longrightarrow> distinct_on cs (filter P rs)"
proof (induction rs)
  case (Cons r rs)
  then show ?case by (auto simp: distinct_on_def split: if_splits)
qed simp

end
