(* ===== verification/Migrations.thy ===== *)
theory Migrations
  imports Ddl
begin

text \<open>
  The revisions of \<open>src/alembic/versions\<close>, each as the statements of its \<open>upgrade\<close> and its
  \<open>downgrade\<close>. A definition of statements is named after the table or the purpose; the
  revisions and their order are at the end.
\<close>

subsection \<open>59b5b7474128: initial schema\<close>

definition initial_recordings :: "statement list" where
  "initial_recordings =
    [Create_extension ''pg_trgm'',
     Create_table ''recordings''
     [identity_col ''id'' BigInteger,
      col ''public_id'' Uuid REQUIRED (Some (Computed ''gen_random_uuid()'')),
      col ''path'' Text REQUIRED None,
      col ''filename'' Text REQUIRED None,
      col ''size_bytes'' BigInteger REQUIRED None,
      col ''partial_hash'' Text REQUIRED None,
      col ''recorded_at'' DateTime NULLABLE None,
      col ''duration_sec'' Double NULLABLE None,
      col ''language'' Text NULLABLE None,
      col ''title'' Text NULLABLE None,
      col ''summary'' Text NULLABLE None,
      col ''status'' Text REQUIRED (Some (Quoted ''pending'')),
      col ''error'' Text NULLABLE None,
      col ''stt_meta'' Jsonb NULLABLE None,
      col ''duplicate_of_id'' BigInteger NULLABLE None,
      col ''created_at'' DateTime REQUIRED (Some (Computed ''now()'')),
      col ''updated_at'' DateTime REQUIRED (Some (Computed ''now()''))]
     [(Some ''recordings_status_check'', Check (In_values ''status'' [''pending'',
        ''transcribing'', ''diarizing'', ''enriching'', ''done'', ''error'', ''missing'',
        ''duplicate''])),
      (None, Foreign_key ''duplicate_of_id'' ''recordings'' Set_null),
      (None, Primary_key [''id'']),
      (None, Unique [''path'']),
      (None, Unique [''public_id''])],
     Create_index ''recordings'' (index_def ''ix_recordings_partial_hash''
        [Column_key ''partial_hash''] PLAIN None False)]"

definition initial_tags :: "statement list" where
  "initial_tags =
    [Create_table ''tags''
     [identity_col ''id'' BigInteger,
      col ''public_id'' Uuid REQUIRED (Some (Computed ''gen_random_uuid()'')),
      col ''name'' Text REQUIRED None,
      col ''created_at'' DateTime REQUIRED (Some (Computed ''now()'')),
      col ''updated_at'' DateTime REQUIRED (Some (Computed ''now()''))]
     [(None, Primary_key [''id'']),
      (None, Unique [''name'']),
      (None, Unique [''public_id''])]]"

definition initial_job_log :: "statement list" where
  "initial_job_log =
    [Create_table ''job_log''
     [identity_col ''id'' BigInteger,
      col ''recording_id'' BigInteger REQUIRED None,
      col ''stage'' Text REQUIRED None,
      col ''status'' Text REQUIRED None,
      col ''started_at'' DateTime REQUIRED None,
      col ''finished_at'' DateTime NULLABLE None,
      col ''audio_sec'' Double NULLABLE None,
      col ''elapsed_sec'' Double NULLABLE None,
      col ''device'' Text NULLABLE None,
      col ''model'' Text NULLABLE None,
      col ''error'' Text NULLABLE None]
     [(None, Foreign_key ''recording_id'' ''recordings'' Cascade),
      (None, Primary_key [''id''])],
     Create_index ''job_log'' (index_def ''ix_job_log_recording_id''
        [Column_key ''recording_id''] PLAIN None False)]"

definition initial_recording_tags :: "statement list" where
  "initial_recording_tags =
    [Create_table ''recording_tags''
     [col ''recording_id'' BigInteger REQUIRED None,
      col ''tag_id'' BigInteger REQUIRED None]
     [(None, Foreign_key ''recording_id'' ''recordings'' Cascade),
      (None, Foreign_key ''tag_id'' ''tags'' Cascade),
      (None, Primary_key [''recording_id'', ''tag_id''])]]"

definition initial_segments :: "statement list" where
  "initial_segments =
    [Create_table ''segments''
     [identity_col ''id'' BigInteger,
      col ''recording_id'' BigInteger REQUIRED None,
      col ''idx'' Integer REQUIRED None,
      col ''start_sec'' Double REQUIRED None,
      col ''end_sec'' Double REQUIRED None,
      col ''speaker_key'' Text NULLABLE None,
      col ''text'' Text REQUIRED None,
      col ''words'' Jsonb NULLABLE None]
     [(None, Foreign_key ''recording_id'' ''recordings'' Cascade),
      (None, Primary_key [''id'']),
      (None, Unique [''recording_id'', ''idx''])],
     Create_index ''segments'' (index_def ''ix_segments_recording_id''
        [Column_key ''recording_id''] PLAIN None False)]"

definition initial_speaker_names :: "statement list" where
  "initial_speaker_names =
    [Create_table ''speaker_names''
     [identity_col ''id'' BigInteger,
      col ''recording_id'' BigInteger REQUIRED None,
      col ''speaker_key'' Text REQUIRED None,
      col ''display_name'' Text REQUIRED None]
     [(None, Foreign_key ''recording_id'' ''recordings'' Cascade),
      (None, Primary_key [''id'']),
      (None, Unique [''recording_id'', ''speaker_key''])],
     Create_index ''speaker_names'' (index_def ''ix_speaker_names_recording_id''
        [Column_key ''recording_id''] PLAIN None False)]"

definition trigram_index :: "string \<Rightarrow> string \<Rightarrow> string \<Rightarrow> statement" where
  "trigram_index n t c = Create_index t (index_def n [Column_key c] PLAIN None True)"

definition initial_indexes :: "statement list" where
  "initial_indexes =
    [Create_index ''recordings'' (index_def ''ix_recordings_status'' [Column_key ''status'']
        PLAIN None False),
     Create_index ''recordings'' (index_def ''ix_recordings_recorded_at''
        [Expression_key ''recorded_at DESC NULLS LAST''] PLAIN None False),
     trigram_index ''ix_segments_text_trgm'' ''segments'' ''text'',
     trigram_index ''ix_recordings_filename_trgm'' ''recordings'' ''filename'',
     trigram_index ''ix_recordings_title_trgm'' ''recordings'' ''title'',
     trigram_index ''ix_recordings_summary_trgm'' ''recordings'' ''summary'']"

definition initial_upgrade :: "statement list" where
  "initial_upgrade = initial_recordings @ initial_tags @ initial_job_log @ initial_recording_tags @
     initial_segments @ initial_speaker_names @ initial_indexes"

definition initial_downgrade :: "statement list" where
  "initial_downgrade =
    [Drop_index ''ix_recordings_summary_trgm'',
     Drop_index ''ix_recordings_title_trgm'',
     Drop_index ''ix_recordings_filename_trgm'',
     Drop_index ''ix_segments_text_trgm'',
     Drop_index ''ix_recordings_recorded_at'',
     Drop_index ''ix_recordings_status'',
     Drop_index ''ix_speaker_names_recording_id'',
     Drop_table ''speaker_names'',
     Drop_index ''ix_segments_recording_id'',
     Drop_table ''segments'',
     Drop_table ''recording_tags'',
     Drop_index ''ix_job_log_recording_id'',
     Drop_table ''job_log'',
     Drop_table ''tags'',
     Drop_index ''ix_recordings_partial_hash'',
     Drop_table ''recordings'']"

subsection \<open>60f5829ea9d7 and 5c16ca905783: progress columns, kind of segment\<close>

definition progress_upgrade :: "statement list" where
  "progress_upgrade =
    [Add_column ''recordings'' (col ''progress'' Double NULLABLE None),
     Add_column ''recordings'' (col ''stage_started_at'' DateTime NULLABLE None)]"

definition progress_downgrade :: "statement list" where
  "progress_downgrade =
    [Drop_column ''recordings'' ''stage_started_at'',
     Drop_column ''recordings'' ''progress'']"

definition kind_upgrade :: "statement list" where
  "kind_upgrade =
    [Add_column ''segments'' (col ''kind'' Text REQUIRED (Some (Quoted ''speech'')))]"

definition kind_downgrade :: "statement list" where
  "kind_downgrade =
    [Drop_column ''segments'' ''kind'']"

subsection \<open>2e6e9a392f6f: users, workspaces, sharing\<close>

definition STATUSES_2E6E :: "string list" where
  "STATUSES_2E6E = [''pending'', ''transcribing'', ''diarizing'', ''enriching'', ''done'',
        ''error'',
     ''missing'', ''duplicate'', ''quota_blocked'']"

definition guard_empty :: "statement list" where
  "guard_empty = [Raise_if_rows [''recordings''], Raise_if_rows [''tags'']]"

definition tenancy_auth_attempts :: "statement list" where
  "tenancy_auth_attempts =
    [Create_table ''auth_attempts''
     [identity_col ''id'' BigInteger,
      col ''key'' Text REQUIRED None,
      col ''window_start'' DateTime REQUIRED None,
      col ''count'' Integer REQUIRED (Some (Quoted ''0''))]
     [(None, Primary_key [''id'']),
      (Some ''uq_auth_attempts_key_window'', Unique [''key'', ''window_start''])],
     Create_index ''auth_attempts'' (index_def ''ix_auth_attempts_window_start''
        [Column_key ''window_start''] PLAIN None False)]"

definition tenancy_workspaces :: "statement list" where
  "tenancy_workspaces =
    [Create_table ''workspaces''
     [identity_col ''id'' BigInteger,
      col ''public_id'' Uuid REQUIRED (Some (Computed ''gen_random_uuid()'')),
      col ''slug'' Text REQUIRED None,
      col ''name'' Text REQUIRED None,
      col ''kind'' Text REQUIRED (Some (Quoted ''team'')),
      col ''last_claimed_at'' DateTime NULLABLE None,
      col ''quota_minutes'' Integer NULLABLE None,
      col ''quota_bytes'' BigInteger NULLABLE None,
      col ''created_at'' DateTime REQUIRED (Some (Computed ''now()'')),
      col ''updated_at'' DateTime REQUIRED (Some (Computed ''now()''))]
     [(Some ''workspaces_kind_check'', Check (In_values ''kind'' [''personal'', ''team''])),
      (Some ''workspaces_slug_lower_check'', Check (Is_lower ''slug'')),
      (None, Primary_key [''id'']),
      (None, Unique [''public_id'']),
      (None, Unique [''slug''])],
     Create_index ''workspaces'' (index_def ''ix_workspaces_last_claimed_at''
        [Column_key ''last_claimed_at''] PLAIN None False)]"

definition tenancy_users :: "statement list" where
  "tenancy_users =
    [Create_table ''users''
     [identity_col ''id'' BigInteger,
      col ''public_id'' Uuid REQUIRED (Some (Computed ''gen_random_uuid()'')),
      col ''email'' Text REQUIRED None,
      col ''password_hash'' Text REQUIRED None,
      col ''display_name'' Text REQUIRED None,
      col ''status'' Text REQUIRED (Some (Quoted ''pending'')),
      col ''signup_note'' Text NULLABLE None,
      col ''reviewed_by_user_id'' BigInteger NULLABLE None,
      col ''reviewed_at'' DateTime NULLABLE None,
      col ''is_service_admin'' Boolean REQUIRED (Some (Truth False)),
      col ''default_workspace_id'' BigInteger NULLABLE None,
      col ''last_login_at'' DateTime NULLABLE None,
      col ''created_at'' DateTime REQUIRED (Some (Computed ''now()'')),
      col ''updated_at'' DateTime REQUIRED (Some (Computed ''now()''))]
     [(Some ''users_status_check'', Check (In_values ''status'' [''pending'', ''active'',
        ''rejected'', ''disabled''])),
      (Some ''users_email_lower_check'', Check (Is_lower ''email'')),
      (None, Foreign_key ''default_workspace_id'' ''workspaces'' Set_null),
      (None, Foreign_key ''reviewed_by_user_id'' ''users'' Set_null),
      (None, Primary_key [''id'']),
      (None, Unique [''email'']),
      (None, Unique [''public_id''])]]"

definition tenancy_invites :: "statement list" where
  "tenancy_invites =
    [Create_table ''invites''
     [identity_col ''id'' BigInteger,
      col ''public_id'' Uuid REQUIRED (Some (Computed ''gen_random_uuid()'')),
      col ''token_hash'' Text REQUIRED None,
      col ''email'' Text NULLABLE None,
      col ''workspace_id'' BigInteger REQUIRED None,
      col ''role'' Text REQUIRED (Some (Quoted ''member'')),
      col ''created_by_user_id'' BigInteger NULLABLE None,
      col ''expires_at'' DateTime NULLABLE None,
      col ''max_uses'' Integer REQUIRED (Some (Quoted ''1'')),
      col ''uses'' Integer REQUIRED (Some (Quoted ''0'')),
      col ''revoked_at'' DateTime NULLABLE None,
      col ''created_at'' DateTime REQUIRED (Some (Computed ''now()'')),
      col ''updated_at'' DateTime REQUIRED (Some (Computed ''now()''))]
     [(Some ''invites_role_check'', Check (In_values ''role'' [''owner'', ''admin'', ''member'',
        ''viewer''])),
      (Some ''invites_email_lower_check'', Check (Null_or_lower ''email'')),
      (Some ''invites_uses_check'', Check (At_most ''uses'' ''max_uses'')),
      (None, Foreign_key ''created_by_user_id'' ''users'' Set_null),
      (None, Foreign_key ''workspace_id'' ''workspaces'' Cascade),
      (None, Primary_key [''id'']),
      (None, Unique [''public_id'']),
      (None, Unique [''token_hash''])],
     Create_index ''invites'' (index_def ''ix_invites_email'' [Column_key ''email''] PLAIN
        None False),
     Create_index ''invites'' (index_def ''ix_invites_workspace_id''
        [Column_key ''workspace_id''] PLAIN None False)]"

definition tenancy_user_sessions :: "statement list" where
  "tenancy_user_sessions =
    [Create_table ''user_sessions''
     [identity_col ''id'' BigInteger,
      col ''public_id'' Uuid REQUIRED (Some (Computed ''gen_random_uuid()'')),
      col ''user_id'' BigInteger REQUIRED None,
      col ''token_hash'' Text REQUIRED None,
      col ''csrf_token'' Text REQUIRED None,
      col ''issued_at'' DateTime REQUIRED (Some (Computed ''now()'')),
      col ''last_seen_at'' DateTime REQUIRED (Some (Computed ''now()'')),
      col ''expires_at'' DateTime REQUIRED None,
      col ''absolute_expires_at'' DateTime REQUIRED None,
      col ''revoked_at'' DateTime NULLABLE None,
      col ''user_agent'' Text NULLABLE None,
      col ''ip'' Text NULLABLE None]
     [(None, Foreign_key ''user_id'' ''users'' Cascade),
      (None, Primary_key [''id'']),
      (None, Unique [''public_id'']),
      (None, Unique [''token_hash''])],
     Create_index ''user_sessions'' (index_def ''ix_user_sessions_expires_at''
        [Column_key ''expires_at''] PLAIN None False),
     Create_index ''user_sessions'' (index_def ''ix_user_sessions_user_id''
        [Column_key ''user_id''] PLAIN None False)]"

definition tenancy_workspace_members :: "statement list" where
  "tenancy_workspace_members =
    [Create_table ''workspace_members''
     [identity_col ''id'' BigInteger,
      col ''workspace_id'' BigInteger REQUIRED None,
      col ''user_id'' BigInteger REQUIRED None,
      col ''role'' Text REQUIRED (Some (Quoted ''member'')),
      col ''created_at'' DateTime REQUIRED (Some (Computed ''now()'')),
      col ''updated_at'' DateTime REQUIRED (Some (Computed ''now()''))]
     [(Some ''workspace_members_role_check'', Check (In_values ''role'' [''owner'', ''admin'',
        ''member'', ''viewer''])),
      (None, Foreign_key ''user_id'' ''users'' Cascade),
      (None, Foreign_key ''workspace_id'' ''workspaces'' Cascade),
      (None, Primary_key [''id'']),
      (Some ''uq_workspace_members_ws_user'', Unique [''workspace_id'', ''user_id''])],
     Create_index ''workspace_members'' (index_def ''ix_workspace_members_user_id''
        [Column_key ''user_id''] PLAIN None False),
     Create_index ''workspace_members'' (index_def ''ix_workspace_members_workspace_id''
        [Column_key ''workspace_id''] PLAIN None False),
     Create_index ''workspace_members'' (index_def ''uq_workspace_members_single_owner''
        [Column_key ''workspace_id''] UNIQUE (Some (Where_is ''role'' ''owner'')) False)]"

definition tenancy_recording_shares :: "statement list" where
  "tenancy_recording_shares =
    [Create_table ''recording_shares''
     [identity_col ''id'' BigInteger,
      col ''public_id'' Uuid REQUIRED (Some (Computed ''gen_random_uuid()'')),
      col ''recording_id'' BigInteger REQUIRED None,
      col ''user_id'' BigInteger NULLABLE None,
      col ''invite_email'' Text NULLABLE None,
      col ''permission'' Text REQUIRED (Some (Quoted ''view'')),
      col ''created_by_user_id'' BigInteger NULLABLE None,
      col ''created_at'' DateTime REQUIRED (Some (Computed ''now()'')),
      col ''updated_at'' DateTime REQUIRED (Some (Computed ''now()''))]
     [(Some ''recording_shares_permission_check'', Check (In_values ''permission'' [''view'',
        ''edit''])),
      (Some ''recording_shares_target_check'', Check (Exactly_one ''user_id'' ''invite_email'')),
      (Some ''recording_shares_email_lower_check'', Check (Null_or_lower ''invite_email'')),
      (None, Foreign_key ''created_by_user_id'' ''users'' Set_null),
      (None, Foreign_key ''recording_id'' ''recordings'' Cascade),
      (None, Foreign_key ''user_id'' ''users'' Cascade),
      (None, Primary_key [''id'']),
      (None, Unique [''public_id''])],
     Create_index ''recording_shares'' (index_def ''ix_recording_shares_invite_email''
        [Column_key ''invite_email''] PLAIN None False),
     Create_index ''recording_shares'' (index_def ''ix_recording_shares_recording_id''
        [Column_key ''recording_id''] PLAIN None False),
     Create_index ''recording_shares'' (index_def ''ix_recording_shares_user_id''
        [Column_key ''user_id''] PLAIN None False),
     Create_index ''recording_shares'' (index_def ''uq_recording_shares_email''
        [Column_key ''recording_id'', Column_key ''invite_email''] UNIQUE (Some (Where_set
        ''invite_email'')) False),
     Create_index ''recording_shares'' (index_def ''uq_recording_shares_user''
        [Column_key ''recording_id'', Column_key ''user_id''] UNIQUE (Some (Where_set
        ''user_id'')) False)]"

definition tenancy_share_links :: "statement list" where
  "tenancy_share_links =
    [Create_table ''share_links''
     [identity_col ''id'' BigInteger,
      col ''public_id'' Uuid REQUIRED (Some (Computed ''gen_random_uuid()'')),
      col ''recording_id'' BigInteger REQUIRED None,
      col ''token_hash'' Text REQUIRED None,
      col ''label'' Text NULLABLE None,
      col ''password_hash'' Text NULLABLE None,
      col ''allow_audio'' Boolean REQUIRED (Some (Truth True)),
      col ''allow_speaker_names'' Boolean REQUIRED (Some (Truth True)),
      col ''expires_at'' DateTime NULLABLE None,
      col ''revoked_at'' DateTime NULLABLE None,
      col ''view_count'' BigInteger REQUIRED (Some (Quoted ''0'')),
      col ''last_viewed_at'' DateTime NULLABLE None,
      col ''created_by_user_id'' BigInteger NULLABLE None,
      col ''created_at'' DateTime REQUIRED (Some (Computed ''now()'')),
      col ''updated_at'' DateTime REQUIRED (Some (Computed ''now()''))]
     [(None, Foreign_key ''created_by_user_id'' ''users'' Set_null),
      (None, Foreign_key ''recording_id'' ''recordings'' Cascade),
      (None, Primary_key [''id'']),
      (None, Unique [''public_id'']),
      (None, Unique [''token_hash''])],
     Create_index ''share_links'' (index_def ''ix_share_links_recording_id''
        [Column_key ''recording_id''] PLAIN None False)]"

definition bind_job_log :: "statement list" where
  "bind_job_log =
    [Add_column ''job_log'' (col ''workspace_id'' BigInteger REQUIRED None),
     Alter_nullable ''job_log'' ''recording_id'' NULLABLE,
     Create_index ''job_log'' (index_def ''ix_job_log_workspace_id''
        [Column_key ''workspace_id''] PLAIN None False),
     Drop_constraint ''job_log'' ''job_log_recording_id_fkey'',
     Create_constraint ''job_log''
        (Some ''job_log_workspace_id_fkey'', Foreign_key ''workspace_id'' ''workspaces'' Cascade),
     Create_constraint ''job_log''
        (Some ''job_log_recording_id_fkey'', Foreign_key ''recording_id'' ''recordings'' Set_null)]"

definition bind_recordings :: "statement list" where
  "bind_recordings =
    [Add_column ''recordings'' (col ''workspace_id'' BigInteger REQUIRED None),
     Add_column ''recordings'' (col ''created_by_user_id'' BigInteger NULLABLE None),
     Add_column ''recordings'' (col ''source'' Text REQUIRED (Some (Quoted ''upload''))),
     Drop_index ''ix_recordings_partial_hash'',
     Drop_index ''ix_recordings_recorded_at'',
     Drop_index ''ix_recordings_status'',
     Create_index ''recordings'' (index_def ''ix_recordings_status_workspace''
        [Column_key ''status'', Column_key ''workspace_id''] PLAIN None False),
     Create_index ''recordings'' (index_def ''ix_recordings_workspace_id''
        [Column_key ''workspace_id''] PLAIN None False),
     Create_index ''recordings'' (index_def ''ix_recordings_workspace_partial_hash''
        [Column_key ''workspace_id'', Column_key ''partial_hash''] PLAIN None False),
     Create_index ''recordings'' (index_def ''ix_recordings_workspace_recorded_at''
        [Column_key ''workspace_id'', Expression_key ''recorded_at DESC NULLS LAST'', Expression_key ''id DESC''] PLAIN None False),
     Create_constraint ''recordings''
        (Some ''recordings_created_by_user_id_fkey'', Foreign_key ''created_by_user_id''
        ''users'' Set_null),
     Create_constraint ''recordings''
        (Some ''recordings_workspace_id_fkey'', Foreign_key ''workspace_id''
        ''workspaces'' Cascade),
     Create_constraint ''recordings'' (Some ''recordings_source_check'', Check (In_values
        ''source'' [''upload'', ''scan'']))]"

definition bind_tags :: "statement list" where
  "bind_tags =
    [Add_column ''tags'' (col ''workspace_id'' BigInteger REQUIRED None),
     Drop_constraint ''tags'' ''tags_name_key'',
     Create_index ''tags'' (index_def ''ix_tags_workspace_id'' [Column_key ''workspace_id'']
        PLAIN None False),
     Create_constraint ''tags'' (Some ''uq_tags_workspace_name'', Unique [''workspace_id'',
        ''name'']),
     Create_constraint ''tags'' (Some ''tags_workspace_id_fkey'', Foreign_key ''workspace_id''
        ''workspaces'' Cascade)]"

definition widen_status :: "statement list" where
  "widen_status =
    [Drop_constraint ''recordings'' ''recordings_status_check'',
     Create_constraint ''recordings'' (Some ''recordings_status_check'', Check (In_values
        ''status'' STATUSES_2E6E))]"

definition multitenancy_upgrade :: "statement list" where
  "multitenancy_upgrade = guard_empty @ tenancy_auth_attempts @ tenancy_workspaces @ tenancy_users @
     tenancy_invites @ tenancy_user_sessions @ tenancy_workspace_members @ tenancy_recording_shares @
     tenancy_share_links @ bind_job_log @ bind_recordings @ bind_tags @ widen_status"

definition narrow_status :: "statement list" where
  "narrow_status =
    [Drop_index_if_exists ''ix_recordings_status_workspace'',
     Drop_constraint ''recordings'' ''recordings_status_check'',
     Create_constraint ''recordings'' (Some ''recordings_status_check'', Check (In_values
        ''status'' [''pending'', ''transcribing'', ''diarizing'', ''enriching'', ''done'',
        ''error'', ''missing'', ''duplicate'']))]"

definition unbind_tags :: "statement list" where
  "unbind_tags =
    [Drop_constraint ''tags'' ''tags_workspace_id_fkey'',
     Drop_constraint ''tags'' ''uq_tags_workspace_name'',
     Drop_index ''ix_tags_workspace_id'',
     Create_constraint ''tags'' (Some ''tags_name_key'', Unique [''name'']),
     Drop_column ''tags'' ''workspace_id'']"

definition unbind_recordings :: "statement list" where
  "unbind_recordings =
    [Drop_constraint ''recordings'' ''recordings_source_check'',
     Drop_constraint ''recordings'' ''recordings_workspace_id_fkey'',
     Drop_constraint ''recordings'' ''recordings_created_by_user_id_fkey'',
     Drop_index ''ix_recordings_workspace_recorded_at'',
     Drop_index ''ix_recordings_workspace_partial_hash'',
     Drop_index ''ix_recordings_workspace_id'',
     Create_index ''recordings'' (index_def ''ix_recordings_status'' [Column_key ''status'']
        PLAIN None False),
     Create_index ''recordings'' (index_def ''ix_recordings_recorded_at''
        [Expression_key ''recorded_at DESC NULLS LAST''] PLAIN None False),
     Create_index ''recordings'' (index_def ''ix_recordings_partial_hash''
        [Column_key ''partial_hash''] PLAIN None False),
     Drop_column ''recordings'' ''source'',
     Drop_column ''recordings'' ''created_by_user_id'',
     Drop_column ''recordings'' ''workspace_id'']"

definition unbind_job_log :: "statement list" where
  "unbind_job_log =
    [Drop_constraint ''job_log'' ''job_log_recording_id_fkey'',
     Drop_constraint ''job_log'' ''job_log_workspace_id_fkey'',
     Create_constraint ''job_log''
        (Some ''job_log_recording_id_fkey'', Foreign_key ''recording_id'' ''recordings'' Cascade),
     Drop_index ''ix_job_log_workspace_id'',
     Alter_nullable ''job_log'' ''recording_id'' REQUIRED,
     Drop_column ''job_log'' ''workspace_id'']"

definition drop_tenancy :: "statement list" where
  "drop_tenancy =
    [Drop_index ''ix_share_links_recording_id'',
     Drop_table ''share_links'',
     Drop_index ''uq_recording_shares_user'',
     Drop_index ''uq_recording_shares_email'',
     Drop_index ''ix_recording_shares_user_id'',
     Drop_index ''ix_recording_shares_recording_id'',
     Drop_index ''ix_recording_shares_invite_email'',
     Drop_table ''recording_shares'',
     Drop_index ''uq_workspace_members_single_owner'',
     Drop_index ''ix_workspace_members_workspace_id'',
     Drop_index ''ix_workspace_members_user_id'',
     Drop_table ''workspace_members'',
     Drop_index ''ix_user_sessions_user_id'',
     Drop_index ''ix_user_sessions_expires_at'',
     Drop_table ''user_sessions'',
     Drop_index ''ix_invites_workspace_id'',
     Drop_index ''ix_invites_email'',
     Drop_table ''invites'',
     Drop_table ''users'',
     Drop_index ''ix_workspaces_last_claimed_at'',
     Drop_table ''workspaces'',
     Drop_index ''ix_auth_attempts_window_start'',
     Drop_table ''auth_attempts'']"

definition multitenancy_downgrade :: "statement list" where
  "multitenancy_downgrade = narrow_status @ unbind_tags @ unbind_recordings @ unbind_job_log @ drop_tenancy"

subsection \<open>e52dbbaf2130: the status summarizing\<close>

definition STATUSES_BEFORE :: "string list" where
  "STATUSES_BEFORE = [''pending'', ''transcribing'', ''diarizing'', ''enriching'', ''done'',
        ''error'',
     ''missing'', ''duplicate'', ''quota_blocked'']"

definition STATUSES_AFTER :: "string list" where "STATUSES_AFTER = STATUSES_BEFORE @
        [''summarizing'']"

definition set_check :: "string list \<Rightarrow> statement list" where
  "set_check vs =
    [Drop_constraint ''recordings'' ''recordings_status_check'',
     Create_constraint ''recordings'' (Some ''recordings_status_check'', Check (In_values
        ''status'' vs))]"

definition summarizing_upgrade :: "statement list" where
  "summarizing_upgrade = set_check STATUSES_AFTER"

definition summarizing_downgrade :: "statement list" where
  "summarizing_downgrade =
     Update_value ''recordings'' ''status'' ''summarizing''
        ''enriching'' # set_check STATUSES_BEFORE"

subsection \<open>a1c7f3d20b64, 356e1ddfca3c and ed92879e0eb9: content hash, runner checkpoint, current path\<close>

definition content_hash_upgrade :: "statement list" where
  "content_hash_upgrade =
    [Add_column ''recordings'' (col ''content_hash'' Text NULLABLE None),
     Create_index ''recordings'' (index_def ''ix_recordings_workspace_content_hash''
        [Column_key ''workspace_id'', Column_key ''content_hash''] PLAIN None False)]"

definition content_hash_downgrade :: "statement list" where
  "content_hash_downgrade =
    [Drop_index ''ix_recordings_workspace_content_hash'',
     Drop_column ''recordings'' ''content_hash'']"

definition checkpoint_upgrade :: "statement list" where
  "checkpoint_upgrade =
    [Add_column ''recordings'' (col ''runner_request_id'' Uuid NULLABLE None),
     Add_column ''recordings'' (col ''runner_started_at'' DateTime NULLABLE None)]"

definition checkpoint_downgrade :: "statement list" where
  "checkpoint_downgrade =
    [Drop_column ''recordings'' ''runner_started_at'',
     Drop_column ''recordings'' ''runner_request_id'']"

definition current_path_upgrade :: "statement list" where
  "current_path_upgrade =
    [Add_column ''recordings'' (col ''path_current'' Boolean REQUIRED (Some (Truth True))),
     Add_column ''recordings'' (col ''file_signature'' Jsonb NULLABLE None),
     Drop_constraint ''recordings'' ''recordings_path_key'',
     Create_index ''recordings'' (index_def ''uq_recordings_current_path'' [Column_key ''path'']
        UNIQUE (Some (Where_true ''path_current'')) False)]"

definition current_path_downgrade :: "statement list" where
  "current_path_downgrade =
    [Raise_if_repeated ''recordings'' ''path'',
     Drop_index ''uq_recordings_current_path'',
     Create_constraint ''recordings'' (Some ''recordings_path_key'', Unique [''path'']),
     Drop_column ''recordings'' ''file_signature'',
     Drop_column ''recordings'' ''path_current'']"

subsection \<open>The chain of revisions\<close>

record revision =
  rv_revision :: string
  rv_down_revision :: "string option"
  rv_upgrade :: "statement list"
  rv_downgrade :: "statement list"

definition revision_of ::
  "string \<Rightarrow> string option \<Rightarrow> statement list \<Rightarrow> statement list \<Rightarrow> revision" where
  "revision_of r p up dn = \<lparr>rv_revision = r, rv_down_revision = p, rv_upgrade = up, rv_downgrade = dn\<rparr>"

definition rev_initial :: revision where
  "rev_initial = revision_of ''59b5b7474128'' None initial_upgrade initial_downgrade"

definition rev_progress :: revision where
  "rev_progress = revision_of ''60f5829ea9d7''
        (Some ''59b5b7474128'') progress_upgrade progress_downgrade"

definition rev_kind :: revision where
  "rev_kind = revision_of ''5c16ca905783'' (Some ''60f5829ea9d7'') kind_upgrade kind_downgrade"

definition rev_multitenancy :: revision where
  "rev_multitenancy = revision_of ''2e6e9a392f6f''
        (Some ''5c16ca905783'') multitenancy_upgrade multitenancy_downgrade"

definition rev_summarizing :: revision where
  "rev_summarizing = revision_of ''e52dbbaf2130''
        (Some ''2e6e9a392f6f'') summarizing_upgrade summarizing_downgrade"

definition rev_content_hash :: revision where
  "rev_content_hash = revision_of ''a1c7f3d20b64''
        (Some ''e52dbbaf2130'') content_hash_upgrade content_hash_downgrade"

definition rev_checkpoint :: revision where
  "rev_checkpoint = revision_of ''356e1ddfca3c''
        (Some ''a1c7f3d20b64'') checkpoint_upgrade checkpoint_downgrade"

definition rev_current_path :: revision where
  "rev_current_path = revision_of ''ed92879e0eb9''
        (Some ''356e1ddfca3c'') current_path_upgrade current_path_downgrade"

definition revisions :: "revision list" where
  "revisions = [rev_initial, rev_progress, rev_kind, rev_multitenancy, rev_summarizing, rev_content_hash,
     rev_checkpoint, rev_current_path]"


end
