(* ===== verification/Schema_Snapshots.thy ===== *)
theory Schema_Snapshots
  imports Migrations
begin

text \<open>
  The schema at three revisions, written out: before the workspaces (5c16ca905783), with them
  (2e6e9a392f6f) and at the end of the chain. The lemmas show that the statements of the
  revisions lead from one to the next and back, so that later proofs need not run them again.
\<close>

subsection \<open>Before the workspaces\<close>

definition recordings_5c16 :: table_info where
  "recordings_5c16 =
    \<lparr>tb_columns =
       [identity_col ''id'' BigInteger,
        col ''public_id'' Uuid REQUIRED (Some (Computed ''gen_random_uuid()'')),
        col ''path'' Text REQUIRED None,
        col ''filename'' Text REQUIRED None,
        col ''size_bytes'' BigInteger REQUIRED None,
        col ''partial_hash'' Text REQUIRED None,
        col ''recorded_at'' DateTime NULLABLE None,
        col ''duration_sec'' Double NULLABLE None,
        col ''language'' Text NULLABLE None,
        col ''title'' Text NULLABLE None,
        col ''summary'' Text NULLABLE None,
        col ''status'' Text REQUIRED (Some (Quoted ''pending'')),
        col ''error'' Text NULLABLE None,
        col ''stt_meta'' Jsonb NULLABLE None,
        col ''duplicate_of_id'' BigInteger NULLABLE None,
        col ''created_at'' DateTime REQUIRED (Some (Computed ''now()'')),
        col ''updated_at'' DateTime REQUIRED (Some (Computed ''now()'')),
        col ''progress'' Double NULLABLE None,
        col ''stage_started_at'' DateTime NULLABLE None],
     tb_constraints =
       [(''recordings_status_check'', Check (In_values ''status'' [''pending'', ''transcribing'',
            ''diarizing'', ''enriching'', ''done'', ''error'', ''missing'', ''duplicate''])),
        (''recordings_duplicate_of_id_fkey'', Foreign_key ''duplicate_of_id''
            ''recordings'' Set_null),
        (''recordings_pkey'', Primary_key [''id'']),
        (''recordings_path_key'', Unique [''path'']),
        (''recordings_public_id_key'', Unique [''public_id''])],
     tb_indexes =
       [index_def ''ix_recordings_partial_hash'' [Column_key ''partial_hash''] PLAIN None False,
        index_def ''ix_recordings_status'' [Column_key ''status''] PLAIN None False,
        index_def ''ix_recordings_recorded_at'' [Expression_key ''recorded_at DESC NULLS LAST'']
            PLAIN None False,
        index_def ''ix_recordings_filename_trgm'' [Column_key ''filename''] PLAIN None True,
        index_def ''ix_recordings_title_trgm'' [Column_key ''title''] PLAIN None True,
        index_def ''ix_recordings_summary_trgm'' [Column_key ''summary''] PLAIN
            None True]\<rparr>"

definition tags_5c16 :: table_info where
  "tags_5c16 =
    \<lparr>tb_columns =
       [identity_col ''id'' BigInteger,
        col ''public_id'' Uuid REQUIRED (Some (Computed ''gen_random_uuid()'')),
        col ''name'' Text REQUIRED None,
        col ''created_at'' DateTime REQUIRED (Some (Computed ''now()'')),
        col ''updated_at'' DateTime REQUIRED (Some (Computed ''now()''))],
     tb_constraints =
       [(''tags_pkey'', Primary_key [''id'']),
        (''tags_name_key'', Unique [''name'']),
        (''tags_public_id_key'', Unique [''public_id''])],
     tb_indexes =
       []\<rparr>"

definition job_log_5c16 :: table_info where
  "job_log_5c16 =
    \<lparr>tb_columns =
       [identity_col ''id'' BigInteger,
        col ''recording_id'' BigInteger REQUIRED None,
        col ''stage'' Text REQUIRED None,
        col ''status'' Text REQUIRED None,
        col ''started_at'' DateTime REQUIRED None,
        col ''finished_at'' DateTime NULLABLE None,
        col ''audio_sec'' Double NULLABLE None,
        col ''elapsed_sec'' Double NULLABLE None,
        col ''device'' Text NULLABLE None,
        col ''model'' Text NULLABLE None,
        col ''error'' Text NULLABLE None],
     tb_constraints =
       [(''job_log_recording_id_fkey'', Foreign_key ''recording_id'' ''recordings'' Cascade),
        (''job_log_pkey'', Primary_key [''id''])],
     tb_indexes =
       [index_def ''ix_job_log_recording_id'' [Column_key ''recording_id''] PLAIN
            None False]\<rparr>"

definition recording_tags_5c16 :: table_info where
  "recording_tags_5c16 =
    \<lparr>tb_columns =
       [col ''recording_id'' BigInteger REQUIRED None,
        col ''tag_id'' BigInteger REQUIRED None],
     tb_constraints =
       [(''recording_tags_recording_id_fkey'', Foreign_key ''recording_id''
            ''recordings'' Cascade),
        (''recording_tags_tag_id_fkey'', Foreign_key ''tag_id'' ''tags'' Cascade),
        (''recording_tags_pkey'', Primary_key [''recording_id'', ''tag_id''])],
     tb_indexes =
       []\<rparr>"

definition segments_5c16 :: table_info where
  "segments_5c16 =
    \<lparr>tb_columns =
       [identity_col ''id'' BigInteger,
        col ''recording_id'' BigInteger REQUIRED None,
        col ''idx'' Integer REQUIRED None,
        col ''start_sec'' Double REQUIRED None,
        col ''end_sec'' Double REQUIRED None,
        col ''speaker_key'' Text NULLABLE None,
        col ''text'' Text REQUIRED None,
        col ''words'' Jsonb NULLABLE None,
        col ''kind'' Text REQUIRED (Some (Quoted ''speech''))],
     tb_constraints =
       [(''segments_recording_id_fkey'', Foreign_key ''recording_id'' ''recordings'' Cascade),
        (''segments_pkey'', Primary_key [''id'']),
        (''segments_recording_id_idx_key'', Unique [''recording_id'', ''idx''])],
     tb_indexes =
       [index_def ''ix_segments_recording_id'' [Column_key ''recording_id''] PLAIN None False,
        index_def ''ix_segments_text_trgm'' [Column_key ''text''] PLAIN None True]\<rparr>"

definition speaker_names_5c16 :: table_info where
  "speaker_names_5c16 =
    \<lparr>tb_columns =
       [identity_col ''id'' BigInteger,
        col ''recording_id'' BigInteger REQUIRED None,
        col ''speaker_key'' Text REQUIRED None,
        col ''display_name'' Text REQUIRED None],
     tb_constraints =
       [(''speaker_names_recording_id_fkey'', Foreign_key ''recording_id''
            ''recordings'' Cascade),
        (''speaker_names_pkey'', Primary_key [''id'']),
        (''speaker_names_recording_id_speaker_key_key'', Unique [''recording_id'',
            ''speaker_key''])],
     tb_indexes =
       [index_def ''ix_speaker_names_recording_id'' [Column_key ''recording_id''] PLAIN
            None False]\<rparr>"

definition schema_5c16 :: schema where
  "schema_5c16 = \<lparr>sc_extensions = [''pg_trgm''], sc_tables =
     [(''recordings'', recordings_5c16),
      (''tags'', tags_5c16),
      (''job_log'', job_log_5c16),
      (''recording_tags'', recording_tags_5c16),
      (''segments'', segments_5c16),
      (''speaker_names'', speaker_names_5c16)]\<rparr>"

subsection \<open>With the workspaces\<close>

definition recordings_2e6e :: table_info where
  "recordings_2e6e =
    \<lparr>tb_columns =
       [identity_col ''id'' BigInteger,
        col ''public_id'' Uuid REQUIRED (Some (Computed ''gen_random_uuid()'')),
        col ''path'' Text REQUIRED None,
        col ''filename'' Text REQUIRED None,
        col ''size_bytes'' BigInteger REQUIRED None,
        col ''partial_hash'' Text REQUIRED None,
        col ''recorded_at'' DateTime NULLABLE None,
        col ''duration_sec'' Double NULLABLE None,
        col ''language'' Text NULLABLE None,
        col ''title'' Text NULLABLE None,
        col ''summary'' Text NULLABLE None,
        col ''status'' Text REQUIRED (Some (Quoted ''pending'')),
        col ''error'' Text NULLABLE None,
        col ''stt_meta'' Jsonb NULLABLE None,
        col ''duplicate_of_id'' BigInteger NULLABLE None,
        col ''created_at'' DateTime REQUIRED (Some (Computed ''now()'')),
        col ''updated_at'' DateTime REQUIRED (Some (Computed ''now()'')),
        col ''progress'' Double NULLABLE None,
        col ''stage_started_at'' DateTime NULLABLE None,
        col ''workspace_id'' BigInteger REQUIRED None,
        col ''created_by_user_id'' BigInteger NULLABLE None,
        col ''source'' Text REQUIRED (Some (Quoted ''upload''))],
     tb_constraints =
       [(''recordings_duplicate_of_id_fkey'', Foreign_key ''duplicate_of_id''
            ''recordings'' Set_null),
        (''recordings_pkey'', Primary_key [''id'']),
        (''recordings_path_key'', Unique [''path'']),
        (''recordings_public_id_key'', Unique [''public_id'']),
        (''recordings_created_by_user_id_fkey'', Foreign_key ''created_by_user_id''
            ''users'' Set_null),
        (''recordings_workspace_id_fkey'', Foreign_key ''workspace_id'' ''workspaces'' Cascade),
        (''recordings_source_check'', Check (In_values ''source'' [''upload'', ''scan''])),
        (''recordings_status_check'', Check (In_values ''status'' [''pending'', ''transcribing'',
            ''diarizing'', ''enriching'', ''done'', ''error'', ''missing'', ''duplicate'',
            ''quota_blocked'']))],
     tb_indexes =
       [index_def ''ix_recordings_filename_trgm'' [Column_key ''filename''] PLAIN None True,
        index_def ''ix_recordings_title_trgm'' [Column_key ''title''] PLAIN None True,
        index_def ''ix_recordings_summary_trgm'' [Column_key ''summary''] PLAIN None True,
        index_def ''ix_recordings_status_workspace''
            [Column_key ''status'', Column_key ''workspace_id''] PLAIN None False,
        index_def ''ix_recordings_workspace_id'' [Column_key ''workspace_id''] PLAIN None False,
        index_def ''ix_recordings_workspace_partial_hash''
            [Column_key ''workspace_id'', Column_key ''partial_hash''] PLAIN None False,
        index_def ''ix_recordings_workspace_recorded_at''
            [Column_key ''workspace_id'', Expression_key ''recorded_at DESC NULLS LAST'', Expression_key ''id DESC''] PLAIN None False]\<rparr>"

definition tags_2e6e :: table_info where
  "tags_2e6e =
    \<lparr>tb_columns =
       [identity_col ''id'' BigInteger,
        col ''public_id'' Uuid REQUIRED (Some (Computed ''gen_random_uuid()'')),
        col ''name'' Text REQUIRED None,
        col ''created_at'' DateTime REQUIRED (Some (Computed ''now()'')),
        col ''updated_at'' DateTime REQUIRED (Some (Computed ''now()'')),
        col ''workspace_id'' BigInteger REQUIRED None],
     tb_constraints =
       [(''tags_pkey'', Primary_key [''id'']),
        (''tags_public_id_key'', Unique [''public_id'']),
        (''uq_tags_workspace_name'', Unique [''workspace_id'', ''name'']),
        (''tags_workspace_id_fkey'', Foreign_key ''workspace_id'' ''workspaces'' Cascade)],
     tb_indexes =
       [index_def ''ix_tags_workspace_id'' [Column_key ''workspace_id''] PLAIN
            None False]\<rparr>"

definition job_log_2e6e :: table_info where
  "job_log_2e6e =
    \<lparr>tb_columns =
       [identity_col ''id'' BigInteger,
        col ''recording_id'' BigInteger NULLABLE None,
        col ''stage'' Text REQUIRED None,
        col ''status'' Text REQUIRED None,
        col ''started_at'' DateTime REQUIRED None,
        col ''finished_at'' DateTime NULLABLE None,
        col ''audio_sec'' Double NULLABLE None,
        col ''elapsed_sec'' Double NULLABLE None,
        col ''device'' Text NULLABLE None,
        col ''model'' Text NULLABLE None,
        col ''error'' Text NULLABLE None,
        col ''workspace_id'' BigInteger REQUIRED None],
     tb_constraints =
       [(''job_log_pkey'', Primary_key [''id'']),
        (''job_log_workspace_id_fkey'', Foreign_key ''workspace_id'' ''workspaces'' Cascade),
        (''job_log_recording_id_fkey'', Foreign_key ''recording_id'' ''recordings'' Set_null)],
     tb_indexes =
       [index_def ''ix_job_log_recording_id'' [Column_key ''recording_id''] PLAIN None False,
        index_def ''ix_job_log_workspace_id'' [Column_key ''workspace_id''] PLAIN
            None False]\<rparr>"

definition auth_attempts_2e6e :: table_info where
  "auth_attempts_2e6e =
    \<lparr>tb_columns =
       [identity_col ''id'' BigInteger,
        col ''key'' Text REQUIRED None,
        col ''window_start'' DateTime REQUIRED None,
        col ''count'' Integer REQUIRED (Some (Quoted ''0''))],
     tb_constraints =
       [(''auth_attempts_pkey'', Primary_key [''id'']),
        (''uq_auth_attempts_key_window'', Unique [''key'', ''window_start''])],
     tb_indexes =
       [index_def ''ix_auth_attempts_window_start'' [Column_key ''window_start''] PLAIN
            None False]\<rparr>"

definition workspaces_2e6e :: table_info where
  "workspaces_2e6e =
    \<lparr>tb_columns =
       [identity_col ''id'' BigInteger,
        col ''public_id'' Uuid REQUIRED (Some (Computed ''gen_random_uuid()'')),
        col ''slug'' Text REQUIRED None,
        col ''name'' Text REQUIRED None,
        col ''kind'' Text REQUIRED (Some (Quoted ''team'')),
        col ''last_claimed_at'' DateTime NULLABLE None,
        col ''quota_minutes'' Integer NULLABLE None,
        col ''quota_bytes'' BigInteger NULLABLE None,
        col ''created_at'' DateTime REQUIRED (Some (Computed ''now()'')),
        col ''updated_at'' DateTime REQUIRED (Some (Computed ''now()''))],
     tb_constraints =
       [(''workspaces_kind_check'', Check (In_values ''kind'' [''personal'', ''team''])),
        (''workspaces_slug_lower_check'', Check (Is_lower ''slug'')),
        (''workspaces_pkey'', Primary_key [''id'']),
        (''workspaces_public_id_key'', Unique [''public_id'']),
        (''workspaces_slug_key'', Unique [''slug''])],
     tb_indexes =
       [index_def ''ix_workspaces_last_claimed_at'' [Column_key ''last_claimed_at''] PLAIN
            None False]\<rparr>"

definition users_2e6e :: table_info where
  "users_2e6e =
    \<lparr>tb_columns =
       [identity_col ''id'' BigInteger,
        col ''public_id'' Uuid REQUIRED (Some (Computed ''gen_random_uuid()'')),
        col ''email'' Text REQUIRED None,
        col ''password_hash'' Text REQUIRED None,
        col ''display_name'' Text REQUIRED None,
        col ''status'' Text REQUIRED (Some (Quoted ''pending'')),
        col ''signup_note'' Text NULLABLE None,
        col ''reviewed_by_user_id'' BigInteger NULLABLE None,
        col ''reviewed_at'' DateTime NULLABLE None,
        col ''is_service_admin'' Boolean REQUIRED (Some (Truth False)),
        col ''default_workspace_id'' BigInteger NULLABLE None,
        col ''last_login_at'' DateTime NULLABLE None,
        col ''created_at'' DateTime REQUIRED (Some (Computed ''now()'')),
        col ''updated_at'' DateTime REQUIRED (Some (Computed ''now()''))],
     tb_constraints =
       [(''users_status_check'', Check (In_values ''status'' [''pending'', ''active'',
            ''rejected'', ''disabled''])),
        (''users_email_lower_check'', Check (Is_lower ''email'')),
        (''users_default_workspace_id_fkey'', Foreign_key ''default_workspace_id''
            ''workspaces'' Set_null),
        (''users_reviewed_by_user_id_fkey'', Foreign_key ''reviewed_by_user_id''
            ''users'' Set_null),
        (''users_pkey'', Primary_key [''id'']),
        (''users_email_key'', Unique [''email'']),
        (''users_public_id_key'', Unique [''public_id''])],
     tb_indexes =
       []\<rparr>"

definition invites_2e6e :: table_info where
  "invites_2e6e =
    \<lparr>tb_columns =
       [identity_col ''id'' BigInteger,
        col ''public_id'' Uuid REQUIRED (Some (Computed ''gen_random_uuid()'')),
        col ''token_hash'' Text REQUIRED None,
        col ''email'' Text NULLABLE None,
        col ''workspace_id'' BigInteger REQUIRED None,
        col ''role'' Text REQUIRED (Some (Quoted ''member'')),
        col ''created_by_user_id'' BigInteger NULLABLE None,
        col ''expires_at'' DateTime NULLABLE None,
        col ''max_uses'' Integer REQUIRED (Some (Quoted ''1'')),
        col ''uses'' Integer REQUIRED (Some (Quoted ''0'')),
        col ''revoked_at'' DateTime NULLABLE None,
        col ''created_at'' DateTime REQUIRED (Some (Computed ''now()'')),
        col ''updated_at'' DateTime REQUIRED (Some (Computed ''now()''))],
     tb_constraints =
       [(''invites_role_check'', Check (In_values ''role'' [''owner'', ''admin'', ''member'',
            ''viewer''])),
        (''invites_email_lower_check'', Check (Null_or_lower ''email'')),
        (''invites_uses_check'', Check (At_most ''uses'' ''max_uses'')),
        (''invites_created_by_user_id_fkey'', Foreign_key ''created_by_user_id''
            ''users'' Set_null),
        (''invites_workspace_id_fkey'', Foreign_key ''workspace_id'' ''workspaces'' Cascade),
        (''invites_pkey'', Primary_key [''id'']),
        (''invites_public_id_key'', Unique [''public_id'']),
        (''invites_token_hash_key'', Unique [''token_hash''])],
     tb_indexes =
       [index_def ''ix_invites_email'' [Column_key ''email''] PLAIN None False,
        index_def ''ix_invites_workspace_id'' [Column_key ''workspace_id''] PLAIN
            None False]\<rparr>"

definition user_sessions_2e6e :: table_info where
  "user_sessions_2e6e =
    \<lparr>tb_columns =
       [identity_col ''id'' BigInteger,
        col ''public_id'' Uuid REQUIRED (Some (Computed ''gen_random_uuid()'')),
        col ''user_id'' BigInteger REQUIRED None,
        col ''token_hash'' Text REQUIRED None,
        col ''csrf_token'' Text REQUIRED None,
        col ''issued_at'' DateTime REQUIRED (Some (Computed ''now()'')),
        col ''last_seen_at'' DateTime REQUIRED (Some (Computed ''now()'')),
        col ''expires_at'' DateTime REQUIRED None,
        col ''absolute_expires_at'' DateTime REQUIRED None,
        col ''revoked_at'' DateTime NULLABLE None,
        col ''user_agent'' Text NULLABLE None,
        col ''ip'' Text NULLABLE None],
     tb_constraints =
       [(''user_sessions_user_id_fkey'', Foreign_key ''user_id'' ''users'' Cascade),
        (''user_sessions_pkey'', Primary_key [''id'']),
        (''user_sessions_public_id_key'', Unique [''public_id'']),
        (''user_sessions_token_hash_key'', Unique [''token_hash''])],
     tb_indexes =
       [index_def ''ix_user_sessions_expires_at'' [Column_key ''expires_at''] PLAIN None False,
        index_def ''ix_user_sessions_user_id'' [Column_key ''user_id''] PLAIN None False]\<rparr>"

definition workspace_members_2e6e :: table_info where
  "workspace_members_2e6e =
    \<lparr>tb_columns =
       [identity_col ''id'' BigInteger,
        col ''workspace_id'' BigInteger REQUIRED None,
        col ''user_id'' BigInteger REQUIRED None,
        col ''role'' Text REQUIRED (Some (Quoted ''member'')),
        col ''created_at'' DateTime REQUIRED (Some (Computed ''now()'')),
        col ''updated_at'' DateTime REQUIRED (Some (Computed ''now()''))],
     tb_constraints =
       [(''workspace_members_role_check'', Check (In_values ''role'' [''owner'', ''admin'',
            ''member'', ''viewer''])),
        (''workspace_members_user_id_fkey'', Foreign_key ''user_id'' ''users'' Cascade),
        (''workspace_members_workspace_id_fkey'', Foreign_key ''workspace_id''
            ''workspaces'' Cascade),
        (''workspace_members_pkey'', Primary_key [''id'']),
        (''uq_workspace_members_ws_user'', Unique [''workspace_id'', ''user_id''])],
     tb_indexes =
       [index_def ''ix_workspace_members_user_id'' [Column_key ''user_id''] PLAIN None False,
        index_def ''ix_workspace_members_workspace_id'' [Column_key ''workspace_id''] PLAIN
            None False,
        index_def ''uq_workspace_members_single_owner'' [Column_key ''workspace_id''] UNIQUE
            (Some (Where_is ''role'' ''owner'')) False]\<rparr>"

definition recording_shares_2e6e :: table_info where
  "recording_shares_2e6e =
    \<lparr>tb_columns =
       [identity_col ''id'' BigInteger,
        col ''public_id'' Uuid REQUIRED (Some (Computed ''gen_random_uuid()'')),
        col ''recording_id'' BigInteger REQUIRED None,
        col ''user_id'' BigInteger NULLABLE None,
        col ''invite_email'' Text NULLABLE None,
        col ''permission'' Text REQUIRED (Some (Quoted ''view'')),
        col ''created_by_user_id'' BigInteger NULLABLE None,
        col ''created_at'' DateTime REQUIRED (Some (Computed ''now()'')),
        col ''updated_at'' DateTime REQUIRED (Some (Computed ''now()''))],
     tb_constraints =
       [(''recording_shares_permission_check'', Check (In_values ''permission'' [''view'',
            ''edit''])),
        (''recording_shares_target_check'', Check (Exactly_one ''user_id'' ''invite_email'')),
        (''recording_shares_email_lower_check'', Check (Null_or_lower ''invite_email'')),
        (''recording_shares_created_by_user_id_fkey'', Foreign_key ''created_by_user_id''
            ''users'' Set_null),
        (''recording_shares_recording_id_fkey'', Foreign_key ''recording_id''
            ''recordings'' Cascade),
        (''recording_shares_user_id_fkey'', Foreign_key ''user_id'' ''users'' Cascade),
        (''recording_shares_pkey'', Primary_key [''id'']),
        (''recording_shares_public_id_key'', Unique [''public_id''])],
     tb_indexes =
       [index_def ''ix_recording_shares_invite_email'' [Column_key ''invite_email''] PLAIN
            None False,
        index_def ''ix_recording_shares_recording_id'' [Column_key ''recording_id''] PLAIN
            None False,
        index_def ''ix_recording_shares_user_id'' [Column_key ''user_id''] PLAIN None False,
        index_def ''uq_recording_shares_email''
            [Column_key ''recording_id'', Column_key ''invite_email''] UNIQUE (Some (Where_set
            ''invite_email'')) False,
        index_def ''uq_recording_shares_user''
            [Column_key ''recording_id'', Column_key ''user_id''] UNIQUE (Some (Where_set
            ''user_id'')) False]\<rparr>"

definition share_links_2e6e :: table_info where
  "share_links_2e6e =
    \<lparr>tb_columns =
       [identity_col ''id'' BigInteger,
        col ''public_id'' Uuid REQUIRED (Some (Computed ''gen_random_uuid()'')),
        col ''recording_id'' BigInteger REQUIRED None,
        col ''token_hash'' Text REQUIRED None,
        col ''label'' Text NULLABLE None,
        col ''password_hash'' Text NULLABLE None,
        col ''allow_audio'' Boolean REQUIRED (Some (Truth True)),
        col ''allow_speaker_names'' Boolean REQUIRED (Some (Truth True)),
        col ''expires_at'' DateTime NULLABLE None,
        col ''revoked_at'' DateTime NULLABLE None,
        col ''view_count'' BigInteger REQUIRED (Some (Quoted ''0'')),
        col ''last_viewed_at'' DateTime NULLABLE None,
        col ''created_by_user_id'' BigInteger NULLABLE None,
        col ''created_at'' DateTime REQUIRED (Some (Computed ''now()'')),
        col ''updated_at'' DateTime REQUIRED (Some (Computed ''now()''))],
     tb_constraints =
       [(''share_links_created_by_user_id_fkey'', Foreign_key ''created_by_user_id''
            ''users'' Set_null),
        (''share_links_recording_id_fkey'', Foreign_key ''recording_id'' ''recordings'' Cascade),
        (''share_links_pkey'', Primary_key [''id'']),
        (''share_links_public_id_key'', Unique [''public_id'']),
        (''share_links_token_hash_key'', Unique [''token_hash''])],
     tb_indexes =
       [index_def ''ix_share_links_recording_id'' [Column_key ''recording_id''] PLAIN
            None False]\<rparr>"

text \<open>The later revisions change the table of recordings only.\<close>

definition schema_with :: "table_info \<Rightarrow> schema" where
  "schema_with r = \<lparr>sc_extensions = [''pg_trgm''], sc_tables =
     [(''recordings'', r),
      (''tags'', tags_2e6e),
      (''job_log'', job_log_2e6e),
      (''recording_tags'', recording_tags_5c16),
      (''segments'', segments_5c16),
      (''speaker_names'', speaker_names_5c16),
      (''auth_attempts'', auth_attempts_2e6e),
      (''workspaces'', workspaces_2e6e),
      (''users'', users_2e6e),
      (''invites'', invites_2e6e),
      (''user_sessions'', user_sessions_2e6e),
      (''workspace_members'', workspace_members_2e6e),
      (''recording_shares'', recording_shares_2e6e),
      (''share_links'', share_links_2e6e)]\<rparr>"

definition schema_2e6e :: schema where "schema_2e6e = schema_with recordings_2e6e"

text \<open>Points on the way: the new tables made two and four at a time, then the ledger bound to them.\<close>

definition schema_half :: schema where
  "schema_half = schema_5c16\<lparr>sc_tables := sc_tables schema_5c16 @
     [(''auth_attempts'', auth_attempts_2e6e),
      (''workspaces'', workspaces_2e6e),
      (''users'', users_2e6e),
      (''invites'', invites_2e6e)]\<rparr>"

definition schema_members :: schema where
  "schema_members = schema_half\<lparr>sc_tables := sc_tables schema_half @
     [(''user_sessions'', user_sessions_2e6e),
      (''workspace_members'', workspace_members_2e6e)]\<rparr>"

definition schema_unbound :: schema where
  "schema_unbound = schema_members\<lparr>sc_tables := sc_tables schema_members @
     [(''recording_shares'', recording_shares_2e6e),
      (''share_links'', share_links_2e6e)]\<rparr>"

definition schema_charged :: schema where
  "schema_charged = schema_unbound\<lparr>sc_tables := map (\<lambda>(t, tb).
     (t, if t = ''job_log'' then job_log_2e6e else tb)) (sc_tables schema_unbound)\<rparr>"

subsection \<open>The later revisions\<close>

definition recordings_e52d :: table_info where
  "recordings_e52d = recordings_2e6e\<lparr>tb_constraints := butlast (tb_constraints recordings_2e6e) @
     [(''recordings_status_check'', Check (In_values ''status'' STATUSES_AFTER))]\<rparr>"

definition recordings_a1c7 :: table_info where
  "recordings_a1c7 = recordings_e52d
     \<lparr>tb_columns := tb_columns recordings_e52d @ [col ''content_hash'' Text NULLABLE None],
      tb_indexes := tb_indexes recordings_e52d @ [index_def ''ix_recordings_workspace_content_hash''
        [Column_key ''workspace_id'', Column_key ''content_hash''] PLAIN None False]\<rparr>"

definition recordings_356e :: table_info where
  "recordings_356e = recordings_a1c7\<lparr>tb_columns := tb_columns recordings_a1c7 @
     [col ''runner_request_id'' Uuid NULLABLE None, col ''runner_started_at'' DateTime NULLABLE None]\<rparr>"

definition recordings_head :: table_info where
  "recordings_head = recordings_356e
     \<lparr>tb_columns := tb_columns recordings_356e @
        [col ''path_current'' Boolean REQUIRED (Some (Truth True)),
         col ''file_signature'' Jsonb NULLABLE None],
      tb_constraints := filter (\<lambda>(n, b). n \<noteq> ''recordings_path_key'') (tb_constraints recordings_356e),
      tb_indexes := tb_indexes recordings_356e @ [index_def ''uq_recordings_current_path''
        [Column_key ''path''] UNIQUE (Some (Where_true ''path_current'')) False]\<rparr>"

definition schema_head :: schema where "schema_head = schema_with recordings_head"

subsection \<open>The statements lead from one to the next\<close>

lemma up_5c16: "run_ddl (initial_upgrade @ progress_upgrade @ kind_upgrade) empty_schema = Inr schema_5c16"
  by code_simp

lemma up_half: "run_ddl (guard_empty @ tenancy_auth_attempts @ tenancy_workspaces @ tenancy_users @
    tenancy_invites) schema_5c16 = Inr schema_half"
  by code_simp

lemma up_members: "run_ddl (tenancy_user_sessions @ tenancy_workspace_members) schema_half = Inr schema_members"
  by code_simp

lemma up_unbound: "run_ddl (tenancy_recording_shares @ tenancy_share_links) schema_members = Inr schema_unbound"
  by code_simp

lemma up_charged: "run_ddl bind_job_log schema_unbound = Inr schema_charged"
  by code_simp

lemma up_bound: "run_ddl (bind_recordings @ bind_tags @ widen_status) schema_charged = Inr schema_2e6e"
  by code_simp

lemma up_2e6e: "run_ddl multitenancy_upgrade schema_5c16 = Inr schema_2e6e"
proof -
  have "multitenancy_upgrade =
      (guard_empty @ tenancy_auth_attempts @ tenancy_workspaces @ tenancy_users @ tenancy_invites) @
      (tenancy_user_sessions @ tenancy_workspace_members) @
      (tenancy_recording_shares @ tenancy_share_links) @
      bind_job_log @ (bind_recordings @ bind_tags @ widen_status)"
    by (simp add: multitenancy_upgrade_def)
  moreover have "run_ddl \<dots> schema_5c16 = Inr schema_2e6e"
    by (simp only: run_ddl_via [OF up_half] run_ddl_via [OF up_members]
        run_ddl_via [OF up_unbound] run_ddl_via [OF up_charged] up_bound)
  ultimately show ?thesis by (simp only:)
qed

lemma up_e52d: "run_ddl summarizing_upgrade schema_2e6e = Inr (schema_with recordings_e52d)"
  by code_simp

lemma up_a1c7: "run_ddl content_hash_upgrade (schema_with recordings_e52d) = Inr (schema_with recordings_a1c7)"
  by code_simp

lemma up_356e: "run_ddl checkpoint_upgrade (schema_with recordings_a1c7) = Inr (schema_with recordings_356e)"
  by code_simp

lemma up_ed92: "run_ddl current_path_upgrade (schema_with recordings_356e) = Inr schema_head"
  by code_simp

lemma down_e52d: "run_ddl summarizing_downgrade (schema_with recordings_e52d) = Inr schema_2e6e"
  by code_simp

lemma down_a1c7: "run_ddl content_hash_downgrade (schema_with recordings_a1c7) = Inr (schema_with recordings_e52d)"
  by code_simp

lemma down_356e: "run_ddl checkpoint_downgrade (schema_with recordings_356e) = Inr (schema_with recordings_a1c7)"
  by code_simp

text \<open>Undoing the last revision puts the key on the path back, behind the other constraints.\<close>

definition recordings_undone :: table_info where
  "recordings_undone = recordings_356e\<lparr>tb_constraints :=
     filter (\<lambda>(n, b). n \<noteq> ''recordings_path_key'') (tb_constraints recordings_356e) @
     [(''recordings_path_key'', Unique [''path''])]\<rparr>"

lemma down_ed92: "run_ddl current_path_downgrade schema_head = Inr (schema_with recordings_undone)"
  by code_simp

lemma same_undone: "same_table recordings_undone recordings_356e"
  by code_simp

end
