(* ===== verification/Declared_Schema.thy ===== *)
theory Declared_Schema
  imports Schema_Snapshots Queries
begin

text \<open>
  The schema that \<open>models.py\<close> declares: for each class its table arguments and its mapped
  columns as they are written, and what SQLAlchemy makes of a mapped column. The value sets of
  the checks are those of the enumerations in \<open>Models\<close>.
\<close>

subsection \<open>Mapped columns\<close>

datatype column_option =
  Optional
| Primary
| Is_unique
| Is_indexed
| With_identity
| References string on_delete
| Server_default server_default

record orm_column =
  mp_name :: string
  mp_type :: sql_type
  mp_options :: "column_option list"

definition mapped :: "string \<Rightarrow> sql_type \<Rightarrow> column_option list \<Rightarrow> orm_column" where
  "mapped n ty opts = \<lparr>mp_name = n, mp_type = ty, mp_options = opts\<rparr>"

record orm_class =
  tablename :: string
  args :: "(string option \<times> constraint) list"
  indexes :: "index_info list"
  mapped_columns :: "orm_column list"

definition has_option :: "column_option \<Rightarrow> orm_column \<Rightarrow> bool" where
  "has_option x m = list_ex (\<lambda>y. y = x) (mp_options m)"

fun default_in :: "column_option list \<Rightarrow> server_default option" where
  "default_in [] = None"
| "default_in (Server_default x # xs) = Some x"
| "default_in (_ # xs) = default_in xs"

fun reference_in :: "column_option list \<Rightarrow> (string \<times> on_delete) option" where
  "reference_in [] = None"
| "reference_in (References t od # xs) = Some (t, od)"
| "reference_in (_ # xs) = reference_in xs"

text \<open>A column is NOT NULL unless its annotation is \<open>| None\<close>; \<open>unique=True\<close> is an unnamed unique
  constraint, \<open>index=True\<close> an index \<open>ix_\<close>table\<open>_\<close>column, \<open>ForeignKey\<close> an unnamed foreign key, and
  the columns with \<open>primary_key=True\<close> form the primary key.\<close>

definition column_of :: "orm_column \<Rightarrow> column" where
  "column_of m = \<lparr>col_name = mp_name m, col_type = mp_type m, col_nullable = has_option Optional m,
     col_default = default_in (mp_options m), col_identity = has_option With_identity m\<rparr>"

definition constraints_of :: "orm_column \<Rightarrow> (string option \<times> constraint) list" where
  "constraints_of m =
     (if has_option Is_unique m then [(None, Unique [mp_name m])] else []) @
     (case reference_in (mp_options m) of
        Some (t, od) \<Rightarrow> [(None, Foreign_key (mp_name m) t od)] | None \<Rightarrow> [])"

definition index_of :: "string \<Rightarrow> orm_column \<Rightarrow> index_info list" where
  "index_of t m = (if has_option Is_indexed m
     then [index_def (''ix'' @ underscored [t, mp_name m]) [Column_key (mp_name m)] PLAIN None False]
     else [])"

definition primary_key_of :: "orm_column list \<Rightarrow> string option \<times> constraint" where
  "primary_key_of ms = (None, Primary_key (map mp_name (filter (has_option Primary) ms)))"

definition table_declared :: "orm_class \<Rightarrow> string \<times> table_info" where
  "table_declared x = (tablename x,
     \<lparr>tb_columns = map column_of (mapped_columns x),
      tb_constraints = map (\<lambda>nc. (constraint_name (tablename x) nc, snd nc))
        (args x @ primary_key_of (mapped_columns x) # concat (map constraints_of (mapped_columns x))),
      tb_indexes = indexes x @ concat (map (index_of (tablename x)) (mapped_columns x))\<rparr>)"

subsection \<open>The classes of \<open>models.py\<close>\<close>

definition WORKSPACE_KINDS :: "string list" where
  "WORKSPACE_KINDS = [''personal'', ''team'']"

definition RECORDING_SOURCES :: "string list" where
  "RECORDING_SOURCES = [''upload'', ''scan'']"

definition in_check :: "string \<Rightarrow> string list \<Rightarrow> check_rule" where
  "in_check c vs = In_values c vs"

definition TimestampMixin :: "orm_column list" where
  "TimestampMixin =
    [mapped ''created_at'' DateTime [Server_default (Computed ''now()'')],
     mapped ''updated_at'' DateTime [Server_default (Computed ''now()'')]]"

definition User_table :: orm_class where
  "User_table = \<lparr>tablename = ''users'',
     args = [(Some ''users_email_lower_check'', Check (Is_lower ''email'')),
             (Some ''users_status_check'', Check (in_check ''status''
            (map user_status_name USER_STATUSES)))],
     indexes = [],
     mapped_columns = TimestampMixin @
       [mapped ''id'' BigInteger [With_identity, Primary],
        mapped ''public_id'' Uuid [Server_default (Computed ''gen_random_uuid()''), Is_unique],
        mapped ''email'' Text [Is_unique],
        mapped ''password_hash'' Text [],
        mapped ''display_name'' Text [],
        mapped ''status'' Text [Server_default (Quoted ''pending'')],
        mapped ''signup_note'' Text [Optional],
        mapped ''reviewed_by_user_id'' BigInteger [Optional, References ''users'' Set_null],
        mapped ''reviewed_at'' DateTime [Optional],
        mapped ''is_service_admin'' Boolean [Server_default (Truth False)],
        mapped ''default_workspace_id'' BigInteger [Optional, References ''workspaces'' Set_null],
        mapped ''last_login_at'' DateTime [Optional]]\<rparr>"

definition Workspace_table :: orm_class where
  "Workspace_table = \<lparr>tablename = ''workspaces'',
     args = [(Some ''workspaces_kind_check'', Check (in_check ''kind'' WORKSPACE_KINDS)),
             (Some ''workspaces_slug_lower_check'', Check (Is_lower ''slug''))],
     indexes = [],
     mapped_columns = TimestampMixin @
       [mapped ''id'' BigInteger [With_identity, Primary],
        mapped ''public_id'' Uuid [Server_default (Computed ''gen_random_uuid()''), Is_unique],
        mapped ''slug'' Text [Is_unique],
        mapped ''name'' Text [],
        mapped ''kind'' Text [Server_default (Quoted ''team'')],
        mapped ''last_claimed_at'' DateTime [Optional, Is_indexed],
        mapped ''quota_minutes'' Integer [Optional],
        mapped ''quota_bytes'' BigInteger [Optional]]\<rparr>"

definition WorkspaceMember_table :: orm_class where
  "WorkspaceMember_table = \<lparr>tablename = ''workspace_members'',
     args = [(Some ''uq_workspace_members_ws_user'', Unique [''workspace_id'', ''user_id'']),
             (Some ''workspace_members_role_check'', Check (in_check ''role''
            (map role_name WORKSPACE_ROLES)))],
     indexes = [index_def ''uq_workspace_members_single_owner'' [Column_key ''workspace_id'']
            UNIQUE (Some (Where_is ''role'' ''owner'')) False],
     mapped_columns = TimestampMixin @
       [mapped ''id'' BigInteger [With_identity, Primary],
        mapped ''workspace_id'' BigInteger [References ''workspaces'' Cascade, Is_indexed],
        mapped ''user_id'' BigInteger [References ''users'' Cascade, Is_indexed],
        mapped ''role'' Text [Server_default (Quoted ''member'')]]\<rparr>"

definition UserSession_table :: orm_class where
  "UserSession_table = \<lparr>tablename = ''user_sessions'',
     args = [],
     indexes = [],
     mapped_columns =
       [mapped ''id'' BigInteger [With_identity, Primary],
        mapped ''public_id'' Uuid [Server_default (Computed ''gen_random_uuid()''), Is_unique],
        mapped ''user_id'' BigInteger [References ''users'' Cascade, Is_indexed],
        mapped ''token_hash'' Text [Is_unique],
        mapped ''csrf_token'' Text [],
        mapped ''issued_at'' DateTime [Server_default (Computed ''now()'')],
        mapped ''last_seen_at'' DateTime [Server_default (Computed ''now()'')],
        mapped ''expires_at'' DateTime [Is_indexed],
        mapped ''absolute_expires_at'' DateTime [],
        mapped ''revoked_at'' DateTime [Optional],
        mapped ''user_agent'' Text [Optional],
        mapped ''ip'' Text [Optional]]\<rparr>"

definition Invite_table :: orm_class where
  "Invite_table = \<lparr>tablename = ''invites'',
     args = [(Some ''invites_email_lower_check'', Check (Null_or_lower ''email'')),
             (Some ''invites_role_check'', Check (in_check ''role''
            (map role_name WORKSPACE_ROLES))),
             (Some ''invites_uses_check'', Check (At_most ''uses'' ''max_uses''))],
     indexes = [index_def ''ix_invites_email'' [Column_key ''email''] PLAIN None False],
     mapped_columns = TimestampMixin @
       [mapped ''id'' BigInteger [With_identity, Primary],
        mapped ''public_id'' Uuid [Server_default (Computed ''gen_random_uuid()''), Is_unique],
        mapped ''token_hash'' Text [Is_unique],
        mapped ''email'' Text [Optional],
        mapped ''workspace_id'' BigInteger [References ''workspaces'' Cascade, Is_indexed],
        mapped ''role'' Text [Server_default (Quoted ''member'')],
        mapped ''created_by_user_id'' BigInteger [Optional, References ''users'' Set_null],
        mapped ''expires_at'' DateTime [Optional],
        mapped ''max_uses'' Integer [Server_default (Quoted ''1'')],
        mapped ''uses'' Integer [Server_default (Quoted ''0'')],
        mapped ''revoked_at'' DateTime [Optional]]\<rparr>"

definition RecordingShare_table :: orm_class where
  "RecordingShare_table = \<lparr>tablename = ''recording_shares'',
     args = [(Some ''recording_shares_target_check'', Check (Exactly_one ''user_id''
            ''invite_email'')),
             (Some ''recording_shares_permission_check'', Check (in_check ''permission''
            (map share_name SHARE_PERMISSIONS))),
             (Some ''recording_shares_email_lower_check'', Check (Null_or_lower
            ''invite_email''))],
     indexes = [index_def ''uq_recording_shares_user''
            [Column_key ''recording_id'', Column_key ''user_id''] UNIQUE (Some (Where_set
            ''user_id'')) False,
                index_def ''uq_recording_shares_email''
            [Column_key ''recording_id'', Column_key ''invite_email''] UNIQUE (Some (Where_set
            ''invite_email'')) False,
                index_def ''ix_recording_shares_user_id'' [Column_key ''user_id''] PLAIN
            None False,
                index_def ''ix_recording_shares_invite_email'' [Column_key ''invite_email'']
            PLAIN None False],
     mapped_columns = TimestampMixin @
       [mapped ''id'' BigInteger [With_identity, Primary],
        mapped ''public_id'' Uuid [Server_default (Computed ''gen_random_uuid()''), Is_unique],
        mapped ''recording_id'' BigInteger [References ''recordings'' Cascade, Is_indexed],
        mapped ''user_id'' BigInteger [Optional, References ''users'' Cascade],
        mapped ''invite_email'' Text [Optional],
        mapped ''permission'' Text [Server_default (Quoted ''view'')],
        mapped ''created_by_user_id'' BigInteger [Optional, References
            ''users'' Set_null]]\<rparr>"

definition ShareLink_table :: orm_class where
  "ShareLink_table = \<lparr>tablename = ''share_links'',
     args = [],
     indexes = [],
     mapped_columns = TimestampMixin @
       [mapped ''id'' BigInteger [With_identity, Primary],
        mapped ''public_id'' Uuid [Server_default (Computed ''gen_random_uuid()''), Is_unique],
        mapped ''recording_id'' BigInteger [References ''recordings'' Cascade, Is_indexed],
        mapped ''token_hash'' Text [Is_unique],
        mapped ''label'' Text [Optional],
        mapped ''password_hash'' Text [Optional],
        mapped ''allow_audio'' Boolean [Server_default (Truth True)],
        mapped ''allow_speaker_names'' Boolean [Server_default (Truth True)],
        mapped ''expires_at'' DateTime [Optional],
        mapped ''revoked_at'' DateTime [Optional],
        mapped ''view_count'' BigInteger [Server_default (Quoted ''0'')],
        mapped ''last_viewed_at'' DateTime [Optional],
        mapped ''created_by_user_id'' BigInteger [Optional, References
            ''users'' Set_null]]\<rparr>"

definition AuthAttempt_table :: orm_class where
  "AuthAttempt_table = \<lparr>tablename = ''auth_attempts'',
     args = [(Some ''uq_auth_attempts_key_window'', Unique [''key'', ''window_start''])],
     indexes = [index_def ''ix_auth_attempts_window_start'' [Column_key ''window_start''] PLAIN
            None False],
     mapped_columns =
       [mapped ''id'' BigInteger [With_identity, Primary],
        mapped ''key'' Text [],
        mapped ''window_start'' DateTime [],
        mapped ''count'' Integer [Server_default (Quoted ''0'')]]\<rparr>"

definition Recording_table :: orm_class where
  "Recording_table = \<lparr>tablename = ''recordings'',
     args = [(Some ''recordings_status_check'', Check (in_check ''status''
            (map status_name RECORDING_STATUSES))),
             (Some ''recordings_source_check'', Check (in_check ''source'' RECORDING_SOURCES))],
     indexes = [index_def ''uq_recordings_current_path'' [Column_key ''path''] UNIQUE
            (Some (Where_true ''path_current'')) False,
                index_def ''ix_recordings_status_workspace''
            [Column_key ''status'', Column_key ''workspace_id''] PLAIN None False,
                index_def ''ix_recordings_workspace_recorded_at''
            [Column_key ''workspace_id'', Expression_key ''recorded_at DESC NULLS LAST'', Expression_key ''id DESC''] PLAIN None False,
                index_def ''ix_recordings_workspace_partial_hash''
            [Column_key ''workspace_id'', Column_key ''partial_hash''] PLAIN None False,
                index_def ''ix_recordings_workspace_content_hash''
            [Column_key ''workspace_id'', Column_key ''content_hash''] PLAIN None False,
                index_def ''ix_recordings_filename_trgm'' [Column_key ''filename''] PLAIN
            None True,
                index_def ''ix_recordings_title_trgm'' [Column_key ''title''] PLAIN None True,
                index_def ''ix_recordings_summary_trgm'' [Column_key ''summary''] PLAIN
            None True],
     mapped_columns = TimestampMixin @
       [mapped ''id'' BigInteger [With_identity, Primary],
        mapped ''public_id'' Uuid [Server_default (Computed ''gen_random_uuid()''), Is_unique],
        mapped ''workspace_id'' BigInteger [References ''workspaces'' Cascade, Is_indexed],
        mapped ''created_by_user_id'' BigInteger [Optional, References ''users'' Set_null],
        mapped ''source'' Text [Server_default (Quoted ''upload'')],
        mapped ''path'' Text [],
        mapped ''path_current'' Boolean [Server_default (Truth True)],
        mapped ''file_signature'' Jsonb [Optional],
        mapped ''filename'' Text [],
        mapped ''size_bytes'' BigInteger [],
        mapped ''partial_hash'' Text [],
        mapped ''content_hash'' Text [Optional],
        mapped ''recorded_at'' DateTime [Optional],
        mapped ''duration_sec'' Double [Optional],
        mapped ''language'' Text [Optional],
        mapped ''title'' Text [Optional],
        mapped ''summary'' Text [Optional],
        mapped ''status'' Text [Server_default (Quoted ''pending'')],
        mapped ''error'' Text [Optional],
        mapped ''stt_meta'' Jsonb [Optional],
        mapped ''runner_request_id'' Uuid [Optional],
        mapped ''runner_started_at'' DateTime [Optional],
        mapped ''progress'' Double [Optional],
        mapped ''stage_started_at'' DateTime [Optional],
        mapped ''duplicate_of_id'' BigInteger [Optional, References
            ''recordings'' Set_null]]\<rparr>"

definition Segment_table :: orm_class where
  "Segment_table = \<lparr>tablename = ''segments'',
     args = [(None, Unique [''recording_id'', ''idx''])],
     indexes = [index_def ''ix_segments_text_trgm'' [Column_key ''text''] PLAIN None True],
     mapped_columns =
       [mapped ''id'' BigInteger [With_identity, Primary],
        mapped ''recording_id'' BigInteger [References ''recordings'' Cascade, Is_indexed],
        mapped ''idx'' Integer [],
        mapped ''start_sec'' Double [],
        mapped ''end_sec'' Double [],
        mapped ''speaker_key'' Text [Optional],
        mapped ''text'' Text [],
        mapped ''words'' Jsonb [Optional],
        mapped ''kind'' Text [Server_default (Quoted ''speech'')]]\<rparr>"

definition SpeakerName_table :: orm_class where
  "SpeakerName_table = \<lparr>tablename = ''speaker_names'',
     args = [(None, Unique [''recording_id'', ''speaker_key''])],
     indexes = [],
     mapped_columns =
       [mapped ''id'' BigInteger [With_identity, Primary],
        mapped ''recording_id'' BigInteger [References ''recordings'' Cascade, Is_indexed],
        mapped ''speaker_key'' Text [],
        mapped ''display_name'' Text []]\<rparr>"

definition Tag_table :: orm_class where
  "Tag_table = \<lparr>tablename = ''tags'',
     args = [(Some ''uq_tags_workspace_name'', Unique [''workspace_id'', ''name''])],
     indexes = [],
     mapped_columns = TimestampMixin @
       [mapped ''id'' BigInteger [With_identity, Primary],
        mapped ''public_id'' Uuid [Server_default (Computed ''gen_random_uuid()''), Is_unique],
        mapped ''workspace_id'' BigInteger [References ''workspaces'' Cascade, Is_indexed],
        mapped ''name'' Text []]\<rparr>"

definition RecordingTag_table :: orm_class where
  "RecordingTag_table = \<lparr>tablename = ''recording_tags'',
     args = [],
     indexes = [],
     mapped_columns =
       [mapped ''recording_id'' BigInteger [References ''recordings'' Cascade, Primary],
        mapped ''tag_id'' BigInteger [References ''tags'' Cascade, Primary]]\<rparr>"

definition JobLog_table :: orm_class where
  "JobLog_table = \<lparr>tablename = ''job_log'',
     args = [],
     indexes = [],
     mapped_columns =
       [mapped ''id'' BigInteger [With_identity, Primary],
        mapped ''workspace_id'' BigInteger [References ''workspaces'' Cascade, Is_indexed],
        mapped ''recording_id'' BigInteger [Optional, References ''recordings'' Set_null,
            Is_indexed],
        mapped ''stage'' Text [],
        mapped ''status'' Text [],
        mapped ''started_at'' DateTime [],
        mapped ''finished_at'' DateTime [Optional],
        mapped ''audio_sec'' Double [Optional],
        mapped ''elapsed_sec'' Double [Optional],
        mapped ''device'' Text [Optional],
        mapped ''model'' Text [Optional],
        mapped ''error'' Text [Optional]]\<rparr>"

definition declared_schema :: schema where
  "declared_schema = \<lparr>sc_extensions = [''pg_trgm''], sc_tables = map table_declared
     [User_table, Workspace_table, WorkspaceMember_table, UserSession_table, Invite_table, RecordingShare_table, ShareLink_table, AuthAttempt_table, Recording_table, Segment_table, SpeakerName_table, Tag_table, RecordingTag_table, JobLog_table]\<rparr>"

lemma head_is_declared: "same_tables schema_head declared_schema"
  by code_simp

end
