(* ===== verification/Schema_Upgrades.thy ===== *)
theory Schema_Upgrades
  imports Declared_Schema
begin

text \<open>
  What the chain of revisions promises, under \<open>env.py\<close>, which runs them in one transaction:
  they lead to the schema of \<open>models.py\<close>, each can be undone, and they deal with existing rows
  as their comments say.
\<close>

text \<open>\<open>run_migrations_online\<close>: all statements or none.\<close>

definition run_migrations_online ::
  "(string \<Rightarrow> sql_value) \<Rightarrow> statement list \<Rightarrow> database \<Rightarrow> sql_error option \<times> database" where
  "run_migrations_online server xs sd =
     (case run_statements server xs sd of Inl e \<Rightarrow> (Some e, sd) | Inr sd' \<Rightarrow> (None, sd'))"

text \<open>\<open>_database_url\<close>: what the caller set, else the setting.\<close>

definition migration_url ::
  "string option \<Rightarrow> (config_error, settings) result \<Rightarrow> (config_error, string) result" where
  "migration_url override settings =
     (if override \<noteq> None \<and> override \<noteq> Some [] then Inr (the override)
      else and_then settings (\<lambda>s. Inr (cfg_database_url s)))"

text \<open>A migration never runs against an empty address.\<close>

lemma migration_url_not_empty:
  "migration_url override (load_settings resolve expand dotenv env0) = Inr url \<Longrightarrow> url \<noteq> []"
  using load_settings_Inr(5) by (auto simp: migration_url_def and_then_Inr split: if_splits)

definition upgrade_statements :: "revision list \<Rightarrow> statement list" where
  "upgrade_statements rs = concat (map rv_upgrade rs)"

definition linked :: "revision list \<Rightarrow> bool" where
  "linked rs \<longleftrightarrow> map rv_down_revision rs = None # map (\<lambda>r. Some (rv_revision r)) (butlast rs)"

lemmas revision_defs = rev_initial_def rev_progress_def rev_kind_def rev_multitenancy_def
  rev_summarizing_def rev_content_hash_def rev_checkpoint_def rev_current_path_def revision_of_def

lemma revisions_linked: "linked revisions"
  by (simp add: linked_def revisions_def revision_defs)

subsection \<open>The schema\<close>

lemma upgrades_5c16: "run_ddl (upgrade_statements [rev_initial, rev_progress, rev_kind]) empty_schema = Inr schema_5c16"
  using up_5c16 by (simp add: upgrade_statements_def revision_defs)

lemma upgrades_2e6e:
  "run_ddl (upgrade_statements [rev_initial, rev_progress, rev_kind, rev_multitenancy]) empty_schema =
     Inr schema_2e6e"
proof -
  have "upgrade_statements [rev_initial, rev_progress, rev_kind, rev_multitenancy] =
      (initial_upgrade @ progress_upgrade @ kind_upgrade) @ multitenancy_upgrade"
    by (simp add: upgrade_statements_def revision_defs)
  moreover have "run_ddl ((initial_upgrade @ progress_upgrade @ kind_upgrade) @ multitenancy_upgrade)
      empty_schema = Inr schema_2e6e"
    by (subst run_ddl_append) (simp only: up_5c16 up_2e6e and_then.simps)
  ultimately show ?thesis by (simp only:)
qed

definition later_upgrades :: "statement list" where
  "later_upgrades = upgrade_statements [rev_summarizing, rev_content_hash, rev_checkpoint, rev_current_path]"

lemma up_head: "run_ddl (summarizing_upgrade @ content_hash_upgrade @ checkpoint_upgrade @
    current_path_upgrade) schema_2e6e = Inr schema_head"
  by (simp only: run_ddl_via [OF up_e52d] run_ddl_via [OF up_a1c7] run_ddl_via [OF up_356e] up_ed92)

lemma later_head: "run_ddl later_upgrades schema_2e6e = Inr schema_head"
  using up_head by (simp add: later_upgrades_def upgrade_statements_def revision_defs)

lemma upgrades_head: "run_ddl (upgrade_statements revisions) empty_schema = Inr schema_head"
proof -
  have "upgrade_statements revisions =
      upgrade_statements [rev_initial, rev_progress, rev_kind, rev_multitenancy] @ later_upgrades"
    by (simp add: upgrade_statements_def revisions_def later_upgrades_def)
  then show ?thesis by (simp only: run_ddl_append upgrades_2e6e later_head and_then.simps)
qed

lemma no_rows_empty: "no_rows empty_schema (\<lambda>t. [])"
  by (simp add: no_rows_def)

text \<open>C16. The whole chain, run by \<open>alembic upgrade head\<close> on an empty database, finds everything its
  statements name, ends without an error and leaves exactly the tables, columns, defaults,
  checks, keys and indexes that \<open>models.py\<close> declares, and no row.\<close>

theorem upgrades_reach_the_models:
  "\<exists>s d. run_migrations_online server (upgrade_statements revisions) (empty_schema, \<lambda>t. []) = (None, s, d) \<and>
     same_tables s declared_schema \<and> no_rows s d"
proof -
  obtain d where "run_statements server (upgrade_statements revisions) (empty_schema, \<lambda>t. []) = Inr (schema_head, d)"
    "no_rows schema_head d"
    using run_without_rows [OF no_rows_empty upgrades_head] by blast
  then show ?thesis using head_is_declared by (simp add: run_migrations_online_def)
qed

subsection \<open>Undoing a revision\<close>

fun round_trips :: "revision list \<Rightarrow> schema \<Rightarrow> bool" where
  "round_trips [] s = True"
| "round_trips (r # rs) s = (case run_ddl (rv_upgrade r) s of
       Inl e \<Rightarrow> False
     | Inr s' \<Rightarrow> (case run_ddl (rv_downgrade r) s' of
           Inl e \<Rightarrow> False
         | Inr s'' \<Rightarrow> same_tables s'' s \<and> round_trips rs s'))"

lemma round_trips_append:
  "round_trips (xs @ ys) s \<longleftrightarrow> round_trips xs s \<and>
     (\<forall>s'. run_ddl (upgrade_statements xs) s = Inr s' \<longrightarrow> round_trips ys s')"
proof (induction xs arbitrary: s)
  case Nil
  then show ?case by (simp add: upgrade_statements_def)
next
  case (Cons x xs)
  then show ?case
    by (auto simp: upgrade_statements_def run_ddl_append and_then_Inr split: sum.splits)
qed

lemma early_round_trips: "round_trips [rev_initial, rev_progress, rev_kind] empty_schema"
  by code_simp

lemma down_5c16: "case run_ddl multitenancy_downgrade schema_2e6e of
    Inl e \<Rightarrow> False | Inr s \<Rightarrow> same_tables s schema_5c16"
  by code_simp

lemma same_undone_tables: "same_tables (schema_with recordings_undone) (schema_with recordings_356e)"
  using same_undone same_undone [unfolded same_table_sym [of recordings_undone]]
  by (simp add: same_tables_def schema_with_def same_items_def covered_def)

lemma late_round_trips:
  "round_trips [rev_summarizing, rev_content_hash, rev_checkpoint, rev_current_path] schema_2e6e"
  using same_undone_tables
  by (simp add: revision_defs up_e52d up_a1c7 up_356e up_ed92 down_e52d down_a1c7 down_356e down_ed92)

lemma all_round_trips: "round_trips revisions empty_schema"
proof -
  have "round_trips [rev_multitenancy] schema_5c16"
    using up_2e6e down_5c16 by (simp add: revision_defs split: sum.splits)
  then have "round_trips ([rev_initial, rev_progress, rev_kind] @ [rev_multitenancy]) empty_schema"
    using early_round_trips upgrades_5c16 by (simp only: round_trips_append sum.inject) simp
  then have "round_trips (([rev_initial, rev_progress, rev_kind] @ [rev_multitenancy]) @
      [rev_summarizing, rev_content_hash, rev_checkpoint, rev_current_path]) empty_schema"
    using late_round_trips upgrades_2e6e by (subst round_trips_append) simp
  then show ?thesis by (simp add: revisions_def)
qed



end
