(* ===== verification/Schema_Rows.thy ===== *)
theory Schema_Rows
  imports Schema_Upgrades
begin

text \<open>
  What the revisions do to the rows of a database that conforms to the schema it is stored
  under: which upgrades need it empty, which keep every row, and which downgrades refuse.
\<close>

subsection \<open>Existing rows\<close>

text \<open>A table whose rows must refer to rows of another is empty when that one is.\<close>

fun refers_via :: "string \<Rightarrow> column list \<Rightarrow> constraint \<Rightarrow> bool" where
  "refers_via u cs (Foreign_key c v od) = (v = u \<and> list_ex (\<lambda>x. col_name x = c \<and> \<not> col_nullable x) cs)"
| "refers_via u cs _ = False"

definition must_refer :: "table_info \<Rightarrow> string \<Rightarrow> bool" where
  "must_refer tb u = list_ex (\<lambda>(n, b). refers_via u (tb_columns tb) b) (tb_constraints tb)"

lemma must_refer_empty:
  assumes "table_holds d tb rs" "must_refer tb u" "d u = []"
  shows "rs = []"
proof -
  obtain n c od where fk: "(n, Foreign_key c u od) \<in> set (tb_constraints tb)"
    and c: "list_ex (\<lambda>x. col_name x = c \<and> \<not> col_nullable x) (tb_columns tb)"
    using assms(2) by (auto simp: must_refer_def list_ex_iff elim!: refers_via.elims)
  have "list_all (\<lambda>r. r c = Null) rs"
    using assms(1,3) fk by (fastforce simp: table_holds_def list_all_iff)
  moreover have "list_all (\<lambda>r. r c \<noteq> Null) rs"
    using assms(1) c by (auto simp: table_holds_def list_all_iff list_ex_iff)
  ultimately show ?thesis by (cases rs) simp_all
qed

lemma tables_5c16:
  "must_refer job_log_5c16 ''recordings''" "must_refer recording_tags_5c16 ''recordings''"
  "must_refer segments_5c16 ''recordings''" "must_refer speaker_names_5c16 ''recordings''"
  by (simp_all add: must_refer_def job_log_5c16_def recording_tags_5c16_def segments_5c16_def
      speaker_names_5c16_def col_def identity_col_def)

lemma archive_empty:
  assumes "conforms schema_5c16 d" "d ''recordings'' = []" "d ''tags'' = []"
  shows "no_rows schema_5c16 d"
proof -
  have "table_holds d job_log_5c16 (d ''job_log'')" "table_holds d recording_tags_5c16 (d ''recording_tags'')"
    "table_holds d segments_5c16 (d ''segments'')" "table_holds d speaker_names_5c16 (d ''speaker_names'')"
    using assms(1) by (simp_all add: conforms_def schema_5c16_def)
  then have "d ''job_log'' = []" "d ''recording_tags'' = []" "d ''segments'' = []" "d ''speaker_names'' = []"
    using tables_5c16 must_refer_empty [of d _ _ "''recordings''"] assms(2) by blast+
  then show ?thesis using assms(2,3) by (simp add: no_rows_def table_names_def schema_5c16_def)
qed

text \<open>C26. The revision that introduces the workspaces asks for an empty archive and deletes nothing to
  get one: with a recording or a tag left it stops with that error and the database is as it
  was; with neither, no other table can hold a row that would stop it, and it succeeds.\<close>

theorem multitenancy_needs_an_empty_archive:
  assumes "run_ddl (upgrade_statements [rev_initial, rev_progress, rev_kind]) empty_schema = Inr s"
    and "conforms s d"
  shows "(d ''recordings'' \<noteq> [] \<longrightarrow> run_migrations_online server (rv_upgrade rev_multitenancy) (s, d) =
             (Some (Rows_remain ''recordings''), s, d)) \<and>
         (d ''recordings'' = [] \<and> d ''tags'' \<noteq> [] \<longrightarrow>
             run_migrations_online server (rv_upgrade rev_multitenancy) (s, d) = (Some (Rows_remain ''tags''), s, d)) \<and>
         (d ''recordings'' = [] \<and> d ''tags'' = [] \<longrightarrow>
             (\<exists>s' d'. run_migrations_online server (rv_upgrade rev_multitenancy) (s, d) = (None, s', d') \<and>
                no_rows s' d'))"
proof -
  have s: "s = schema_5c16" using assms(1) upgrades_5c16 by simp
  have c: "conforms schema_5c16 d" using assms(2) s by simp
  have tables: "table_of schema_5c16 ''recordings'' \<noteq> None" "table_of schema_5c16 ''tags'' \<noteq> None"
    by (simp_all add: table_of_def schema_5c16_def)
  have up: "rv_upgrade rev_multitenancy = Raise_if_rows [''recordings''] # Raise_if_rows [''tags''] #
      tl (tl multitenancy_upgrade)"
    by (simp add: revision_defs multitenancy_upgrade_def guard_empty_def)
  have step: "execute server (Raise_if_rows [t]) (schema_5c16, d) =
      (if d t \<noteq> [] then Inl (Rows_remain t) else Inr (schema_5c16, d))"
    if "table_of schema_5c16 t \<noteq> None" for t
    using that c by (simp add: execute_def)
  have "\<exists>s' d'. run_migrations_online server (rv_upgrade rev_multitenancy) (schema_5c16, d) = (None, s', d') \<and>
      no_rows s' d'" if "d ''recordings'' = []" "d ''tags'' = []"
    using run_without_rows [OF archive_empty [OF c that] up_2e6e, of server]
    by (auto simp: run_migrations_online_def revision_defs)
  moreover have "run_migrations_online server (rv_upgrade rev_multitenancy) (schema_5c16, d) =
      (Some (Rows_remain ''recordings''), schema_5c16, d)" if "d ''recordings'' \<noteq> []"
    using that step [OF tables(1)] by (simp add: run_migrations_online_def up)
  moreover have "run_migrations_online server (rv_upgrade rev_multitenancy) (schema_5c16, d) =
      (Some (Rows_remain ''tags''), schema_5c16, d)" if "d ''recordings'' = []" "d ''tags'' \<noteq> []"
    using that step [OF tables(1)] step [OF tables(2)] by (simp add: run_migrations_online_def up)
  ultimately show ?thesis unfolding s by blast
qed

lemma conforms_no_rows: "conforms s (\<lambda>t. [])"
  by (rule no_rows_conforms) (simp add: no_rows_def)

lemma multitenancy_needs_an_empty_archive_witness:
  "\<exists>s' d'. run_migrations_online (\<lambda>e. VOther e) (rv_upgrade rev_multitenancy) (schema_5c16, \<lambda>t. []) =
     (None, s', d') \<and> no_rows s' d'"
  using multitenancy_needs_an_empty_archive [OF upgrades_5c16 conforms_no_rows, of "\<lambda>e. VOther e"] by simp

text \<open>The revisions after that one never fail on rows that conform, and lose none.\<close>

lemma summarizing_keeps:
  assumes "conforms s d" "well_named s" "run_ddl summarizing_upgrade s = Inr s'"
    and "list_all (check_holds (In_values ''status'' STATUSES_BEFORE)) (d ''recordings'')"
  shows "run_statements server summarizing_upgrade (s, d) = Inr (s', d)" "conforms s' d" "well_named s'"
proof -
  obtain s1 where s1: "ddl (Drop_constraint ''recordings'' ''recordings_status_check'') s = Inr s1"
    "ddl (Create_constraint ''recordings'' (Some ''recordings_status_check'',
       Check (In_values ''status'' STATUSES_AFTER))) s1 = Inr s'"
    using assms(3)
    by (auto simp only: summarizing_upgrade_def set_check_def run_ddl.simps and_then_Inr sum.inject)
  note a = drop_constraint_keeps [OF assms(1,2) s1(1)]
  have "list_all (check_holds (In_values ''status'' STATUSES_AFTER)) (d ''recordings'')"
    using assms(4) by (auto simp: list_all_iff STATUSES_AFTER_def split: sql_value.splits)
  then have "constraint_holds d (snd (Some ''recordings_status_check'',
      Check (In_values ''status'' STATUSES_AFTER))) (d ''recordings'')"
    by simp
  note b = create_constraint_keeps [OF a(2,3) s1(2) this]
  show "conforms s' d" "well_named s'" using b(2,3) .
  show "run_statements server summarizing_upgrade (s, d) = Inr (s', d)"
    using a(1) b(1) by (simp only: summarizing_upgrade_def set_check_def run_statements.simps and_then.simps)
qed

lemma content_hash_keeps:
  assumes "conforms s d" "well_named s" "run_ddl content_hash_upgrade s = Inr s'"
  defines "d' \<equiv> d(''recordings'' := set_column ''content_hash'' Null (d ''recordings''))"
  shows "run_statements server content_hash_upgrade (s, d) = Inr (s', d')" "conforms s' d'" "well_named s'"
proof -
  let ?c = "col ''content_hash'' Text NULLABLE None"
  obtain s1 where s1: "ddl (Add_column ''recordings'' ?c) s = Inr s1"
    "ddl (Create_index ''recordings'' (index_def ''ix_recordings_workspace_content_hash''
       [Column_key ''workspace_id'', Column_key ''content_hash''] PLAIN None False)) s1 = Inr s'"
    using assms(3) by (auto simp only: content_hash_upgrade_def run_ddl.simps and_then_Inr sum.inject)
  have "col_nullable ?c \<or> default_value server (col_default ?c) \<noteq> Null" "col_name ?c \<noteq> ''id''"
    by (simp_all add: col_def)
  note a = add_column_keeps [OF assms(1,2) s1(1) this]
  have d': "d(''recordings'' := set_column (col_name ?c) (default_value server (col_default ?c))
      (d ''recordings'')) = d'" by (simp add: d'_def col_def)
  note a = a [unfolded d']
  have "index_holds (index_def ''ix_recordings_workspace_content_hash''
       [Column_key ''workspace_id'', Column_key ''content_hash''] PLAIN None False) (d' ''recordings'')"
    by (simp add: index_holds_def index_def_def)
  note b = create_index_keeps [OF a(2,3) s1(2) this]
  show "conforms s' d'" "well_named s'" using b(2,3) .
  show "run_statements server content_hash_upgrade (s, d) = Inr (s', d')"
    using a(1) b(1) by (simp only: content_hash_upgrade_def run_statements.simps and_then.simps)
qed

lemma checkpoint_keeps:
  assumes "conforms s d" "well_named s" "run_ddl checkpoint_upgrade s = Inr s'"
  defines "d' \<equiv> d(''recordings'' := set_column ''runner_started_at'' Null
     (set_column ''runner_request_id'' Null (d ''recordings'')))"
  shows "run_statements server checkpoint_upgrade (s, d) = Inr (s', d')" "conforms s' d'" "well_named s'"
proof -
  let ?c = "col ''runner_request_id'' Uuid NULLABLE None"
  let ?e = "col ''runner_started_at'' DateTime NULLABLE None"
  obtain s1 where s1: "ddl (Add_column ''recordings'' ?c) s = Inr s1" "ddl (Add_column ''recordings'' ?e) s1 = Inr s'"
    using assms(3) by (auto simp only: checkpoint_upgrade_def run_ddl.simps and_then_Inr sum.inject)
  have "col_nullable ?c \<or> default_value server (col_default ?c) \<noteq> Null" "col_name ?c \<noteq> ''id''"
    "col_nullable ?e \<or> default_value server (col_default ?e) \<noteq> Null" "col_name ?e \<noteq> ''id''"
    by (simp_all add: col_def)
  note a = add_column_keeps [OF assms(1,2) s1(1) this(1,2)]
  note b = add_column_keeps [OF a(2,3) s1(2) \<open>col_nullable ?e \<or> _\<close> \<open>col_name ?e \<noteq> ''id''\<close>]
  have "default_value server (col_default ?c) = Null" "default_value server (col_default ?e) = Null"
    "col_name ?c = ''runner_request_id''" "col_name ?e = ''runner_started_at''"
    by (simp_all add: col_def)
  note ab = a [unfolded this] b [unfolded this fun_upd_same fun_upd_upd]
  show "conforms s' d'" "well_named s'" using ab(5,6) by (simp_all only: d'_def)
  show "run_statements server checkpoint_upgrade (s, d) = Inr (s', d')"
    using ab(1,4) by (simp only: checkpoint_upgrade_def run_statements.simps and_then.simps d'_def)
qed

lemma distinct_on_path_current:
  "distinct_on [''path''] rs \<Longrightarrow> index_holds (index_def ''uq_recordings_current_path'' [Column_key ''path'']
     UNIQUE (Some (Where_true ''path_current'')) False) rs"
  by (simp add: index_holds_def index_def_def distinct_on_filter)

lemma current_path_keeps:
  assumes "conforms s d" "well_named s" "run_ddl current_path_upgrade s = Inr s'"
    and "distinct_on [''path''] (d ''recordings'')"
  defines "d' \<equiv> d(''recordings'' := set_column ''file_signature'' Null
     (set_column ''path_current'' (VBool True) (d ''recordings'')))"
  shows "run_statements server current_path_upgrade (s, d) = Inr (s', d')" "conforms s' d'" "well_named s'"
proof -
  let ?c = "col ''path_current'' Boolean REQUIRED (Some (Truth True))"
  let ?e = "col ''file_signature'' Jsonb NULLABLE None"
  let ?i = "index_def ''uq_recordings_current_path'' [Column_key ''path''] UNIQUE
     (Some (Where_true ''path_current'')) False"
  obtain s1 s2 s3 where s1: "ddl (Add_column ''recordings'' ?c) s = Inr s1"
    "ddl (Add_column ''recordings'' ?e) s1 = Inr s2"
    "ddl (Drop_constraint ''recordings'' ''recordings_path_key'') s2 = Inr s3"
    "ddl (Create_index ''recordings'' ?i) s3 = Inr s'"
    using assms(3) by (auto simp only: current_path_upgrade_def run_ddl.simps and_then_Inr sum.inject)
  have "col_nullable ?c \<or> default_value server (col_default ?c) \<noteq> Null" "col_name ?c \<noteq> ''id''"
    "col_nullable ?e \<or> default_value server (col_default ?e) \<noteq> Null" "col_name ?e \<noteq> ''id''"
    by (simp_all add: col_def)
  note a = add_column_keeps [OF assms(1,2) s1(1) this(1,2)]
  note b = add_column_keeps [OF a(2,3) s1(2) \<open>col_nullable ?e \<or> _\<close> \<open>col_name ?e \<noteq> ''id''\<close>]
  have "default_value server (col_default ?c) = VBool True" "default_value server (col_default ?e) = Null"
    "col_name ?c = ''path_current''" "col_name ?e = ''file_signature''"
    by (simp_all add: col_def)
  note ab = a [unfolded this] b [unfolded this fun_upd_same fun_upd_upd, folded d'_def]
  note c = drop_constraint_keeps [OF ab(5,6) s1(3)]
  have "distinct_on [''path''] (d' ''recordings'')"
    using assms(4) by (simp add: d'_def distinct_on_set)
  note e = create_index_keeps [OF c(2,3) s1(4) distinct_on_path_current [OF this]]
  show "conforms s' d'" "well_named s'" using e(2,3) .
  show "run_statements server current_path_upgrade (s, d) = Inr (s', d')"
    using ab(1,4) c(1) e(1) by (simp only: current_path_upgrade_def run_statements.simps and_then.simps)
qed

lemma well_named_2e6e: "well_named schema_2e6e"
  by code_simp

lemma recordings_2e6e_rows:
  assumes "conforms schema_2e6e d"
  shows "list_all (check_holds (In_values ''status'' STATUSES_BEFORE)) (d ''recordings'')"
    and "distinct_on [''path''] (d ''recordings'')"
proof -
  have "table_holds d recordings_2e6e (d ''recordings'')"
    using assms by (simp add: conforms_def schema_2e6e_def schema_with_def)
  then show "list_all (check_holds (In_values ''status'' STATUSES_BEFORE)) (d ''recordings'')"
    "distinct_on [''path''] (d ''recordings'')"
    by (simp_all add: table_holds_def recordings_2e6e_def STATUSES_BEFORE_def)
qed

text \<open>C27. The four later revisions always succeed on an archive in use, whatever its rows, as long as
  they conform to the schema they are stored under: no row is lost or added, every other table
  is untouched, and a recording keeps all its values; the new columns are empty, and its path
  is marked as current.\<close>

theorem later_upgrades_keep_every_row:
  assumes "run_ddl (upgrade_statements [rev_initial, rev_progress, rev_kind, rev_multitenancy])
      empty_schema = Inr s"
    and "conforms s d"
  shows "\<exists>s' d'. run_migrations_online server (upgrade_statements
        [rev_summarizing, rev_content_hash, rev_checkpoint, rev_current_path]) (s, d) = (None, s', d') \<and>
      same_tables s' declared_schema \<and> conforms s' d' \<and>
      (\<forall>t. t \<noteq> ''recordings'' \<longrightarrow> d' t = d t) \<and>
      d' ''recordings'' = map (\<lambda>r. r(''content_hash'' := Null, ''runner_request_id'' := Null,
         ''runner_started_at'' := Null, ''path_current'' := VBool True, ''file_signature'' := Null))
         (d ''recordings'')"
proof -
  have s: "s = schema_2e6e" using assms(1) upgrades_2e6e by simp
  have c: "conforms schema_2e6e d" using assms(2) s by simp
  have statements: "upgrade_statements [rev_summarizing, rev_content_hash, rev_checkpoint, rev_current_path] =
      summarizing_upgrade @ content_hash_upgrade @ checkpoint_upgrade @ current_path_upgrade"
    by (simp add: upgrade_statements_def revision_defs)
  obtain s1 s2 s3 where s1: "run_ddl summarizing_upgrade schema_2e6e = Inr s1"
    "run_ddl content_hash_upgrade s1 = Inr s2" "run_ddl checkpoint_upgrade s2 = Inr s3"
    "run_ddl current_path_upgrade s3 = Inr schema_head"
    using up_head by (auto simp only: run_ddl_append and_then_Inr sum.inject)
  note a = summarizing_keeps [OF c well_named_2e6e s1(1) recordings_2e6e_rows(1) [OF c]]
  note b = content_hash_keeps [OF a(2,3) s1(2)]
  note e = checkpoint_keeps [OF b(2,3) s1(3), unfolded fun_upd_same fun_upd_upd]
  have "distinct_on [''path''] ((d(''recordings'' := set_column ''runner_started_at'' Null
      (set_column ''runner_request_id'' Null (set_column ''content_hash'' Null (d ''recordings''))))) ''recordings'')"
    using recordings_2e6e_rows(2) [OF c] by (simp add: distinct_on_set)
  note f = current_path_keeps [OF e(2,3) s1(4) this, unfolded fun_upd_same fun_upd_upd]
  have "run_statements server (upgrade_statements
      [rev_summarizing, rev_content_hash, rev_checkpoint, rev_current_path]) (schema_2e6e, d) =
    Inr (schema_head, d(''recordings'' := set_column ''file_signature'' Null
      (set_column ''path_current'' (VBool True) (set_column ''runner_started_at'' Null
        (set_column ''runner_request_id'' Null (set_column ''content_hash'' Null (d ''recordings'')))))))"
    unfolding statements run_statements_append a(1) b(1) e(1) f(1) and_then.simps ..
  then show ?thesis using f(2) head_is_declared
    by (simp add: run_migrations_online_def s set_column_def comp_def)
qed

definition one_recording :: data where
  "one_recording t =
     (if t = ''workspaces'' then
        [(\<lambda>c. VOther ''x'')(''id'' := VInt 1, ''kind'' := VText ''team'', ''slug'' := VText ''a'')]
      else if t = ''recordings'' then
        [(\<lambda>c. VOther ''x'')(''id'' := VInt 1, ''workspace_id'' := VInt 1, ''status'' := VText ''done'',
           ''source'' := VText ''scan'', ''created_by_user_id'' := Null, ''duplicate_of_id'' := Null)]
      else [])"

lemma one_recording_conforms: "conforms schema_2e6e one_recording"
  by code_simp

lemma later_upgrades_keep_every_row_witness:
  "\<exists>s' d'. run_migrations_online (\<lambda>e. VOther e) (upgrade_statements
        [rev_summarizing, rev_content_hash, rev_checkpoint, rev_current_path]) (schema_2e6e, one_recording) =
      (None, s', d') \<and> length (d' ''recordings'') = 1"
proof -
  obtain s' d' where r: "run_migrations_online (\<lambda>e. VOther e) (upgrade_statements
        [rev_summarizing, rev_content_hash, rev_checkpoint, rev_current_path]) (schema_2e6e, one_recording) =
      (None, s', d')"
    and d': "d' ''recordings'' = map (\<lambda>r. r(''content_hash'' := Null, ''runner_request_id'' := Null,
         ''runner_started_at'' := Null, ''path_current'' := VBool True, ''file_signature'' := Null))
         (one_recording ''recordings'')"
    using later_upgrades_keep_every_row [OF upgrades_2e6e one_recording_conforms] by blast
  have "length (d' ''recordings'') = 1" unfolding d' by (simp add: one_recording_def)
  then show ?thesis using r by blast
qed

subsection \<open>Downgrades that refuse\<close>

lemma ddl_drop_index: "ddl (Drop_index n) s = Inr s' \<Longrightarrow> s' = drop_index n s"
  by (simp split: if_splits)

lemma fewer_indexes:
  "table_holds d tb rs \<Longrightarrow> table_holds d (tb\<lparr>tb_indexes := filter P (tb_indexes tb)\<rparr>) rs"
  "table_well_named tb \<Longrightarrow> table_well_named (tb\<lparr>tb_indexes := filter P (tb_indexes tb)\<rparr>)"
  by (auto simp: table_holds_def table_well_named_def has_column_def list_all_iff)

lemma drop_index_keeps:
  assumes "conforms s d" "well_named s"
  shows "conforms (drop_index n s) d" "well_named (drop_index n s)"
  using assms
  by (auto simp: conforms_def well_named_def drop_index_def list_all_iff intro!: fewer_indexes)

lemma drop_index_execute:
  assumes "conforms s d" "well_named s" "ddl x s = Inr s'" "x = Drop_index n \<or> x = Drop_index_if_exists n"
  shows "execute server x (s, d) = Inr (s', d)" "conforms s' d" "well_named s'"
proof -
  have s': "s' = drop_index n s" using assms(3,4) by (auto split: if_splits)
  show "conforms s' d" "well_named s'" using drop_index_keeps [OF assms(1,2)] s' by simp_all
  then show "execute server x (s, d) = Inr (s', d)" using assms(3,4) by (auto simp: execute_def)
qed

lemma create_constraint_fails:
  assumes "ddl (Create_constraint t nc) s = Inr s'" "\<not> constraint_holds d (snd nc) (d t)"
  shows "execute server (Create_constraint t nc) (s, d) = Inl Constraint_violated"
proof -
  obtain tb n where tb: "table_of s t = Some tb"
    and s': "s' = put_table t (tb\<lparr>tb_constraints := tb_constraints tb @ [(n, snd nc)]\<rparr>) s"
    using assms(1)
    by (auto simp: add_constraint_def and_then_Inr on_table_Inr Let_def require_columns_Inr split: if_splits)
  have "(t, tb\<lparr>tb_constraints := tb_constraints tb @ [(n, snd nc)]\<rparr>) \<in> set (sc_tables s')"
    using table_ofD [OF tb] by (force simp: s' put_table_def)
  then have "\<not> conforms s' d"
    using assms(2) by (force simp: conforms_def list_all_iff table_holds_def)
  then show ?thesis using assms(1) by (simp add: execute_def)
qed

lemma run_ddl_takes: "run_ddl (xs @ ys) s = Inr s' \<Longrightarrow> \<exists>s1. run_ddl xs s = Inr s1 \<and> run_ddl ys s1 = Inr s'"
  by (simp add: run_ddl_append and_then_Inr)

definition STATUSES_OLD :: "string list" where
  "STATUSES_OLD = [''pending'', ''transcribing'', ''diarizing'', ''enriching'', ''done'', ''error'',
     ''missing'', ''duplicate'']"

lemma narrow_status_fails:
  assumes "conforms s d" "well_named s" "run_ddl narrow_status s = Inr s'"
    and "\<not> list_all (check_holds (In_values ''status'' STATUSES_OLD)) (d ''recordings'')"
  shows "run_statements server narrow_status (s, d) = Inl Constraint_violated"
proof -
  obtain s1 s2 where s1: "ddl (Drop_index_if_exists ''ix_recordings_status_workspace'') s = Inr s1"
    "ddl (Drop_constraint ''recordings'' ''recordings_status_check'') s1 = Inr s2"
    "ddl (Create_constraint ''recordings'' (Some ''recordings_status_check'',
       Check (In_values ''status'' STATUSES_OLD))) s2 = Inr s'"
    using assms(3) by (auto simp only: narrow_status_def STATUSES_OLD_def run_ddl.simps and_then_Inr sum.inject)
  note a = drop_index_execute [OF assms(1,2) s1(1) disjI2 [OF refl]]
  note b = drop_constraint_keeps [OF a(2,3) s1(2)]
  have "\<not> constraint_holds d (snd (Some ''recordings_status_check'', Check (In_values ''status'' STATUSES_OLD)))
      (d ''recordings'')" using assms(4) by simp
  note c = create_constraint_fails [OF s1(3) this]
  show ?thesis
    using a(1) b(1) c
    by (simp only: narrow_status_def STATUSES_OLD_def run_statements.simps and_then.simps)
qed

lemma narrow_status_keeps:
  assumes "conforms s d" "well_named s" "run_ddl narrow_status s = Inr s'"
    and "list_all (check_holds (In_values ''status'' STATUSES_OLD)) (d ''recordings'')"
  shows "run_statements server narrow_status (s, d) = Inr (s', d)" "conforms s' d" "well_named s'"
proof -
  obtain s1 s2 where s1: "ddl (Drop_index_if_exists ''ix_recordings_status_workspace'') s = Inr s1"
    "ddl (Drop_constraint ''recordings'' ''recordings_status_check'') s1 = Inr s2"
    "ddl (Create_constraint ''recordings'' (Some ''recordings_status_check'',
       Check (In_values ''status'' STATUSES_OLD))) s2 = Inr s'"
    using assms(3) by (auto simp only: narrow_status_def STATUSES_OLD_def run_ddl.simps and_then_Inr sum.inject)
  note a = drop_index_execute [OF assms(1,2) s1(1) disjI2 [OF refl]]
  note b = drop_constraint_keeps [OF a(2,3) s1(2)]
  have "constraint_holds d (snd (Some ''recordings_status_check'', Check (In_values ''status'' STATUSES_OLD)))
      (d ''recordings'')" using assms(4) by simp
  note c = create_constraint_keeps [OF b(2,3) s1(3) this]
  show "conforms s' d" "well_named s'" using c(2,3) .
  show "run_statements server narrow_status (s, d) = Inr (s', d)"
    using a(1) b(1) c(1)
    by (simp only: narrow_status_def STATUSES_OLD_def run_statements.simps and_then.simps)
qed

lemma unbind_tags_fails:
  assumes "conforms s d" "well_named s" "run_ddl unbind_tags s = Inr s'"
    and "\<not> distinct_on [''name''] (d ''tags'')"
  shows "run_statements server unbind_tags (s, d) = Inl Constraint_violated"
proof -
  obtain s1 s2 s3 s4 where s1: "ddl (Drop_constraint ''tags'' ''tags_workspace_id_fkey'') s = Inr s1"
    "ddl (Drop_constraint ''tags'' ''uq_tags_workspace_name'') s1 = Inr s2"
    "ddl (Drop_index ''ix_tags_workspace_id'') s2 = Inr s3"
    "ddl (Create_constraint ''tags'' (Some ''tags_name_key'', Unique [''name''])) s3 = Inr s4"
    using assms(3) by (auto simp only: unbind_tags_def run_ddl.simps and_then_Inr sum.inject)
  note a = drop_constraint_keeps [OF assms(1,2) s1(1)]
  note b = drop_constraint_keeps [OF a(2,3) s1(2)]
  note c = drop_index_execute [OF b(2,3) s1(3) disjI1 [OF refl]]
  have "\<not> constraint_holds d (snd (Some ''tags_name_key'', Unique [''name''])) (d ''tags'')"
    using assms(4) by simp
  note e = create_constraint_fails [OF s1(4) this]
  show ?thesis
    using a(1) b(1) c(1) e by (simp only: unbind_tags_def run_statements.simps and_then.simps)
qed

text \<open>Going back before the workspaces is refused, and changes nothing, as soon as two tags have one
  name, as the comment in the revision says, and also while a recording has the status that the
  revision introduced.\<close>

theorem multitenancy_downgrade_refused:
  assumes "conforms schema_2e6e d"
    and "(\<exists>r\<in>set (d ''recordings''). r ''status'' = VText ''quota_blocked'') \<or>
      \<not> distinct_on [''name''] (d ''tags'')"
  shows "run_migrations_online server (rv_downgrade rev_multitenancy) (schema_2e6e, d) =
    (Some Constraint_violated, schema_2e6e, d)"
proof -
  let ?rest = "unbind_recordings @ unbind_job_log @ drop_tenancy"
  obtain s' where "run_ddl (narrow_status @ unbind_tags @ ?rest) schema_2e6e = Inr s'"
    using down_5c16 by (auto simp: multitenancy_downgrade_def split: sum.splits)
  then obtain s1 s2 where s1: "run_ddl narrow_status schema_2e6e = Inr s1" "run_ddl unbind_tags s1 = Inr s2"
    using run_ddl_takes by metis
  have "run_statements server (narrow_status @ unbind_tags @ ?rest) (schema_2e6e, d) = Inl Constraint_violated"
  proof (cases "list_all (check_holds (In_values ''status'' STATUSES_OLD)) (d ''recordings'')")
    case True
    then have "\<not> (\<exists>r\<in>set (d ''recordings''). r ''status'' = VText ''quota_blocked'')"
      by (auto simp: list_all_iff STATUSES_OLD_def split: sql_value.splits)
    then have tags: "\<not> distinct_on [''name''] (d ''tags'')" using assms(2) by blast
    note a = narrow_status_keeps [OF assms(1) well_named_2e6e s1(1) True]
    show ?thesis
      by (simp only: run_statements_append a(1) unbind_tags_fails [OF a(2,3) s1(2) tags] and_then.simps)
  next
    case False
    show ?thesis
      by (simp only: run_statements_append narrow_status_fails [OF assms(1) well_named_2e6e s1(1) False]
          and_then.simps)
  qed
  then show ?thesis
    by (simp add: run_migrations_online_def revision_defs multitenancy_downgrade_def)
qed

text \<open>The revision of the current path is undone only when no path occurs twice.\<close>

lemma current_path_downgrade_refused:
  assumes "conforms schema_head d" and "\<not> distinct (map (\<lambda>r. r ''path'') (d ''recordings''))"
  shows "run_migrations_online server (rv_downgrade rev_current_path) (schema_head, d) =
    (Some (Repeated_values ''recordings'' ''path''), schema_head, d)"
proof -
  obtain s1 where "ddl (Raise_if_repeated ''recordings'' ''path'') schema_head = Inr s1"
    using down_ed92 by (auto simp only: current_path_downgrade_def run_ddl.simps and_then_Inr)
  then have "execute server (Raise_if_repeated ''recordings'' ''path'') (schema_head, d) =
      Inl (Repeated_values ''recordings'' ''path'')"
    using assms(2) by (simp only: execute_def fst_conv snd_conv and_then.simps raised_by.simps if_False option.case)
  then show ?thesis
    by (simp add: run_migrations_online_def revision_defs current_path_downgrade_def)
qed

end
