(* ===== verification/File_Reading.thy ===== *)
theory File_Reading
  imports Audio_Files "HOL-Library.Word"
begin

text \<open>
  What a registration reads of a file: \<open>files.py\<close> and the reading functions of \<open>ingest.py\<close>. The
  hash is the parameter \<open>sha\<close> from the bytes fed to it to the bytes of its digest; the content
  is the list of bytes an open file returns, \<open>None\<close> stands for an \<open>OSError\<close>.
\<close>

type_synonym byte = "8 word"
type_synonym sha = "byte list \<Rightarrow> byte list"

definition hexdigest :: "byte list \<Rightarrow> string" where
  "hexdigest bs = concat (map (\<lambda>b. [hex_char (unat b div 16), hex_char (unat b mod 16)]) bs)"

subsection \<open>Hashes of contents\<close>

definition READ_CHUNK :: nat where "READ_CHUNK = 1024 * 1024"
definition PARTIAL_CHUNK :: nat where "PARTIAL_CHUNK = 1024 * 1024"

text \<open>\<open>stream_hash\<close>: the answers of the reads up to the first empty one.\<close>

fun fed :: "byte list list \<Rightarrow> byte list" where
  "fed [] = []"
| "fed (r # rs) = (if r = [] then [] else r @ fed rs)"

definition stream_hash :: "sha \<Rightarrow> byte list list \<Rightarrow> string" where
  "stream_hash sha reads = hexdigest (sha (fed reads))"

definition content_hash :: "sha \<Rightarrow> byte list option \<Rightarrow> string option" where
  "content_hash sha file = map_option (\<lambda>content. stream_hash sha (chunks READ_CHUNK content @ [[]])) file"

text \<open>\<open>partial_hash\<close>: the size as decimal digits, the first bytes, and behind them the last bytes of
  a file that is longer than one chunk by the size given; seeking before its start raises.\<close>

definition size_digits :: "nat \<Rightarrow> byte list" where
  "size_digits n = map (\<lambda>c. word_of_nat (code c)) (show_nat n)"

definition partial_hash :: "sha \<Rightarrow> nat \<Rightarrow> byte list option \<Rightarrow> string option" where
  "partial_hash sha st_size file =
     (case file of
        None \<Rightarrow> None
      | Some content \<Rightarrow>
          let head = size_digits st_size @ take PARTIAL_CHUNK content
          in if st_size > PARTIAL_CHUNK
             then if length content < PARTIAL_CHUNK then None
                  else Some (hexdigest (sha (head @ drop (length content - PARTIAL_CHUNK) content)))
             else Some (hexdigest (sha head)))"

text \<open>\<open>_ingest_lock\<close>: eight bytes of the digest, most significant first, as a signed number.\<close>

definition ingest_lock_id :: "sha \<Rightarrow> byte list \<Rightarrow> int" where
  "ingest_lock_id sha key = sint (word_rcat (take 8 (sha key)) :: 64 word)"

subsection \<open>The length of a recording\<close>

text \<open>How the external program ends.\<close>

datatype probe_run = ProbeRaises | ProbeTimesOut | ProbeEnds int string

definition probe_duration :: "(string \<Rightarrow> rat option) \<Rightarrow> probe_run \<Rightarrow> rat option" where
  "probe_duration to_float run =
     (case run of
        ProbeRaises \<Rightarrow> None
      | ProbeTimesOut \<Rightarrow> None
      | ProbeEnds rc out \<Rightarrow> if rc = 0 \<and> str_strip out \<noteq> [] then to_float (str_strip out) else None)"

subsection \<open>Facts\<close>

lemma fed_append: "[] \<notin> set rs \<Longrightarrow> fed (rs @ [[]]) = concat rs"
  by (induction rs) auto

lemma chunks_nonempty: "0 < n \<Longrightarrow> [] \<notin> set (chunks n xs)"
proof (induction n xs rule: chunks.induct)
  case (1 n xs)
  then show ?case by (subst chunks.simps) auto
qed

text \<open>Reading in chunks does not matter: the hash is that of the content.\<close>

lemma content_hash_eq: "content_hash sha (Some content) = Some (hexdigest (sha content))"
  by (simp add: content_hash_def stream_hash_def fed_append chunks_nonempty concat_chunks READ_CHUNK_def)

lemma hexdigest_inject: "hexdigest xs = hexdigest ys \<longleftrightarrow> xs = ys"
proof
  show "hexdigest xs = hexdigest ys \<Longrightarrow> xs = ys"
  proof (induction xs arbitrary: ys)
    case Nil
    then show ?case by (cases ys) (simp_all add: hexdigest_def)
  next
    case (Cons x xs)
    obtain y ys' where ys: "ys = y # ys'" using Cons.prems by (cases ys) (simp_all add: hexdigest_def)
    have "unat b < 2 ^ LENGTH(8)" for b :: byte by (rule unsigned_less)
    then have digits: "unat b div 16 < 16" "unat b mod 16 < 16" for b :: byte
      by (simp_all add: less_mult_imp_div_less)
    have "hex_char (unat x div 16) = hex_char (unat y div 16)"
      "hex_char (unat x mod 16) = hex_char (unat y mod 16)" "hexdigest xs = hexdigest ys'"
      using Cons.prems by (simp_all add: ys hexdigest_def)
    then have "unat x div 16 = unat y div 16" "unat x mod 16 = unat y mod 16" "xs = ys'"
      using digits hex_char_inject Cons.IH by blast+
    then have "unat x = unat y" by (metis div_mult_mod_eq)
    then have "x = y" by (rule unsigned_word_eqI)
    then show ?case using \<open>xs = ys'\<close> ys by simp
  qed
qed simp

lemma size_digits_inject: "size_digits m = size_digits n \<longleftrightarrow> m = n"
proof
  assume "size_digits m = size_digits n"
  moreover have "inj (\<lambda>c. word_of_nat (code c) :: byte)"
  proof (rule injI)
    fix c d
    assume "(word_of_nat (code c) :: byte) = word_of_nat (code d)"
    then have "code c mod 256 = code d mod 256" by (simp add: word_of_nat_eq_iff take_bit_eq_mod)
    then show "c = d" using code_bound [of c] code_bound [of d] by (simp add: code_inject)
  qed
  ultimately have "show_nat m = show_nat n" by (simp add: size_digits_def inj_map_eq_map)
  then show "m = n" by (simp add: show_nat_inject)
qed simp

lemma length_show_nat_mono: "m \<le> n \<Longrightarrow> length (show_nat m) \<le> length (show_nat n)"
proof (induction n arbitrary: m rule: show_nat.induct)
  case (1 n)
  show ?case
  proof (cases "n < 10")
    case True
    then show ?thesis using "1.prems" by (simp add: show_nat.simps [of m] show_nat.simps [of n])
  next
    case False
    have "0 < length (show_nat k)" for k by simp
    then have "Suc 0 \<le> length (show_nat (n div 10))" by (simp add: Suc_le_eq)
    then show ?thesis
      using False "1.IH" [of "m div 10"] "1.prems"
      by (subst show_nat.simps, subst (2) show_nat.simps) (auto simp: div_le_mono)
  qed
qed

text \<open>What is fed to the hash tells the size it starts with, and with it everything behind.\<close>

definition fed_bytes :: "nat \<Rightarrow> byte list \<Rightarrow> byte list" where
  "fed_bytes n content = size_digits n @ take PARTIAL_CHUNK content @
     (if n > PARTIAL_CHUNK then drop (n - PARTIAL_CHUNK) content else [])"

lemma partial_hash_fed:
  "length content = n \<Longrightarrow> partial_hash sha n (Some content) = Some (hexdigest (sha (fed_bytes n content)))"
  by (simp add: partial_hash_def fed_bytes_def)

lemma length_fed_bytes:
  "length content = n \<Longrightarrow> length (fed_bytes n content) = length (show_nat n) +
     (if n > PARTIAL_CHUNK then 2 * PARTIAL_CHUNK else n)"
  by (auto simp: fed_bytes_def size_digits_def)

lemma chunk_digits:
  assumes "PARTIAL_CHUNK < n" "n \<le> 2 * PARTIAL_CHUNK"
  shows "length (show_nat n) = 7"
proof -
  have "length (show_nat 1048576) = 7" "length (show_nat 2097152) = 7"
    by (simp_all add: show_nat.simps)
  then show ?thesis
    using length_show_nat_mono [of 1048576 n] length_show_nat_mono [of n 2097152] assms
    by (simp add: PARTIAL_CHUNK_def)
qed

lemma fed_bytes_inject:
  assumes "length xs = m" "length ys = n" "m \<le> 2 * PARTIAL_CHUNK" "n \<le> 2 * PARTIAL_CHUNK"
    and "fed_bytes m xs = fed_bytes n ys"
  shows "xs = ys"
proof -
  have len: "length (show_nat m) + (if m > PARTIAL_CHUNK then 2 * PARTIAL_CHUNK else m) =
      length (show_nat n) + (if n > PARTIAL_CHUNK then 2 * PARTIAL_CHUNK else n)"
    using arg_cong [OF assms(5), of length] assms(1,2) by (simp add: length_fed_bytes)
  have few: "length (show_nat k) \<le> 7" if "k \<le> 2 * PARTIAL_CHUNK" for k
    using that length_show_nat_mono [of k "2 * PARTIAL_CHUNK"] chunk_digits [of "2 * PARTIAL_CHUNK"]
    by (simp add: PARTIAL_CHUNK_def)
  have mn: "m = n"
  proof (cases "m > PARTIAL_CHUNK \<or> n > PARTIAL_CHUNK")
    case True
    then have "m > PARTIAL_CHUNK \<and> n > PARTIAL_CHUNK"
      using len few [OF assms(3)] few [OF assms(4)] chunk_digits [OF _ assms(3)] chunk_digits [OF _ assms(4)]
      by (auto simp: PARTIAL_CHUNK_def split: if_splits)
    then have "length (size_digits m) = length (size_digits n)"
      using chunk_digits [OF _ assms(3)] chunk_digits [OF _ assms(4)] by (simp add: size_digits_def)
    then have "size_digits m = size_digits n"
      using assms(5) by (simp add: fed_bytes_def)
    then show ?thesis by (simp add: size_digits_inject)
  next
    case False
    then show ?thesis
      using len length_show_nat_mono [of m n] length_show_nat_mono [of n m] by simp linarith
  qed
  let ?C = PARTIAL_CHUNK
  have eq: "take ?C xs @ (if n > ?C then drop (n - ?C) xs else []) =
      take ?C ys @ (if n > ?C then drop (n - ?C) ys else [])"
    using assms(5) by (simp add: fed_bytes_def mn)
  have same: "length (take ?C xs) = length (take ?C ys)" using assms(1,2) mn by simp
  show ?thesis
  proof (cases "n > ?C")
    case True
    then have t: "take ?C xs = take ?C ys" "drop (n - ?C) xs = drop (n - ?C) ys"
      using eq same by (simp_all add: append_eq_append_conv)
    have "n - ?C \<le> ?C" using assms(4) by simp
    then have "take (n - ?C) xs = take (n - ?C) ys" using t(1) by (metis min.absorb1 take_take)
    then show ?thesis using t(2) by (metis append_take_drop_id)
  next
    case False
    then show ?thesis using eq assms(1,2) mn by simp
  qed
qed

text \<open>C40. Two files of up to two chunks have the same partial hash exactly when they have the same
  content hash, as long as the hash does not collide on what is fed to it for the two: nothing in the middle is skipped, and the size in front
  cannot be mistaken for content.\<close>

theorem partial_hash_is_exact_up_to_two_chunks:
  assumes "inj_on sha {fed_bytes (length xs) xs, fed_bytes (length ys) ys, xs, ys}"
    and "length xs \<le> 2 * PARTIAL_CHUNK" and "length ys \<le> 2 * PARTIAL_CHUNK"
  shows "partial_hash sha (length xs) (Some xs) = partial_hash sha (length ys) (Some ys) \<longleftrightarrow>
    content_hash sha (Some xs) = content_hash sha (Some ys)"
proof -
  have "partial_hash sha (length xs) (Some xs) = partial_hash sha (length ys) (Some ys) \<longleftrightarrow>
      fed_bytes (length xs) xs = fed_bytes (length ys) ys"
    using assms(1) by (auto simp: partial_hash_fed hexdigest_inject dest: inj_onD)
  also have "\<dots> \<longleftrightarrow> xs = ys"
    using fed_bytes_inject [OF refl refl assms(2,3)] by auto
  also have "\<dots> \<longleftrightarrow> content_hash sha (Some xs) = content_hash sha (Some ys)"
    using assms(1) by (auto simp: content_hash_eq hexdigest_inject dest: inj_onD)
  finally show ?thesis .
qed

text \<open>The number of an advisory lock is one that PostgreSQL accepts: a signed 64-bit integer.\<close>

lemma lock_id_is_bigint: "- (2 ^ 63) \<le> ingest_lock_id sha key \<and> ingest_lock_id sha key < 2 ^ 63"
  using sint_greater_eq [of "word_rcat (take 8 (sha key)) :: 64 word"]
    sint_lt [of "word_rcat (take 8 (sha key)) :: 64 word"]
  by (simp add: ingest_lock_id_def)

text \<open>A length that could not be read is no length: a failed program never gives one.\<close>

lemma failed_probe_gives_nothing:
  "probe_duration to_float run = Some x \<Longrightarrow> \<exists>out. run = ProbeEnds 0 out \<and> to_float (str_strip out) = Some x"
  by (auto simp: probe_duration_def split: probe_run.splits if_splits)

text \<open>A hash without collisions for the examples: the bytes themselves.\<close>

lemma partial_hash_witness:
  "partial_hash (\<lambda>x. x) (length [7, 8 :: byte]) (Some [7, 8]) = partial_hash (\<lambda>x. x) (length [7, 9 :: byte]) (Some [7, 9]) \<longleftrightarrow>
   content_hash (\<lambda>x. x) (Some [7, 8]) = content_hash (\<lambda>x. x) (Some [7, 9])"
  by (rule partial_hash_is_exact_up_to_two_chunks) (simp_all add: PARTIAL_CHUNK_def)

end
