(* ===== verification/Backends.thy ===== *)
theory Backends
  imports Stt_Client
begin

text \<open>
  The two model back ends of \<open>enrich.py\<close> and the choice between them. The Ollama server and the
  Claude API are functions from a request to what comes back; the JSON parser is a parameter
  that gives the three fields the program reads, or nothing. Either back end is a \<open>generator\<close>
  of \<open>Enrichment\<close>, and \<open>enrich_turn\<close> is what the worker's stage gets from it.
\<close>

subsection \<open>The schema of an answer\<close>

datatype json_type = JString | JArray json_type

record object_schema =
  os_properties :: "(string \<times> json_type) list"
  os_required :: "string list"
  os_additional :: bool

definition RESULT_SCHEMA :: object_schema where
  "RESULT_SCHEMA = \<lparr>os_properties = [(''title'', JString), (''summary'', JString), (''tags'', JArray JString)],
     os_required = [''title'', ''summary'', ''tags''], os_additional = False\<rparr>"

subsection \<open>Ollama\<close>

record chat_request =
  cr_base_url :: string
  cr_path :: string
  cr_timeout :: rat
  cr_model :: string
  cr_messages :: "(string \<times> string) list"
  cr_stream :: bool
  cr_think :: bool
  cr_format :: "object_schema option"

text \<open>The content is that of \<open>["message"]["content"]\<close>, when the body is JSON that has it.\<close>

datatype chat_reply = ChatUnreached | ChatReply nat "string option"

record ollama_config =
  ol_base_url :: string
  ol_model :: string
  ol_timeout :: rat

definition OllamaGenerator :: "string \<Rightarrow> string \<Rightarrow> ollama_config" where
  "OllamaGenerator url model = \<lparr>ol_base_url = url, ol_model = model, ol_timeout = 600\<rparr>"

definition chat_body :: "ollama_config \<Rightarrow> string \<Rightarrow> object_schema option \<Rightarrow> chat_request" where
  "chat_body og prompt format_schema =
     \<lparr>cr_base_url = ol_base_url og, cr_path = ''/api/chat'', cr_timeout = ol_timeout og,
      cr_model = ol_model og, cr_messages = [(''user'', prompt)], cr_stream = False, cr_think = False,
      cr_format = format_schema\<rparr>"

definition chat ::
  "(chat_request \<Rightarrow> chat_reply) \<Rightarrow> ollama_config \<Rightarrow> string \<Rightarrow> object_schema option \<Rightarrow> string option" where
  "chat post og prompt format_schema =
     (case post (chat_body og prompt format_schema) of
        ChatUnreached \<Rightarrow> None
      | ChatReply status content \<Rightarrow> if is_success status then content else None)"

definition ollama_text :: "(chat_request \<Rightarrow> chat_reply) \<Rightarrow> ollama_config \<Rightarrow> string \<Rightarrow> string option" where
  "ollama_text post og prompt = map_option str_strip (chat post og prompt None)"

definition ollama_json ::
  "(chat_request \<Rightarrow> chat_reply) \<Rightarrow> (string \<Rightarrow> llm_json option) \<Rightarrow> ollama_config \<Rightarrow> string \<Rightarrow>
   object_schema \<Rightarrow> llm_json option" where
  "ollama_json post loads og prompt schema = Option.bind (chat post og prompt (Some schema)) loads"

subsection \<open>Claude\<close>

record message_request =
  ms_model :: string
  ms_max_tokens :: nat
  ms_messages :: "(string \<times> string) list"
  ms_format :: "object_schema option"

datatype content_block = TextBlock string | OtherBlock

record message_reply =
  mr_stop_reason :: "string option"
  mr_content :: "content_block list"

text \<open>\<open>None\<close>: the package is missing, or the call raises.\<close>

definition claude_create ::
  "(message_request \<Rightarrow> message_reply option) \<Rightarrow> string \<Rightarrow> string \<Rightarrow> object_schema option \<Rightarrow> message_reply option" where
  "claude_create create model prompt format_schema =
     (case create \<lparr>ms_model = model, ms_max_tokens = 4096, ms_messages = [(''user'', prompt)],
        ms_format = format_schema\<rparr> of
        None \<Rightarrow> None
      | Some r \<Rightarrow> if mr_stop_reason r = Some ''refusal'' then None else Some r)"

fun text_blocks :: "content_block list \<Rightarrow> string" where
  "text_blocks [] = []"
| "text_blocks (TextBlock t # bs) = t @ text_blocks bs"
| "text_blocks (OtherBlock # bs) = text_blocks bs"

definition claude_text ::
  "(message_request \<Rightarrow> message_reply option) \<Rightarrow> string \<Rightarrow> string \<Rightarrow> string option" where
  "claude_text create model prompt =
     map_option (\<lambda>r. str_strip (text_blocks (mr_content r))) (claude_create create model prompt None)"

definition claude_json ::
  "(message_request \<Rightarrow> message_reply option) \<Rightarrow> (string \<Rightarrow> llm_json option) \<Rightarrow> string \<Rightarrow> string \<Rightarrow>
   object_schema \<Rightarrow> llm_json option" where
  "claude_json create loads model prompt schema =
     Option.bind (claude_create create model prompt (Some schema)) (\<lambda>r. loads (text_blocks (mr_content r)))"

definition CLAUDE_MODEL :: string where "CLAUDE_MODEL = ''claude-opus-5''"

subsection \<open>The choice\<close>

record model_services =
  md_ollama :: "chat_request \<Rightarrow> chat_reply"
  md_claude :: "message_request \<Rightarrow> message_reply option"
  md_loads :: "string \<Rightarrow> llm_json option"

definition ollama_generator :: "model_services \<Rightarrow> ollama_config \<Rightarrow> generator" where
  "ollama_generator sv og = \<lparr>generate_text = ollama_text (md_ollama sv) og,
     generate_json = (\<lambda>prompt. ollama_json (md_ollama sv) (md_loads sv) og prompt RESULT_SCHEMA)\<rparr>"

definition claude_generator :: "model_services \<Rightarrow> string \<Rightarrow> generator" where
  "claude_generator sv model = \<lparr>generate_text = claude_text (md_claude sv) model,
     generate_json = (\<lambda>prompt. claude_json (md_claude sv) (md_loads sv) model prompt RESULT_SCHEMA)\<rparr>"

definition build_enricher :: "model_services \<Rightarrow> string \<Rightarrow> string \<Rightarrow> string \<Rightarrow> generator option" where
  "build_enricher sv backend ollama_url ollama_model =
     (if backend = ''off'' then None
      else if backend = ''claude'' then Some (claude_generator sv CLAUDE_MODEL)
      else Some (ollama_generator sv (OllamaGenerator ollama_url ollama_model)))"

text \<open>\<open>enricher.enrich(...)\<close> inside \<open>enrich_stage\<close>; \<open>err\<close> is the text of the exception.\<close>

definition enrich_turn ::
  "generator option \<Rightarrow> prompts \<Rightarrow> uuid list \<Rightarrow> string \<Rightarrow> db \<Rightarrow> recording \<Rightarrow> enrich_outcome" where
  "enrich_turn enricher p pubs err d r =
     (case enricher of
        None \<Rightarrow> NoEnricher
      | Some g \<Rightarrow> (case llm_enrich g p pubs d r of
            None \<Rightarrow> EnrichRaised err
          | Some (r', nps) \<Rightarrow> Enriched r' nps))"

subsection \<open>Facts\<close>

lemma text_blocks_append: "text_blocks (xs @ ys) = text_blocks xs @ text_blocks ys"
  by (induction xs rule: text_blocks.induct) simp_all

lemma chat_cong:
  assumes "\<And>q. cr_base_url q = ol_base_url og \<Longrightarrow> cr_model q = ol_model og \<Longrightarrow> post q = post' q"
  shows "chat post og prompt f = chat post' og prompt f"
  using assms [of "chat_body og prompt f"] by (simp add: chat_def chat_body_def)


text \<open>For the examples: a server that answers every request of one model, and prompts that are the
  transcript.\<close>

definition demo_services :: model_services where
  "demo_services = \<lparr>md_ollama = (\<lambda>q. if cr_model q = ''m'' then ChatReply 200 (Some ''  ok '') else ChatUnreached),
     md_claude = (\<lambda>q. None),
     md_loads = (\<lambda>t. Some \<lparr>lj_title = t, lj_summary = t, lj_tags = [t, '' '']\<rparr>)\<rparr>"

definition plain_prompts :: prompts where
  "plain_prompts = \<lparr>enrich_prompt = (\<lambda>t. t), chunk_prompt = (\<lambda>i n t. t), combine_prompt = (\<lambda>t. t)\<rparr>"


subsection \<open>What an enrichment writes\<close>

lemma summarize_chunks_nth:
  assumes "summarize_chunks g p i n cs = Some ts"
  shows "length ts = length cs \<and>
    (\<forall>k<length cs. generate_text g (chunk_prompt p (Suc (i + k)) n (cs ! k)) = Some (ts ! k))"
  using assms
proof (induction cs arbitrary: i ts)
  case (Cons c cs)
  then obtain t us where us: "generate_text g (chunk_prompt p (Suc i) n c) = Some t"
    "summarize_chunks g p (Suc i) n cs = Some us" "ts = t # us"
    by (auto split: option.splits)
  then show ?case using Cons.IH [OF us(2)] by (auto simp: nth_Cons split: nat.split)
qed simp

text \<open>A long transcript is summarised in full: the parts put together are the transcript, none is
  empty or longer than the limit, every one of them was answered, in order, and the result is
  made of all the answers.\<close>

theorem every_part_is_summarised:
  assumes "summarize g p transcript = Some res" and "CHUNK_CHARS < length transcript"
  shows "\<exists>parts answers j. concat parts = transcript \<and> length answers = length parts \<and>
    (\<forall>part\<in>set parts. part \<noteq> [] \<and> length part \<le> CHUNK_CHARS) \<and>
    (\<forall>k<length parts. generate_text g (chunk_prompt p (Suc k) (length parts) (parts ! k)) = Some (answers ! k)) \<and>
    generate_json g (combine_prompt p (join two_newlines answers)) = Some j \<and> res = clean_result j"
proof -
  define parts where "parts = chunks CHUNK_CHARS transcript"
  obtain answers j where r: "summarize_chunks g p 0 (length parts) parts = Some answers"
    "generate_json g (combine_prompt p (join two_newlines answers)) = Some j" "res = clean_result j"
    using assms by (auto simp: summarize_def Let_def parts_def [symmetric] split: option.splits)
  moreover have "0 < CHUNK_CHARS" by (simp add: CHUNK_CHARS_def)
  ultimately show ?thesis
    using summarize_chunks_nth [OF r(1)] concat_chunks [of CHUNK_CHARS transcript]
      length_chunks_le [of CHUNK_CHARS _ transcript] parts_def
    by (intro exI [of _ parts] exI [of _ answers] exI [of _ j]) auto
qed

text \<open>Whatever the model answers, an enrichment changes the title and the summary of the row only,
  the title only when there was none, and attaches at most five tags, none of them blank or
  with white space around it.\<close>

theorem enrichment_is_clean:
  assumes "enrich_turn (build_enricher sv backend url model) p pubs err d r = Enriched r' nps"
  shows "r' = r\<lparr>rec_title := rec_title r', rec_summary := rec_summary r'\<rparr> \<and>
    (rec_title r \<noteq> None \<longrightarrow> rec_title r' = rec_title r) \<and>
    (rec_summary r \<noteq> None \<longrightarrow> rec_summary r' \<noteq> None) \<and>
    length nps \<le> 5 \<and> (\<forall>np\<in>set nps. fst np \<noteq> [] \<and> stripped (fst np))"
proof -
  obtain g where g: "llm_enrich g p pubs d r = Some (r', nps)"
    using assms by (auto simp: enrich_turn_def split: option.splits)
  have tags: "length nps \<le> 5 \<and> (\<forall>np\<in>set nps. fst np \<noteq> [] \<and> stripped (fst np))"
    if made: "summarize g p t = Some res" and nps: "nps = zip (er_tags res) pubs" for t res
  proof -
    obtain j where res: "res = clean_result j"
      using made by (auto simp: summarize_def Let_def split: option.splits if_splits)
    have "\<forall>x\<in>set (er_tags res). x \<noteq> [] \<and> stripped x"
      by (auto simp: res clean_result_def dest!: in_set_takeD)
    moreover have "length (er_tags res) \<le> 5" by (simp add: res clean_result_def MAX_TAGS_def)
    moreover have "fst np \<in> set (er_tags res)" if "np \<in> set nps" for np
      using set_zip_leftD [of "fst np" "snd np" "er_tags res" pubs] that by (simp add: nps)
    ultimately show ?thesis by (simp add: nps)
  qed
  have "nps = [] \<or> (\<exists>t res. summarize g p t = Some res \<and> nps = zip (er_tags res) pubs)"
    using g unfolding llm_enrich_def Let_def
    by (cases "str_strip (build_transcript d r) = []") (auto split: option.splits)
  then have "length nps \<le> 5 \<and> (\<forall>np\<in>set nps. fst np \<noteq> [] \<and> stripped (fst np))"
    using tags by auto
  then show ?thesis using llm_enrich_row [OF g] by blast
qed

definition demo_answer :: enrich_result where
  "demo_answer = \<lparr>er_title = ''ok'', er_summary = ''ok'', er_tags = [''ok'']\<rparr>"

definition demo_long :: string where "demo_long = replicate 24001 (CHR ''a'')"

lemma demo_is_long: "CHUNK_CHARS < length demo_long"
  unfolding demo_long_def length_replicate CHUNK_CHARS_def by simp

lemma demo_text: "generate_text (ollama_generator demo_services (OllamaGenerator ''u'' ''m'')) t = Some ''ok''"
proof -
  have "str_strip ''  ok '' = ''ok''" by code_simp
  then show ?thesis
    by (simp add: ollama_generator_def ollama_text_def chat_def demo_services_def chat_body_def
        OllamaGenerator_def is_success_def)
qed

lemma demo_json:
  "generate_json (ollama_generator demo_services (OllamaGenerator ''u'' ''m'')) t =
     Some \<lparr>lj_title = ''  ok '', lj_summary = ''  ok '', lj_tags = [''  ok '', '' '']\<rparr>"
  by (simp add: ollama_generator_def ollama_json_def chat_def demo_services_def chat_body_def
      OllamaGenerator_def is_success_def)

lemma demo_chunks: "\<exists>ts. summarize_chunks (ollama_generator demo_services (OllamaGenerator ''u'' ''m''))
    plain_prompts i n cs = Some ts"
proof (induction cs arbitrary: i)
  case (Cons c cs)
  then show ?case by (auto simp: demo_text)
qed simp

lemma demo_summary:
  "summarize (ollama_generator demo_services (OllamaGenerator ''u'' ''m'')) plain_prompts demo_long = Some demo_answer"
proof -
  let ?g = "ollama_generator demo_services (OllamaGenerator ''u'' ''m'')"
  have c: "clean_result \<lparr>lj_title = ''  ok '', lj_summary = ''  ok '', lj_tags = [''  ok '', '' '']\<rparr> = demo_answer"
    by code_simp
  obtain ts where "summarize_chunks ?g plain_prompts 0 (length (chunks CHUNK_CHARS demo_long))
      (chunks CHUNK_CHARS demo_long) = Some ts" using demo_chunks by blast
  then show ?thesis using demo_is_long by (simp add: summarize_def Let_def demo_json c)
qed

lemma every_part_is_summarised_witness:
  "\<exists>parts answers j. concat parts = demo_long \<and> length answers = length parts \<and>
    (\<forall>part\<in>set parts. part \<noteq> [] \<and> length part \<le> CHUNK_CHARS) \<and>
    (\<forall>k<length parts. generate_text (ollama_generator demo_services (OllamaGenerator ''u'' ''m''))
        (chunk_prompt plain_prompts (Suc k) (length parts) (parts ! k)) = Some (answers ! k)) \<and>
    generate_json (ollama_generator demo_services (OllamaGenerator ''u'' ''m''))
      (combine_prompt plain_prompts (join two_newlines answers)) = Some j \<and> demo_answer = clean_result j"
  by (rule every_part_is_summarised [OF demo_summary demo_is_long])

definition demo_heard :: db where
  "demo_heard = empty_db\<lparr>segments := \<lparr>rows = [\<lparr>seg_id = 1, seg_recording = rec_id demo_row, seg_idx = 0,
     seg_start = 0, seg_end = 1, seg_speaker = None, seg_text = ''hello'', seg_kind = Speech\<rparr>], next_id = 2\<rparr>\<rparr>"

lemma demo_enriched:
  "enrich_turn (build_enricher demo_services ''ollama'' ''u'' ''m'') plain_prompts [7] ''e'' demo_heard demo_row =
     Enriched (demo_row\<lparr>rec_title := Some ''ok'', rec_summary := Some ''ok''\<rparr>) [(''ok'', 7)]"
proof -
  have c: "clean_result \<lparr>lj_title = ''  ok '', lj_summary = ''  ok '', lj_tags = [''  ok '', '' '']\<rparr> = demo_answer"
    by code_simp
  have t: "build_transcript demo_heard demo_row = ''hello''"
    by (simp add: build_transcript_def segments_of_def select_def demo_heard_def transcript_line_def)
  have s: "str_strip ''hello'' \<noteq> []" by code_simp
  have "summarize (ollama_generator demo_services (OllamaGenerator ''u'' ''m'')) plain_prompts ''hello'' = Some demo_answer"
    by (simp add: summarize_def CHUNK_CHARS_def demo_json c)
  moreover have "rec_title demo_row = None" by (simp add: demo_row_def)
  ultimately show ?thesis
    using s by (simp add: build_enricher_def enrich_turn_def llm_enrich_def t Let_def demo_answer_def)
qed

lemma enrichment_is_clean_witness:
  "length [(''ok'', 7 :: uuid)] \<le> 5 \<and> (\<forall>np\<in>set [(''ok'', 7 :: uuid)]. fst np \<noteq> [] \<and> stripped (fst np))"
  using enrichment_is_clean [OF demo_enriched] by simp

end
