(* ===== verification/Browser_Side.thy ===== *)
theory Browser_Side
  imports Account_Routes Sharing_Routes Audio_Files
begin

text \<open>
  What the browser gets besides the answers: the cookies of \<open>routes_auth.py\<close> and of the unlock
  route of \<open>routes_sharing.py\<close>, and the front of the application that \<open>create_app\<close> sets up in
  \<open>app.py\<close> (documentation pages, origins, the console). How FastAPI joins the injected response
  and the returned one is the parameter \<open>join_response\<close>, with its documented behaviour as the
  hypothesis \<open>returned_response_wins\<close>.
\<close>

subsection \<open>Cookies\<close>

text \<open>The arguments of \<open>Response.set_cookie\<close>, \<open>samesite="lax"\<close> being the same everywhere. Without
  \<open>ck_max_age\<close> a cookie ends with the browser; an age of 0 deletes it.\<close>

record set_cookie =
  ck_name :: string
  ck_value :: string
  ck_http_only :: bool
  ck_secure :: bool
  ck_path :: string
  ck_domain :: "string option"
  ck_max_age :: "int option"

definition CSRF_COOKIE :: string where "CSRF_COOKIE = ''soriham_csrf''"

definition set_session_cookies :: "settings \<Rightarrow> fresh_tokens \<Rightarrow> set_cookie list" where
  "set_session_cookies cfg ft =
     (let max_age = SESSION_IDLE_DAYS * 24 * 3600
      in [\<lparr>ck_name = cfg_cookie_name cfg, ck_value = ft_token ft, ck_http_only = True,
           ck_secure = cfg_cookie_secure cfg, ck_path = ''/'', ck_domain = cfg_cookie_domain cfg,
           ck_max_age = Some max_age\<rparr>,
          \<lparr>ck_name = CSRF_COOKIE, ck_value = ft_csrf ft, ck_http_only = False,
           ck_secure = cfg_cookie_secure cfg, ck_path = ''/'', ck_domain = cfg_cookie_domain cfg,
           ck_max_age = Some max_age\<rparr>])"

definition clear_session_cookies :: "settings \<Rightarrow> set_cookie list" where
  "clear_session_cookies cfg =
     map (\<lambda>name. \<lparr>ck_name = name, ck_value = [], ck_http_only = False, ck_secure = False, ck_path = ''/'',
                  ck_domain = cfg_cookie_domain cfg, ck_max_age = Some 0\<rparr>)
       [cfg_cookie_name cfg, CSRF_COOKIE]"

text \<open>When the browser drops a cookie that it got at the time \<open>t\<close>.\<close>

definition dropped_at :: "time \<Rightarrow> set_cookie \<Rightarrow> time option" where
  "dropped_at t c = map_option (\<lambda>age. t + seconds age) (ck_max_age c)"

text \<open>A handler ends in a value, which the framework turns into a response, or in a response of
  its own with the cookies set on that one.\<close>

datatype 'a route_end = Value 'a | Own_Response "set_cookie list"

definition returned_response_wins :: "(set_cookie list \<Rightarrow> 'a route_end \<Rightarrow> set_cookie list) \<Rightarrow> bool" where
  "returned_response_wins join_response \<longleftrightarrow>
     (\<forall>injected. (\<forall>v. join_response injected (Value v) = injected) \<and>
                 (\<forall>own. join_response injected (Own_Response own) = own))"

text \<open>The routes with what they put on the injected response and how they end. An
  \<open>HTTPException\<close> is answered without either.\<close>

definition signup_cookies ::
  "server \<Rightarrow> (string \<Rightarrow> nat) \<Rightarrow> request \<Rightarrow> signup_in \<Rightarrow> draws \<Rightarrow> fresh_tokens \<Rightarrow> db \<Rightarrow>
   (http_error, set_cookie list \<times> me_out route_end) result \<times> db" where
  "signup_cookies sv collate rq body dr ft d =
     (case signup_route sv collate rq body dr ft d of
        (Inl e, d') \<Rightarrow> (Inl e, d')
      | (Inr (m, issued), d') \<Rightarrow> (Inr (set_session_cookies (sv_cfg sv) issued, Value m), d'))"

definition login_cookies ::
  "server \<Rightarrow> (string \<Rightarrow> nat) \<Rightarrow> request \<Rightarrow> string \<Rightarrow> string \<Rightarrow> fresh_tokens \<Rightarrow> db \<Rightarrow>
   (http_error, set_cookie list \<times> me_out route_end) result \<times> db" where
  "login_cookies sv collate rq email password ft d =
     (case login_route sv collate rq email password ft d of
        (Inl e, d') \<Rightarrow> (Inl e, d')
      | (Inr (m, issued), d') \<Rightarrow> (Inr (set_session_cookies (sv_cfg sv) issued, Value m), d'))"

definition logout_cookies ::
  "server \<Rightarrow> request \<Rightarrow> caller \<Rightarrow> db \<Rightarrow> (http_error, set_cookie list \<times> unit route_end) result \<times> db" where
  "logout_cookies sv rq c d =
     (case logout_route sv rq c d of
        (Inl e, d') \<Rightarrow> (Inl e, d')
      | (Inr _, d') \<Rightarrow> (Inr (clear_session_cookies (sv_cfg sv), Own_Response []), d'))"

definition unlock_cookie :: "settings \<Rightarrow> string \<Rightarrow> string \<Rightarrow> set_cookie" where
  "unlock_cookie cfg token v =
     \<lparr>ck_name = LINK_COOKIE, ck_value = v, ck_http_only = True, ck_secure = cfg_cookie_secure cfg,
      ck_path = ''/api/shared/'' @ token, ck_domain = None, ck_max_age = None\<rparr>"

definition unlock_cookies ::
  "(string \<Rightarrow> string) \<Rightarrow> (string \<Rightarrow> string \<Rightarrow> bool) \<Rightarrow> string \<Rightarrow> settings \<Rightarrow> request \<Rightarrow> string \<Rightarrow> string \<Rightarrow> db \<Rightarrow>
   (http_error, set_cookie list \<times> unit route_end) result \<times> db" where
  "unlock_cookies H verify dummy cfg rq token password d =
     (case unlock H verify dummy cfg rq token password d of
        (Inl e, d') \<Rightarrow> (Inl e, d')
      | (Inr None, d') \<Rightarrow> (Inr ([], Own_Response []), d')
      | (Inr (Some v), d') \<Rightarrow> (Inr ([], Own_Response [unlock_cookie cfg token v]), d'))"

subsection \<open>The front of the application\<close>

record front =
  fr_docs :: "string option"
  fr_redoc :: "string option"
  fr_openapi :: "string option"
  fr_origins :: "string list"
  fr_credentials :: bool
  fr_methods :: "string list"
  fr_headers :: "string list"
  fr_exposed :: "string list"
  fr_console :: "string option"

text \<open>\<open>staged\<close> and \<open>now\<close> are what the clean-up of interrupted uploads reads.\<close>

definition create_app :: "settings \<Rightarrow> (string \<times> int) list \<Rightarrow> int \<Rightarrow> disk \<Rightarrow> front \<times> disk" where
  "create_app cfg staged now disk =
     (let page = (\<lambda>url. if cfg_expose_docs cfg then Some url else None)
      in (\<lparr>fr_docs = page ''/docs'', fr_redoc = page ''/redoc'', fr_openapi = page ''/openapi.json'',
           fr_origins = cfg_cors_origins cfg, fr_credentials = True,
           fr_methods = [''GET'', ''POST'', ''PATCH'', ''PUT'', ''DELETE'', ''OPTIONS''],
           fr_headers = [''content-type'', CSRF_HEADER],
           fr_exposed = [''content-range'', ''accept-ranges''],
           fr_console = cfg_console_dir cfg\<rparr>,
          if cfg_upload_dir cfg \<noteq> None then cleanup_staging staged now disk else disk))"

datatype console_reply = Built_File "string list" | Index_Page string

text \<open>The route that takes every path no other route has.\<close>

definition console_route ::
  "(string \<Rightarrow> string list) \<Rightarrow> (string list \<Rightarrow> bool) \<Rightarrow> string \<Rightarrow> string \<Rightarrow> console_reply" where
  "console_route resolve is_file folder path =
     (case console_file resolve is_file folder path of
        Some p \<Rightarrow> Built_File p
      | None \<Rightarrow> Index_Page (folder @ ''/index.html''))"

subsection \<open>How long a browser stays logged in\<close>

lemma load_session_later:
  assumes "load_session H d raw t = Some s"
  shows "load_session H d raw t' = (if ses_expires s \<le> t' \<or> ses_absolute s \<le> t' then None else Some s)"
  using assms by (auto simp: load_session_def split: option.splits if_splits)

lemma login_cookies_cases:
  assumes "login_cookies sv collate rq email password ft d = (Inr (cs, r), d')"
  obtains u d2 where "cs = set_session_cookies (sv_cfg sv) ft" "counted_as d d2"
    "d' = issue sv rq ft u (update_user (usr_id u) (\<lambda>_. u) d2)"
proof -
  obtain ans where l: "login_route sv collate rq email password ft d = (ans, d')"
    using assms by (auto simp: login_cookies_def split: prod.splits sum.splits)
  from l show thesis
  proof (cases rule: login_cases)
    case (refused e)
    with assms l show thesis by (simp add: login_cookies_def)
  next
    case (accepted u d2 u')
    with assms l have "cs = set_session_cookies (sv_cfg sv) ft" by (simp add: login_cookies_def)
    with accepted that [of d2 u'] show thesis by simp
  qed
qed

text \<open>An unused session and the two cookies of a login end at the same moment.\<close>

lemma login_cookie_lives_like_idle_session:
  assumes "login_cookies sv collate rq email password ft d = (Inr (cs, r), d')"
    and "\<forall>s\<in>set (rows (user_sessions d)). ses_token_hash s \<noteq> sv_hash sv (ft_token ft)"
    and "rq_now rq \<le> t" and "c \<in> set cs"
  shows "load_session (sv_hash sv) d' (ft_token ft) t \<noteq> None \<longleftrightarrow> t < the (dropped_at (rq_now rq) c)"
proof -
  obtain u d2 where a: "cs = set_session_cookies (sv_cfg sv) ft" "counted_as d d2"
      "d' = issue sv rq ft u (update_user (usr_id u) (\<lambda>_. u) d2)"
    by (rule login_cookies_cases [OF assms(1)])
  have "\<forall>s\<in>set (rows (user_sessions (update_user (usr_id u) (\<lambda>_. u) d2))). ses_token_hash s \<noteq> sv_hash sv (ft_token ft)"
    using assms(2) a(2) by (simp add: update_user_def counted_as_tables [OF a(2)])
  from load_session_later [OF issued_loads [OF this]] a(1,3) assms(4) show ?thesis
    by (auto simp: fresh_session_def create_session_def Let_def set_session_cookies_def dropped_at_def session_consts time_defs)
qed

text \<open>A finding: only sign-up and login set the cookies, while every request pushes the idle
  expiry of the session. Here a session that was used on its thirteenth day is alive on the
  fifteenth, when the browser has dropped both cookies.\<close>

lemma active_session_outlives_its_cookies:
  "case login_cookies demo_server (\<lambda>_. 0) (demo_request ''POST'') '' Ann@x.io'' ''secret12'' demo_tokens demo_door of
     (Inr (cs, _), d) \<Rightarrow>
       (case load_session id d ''new'' (days 13) of
          Some s \<Rightarrow> load_session id (snd (touch_session d s (days 13))) ''new'' (days 15) \<noteq> None
        | None \<Rightarrow> False) \<and>
       (\<forall>c\<in>set cs. the (dropped_at 10 c) < days 15)
   | _ \<Rightarrow> False"
  by code_simp

text \<open>A finding: logging out ends the session in the database, but the cookies it clears are
  on the response that is not sent.\<close>

lemma logout_leaves_the_cookies:
  assumes "returned_response_wins join_response"
    and "logout_cookies sv rq c d = (Inr (injected, r), d')"
  shows "join_response injected r = []"
  using assms by (auto simp: logout_cookies_def returned_response_wins_def split: prod.splits sum.splits)

text \<open>The unlock cookie goes with requests below the path of its own link only.\<close>

lemma unlock_cookie_is_for_one_link:
  assumes "CHR ''/'' \<notin> set token" "CHR ''/'' \<notin> set token'" "rest = [] \<or> hd rest = CHR ''/''"
  shows "relative_to (path_parts (''/api/shared/'' @ token' @ rest)) (path_parts (ck_path (unlock_cookie cfg token v)))
    \<longleftrightarrow> token' = token"
proof -
  have p: "path_parts (''/api/shared/'' @ x) = [[], ''api'', ''shared''] @ path_parts x" for x
    by (simp add: path_parts_nonempty split: list.splits)
  have "path_parts (token' @ rest) = token' # (if rest = [] then [] else path_parts (tl rest))"
    using assms(2,3) path_parts_join [of token' "tl rest"] by (cases rest) (auto simp: path_parts_plain)
  then show ?thesis by (auto simp: unlock_cookie_def p path_parts_plain [OF assms(1)] relative_to_def)
qed

subsection \<open>What the front opens\<close>

text \<open>A process that starts with a loaded configuration lets no arbitrary origin send cookies.\<close>

lemma credentials_for_named_origins_only:
  assumes "load_settings resolve expand dotenv e = Inr cfg"
  shows "''*'' \<notin> set (fr_origins (fst (create_app cfg staged now disk)))"
  using load_settings_Inr(2) [OF assms] by (simp add: create_app_def)

lemma console_stays_in_its_folder:
  assumes "console_route resolve is_file folder path = Built_File p"
  shows "relative_to p (resolve folder) \<and> is_file p"
  using assms by (auto simp: console_route_def console_file_def Let_def split: option.splits if_splits)

end
